(* ===== verification/JS_Prelude.thy ===== *)
theory JS_Prelude
  imports Main "HOL-Library.Multiset" "HOL-Library.Char_ord" "HOL-Library.List_Lexorder"
begin

text \<open>
  What the components share: the fragment of the JavaScript standard library the sources
  use, the sequencing of computations that may throw, and the generic lemmas about both.

  Strings are lists of \<open>char\<close>, read as UTF-16 code units below 256 (ISO Latin-1, which holds
  every letter of Portuguese); \<open>length\<close> is then \<open>String.prototype.length\<close>. A throwing
  computation is a value of \<open>'e + 'a\<close>: \<open>Inl\<close> is the thrown error, \<open>Inr\<close> the result.
\<close>

named_theorems result_simps \<open>rewriting of throwing computations that returned\<close>

section \<open>Throwing computations\<close>

definition rbind :: "'e + 'a \<Rightarrow> ('a \<Rightarrow> 'e + 'b) \<Rightarrow> 'e + 'b" where
  "rbind r f = (case r of Inl e \<Rightarrow> Inl e | Inr x \<Rightarrow> f x)"

lemma rbind_simps [simp]: "rbind (Inl e) f = Inl e" "rbind (Inr x) f = f x"
  by (simp_all add: rbind_def)

lemma rbind_Inr_iff [result_simps]: "rbind r f = Inr y \<longleftrightarrow> (\<exists>x. r = Inr x \<and> f x = Inr y)"
  by (cases r) auto

lemma rbind_Inl_iff [result_simps]:
  "rbind r f = Inl e \<longleftrightarrow> r = Inl e \<or> (\<exists>x. r = Inr x \<and> f x = Inl e)"
  by (cases r) auto

lemma if_Inl_Inr_iff [result_simps]:
  "(if c then Inl e else r) = Inr y \<longleftrightarrow> \<not> c \<and> r = Inr y"
  by simp

text \<open>A statement \<open>if (bad) throw e\<close> that has no result of its own.\<close>

definition throw_if :: "bool \<Rightarrow> 'e \<Rightarrow> 'e + unit" where
  "throw_if bad e = (if bad then Inl e else Inr ())"

lemma throw_if_Inr [result_simps]: "throw_if bad e = Inr u \<longleftrightarrow> \<not> bad"
  by (simp add: throw_if_def)

lemma throw_if_Inl [result_simps]: "throw_if bad e = Inl e' \<longleftrightarrow> bad \<and> e' = e"
  by (auto simp: throw_if_def)

lemma throw_if_simps [simp]: "throw_if True e = Inl e" "throw_if False e = Inr ()"
  by (simp_all add: throw_if_def)

text \<open>\<open>Array.prototype.map\<close> with a callback that may throw: the first throw ends the loop.\<close>

fun map_result :: "('a \<Rightarrow> 'e + 'b) \<Rightarrow> 'a list \<Rightarrow> 'e + 'b list" where
  "map_result f [] = Inr []"
| "map_result f (x # xs) = rbind (f x) (\<lambda>y. rbind (map_result f xs) (\<lambda>ys. Inr (y # ys)))"

lemma map_result_cong [fundef_cong]:
  "xs = ys \<Longrightarrow> (\<And>x. x \<in> set ys \<Longrightarrow> f x = g x) \<Longrightarrow> map_result f xs = map_result g ys"
  by (induction xs arbitrary: ys) auto

lemma map_result_Inr_iff:
  "map_result f xs = Inr ys \<longleftrightarrow> list_all2 (\<lambda>x y. f x = Inr y) xs ys"
proof (induction xs arbitrary: ys)
  case Nil
  then show ?case by auto
next
  case (Cons x xs)
  show ?case
    by (cases ys) (auto simp: rbind_Inr_iff Cons.IH)
qed

lemma map_result_length: "map_result f xs = Inr ys \<Longrightarrow> length ys = length xs"
  by (simp add: map_result_Inr_iff list_all2_lengthD)

lemma map_result_total: "(\<And>x. x \<in> set xs \<Longrightarrow> f x = Inr (g x)) \<Longrightarrow> map_result f xs = Inr (map g xs)"
  by (induction xs) auto

lemma map_result_in:
  "map_result f xs = Inr ys \<Longrightarrow> y \<in> set ys \<Longrightarrow> \<exists>x\<in>set xs. f x = Inr y"
  by (induction xs arbitrary: ys) (auto simp: rbind_Inr_iff)

lemma map_result_map: "map_result f xs = Inr ys \<Longrightarrow> (\<And>x y. f x = Inr y \<Longrightarrow> p y = q x) \<Longrightarrow>
    map p ys = map q xs"
  by (induction xs arbitrary: ys) (auto simp: rbind_Inr_iff)

lemma map_result_map_arg: "map_result f (map g xs) = map_result (\<lambda>x. f (g x)) xs"
  by (induction xs) simp_all

section \<open>Machines: a step that may throw, run over a list of commands\<close>

fun run :: "('s \<Rightarrow> 'c \<Rightarrow> 'e + 's) \<Rightarrow> 's \<Rightarrow> 'c list \<Rightarrow> 'e + 's" where
  "run step s [] = Inr s"
| "run step s (c # cs) = rbind (step s c) (\<lambda>t. run step t cs)"

lemma run_append: "run step s (cs @ ds) = rbind (run step s cs) (\<lambda>t. run step t ds)"
proof (induction cs arbitrary: s)
  case Nil
  show ?case by simp
next
  case (Cons c cs)
  show ?case by (cases "step s c") (simp_all add: Cons.IH)
qed

text \<open>
  The contract of a guarded machine: an invariant each accepted command keeps. Clients get it
  for whole runs. Every state machine of the program is an interpretation.
\<close>

locale guarded_machine =
  fixes step :: "'s \<Rightarrow> 'c \<Rightarrow> 'e + 's"
    and inv :: "'s \<Rightarrow> bool"
  assumes step_inv: "inv s \<Longrightarrow> step s c = Inr t \<Longrightarrow> inv t"
begin

lemma run_inv: "inv s \<Longrightarrow> run step s cs = Inr t \<Longrightarrow> inv t"
  by (induction cs arbitrary: s) (auto simp: rbind_Inr_iff dest: step_inv)

end

text \<open>
  A machine under optimistic concurrency: every accepted command raises the version by one.
\<close>

locale versioned_machine =
  fixes step :: "'s \<Rightarrow> 'c \<Rightarrow> 'e + 's"
    and version :: "'s \<Rightarrow> int"
  assumes step_version: "step s c = Inr t \<Longrightarrow> version t = version s + 1"
begin

lemma run_version: "run step s cs = Inr t \<Longrightarrow> version t = version s + int (length cs)"
  by (induction cs arbitrary: s) (auto simp: rbind_Inr_iff dest: step_version)

end

text \<open>A machine with final states, in which no command is accepted.\<close>

locale terminal_machine =
  fixes step :: "'s \<Rightarrow> 'c \<Rightarrow> 'e + 's"
    and final :: "'s \<Rightarrow> bool"
  assumes final_stuck: "final s \<Longrightarrow> step s c \<noteq> Inr t"
begin

lemma run_final: "final s \<Longrightarrow> run step s cs = Inr t \<Longrightarrow> cs = [] \<and> t = s"
  by (cases cs) (auto simp: rbind_Inr_iff dest: final_stuck)

lemma run_visits_final_once:
  "run step s (cs @ ds) = Inr t \<Longrightarrow> run step s cs = Inr m \<Longrightarrow> final m \<Longrightarrow> ds = []"
  by (auto simp: run_append dest: run_final)

end

section \<open>Arrays, sets and maps\<close>

text \<open>\<open>Array.from(new Set(xs))\<close>: insertion order, the first of equal elements stays.\<close>

definition js_uniq :: "'a list \<Rightarrow> 'a list" where
  "js_uniq xs = rev (remdups (rev xs))"

lemma set_js_uniq [simp]: "set (js_uniq xs) = set xs"
  by (simp add: js_uniq_def)

lemma distinct_js_uniq [simp]: "distinct (js_uniq xs)"
  by (simp add: js_uniq_def)

lemma js_uniq_id [simp]: "distinct xs \<Longrightarrow> js_uniq xs = xs"
  by (simp add: js_uniq_def distinct_remdups_id)

lemma js_uniq_Nil_iff [simp]: "js_uniq xs = [] \<longleftrightarrow> xs = []"
  by (simp add: js_uniq_def)

text \<open>
  \<open>xs.sort(cmp)\<close> with a comparator of integer result. ECMAScript requires the sort to be
  stable, so on a consistent comparator insertion sort gives the one possible result.
\<close>

fun js_insort :: "('a \<Rightarrow> 'a \<Rightarrow> int) \<Rightarrow> 'a \<Rightarrow> 'a list \<Rightarrow> 'a list" where
  "js_insort cmp x [] = [x]"
| "js_insort cmp x (y # ys) = (if cmp x y \<le> 0 then x # y # ys else y # js_insort cmp x ys)"

fun js_sort :: "('a \<Rightarrow> 'a \<Rightarrow> int) \<Rightarrow> 'a list \<Rightarrow> 'a list" where
  "js_sort cmp [] = []"
| "js_sort cmp (x # xs) = js_insort cmp x (js_sort cmp xs)"

lemma mset_js_insort [simp]: "mset (js_insort cmp x xs) = {#x#} + mset xs"
  by (induction xs) auto

lemma mset_js_sort [simp]: "mset (js_sort cmp xs) = mset xs"
  by (induction xs) auto

lemma set_js_sort [simp]: "set (js_sort cmp xs) = set xs"
  by (metis mset_js_sort set_mset_mset)

lemma set_js_insort [simp]: "set (js_insort cmp x xs) = insert x (set xs)"
  by (induction xs) auto

lemma length_js_sort [simp]: "length (js_sort cmp xs) = length xs"
  by (metis mset_js_sort size_mset)

lemma js_sort_Nil_iff [simp]: "js_sort cmp xs = [] \<longleftrightarrow> xs = []"
  by (metis length_0_conv length_js_sort)

lemma js_sort_id: "sorted_wrt (\<lambda>x y. cmp x y \<le> 0) xs \<Longrightarrow> js_sort cmp xs = xs"
proof (induction xs)
  case (Cons x xs)
  then show ?case by (cases xs) auto
qed simp

lemma distinct_js_sort [simp]: "distinct (js_sort cmp xs) \<longleftrightarrow> distinct xs"
  using mset_eq_imp_distinct_iff mset_js_sort by blast

text \<open>What a comparator promises to \<open>sort\<close>, and what the sort then gives its clients.\<close>

locale comparator =
  fixes cmp :: "'a \<Rightarrow> 'a \<Rightarrow> int"
  assumes cmp_total: "cmp x y \<le> 0 \<or> cmp y x \<le> 0"
    and cmp_trans: "cmp x y \<le> 0 \<Longrightarrow> cmp y z \<le> 0 \<Longrightarrow> cmp x z \<le> 0"
begin

lemma sorted_js_insort:
  "sorted_wrt (\<lambda>x y. cmp x y \<le> 0) ys \<Longrightarrow> sorted_wrt (\<lambda>x y. cmp x y \<le> 0) (js_insort cmp x ys)"
proof (induction ys)
  case Nil
  then show ?case by simp
next
  case (Cons y ys)
  show ?case
  proof (cases "cmp x y \<le> 0")
    case True
    with Cons.prems show ?thesis by (auto intro: cmp_trans)
  next
    case False
    then have "cmp y x \<le> 0" using cmp_total by blast
    with False Cons show ?thesis by auto
  qed
qed

lemma sorted_js_sort: "sorted_wrt (\<lambda>x y. cmp x y \<le> 0) (js_sort cmp xs)"
  by (induction xs) (auto intro: sorted_js_insort)

lemma js_sort_first:
  assumes "xs \<noteq> []"
  shows "hd (js_sort cmp xs) \<in> set xs" and "\<forall>y\<in>set xs. cmp (hd (js_sort cmp xs)) y \<le> 0"
proof -
  from assms obtain z zs where zs: "js_sort cmp xs = z # zs"
    by (metis js_sort_Nil_iff list.exhaust)
  have "set (z # zs) = set xs" using zs set_js_sort by metis
  moreover have "sorted_wrt (\<lambda>x y. cmp x y \<le> 0) (z # zs)" using sorted_js_sort zs by metis
  moreover have "cmp z z \<le> 0" using cmp_total by blast
  ultimately show "hd (js_sort cmp xs) \<in> set xs" and "\<forall>y\<in>set xs. cmp (hd (js_sort cmp xs)) y \<le> 0"
    using zs by auto
qed

end

lemma comparator_pullback: "comparator c \<Longrightarrow> comparator (\<lambda>x y. c (g x) (g y))"
  by (rule comparator.intro) (metis comparator.cmp_total, metis comparator.cmp_trans)

text \<open>A comparator that looks at a numeric key first and falls back to another on ties.\<close>

lemma comparator_by_key:
  assumes "comparator c"
  shows "comparator (\<lambda>x y. if f x - f y \<noteq> (0::int) then f x - f y else c x y)"
proof
  fix x y z
  show "(if f x - f y \<noteq> 0 then f x - f y else c x y) \<le> 0 \<or>
      (if f y - f x \<noteq> 0 then f y - f x else c y x) \<le> 0"
    using comparator.cmp_total [OF assms, of x y] by (auto split: if_splits)
  show "(if f x - f y \<noteq> 0 then f x - f y else c x y) \<le> 0 \<Longrightarrow>
      (if f y - f z \<noteq> 0 then f y - f z else c y z) \<le> 0 \<Longrightarrow>
      (if f x - f z \<noteq> 0 then f x - f z else c x z) \<le> 0"
    using comparator.cmp_trans [OF assms, of x y z] by (auto split: if_splits)
qed

text \<open>The order of code units, which \<open>sort()\<close> without a comparator and \<open><\<close> use.\<close>

fun code_unit_compare :: "string \<Rightarrow> string \<Rightarrow> int" where
  "code_unit_compare [] [] = 0"
| "code_unit_compare [] (_ # _) = -1"
| "code_unit_compare (_ # _) [] = 1"
| "code_unit_compare (a # as) (b # bs) =
     (if of_char a \<noteq> (of_char b :: int) then of_char a - of_char b else code_unit_compare as bs)"

lemma code_unit_compare_antisym: "code_unit_compare a b \<le> 0 \<or> code_unit_compare b a \<le> 0"
  by (induction a b rule: code_unit_compare.induct) (auto split: if_splits)

lemma code_unit_compare_trans:
  "code_unit_compare a b \<le> 0 \<Longrightarrow> code_unit_compare b c \<le> 0 \<Longrightarrow> code_unit_compare a c \<le> 0"
proof (induction a arbitrary: b c)
  case Nil
  then show ?case by (cases c) auto
next
  case (Cons x xs)
  from Cons.prems obtain y ys where b: "b = y # ys" by (cases b) auto
  with Cons.prems obtain z zs where c: "c = z # zs" by (cases c) auto
  show ?case
    using Cons.prems Cons.IH [of ys zs] by (auto simp: b c split: if_splits)
qed

interpretation by_code_unit: comparator code_unit_compare
  by unfold_locales (rule code_unit_compare_antisym, erule (1) code_unit_compare_trans)

text \<open>\<open>xs[0] ?? null\<close>\<close>

definition js_first :: "'a list \<Rightarrow> 'a option" where
  "js_first xs = (case xs of [] \<Rightarrow> None | x # _ \<Rightarrow> Some x)"

lemma js_first_simps [simp]: "js_first [] = None" "js_first (x # xs) = Some x"
  by (simp_all add: js_first_def)

lemma js_first_None_iff [simp]: "js_first xs = None \<longleftrightarrow> xs = []"
  by (cases xs) auto

lemma js_first_Some_hd: "js_first xs = Some x \<Longrightarrow> xs \<noteq> [] \<and> x = hd xs"
  by (cases xs) auto

text \<open>\<open>includes\<close> of buffers and of strings: the second list occurs in the first.\<close>

fun includes_list :: "'a list \<Rightarrow> 'a list \<Rightarrow> bool" where
  "includes_list [] needle = (needle = [])"
| "includes_list (x # xs) needle =
     (take (length needle) (x # xs) = needle \<or> includes_list xs needle)"

section \<open>Strings\<close>

definition code :: "char \<Rightarrow> nat" where
  "code c = of_char c"

text \<open>White space and line terminators of ECMAScript below 256: what \<open>trim\<close> and \<open>\s\<close> match.\<close>

definition is_ws :: "char \<Rightarrow> bool" where
  "is_ws c = (c = CHR '' '' \<or> c = CHR 0x09 \<or> c = CHR 0x0A \<or> c = CHR 0x0B \<or> c = CHR 0x0C \<or>
     c = CHR 0x0D \<or> c = CHR 0xA0)"

definition trim :: "string \<Rightarrow> string" where
  "trim s = rev (dropWhile is_ws (rev (dropWhile is_ws s)))"

text \<open>\<open>s.replace(/\s+/g, ' ')\<close>: each maximal run of white space becomes one space.\<close>

fun collapse_from :: "bool \<Rightarrow> string \<Rightarrow> string" where
  "collapse_from in_run [] = []"
| "collapse_from in_run (c # cs) =
     (if is_ws c then (if in_run then collapse_from True cs else CHR '' '' # collapse_from True cs)
      else c # collapse_from False cs)"

definition collapse_ws :: "string \<Rightarrow> string" where
  "collapse_ws s = collapse_from False s"

definition is_digit :: "char \<Rightarrow> bool" where
  "is_digit c = (c \<in> set ''0123456789'')"

definition is_upper :: "char \<Rightarrow> bool" where
  "is_upper c = (c \<in> set ''ABCDEFGHIJKLMNOPQRSTUVWXYZ'')"

definition is_lower :: "char \<Rightarrow> bool" where
  "is_lower c = (c \<in> set ''abcdefghijklmnopqrstuvwxyz'')"

definition digit_val :: "char \<Rightarrow> int" where
  "digit_val c = int (code c) - 48"

text \<open>
  \<open>toLowerCase\<close> (also with the locale \<open>pt-BR\<close>) and \<open>toUpperCase\<close> on Latin-1. The upper case of
  sharp s is two letters; the upper cases of the micro sign and of y with diaeresis are
  outside Latin-1, the two code units for which the model leaves the character as it is.
\<close>

definition lower_char :: "char \<Rightarrow> char" where
  "lower_char c =
     (let n = code c in
      if (65 \<le> n \<and> n \<le> 90) \<or> (192 \<le> n \<and> n \<le> 222 \<and> n \<noteq> 215) then char_of (n + 32) else c)"

definition upper_char :: "char \<Rightarrow> string" where
  "upper_char c =
     (let n = code c in
      if (97 \<le> n \<and> n \<le> 122) \<or> (224 \<le> n \<and> n \<le> 254 \<and> n \<noteq> 247) then [char_of (n - 32)]
      else if n = 223 then ''SS'' else [c])"

definition to_lower :: "string \<Rightarrow> string" where
  "to_lower s = map lower_char s"

definition to_upper :: "string \<Rightarrow> string" where
  "to_upper s = concat (map upper_char s)"

text \<open>\<open>s.toLowerCase().replaceAll('_', '-')\<close>, which several policies apply to enum texts.\<close>

definition kebab :: "string \<Rightarrow> string" where
  "kebab s = map (\<lambda>c. if c = CHR ''_'' then CHR ''-'' else c) (to_lower s)"

text \<open>A text that is absent or empty is falsy.\<close>

definition falsy :: "string option \<Rightarrow> bool" where
  "falsy s = (case s of None \<Rightarrow> True | Some t \<Rightarrow> t = [])"

text \<open>\<open>value?.trim() || null\<close>\<close>

definition trim_or_null :: "string option \<Rightarrow> string option" where
  "trim_or_null s = (case s of None \<Rightarrow> None | Some t \<Rightarrow> if trim t = [] then None else Some (trim t))"

lemma is_ws_space [simp]: "is_ws CHR '' ''"
  by (simp add: is_ws_def)

lemma hd_dropWhile_not: "dropWhile P xs \<noteq> [] \<Longrightarrow> \<not> P (hd (dropWhile P xs))"
  by (rule hd_dropWhile)

lemma dropWhile_idem_rev:
  assumes "dropWhile P xs = xs"
  shows "dropWhile P (rev (dropWhile P (rev xs))) = rev (dropWhile P (rev xs))"
proof -
  obtain us where us: "xs = rev (dropWhile P (rev xs)) @ us"
    by (metis rev_append rev_rev_ident takeWhile_dropWhile_id)
  show ?thesis
  proof (cases "rev (dropWhile P (rev xs))")
    case Nil
    show ?thesis unfolding Nil by simp
  next
    case (Cons y ys)
    with us have "hd xs = y" "xs \<noteq> []" by (metis append_Cons list.sel(1), auto)
    with assms have "\<not> P y" by (metis hd_dropWhile)
    with Cons show ?thesis by simp
  qed
qed

lemma trim_Nil [simp]: "trim [] = []"
  by (simp add: trim_def)

lemma trim_trim [simp]: "trim (trim s) = trim s"
proof -
  have *: "dropWhile is_ws (dropWhile is_ws s) = dropWhile is_ws s" by simp
  show ?thesis
    unfolding trim_def using dropWhile_idem_rev [OF *] by simp
qed

lemma trim_or_null_Some: "trim_or_null s = Some t \<Longrightarrow> t \<noteq> [] \<and> trim t = t"
  by (auto simp: trim_or_null_def split: option.splits if_splits)

text \<open>\<open>value.trim().replace(/\s+/g, ' ')\<close>, the text normal form of most contexts.\<close>

definition compact :: "string \<Rightarrow> string" where
  "compact s = collapse_ws (trim s)"

lemma collapse_from_collapse [simp]:
  "collapse_from b (collapse_from b s) = collapse_from b s"
  "collapse_from False (collapse_from True s) = collapse_from True s"
proof (induction s arbitrary: b)
  case Nil
  { case 1 show ?case by simp next case 2 show ?case by simp }
next
  case (Cons c s)
  { case 1 show ?case using Cons.IH by (cases b) auto next case 2 show ?case using Cons.IH by auto }
qed

lemma collapse_ws_idem [simp]: "collapse_ws (collapse_ws s) = collapse_ws s"
  by (simp add: collapse_ws_def)

lemma collapse_from_Nil_iff: "collapse_from b s = [] \<longleftrightarrow> (b \<and> list_all is_ws s) \<or> s = []"
  by (induction s arbitrary: b) auto

lemma collapse_from_snoc:
  "\<not> is_ws c \<Longrightarrow> collapse_from b (s @ [c]) = collapse_from b s @ [c]"
  by (induction s arbitrary: b) auto

lemma trim_id_iff: "trim s = s \<longleftrightarrow> s = [] \<or> (\<not> is_ws (hd s) \<and> \<not> is_ws (last s))"
proof
  assume t: "trim s = s"
  show "s = [] \<or> (\<not> is_ws (hd s) \<and> \<not> is_ws (last s))"
  proof (cases "s = []")
    case False
    define u where "u = dropWhile is_ws s"
    have "length (trim s) \<le> length u"
      unfolding trim_def u_def by (metis length_dropWhile_le length_rev)
    with t have "length u \<ge> length s" by simp
    moreover have "length u \<le> length s" unfolding u_def by (rule length_dropWhile_le)
    ultimately have "length u = length s" by simp
    then have u: "u = s"
      unfolding u_def by (metis append_self_conv2 append_eq_append_conv takeWhile_dropWhile_id)
    from t u have r: "dropWhile is_ws (rev s) = rev s"
      unfolding trim_def u_def by (metis rev_rev_ident)
    from u False have "\<not> is_ws (hd s)" unfolding u_def by (metis hd_dropWhile)
    moreover from r False have "\<not> is_ws (last s)"
      by (metis Nil_is_rev_conv hd_dropWhile hd_rev)
    ultimately show ?thesis by simp
  qed simp
next
  assume s: "s = [] \<or> (\<not> is_ws (hd s) \<and> \<not> is_ws (last s))"
  show "trim s = s"
  proof (cases "s = []")
    case True
    then show ?thesis by (simp add: trim_def)
  next
    case False
    with s have h: "\<not> is_ws (hd s)" and l: "\<not> is_ws (last s)" by simp_all
    from h False have "dropWhile is_ws s = s" by (cases s) auto
    moreover from l False have "dropWhile is_ws (rev s) = rev s"
      by (cases s rule: rev_cases) auto
    ultimately show ?thesis by (simp add: trim_def)
  qed
qed

lemma trim_collapse_trim [simp]: "trim (collapse_ws (trim s)) = collapse_ws (trim s)"
proof (cases "trim s = []")
  case True
  show ?thesis unfolding True by (simp add: collapse_ws_def trim_def)
next
  case False
  then obtain t c where tc: "trim s = t @ [c]" by (cases "trim s" rule: rev_cases) auto
  have "\<not> is_ws (hd (trim s)) \<and> \<not> is_ws (last (trim s))"
    using iffD1 [OF trim_id_iff trim_trim] False by blast
  then have ends: "\<not> is_ws (hd (trim s))" "\<not> is_ws c" by (simp_all add: tc)
  obtain d u where du: "trim s = d # u" using False by (cases "trim s") auto
  have "hd (collapse_ws (trim s)) = d"
    using ends(1) du by (simp add: collapse_ws_def)
  moreover have "last (collapse_ws (trim s)) = c"
    using ends(2) tc by (simp add: collapse_ws_def collapse_from_snoc)
  ultimately show ?thesis
    using ends du by (auto simp: trim_id_iff)
qed

lemma compact_idem [simp]: "compact (compact s) = compact s"
  by (simp add: compact_def)

lemma compact_Nil_iff: "compact s = [] \<longleftrightarrow> trim s = []"
  by (simp add: compact_def collapse_ws_def collapse_from_Nil_iff)

section \<open>Numbers\<close>

text \<open>
  A JavaScript number that arrives from outside may be fractional, infinite or not a number.
  \<open>JInt\<close> is an integral value; \<open>JFrac\<close> stands for a finite value with a fraction, of which
  the sources only ask whether it is an integer.
\<close>

datatype js_number = JInt int | JFrac | JInfinite | JNaN

fun isInteger :: "js_number \<Rightarrow> bool" where
  "isInteger (JInt _) = True"
| "isInteger _ = False"

text \<open>The guard \<open>!Number.isInteger(v) || v < 1\<close> and the value that passes it.\<close>

fun positive_integer :: "js_number \<Rightarrow> int option" where
  "positive_integer (JInt n) = (if n < 1 then None else Some n)"
| "positive_integer _ = None"

lemma positive_integer_Some: "positive_integer v = Some n \<longleftrightarrow> v = JInt n \<and> 1 \<le> n"
  by (cases v) auto

text \<open>
  A \<open>Date\<close> that may be invalid is an optional time in milliseconds since the epoch
  (\<open>None\<close>: \<open>getTime()\<close> is \<open>NaN\<close>); a date the code has already checked is an \<open>int\<close>.
\<close>

type_synonym js_date = "int option"

section \<open>Character classes by code\<close>

lemma code_char_of [simp]: "code (char_of n) = n mod 256"
  by (simp add: code_def)

lemma code_less [simp]: "code c < 256"
  unfolding code_def using of_char_of [of "of_char c :: nat"] by (metis mod_less_divisor of_char_of char_of_char zero_less_numeral)

lemma code_inject: "code c = code d \<longleftrightarrow> c = d"
  by (simp add: code_def)

lemma char_of_code [simp]: "char_of (code c) = c"
  by (simp add: code_def)

lemma digit_codes: "map code ''0123456789'' = [48..<58]"
  by code_simp

lemma is_digit_code: "is_digit c \<longleftrightarrow> 48 \<le> code c \<and> code c \<le> 57"
proof -
  have "is_digit c \<longleftrightarrow> code c \<in> code ` set ''0123456789''"
    unfolding is_digit_def by (auto simp: code_inject)
  also have "\<dots> \<longleftrightarrow> code c \<in> set [48..<58]"
    by (simp only: set_map [symmetric] digit_codes)
  also have "\<dots> \<longleftrightarrow> 48 \<le> code c \<and> code c \<le> 57"
    unfolding set_upt atLeastLessThan_iff by linarith
  finally show ?thesis .
qed

lemma ws_codes: "map code [CHR '' '', CHR 0x09, CHR 0x0A, CHR 0x0B, CHR 0x0C, CHR 0x0D, CHR 0xA0] =
    [32, 9, 10, 11, 12, 13, 160]"
  by code_simp

lemma is_ws_code: "is_ws c \<longleftrightarrow> code c \<in> {32, 9, 10, 11, 12, 13, 160}"
proof -
  have "is_ws c \<longleftrightarrow> code c \<in> code ` set [CHR '' '', CHR 0x09, CHR 0x0A, CHR 0x0B, CHR 0x0C, CHR 0x0D, CHR 0xA0]"
    unfolding is_ws_def by (auto simp: code_inject)
  also have "\<dots> \<longleftrightarrow> code c \<in> set [32, 9, 10, 11, 12, 13, 160]"
    by (simp only: set_map [symmetric] ws_codes)
  finally show ?thesis by simp
qed

lemma is_digit_not_ws: "is_digit c \<Longrightarrow> \<not> is_ws c"
  by (auto simp: is_digit_def is_ws_def)

lemma digit_chars: "list_all (\<lambda>n. is_digit (char_of (48 + n :: nat))) [0, 1, 2, 3, 4, 5, 6, 7, 8, 9]"
  by code_simp

lemma char_of_digit:
  assumes "n < 10"
  shows "is_digit (char_of (48 + n :: nat))"
proof -
  from assms have "n \<in> set [0, 1, 2, 3, 4, 5, 6, 7, 8, 9]" by auto
  with digit_chars show ?thesis by (simp only: list_all_iff)
qed

lemma code_lower_char: "code (lower_char c) =
    (if (65 \<le> code c \<and> code c \<le> 90) \<or> (192 \<le> code c \<and> code c \<le> 222 \<and> code c \<noteq> 215)
     then code c + 32 else code c)"
  by (auto simp: lower_char_def Let_def)

lemma lower_char_idem [simp]: "lower_char (lower_char c) = lower_char c"
proof -
  have "code (lower_char (lower_char c)) = code (lower_char c)"
    by (auto simp: code_lower_char)
  then show ?thesis by (simp add: code_inject)
qed

lemma lower_char_digit [simp]: "is_digit (lower_char c) = is_digit c"
  by (auto simp: is_digit_code code_lower_char)

lemma lower_char_ws [simp]: "is_ws (lower_char c) = is_ws c"
  by (auto simp: is_ws_code code_lower_char)

lemma lower_char_id: "is_digit c \<Longrightarrow> lower_char c = c"
  by (auto simp: is_digit_code lower_char_def Let_def)

lemma to_lower_idem [simp]: "to_lower (to_lower s) = to_lower s"
  by (simp add: to_lower_def comp_def)

lemma trim_to_lower: "trim (to_lower s) = to_lower (trim s)"
proof -
  have w: "is_ws \<circ> lower_char = is_ws" by (simp add: fun_eq_iff)
  show ?thesis by (simp add: trim_def to_lower_def dropWhile_map rev_map w)
qed

lemma digit_val_inject: "digit_val c = digit_val d \<longleftrightarrow> c = d"
  by (simp add: digit_val_def code_inject)

section \<open>The text of a natural number\<close>

text \<open>\<open>String(n)\<close>.\<close>

fun nat_text :: "nat \<Rightarrow> string" where
  "nat_text n = (if n < 10 then [char_of (48 + n)] else nat_text (n div 10) @ [char_of (48 + n mod 10)])"

declare nat_text.simps [simp del]

lemma nat_text_digits: "list_all is_digit (nat_text n)"
  by (induction n rule: nat_text.induct) (subst nat_text.simps, simp add: char_of_digit)

lemma nat_text_not_Nil [simp]: "nat_text n \<noteq> []"
  by (subst nat_text.simps) simp

end
