(* ===== verification/App_Error.thy ===== *)
theory App_Error
  imports JS_Prelude
begin

text \<open>
  The error values of the program (\<open>src/core/errors/app-error.ts\<close>): the closed list of error codes,
  the error class, and the constructors the domain code throws. The Portuguese message of each
  throw is represented by a short ASCII key, one key per throwing statement, so that two
  different failures stay different values.
\<close>

datatype app_error_code =
    ACCOUNT_INACTIVE | ACCOUNT_PASSWORD_SETUP_REQUIRED | ACCOUNT_SUSPENDED | CONFLICT
  | CONVERSION_NOT_SUPPORTED | EMAIL_DELIVERY_UNAVAILABLE | EXTERNAL_SERVICE_UNAVAILABLE
  | FORBIDDEN | GEOCODING_NOT_FOUND | INVALID_CREDENTIALS | INVALID_COORDINATES
  | INVALID_FUEL_CONSUMPTION | INVALID_PASSWORD_CHANGE_TOKEN | INVALID_PREADMISSION_TOKEN
  | INVALID_REFRESH_TOKEN | INVALID_VEHICLE_CONFIGURATION | LICENSE_UNAVAILABLE | NOT_FOUND
  | QUOTE_CONVERSATION_CLOSED | SUPPORT_EMAIL_DELIVERY_FAILED | ROUTE_NOT_FOUND
  | ROUTING_UNAVAILABLE | TOLL_DATA_UNAVAILABLE | UNSUPPORTED_FILE_FORMAT | VALIDATION_ERROR

datatype app_error =
  AppError (error_code: app_error_code) (error_message: string)
    (error_details: "(string \<times> string) list option")

text \<open>\<open>field ? { field } : undefined\<close>: an empty field name is falsy.\<close>

definition conflict :: "string \<Rightarrow> string option \<Rightarrow> app_error" where
  "conflict message field =
     AppError CONFLICT message (if falsy field then None else Some [(''field'', the field)])"

definition forbidden :: "string \<Rightarrow> app_error" where
  "forbidden message = AppError FORBIDDEN message None"

definition externalServiceUnavailable :: "string \<Rightarrow> (string \<times> string) list option \<Rightarrow> app_error" where
  "externalServiceUnavailable message details = AppError EXTERNAL_SERVICE_UNAVAILABLE message details"

definition notFound :: "string \<Rightarrow> app_error" where
  "notFound resource = AppError NOT_FOUND resource None"

definition validationError :: "string \<Rightarrow> app_error" where
  "validationError message = AppError VALIDATION_ERROR message None"

definition invalidPreAdmissionToken :: app_error where
  "invalidPreAdmissionToken = AppError INVALID_PREADMISSION_TOKEN ''pre-admission-unavailable'' None"

definition unsupportedFileFormat :: "string \<Rightarrow> (string \<times> string) list option \<Rightarrow> app_error" where
  "unsupportedFileFormat message details = AppError UNSUPPORTED_FILE_FORMAT message details"

definition conversionNotSupported :: "string \<Rightarrow> (string \<times> string) list option \<Rightarrow> app_error" where
  "conversionNotSupported message details = AppError CONVERSION_NOT_SUPPORTED message details"

definition licenseUnavailable :: "string \<Rightarrow> app_error" where
  "licenseUnavailable message = AppError LICENSE_UNAVAILABLE message None"

type_synonym 'a result = "app_error + 'a"

text \<open>A conflict is never a validation error: the code alone tells the two apart.\<close>

lemma error_codes [simp]:
  "error_code (conflict m f) = CONFLICT" "error_code (forbidden m) = FORBIDDEN"
  "error_code (validationError m) = VALIDATION_ERROR" "error_code (notFound m) = NOT_FOUND"
  by (simp_all add: conflict_def forbidden_def validationError_def notFound_def)

lemma error_inject [simp]:
  "validationError m = validationError m' \<longleftrightarrow> m = m'" "forbidden m = forbidden m' \<longleftrightarrow> m = m'"
  "validationError m \<noteq> forbidden m'" "validationError m \<noteq> conflict m' f"
  "forbidden m \<noteq> validationError m'" "conflict m f \<noteq> validationError m'"
  "forbidden m \<noteq> conflict m' f" "conflict m f \<noteq> forbidden m'"
  by (simp_all add: conflict_def forbidden_def validationError_def)

section \<open>Guards every context repeats\<close>

text \<open>
  \<open>requiredText\<close> (the same function in \<open>domain/trips/trip.ts\<close> and
  \<open>domain/trips/trip-route-plan.ts\<close>): trim, collapse white space, refuse the empty and the
  overlong text.
\<close>

definition requiredText :: "string \<Rightarrow> string \<Rightarrow> nat \<Rightarrow> string result" where
  "requiredText val label maxLength =
     (let normalized = compact val in
      if normalized = [] then Inl (validationError (label @ '' required''))
      else if length normalized > maxLength then Inl (validationError (label @ '' too long''))
      else Inr normalized)"

definition validDate :: "js_date \<Rightarrow> string \<Rightarrow> int result" where
  "validDate val label =
     (case val of None \<Rightarrow> Inl (validationError label) | Some t \<Rightarrow> Inr t)"

lemma requiredText_Inr [result_simps]:
  "requiredText v l n = Inr t \<longleftrightarrow> t = compact v \<and> compact v \<noteq> [] \<and> length (compact v) \<le> n"
  by (auto simp: requiredText_def Let_def)

lemma requiredText_idem: "requiredText v l n = Inr t \<Longrightarrow> requiredText t l' n = Inr t"
  by (simp add: requiredText_Inr)

lemma requiredText_error: "requiredText v l n = Inl e \<Longrightarrow> error_code e = VALIDATION_ERROR"
  by (auto simp: requiredText_def Let_def split: if_splits)

lemma validDate_Inr [result_simps]: "validDate v l = Inr t \<longleftrightarrow> v = Some t"
  by (auto simp: validDate_def split: option.splits)

lemma validDate_error: "validDate v l = Inl e \<Longrightarrow> error_code e = VALIDATION_ERROR"
  by (auto simp: validDate_def split: option.splits)

end
