(* ===== verification/Access_Catalog.thy ===== *)
theory Access_Catalog
  imports App_Error
begin

text \<open>
  The access catalog of \<open>src/domain/access/access.constants.ts\<close>: departments, permission codes
  (a resource and an action), the permissions each department may be given, and the functions
  that compute a department's ceiling. Lists keep the order of the source; \<open>sort\<close> is the
  default \<open>Array.prototype.sort\<close> of strings (by code units).
\<close>

section \<open>Departments and permission tables\<close>

datatype department =
    D_client_company | D_human_resources | D_commercial | D_purchasing
  | D_controllership | D_personnel_department | D_financial | D_management
  | D_directorate | D_maintenance | D_monitoring | D_operations
  | D_information_technology | D_controlling | D_cleaning

text \<open>The text of the union type \<open>SupportedUserDepartment\<close>.\<close>

primrec dept_str :: "department \<Rightarrow> string" where
  "dept_str D_client_company = ''client-company''"
| "dept_str D_human_resources = ''human-resources''"
| "dept_str D_commercial = ''commercial''"
| "dept_str D_purchasing = ''purchasing''"
| "dept_str D_controllership = ''controllership''"
| "dept_str D_personnel_department = ''personnel-department''"
| "dept_str D_financial = ''financial''"
| "dept_str D_management = ''management''"
| "dept_str D_directorate = ''directorate''"
| "dept_str D_maintenance = ''maintenance''"
| "dept_str D_monitoring = ''monitoring''"
| "dept_str D_operations = ''operations''"
| "dept_str D_information_technology = ''information-technology''"
| "dept_str D_controlling = ''controlling''"
| "dept_str D_cleaning = ''cleaning''"

definition ASSIGNABLE_DEPARTMENTS :: "department list" where
  "ASSIGNABLE_DEPARTMENTS = [
     D_client_company, D_human_resources, D_commercial, D_purchasing, D_controllership,
     D_personnel_department, D_financial, D_management, D_directorate, D_maintenance,
     D_monitoring, D_operations, D_information_technology]"

definition LEGACY_DEPARTMENTS :: "department list" where
  "LEGACY_DEPARTMENTS = [
     D_controlling, D_cleaning]"

definition DEPARTMENTS :: "department list" where
  "DEPARTMENTS = [
     D_client_company, D_human_resources, D_personnel_department, D_commercial,
     D_purchasing, D_controlling, D_maintenance, D_monitoring, D_management, D_directorate,
     D_operations, D_cleaning, D_financial, D_information_technology]"

definition INTERNAL_DEPARTMENTS :: "department list" where
  "INTERNAL_DEPARTMENTS = [d \<leftarrow> DEPARTMENTS. d \<noteq> D_client_company]"

definition SUPPORTED_USER_DEPARTMENTS :: "department list" where
  "SUPPORTED_USER_DEPARTMENTS = ASSIGNABLE_DEPARTMENTS @ LEGACY_DEPARTMENTS"

definition normalizeUserDepartment :: "department \<Rightarrow> department" where
  "normalizeUserDepartment d = (if d = D_controllership then D_controlling else d)"

definition normalizeUserDepartments :: "department list \<Rightarrow> department list" where
  "normalizeUserDepartments ds = js_uniq (map normalizeUserDepartment ds)"

definition presentUserDepartment :: "department \<Rightarrow> department" where
  "presentUserDepartment d = (if d = D_controlling then D_controllership else d)"


datatype resource =
    R_tenant | R_dashboard | R_users | R_human_resources
  | R_personnel_department | R_commercial | R_purchasing | R_maintenance
  | R_monitoring | R_operations | R_cleaning | R_drivers
  | R_financial | R_clients | R_ai_agents | R_whatsapp_channels
  | R_service | R_knowledge | R_whatsapp_conversations | R_manuals
  | R_reports | R_settings | R_license | R_profile
  | R_contracts | R_quotes | R_trips | R_documents
  | R_invoices | R_service_requests | R_route_planner | R_service_confirmations
  | R_routing_companies | R_routing_contracts | R_passengers | R_routes
  | R_support

primrec resource_str :: "resource \<Rightarrow> string" where
  "resource_str R_tenant = ''tenant''"
| "resource_str R_dashboard = ''dashboard''"
| "resource_str R_users = ''users''"
| "resource_str R_human_resources = ''human-resources''"
| "resource_str R_personnel_department = ''personnel-department''"
| "resource_str R_commercial = ''commercial''"
| "resource_str R_purchasing = ''purchasing''"
| "resource_str R_maintenance = ''maintenance''"
| "resource_str R_monitoring = ''monitoring''"
| "resource_str R_operations = ''operations''"
| "resource_str R_cleaning = ''cleaning''"
| "resource_str R_drivers = ''drivers''"
| "resource_str R_financial = ''financial''"
| "resource_str R_clients = ''clients''"
| "resource_str R_ai_agents = ''ai-agents''"
| "resource_str R_whatsapp_channels = ''whatsapp-channels''"
| "resource_str R_service = ''service''"
| "resource_str R_knowledge = ''knowledge''"
| "resource_str R_whatsapp_conversations = ''whatsapp-conversations''"
| "resource_str R_manuals = ''manuals''"
| "resource_str R_reports = ''reports''"
| "resource_str R_settings = ''settings''"
| "resource_str R_license = ''license''"
| "resource_str R_profile = ''profile''"
| "resource_str R_contracts = ''contracts''"
| "resource_str R_quotes = ''quotes''"
| "resource_str R_trips = ''trips''"
| "resource_str R_documents = ''documents''"
| "resource_str R_invoices = ''invoices''"
| "resource_str R_service_requests = ''service-requests''"
| "resource_str R_route_planner = ''route-planner''"
| "resource_str R_service_confirmations = ''service-confirmations''"
| "resource_str R_routing_companies = ''routing-companies''"
| "resource_str R_routing_contracts = ''routing-contracts''"
| "resource_str R_passengers = ''passengers''"
| "resource_str R_routes = ''routes''"
| "resource_str R_support = ''support''"

definition PERMISSION_RESOURCES :: "resource list" where
  "PERMISSION_RESOURCES = [
     R_tenant, R_dashboard, R_users, R_human_resources, R_personnel_department,
     R_commercial, R_purchasing, R_maintenance, R_monitoring, R_operations, R_cleaning,
     R_drivers, R_financial, R_clients, R_ai_agents, R_whatsapp_channels, R_service,
     R_knowledge, R_whatsapp_conversations, R_manuals, R_reports, R_settings, R_license,
     R_profile, R_contracts, R_quotes, R_trips, R_documents, R_invoices,
     R_service_requests, R_route_planner, R_service_confirmations, R_routing_companies,
     R_routing_contracts, R_passengers, R_routes, R_support]"

datatype action =
    A_view | A_create | A_update | A_delete
  | A_manage | A_attend | A_use | A_approve
  | A_export | A_import | A_publish | A_history
  | A_calculate | A_respond | A_assume | A_transfer
  | A_close | A_priority | A_connect | A_disconnect

primrec action_str :: "action \<Rightarrow> string" where
  "action_str A_view = ''view''"
| "action_str A_create = ''create''"
| "action_str A_update = ''update''"
| "action_str A_delete = ''delete''"
| "action_str A_manage = ''manage''"
| "action_str A_attend = ''attend''"
| "action_str A_use = ''use''"
| "action_str A_approve = ''approve''"
| "action_str A_export = ''export''"
| "action_str A_import = ''import''"
| "action_str A_publish = ''publish''"
| "action_str A_history = ''history''"
| "action_str A_calculate = ''calculate''"
| "action_str A_respond = ''respond''"
| "action_str A_assume = ''assume''"
| "action_str A_transfer = ''transfer''"
| "action_str A_close = ''close''"
| "action_str A_priority = ''priority''"
| "action_str A_connect = ''connect''"
| "action_str A_disconnect = ''disconnect''"

definition PERMISSION_ACTIONS :: "action list" where
  "PERMISSION_ACTIONS = [
     A_view, A_create, A_update, A_delete, A_manage, A_attend, A_use, A_approve, A_export,
     A_import, A_publish, A_history, A_calculate, A_respond, A_assume, A_transfer, A_close,
     A_priority, A_connect, A_disconnect]"

text \<open>A permission code is the text \<open>`${resource}:${action}`\<close>.\<close>

datatype permission = Perm (perm_resource: resource) (perm_action: action)

definition perm_str :: "permission \<Rightarrow> string" where
  "perm_str p = resource_str (perm_resource p) @ '':'' @ action_str (perm_action p)"

primrec PERMISSION_ACTIONS_BY_RESOURCE :: "resource \<Rightarrow> action list" where
  "PERMISSION_ACTIONS_BY_RESOURCE R_tenant = [A_manage]"
| "PERMISSION_ACTIONS_BY_RESOURCE R_dashboard = [A_view]"
| "PERMISSION_ACTIONS_BY_RESOURCE R_users = [A_view, A_create, A_update, A_manage]"
| "PERMISSION_ACTIONS_BY_RESOURCE R_human_resources = [A_view, A_create, A_update, A_delete, A_manage]"
| "PERMISSION_ACTIONS_BY_RESOURCE R_personnel_department = [A_view, A_create, A_update, A_delete, A_manage]"
| "PERMISSION_ACTIONS_BY_RESOURCE R_commercial = [A_view, A_create, A_update, A_delete, A_manage]"
| "PERMISSION_ACTIONS_BY_RESOURCE R_purchasing = [A_view, A_create, A_update, A_delete, A_manage]"
| "PERMISSION_ACTIONS_BY_RESOURCE R_maintenance = [A_view, A_create, A_update, A_delete, A_manage]"
| "PERMISSION_ACTIONS_BY_RESOURCE R_monitoring = [A_view, A_create, A_update, A_delete, A_manage]"
| "PERMISSION_ACTIONS_BY_RESOURCE R_operations = [A_view, A_create, A_update, A_delete, A_manage]"
| "PERMISSION_ACTIONS_BY_RESOURCE R_cleaning = [A_view, A_create, A_update, A_delete, A_manage]"
| "PERMISSION_ACTIONS_BY_RESOURCE R_drivers = [A_view, A_create, A_update, A_delete, A_manage]"
| "PERMISSION_ACTIONS_BY_RESOURCE R_financial = [A_view, A_create, A_update, A_delete, A_manage, A_approve, A_export]"
| "PERMISSION_ACTIONS_BY_RESOURCE R_clients = [A_view, A_create, A_update, A_manage, A_history]"
| "PERMISSION_ACTIONS_BY_RESOURCE R_ai_agents = [A_view, A_create, A_update, A_delete, A_manage, A_use]"
| "PERMISSION_ACTIONS_BY_RESOURCE R_whatsapp_channels = [A_view, A_create, A_manage, A_connect, A_disconnect]"
| "PERMISSION_ACTIONS_BY_RESOURCE R_service = [A_view, A_respond, A_assume, A_transfer, A_close, A_priority]"
| "PERMISSION_ACTIONS_BY_RESOURCE R_knowledge = [A_view, A_manage, A_publish]"
| "PERMISSION_ACTIONS_BY_RESOURCE R_whatsapp_conversations = [A_view, A_attend, A_manage]"
| "PERMISSION_ACTIONS_BY_RESOURCE R_manuals = [A_view, A_create, A_update, A_delete, A_manage]"
| "PERMISSION_ACTIONS_BY_RESOURCE R_reports = [A_view, A_create, A_update, A_delete, A_manage, A_export]"
| "PERMISSION_ACTIONS_BY_RESOURCE R_settings = [A_view, A_update, A_manage]"
| "PERMISSION_ACTIONS_BY_RESOURCE R_license = [A_view]"
| "PERMISSION_ACTIONS_BY_RESOURCE R_profile = [A_view, A_update]"
| "PERMISSION_ACTIONS_BY_RESOURCE R_contracts = [A_view, A_create, A_update, A_delete, A_manage]"
| "PERMISSION_ACTIONS_BY_RESOURCE R_quotes = [A_view, A_create, A_update, A_delete, A_manage, A_approve]"
| "PERMISSION_ACTIONS_BY_RESOURCE R_trips = [A_view, A_create, A_update, A_delete, A_manage]"
| "PERMISSION_ACTIONS_BY_RESOURCE R_documents = [A_view, A_create, A_update, A_delete, A_manage, A_approve, A_export]"
| "PERMISSION_ACTIONS_BY_RESOURCE R_invoices = [A_view, A_create, A_update, A_delete, A_manage]"
| "PERMISSION_ACTIONS_BY_RESOURCE R_service_requests = [A_view, A_create, A_update, A_manage]"
| "PERMISSION_ACTIONS_BY_RESOURCE R_route_planner = [A_view, A_calculate]"
| "PERMISSION_ACTIONS_BY_RESOURCE R_service_confirmations = [A_approve]"
| "PERMISSION_ACTIONS_BY_RESOURCE R_routing_companies = [A_view, A_create, A_update, A_manage]"
| "PERMISSION_ACTIONS_BY_RESOURCE R_routing_contracts = [A_view, A_create, A_update, A_manage, A_approve, A_export]"
| "PERMISSION_ACTIONS_BY_RESOURCE R_passengers = [A_view, A_create, A_update, A_manage, A_import, A_export]"
| "PERMISSION_ACTIONS_BY_RESOURCE R_routes = [A_view, A_create, A_update, A_manage, A_use, A_approve, A_export, A_publish]"
| "PERMISSION_ACTIONS_BY_RESOURCE R_support = [A_view, A_create, A_update, A_manage]"

definition SERVICE_PERMISSION_CEILING :: "permission list" where
  "SERVICE_PERMISSION_CEILING = [
     Perm R_service A_view, Perm R_service A_respond, Perm R_service A_assume,
     Perm R_service A_transfer, Perm R_service A_close, Perm R_service A_priority]"

definition KNOWLEDGE_PERMISSION_CEILING :: "permission list" where
  "KNOWLEDGE_PERMISSION_CEILING = [
     Perm R_knowledge A_view, Perm R_knowledge A_manage, Perm R_knowledge A_publish]"

definition CHANNEL_PERMISSION_CEILING :: "permission list" where
  "CHANNEL_PERMISSION_CEILING = [
     Perm R_whatsapp_channels A_view, Perm R_whatsapp_channels A_create,
     Perm R_whatsapp_channels A_manage, Perm R_whatsapp_channels A_connect,
     Perm R_whatsapp_channels A_disconnect]"

definition EMPLOYEE_SELF_SERVICE_PERMISSIONS :: "permission list" where
  "EMPLOYEE_SELF_SERVICE_PERMISSIONS = [
     Perm R_dashboard A_view, Perm R_ai_agents A_use, Perm R_profile A_view,
     Perm R_profile A_update, Perm R_support A_view, Perm R_support A_create,
     Perm R_documents A_view, Perm R_documents A_create, Perm R_documents A_update]"

definition DOCUMENT_PORTAL_PERMISSIONS :: "permission list" where
  "DOCUMENT_PORTAL_PERMISSIONS = [
     Perm R_documents A_view, Perm R_documents A_create, Perm R_documents A_update,
     Perm R_profile A_view, Perm R_profile A_update, Perm R_support A_view,
     Perm R_support A_create]"

definition MANAGEMENT_DEPARTMENT_PERMISSIONS :: "permission list" where
  "MANAGEMENT_DEPARTMENT_PERMISSIONS = [
     Perm R_dashboard A_view, Perm R_ai_agents A_use, Perm R_clients A_view,
     Perm R_clients A_create, Perm R_clients A_update,
     Perm R_service_confirmations A_approve, Perm R_manuals A_view,
     Perm R_manuals A_create, Perm R_manuals A_update, Perm R_manuals A_delete,
     Perm R_manuals A_manage, Perm R_reports A_view, Perm R_reports A_export,
     Perm R_settings A_view, Perm R_settings A_update, Perm R_settings A_manage,
     Perm R_license A_view, Perm R_profile A_view, Perm R_profile A_update,
     Perm R_support A_view, Perm R_support A_create, Perm R_documents A_view,
     Perm R_documents A_create, Perm R_documents A_update, Perm R_documents A_manage,
     Perm R_documents A_approve, Perm R_documents A_export, Perm R_route_planner A_view,
     Perm R_route_planner A_calculate]"

definition ALL_PERMISSION_CODES :: "permission list" where
  "ALL_PERMISSION_CODES =
     concat (map (\<lambda>resource. map (\<lambda>action. Perm resource action)
       (PERMISSION_ACTIONS_BY_RESOURCE resource)) PERMISSION_RESOURCES)"

definition TENANT_WIDE_PERMISSION :: permission where
  "TENANT_WIDE_PERMISSION = Perm R_tenant A_manage"

definition CROSS_DEPARTMENT_INTERNAL_PERMISSIONS :: "permission list" where
  "CROSS_DEPARTMENT_INTERNAL_PERMISSIONS = [
     Perm R_whatsapp_conversations A_view, Perm R_whatsapp_conversations A_attend]"

definition PLATFORM_ADMINISTRATION_RESOURCES :: "resource list" where
  "PLATFORM_ADMINISTRATION_RESOURCES = [R_tenant, R_users, R_settings, R_license]"

definition TENANT_BUSINESS_PERMISSION_CODES :: "permission list" where
  "TENANT_BUSINESS_PERMISSION_CODES =
     [p \<leftarrow> ALL_PERMISSION_CODES. perm_resource p \<notin> set PLATFORM_ADMINISTRATION_RESOURCES]"

definition DIRECTORATE_DEPARTMENT_PERMISSIONS :: "permission list" where
  "DIRECTORATE_DEPARTMENT_PERMISSIONS = TENANT_WIDE_PERMISSION # TENANT_BUSINESS_PERMISSION_CODES"

definition isPermissionCode :: "string \<Rightarrow> bool" where
  "isPermissionCode val \<longleftrightarrow> val \<in> perm_str ` set ALL_PERMISSION_CODES"

primrec DEFAULT_DEPARTMENT_PERMISSIONS :: "department \<Rightarrow> permission list" where
  "DEFAULT_DEPARTMENT_PERMISSIONS D_client_company = [
     Perm R_dashboard A_view, Perm R_support A_view, Perm R_support A_create,
     Perm R_profile A_view, Perm R_profile A_update]"
| "DEFAULT_DEPARTMENT_PERMISSIONS D_human_resources = [
     Perm R_dashboard A_view, Perm R_users A_view, Perm R_users A_create,
     Perm R_human_resources A_view, Perm R_human_resources A_create,
     Perm R_human_resources A_update, Perm R_human_resources A_manage,
     Perm R_manuals A_view, Perm R_ai_agents A_use, Perm R_reports A_view,
     Perm R_users A_view, Perm R_users A_create, Perm R_documents A_view,
     Perm R_documents A_create, Perm R_documents A_update, Perm R_documents A_manage,
     Perm R_documents A_approve, Perm R_documents A_export]"
| "DEFAULT_DEPARTMENT_PERMISSIONS D_personnel_department = [
     Perm R_dashboard A_view, Perm R_personnel_department A_view,
     Perm R_personnel_department A_create, Perm R_personnel_department A_update,
     Perm R_personnel_department A_manage, Perm R_manuals A_view, Perm R_reports A_view,
     Perm R_reports A_export, Perm R_users A_view, Perm R_users A_create,
     Perm R_documents A_view, Perm R_documents A_create, Perm R_documents A_update,
     Perm R_documents A_manage, Perm R_documents A_approve, Perm R_documents A_export]"
| "DEFAULT_DEPARTMENT_PERMISSIONS D_commercial = [
     Perm R_dashboard A_view, Perm R_commercial A_view, Perm R_commercial A_create,
     Perm R_commercial A_update, Perm R_commercial A_manage, Perm R_clients A_view,
     Perm R_clients A_create, Perm R_clients A_update, Perm R_route_planner A_view,
     Perm R_route_planner A_calculate, Perm R_whatsapp_conversations A_manage,
     Perm R_ai_agents A_use, Perm R_manuals A_view, Perm R_reports A_view,
     Perm R_reports A_export]"
| "DEFAULT_DEPARTMENT_PERMISSIONS D_purchasing = [
     Perm R_dashboard A_view, Perm R_purchasing A_view, Perm R_purchasing A_create,
     Perm R_purchasing A_update, Perm R_purchasing A_manage, Perm R_manuals A_view,
     Perm R_reports A_view, Perm R_reports A_export]"
| "DEFAULT_DEPARTMENT_PERMISSIONS D_controlling = [
     Perm R_dashboard A_view, Perm R_financial A_view, Perm R_financial A_create,
     Perm R_financial A_update, Perm R_financial A_manage, Perm R_financial A_approve,
     Perm R_financial A_export, Perm R_commercial A_view, Perm R_clients A_view,
     Perm R_manuals A_view, Perm R_reports A_view, Perm R_reports A_export]"
| "DEFAULT_DEPARTMENT_PERMISSIONS D_controllership = [
     Perm R_dashboard A_view, Perm R_financial A_view, Perm R_financial A_create,
     Perm R_financial A_update, Perm R_financial A_manage, Perm R_financial A_approve,
     Perm R_financial A_export, Perm R_commercial A_view, Perm R_clients A_view,
     Perm R_manuals A_view, Perm R_reports A_view, Perm R_reports A_export]"
| "DEFAULT_DEPARTMENT_PERMISSIONS D_maintenance = [
     Perm R_dashboard A_view, Perm R_maintenance A_view, Perm R_maintenance A_create,
     Perm R_maintenance A_update, Perm R_maintenance A_manage, Perm R_operations A_view,
     Perm R_drivers A_view, Perm R_manuals A_view, Perm R_reports A_view]"
| "DEFAULT_DEPARTMENT_PERMISSIONS D_monitoring = [
     Perm R_dashboard A_view, Perm R_monitoring A_view, Perm R_monitoring A_create,
     Perm R_monitoring A_update, Perm R_monitoring A_manage, Perm R_operations A_view,
     Perm R_drivers A_view, Perm R_manuals A_view, Perm R_reports A_view,
     Perm R_reports A_export]"
| "DEFAULT_DEPARTMENT_PERMISSIONS D_management = MANAGEMENT_DEPARTMENT_PERMISSIONS"
| "DEFAULT_DEPARTMENT_PERMISSIONS D_directorate = DIRECTORATE_DEPARTMENT_PERMISSIONS"
| "DEFAULT_DEPARTMENT_PERMISSIONS D_operations = [
     Perm R_dashboard A_view, Perm R_operations A_view, Perm R_operations A_create,
     Perm R_operations A_update, Perm R_operations A_manage, Perm R_monitoring A_view,
     Perm R_maintenance A_view, Perm R_cleaning A_view, Perm R_drivers A_view,
     Perm R_drivers A_manage, Perm R_ai_agents A_use, Perm R_manuals A_view,
     Perm R_reports A_view, Perm R_reports A_export, Perm R_route_planner A_view,
     Perm R_route_planner A_calculate]"
| "DEFAULT_DEPARTMENT_PERMISSIONS D_cleaning = [
     Perm R_dashboard A_view, Perm R_cleaning A_view, Perm R_cleaning A_update,
     Perm R_operations A_view, Perm R_manuals A_view]"
| "DEFAULT_DEPARTMENT_PERMISSIONS D_financial = [
     Perm R_dashboard A_view, Perm R_financial A_view, Perm R_financial A_create,
     Perm R_financial A_update, Perm R_financial A_manage, Perm R_financial A_approve,
     Perm R_financial A_export, Perm R_commercial A_view, Perm R_clients A_view,
     Perm R_manuals A_view, Perm R_reports A_view, Perm R_reports A_export]"
| "DEFAULT_DEPARTMENT_PERMISSIONS D_information_technology = [
     Perm R_dashboard A_view, Perm R_ai_agents A_view, Perm R_ai_agents A_create,
     Perm R_ai_agents A_update, Perm R_ai_agents A_delete, Perm R_ai_agents A_manage,
     Perm R_ai_agents A_use, Perm R_manuals A_view, Perm R_manuals A_create,
     Perm R_manuals A_update, Perm R_manuals A_delete, Perm R_manuals A_manage,
     Perm R_reports A_view, Perm R_reports A_export, Perm R_users A_view,
     Perm R_users A_create, Perm R_users A_update, Perm R_users A_manage,
     Perm R_route_planner A_view, Perm R_route_planner A_calculate]"

section \<open>The ceiling of a set of departments\<close>

text \<open>One round of the loop: what a department adds to the ceiling.\<close>

definition department_ceiling :: "department \<Rightarrow> permission list" where
  "department_ceiling d =
     DEFAULT_DEPARTMENT_PERMISSIONS d @
     (if d \<noteq> D_client_company
      then SERVICE_PERMISSION_CEILING @ KNOWLEDGE_PERMISSION_CEILING @
        CROSS_DEPARTMENT_INTERNAL_PERMISSIONS
      else []) @
     (if d = D_information_technology then CHANNEL_PERMISSION_CEILING else [])"

definition allowedPermissionsForDepartments :: "department list \<Rightarrow> permission list" where
  "allowedPermissionsForDepartments ds =
     sort_key perm_str (js_uniq (EMPLOYEE_SELF_SERVICE_PERMISSIONS @ concat (map department_ceiling ds)))"

definition isImplicitPermissionCode :: "permission \<Rightarrow> bool" where
  "isImplicitPermissionCode p \<longleftrightarrow> p \<in> set EMPLOYEE_SELF_SERVICE_PERMISSIONS"

definition departmentsAllowingPermission :: "permission \<Rightarrow> department list" where
  "departmentsAllowingPermission p =
     (if isImplicitPermissionCode p then DEPARTMENTS
      else if p \<in> set CROSS_DEPARTMENT_INTERNAL_PERMISSIONS
      then [d \<leftarrow> DEPARTMENTS. d \<noteq> D_client_company]
      else [d \<leftarrow> DEPARTMENTS. p \<in> set (allowedPermissionsForDepartments [d])])"

section \<open>Facts about the catalog\<close>

lemmas ceiling_defs = SERVICE_PERMISSION_CEILING_def KNOWLEDGE_PERMISSION_CEILING_def
  CROSS_DEPARTMENT_INTERNAL_PERMISSIONS_def CHANNEL_PERMISSION_CEILING_def

lemma set_allowedPermissions [simp]:
  "set (allowedPermissionsForDepartments ds) =
     set EMPLOYEE_SELF_SERVICE_PERMISSIONS \<union> (\<Union>d\<in>set ds. set (department_ceiling d))"
  by (simp add: allowedPermissionsForDepartments_def)

lemma allowedPermissions_sorted: "sorted (map perm_str (allowedPermissionsForDepartments ds))"
  and allowedPermissions_distinct: "distinct (allowedPermissionsForDepartments ds)"
  by (simp_all add: allowedPermissionsForDepartments_def)

lemma allowedPermissions_mono:
  "set ds \<subseteq> set es \<Longrightarrow>
     set (allowedPermissionsForDepartments ds) \<subseteq> set (allowedPermissionsForDepartments es)"
  by auto

text \<open>Membership in the catalog is one look-up in the table of actions.\<close>

lemma all_resources: "set PERMISSION_RESOURCES = UNIV"
proof -
  have "r \<in> set PERMISSION_RESOURCES" for r
    by (cases r; simp add: PERMISSION_RESOURCES_def)
  then show ?thesis by auto
qed

lemma in_catalog_iff:
  "p \<in> set ALL_PERMISSION_CODES \<longleftrightarrow> perm_action p \<in> set (PERMISSION_ACTIONS_BY_RESOURCE (perm_resource p))"
  by (cases p) (auto simp: ALL_PERMISSION_CODES_def all_resources)

lemma in_business_iff [simp]:
  "p \<in> set TENANT_BUSINESS_PERMISSION_CODES \<longleftrightarrow>
     p \<in> set ALL_PERMISSION_CODES \<and> perm_resource p \<notin> set PLATFORM_ADMINISTRATION_RESOURCES"
  by (simp add: TENANT_BUSINESS_PERMISSION_CODES_def)

lemma tenant_wide_in_catalog [simp]: "TENANT_WIDE_PERMISSION \<in> set ALL_PERMISSION_CODES"
  by (simp add: in_catalog_iff TENANT_WIDE_PERMISSION_def)

lemma directorate_in_catalog: "set DIRECTORATE_DEPARTMENT_PERMISSIONS \<subseteq> set ALL_PERMISSION_CODES"
  by (auto simp: DIRECTORATE_DEPARTMENT_PERMISSIONS_def)

lemma employee_in_catalog: "set EMPLOYEE_SELF_SERVICE_PERMISSIONS \<subseteq> set ALL_PERMISSION_CODES"
  by (simp add: in_catalog_iff EMPLOYEE_SELF_SERVICE_PERMISSIONS_def)

lemma portal_in_employee: "set DOCUMENT_PORTAL_PERMISSIONS \<subseteq> set EMPLOYEE_SELF_SERVICE_PERMISSIONS"
  by (simp add: DOCUMENT_PORTAL_PERMISSIONS_def EMPLOYEE_SELF_SERVICE_PERMISSIONS_def)

lemma ceilings_in_catalog:
  "set SERVICE_PERMISSION_CEILING \<subseteq> set ALL_PERMISSION_CODES"
  "set KNOWLEDGE_PERMISSION_CEILING \<subseteq> set ALL_PERMISSION_CODES"
  "set CROSS_DEPARTMENT_INTERNAL_PERMISSIONS \<subseteq> set ALL_PERMISSION_CODES"
  "set CHANNEL_PERMISSION_CEILING \<subseteq> set ALL_PERMISSION_CODES"
  by (simp_all add: in_catalog_iff ceiling_defs)

lemma default_permissions_in_catalog:
  "set (DEFAULT_DEPARTMENT_PERMISSIONS d) \<subseteq> set ALL_PERMISSION_CODES"
  using directorate_in_catalog
  by (cases d; simp add: in_catalog_iff MANAGEMENT_DEPARTMENT_PERMISSIONS_def)

lemma department_ceiling_in_catalog: "set (department_ceiling d) \<subseteq> set ALL_PERMISSION_CODES"
  using ceilings_in_catalog default_permissions_in_catalog [of d]
  by (auto simp: department_ceiling_def)

lemma allowed_in_catalog: "set (allowedPermissionsForDepartments ds) \<subseteq> set ALL_PERMISSION_CODES"
  using employee_in_catalog department_ceiling_in_catalog by auto

text \<open>The rendering of a permission code as text loses nothing.\<close>

lemma resource_str_no_colon: "CHR '':'' \<notin> set (resource_str r)"
  by (cases r; simp)

lemma distinct_resource_str: "distinct (map resource_str PERMISSION_RESOURCES)"
  by (simp add: PERMISSION_RESOURCES_def)

lemma resource_str_inject [simp]: "resource_str r = resource_str r' \<longleftrightarrow> r = r'"
  using distinct_resource_str all_resources by (auto simp: distinct_map inj_on_def)

lemma distinct_action_str: "distinct (map action_str PERMISSION_ACTIONS)"
  by (simp add: PERMISSION_ACTIONS_def)

lemma all_actions: "set PERMISSION_ACTIONS = UNIV"
proof -
  have "a \<in> set PERMISSION_ACTIONS" for a
    by (cases a; simp add: PERMISSION_ACTIONS_def)
  then show ?thesis by auto
qed

lemma action_str_inject [simp]: "action_str a = action_str a' \<longleftrightarrow> a = a'"
  using distinct_action_str all_actions by (auto simp: distinct_map inj_on_def)

lemma perm_str_resource: "takeWhile (\<lambda>c. c \<noteq> CHR '':'') (perm_str p) = resource_str (perm_resource p)"
  using resource_str_no_colon [of "perm_resource p"]
  by (auto simp: perm_str_def takeWhile_append)

lemma perm_str_inject [simp]: "perm_str p = perm_str q \<longleftrightarrow> p = q"
proof
  assume eq: "perm_str p = perm_str q"
  then have r: "perm_resource p = perm_resource q"
    using perm_str_resource by (metis resource_str_inject)
  with eq have "perm_action p = perm_action q" by (simp add: perm_str_def)
  with r show "p = q" by (simp add: permission.expand)
qed simp

lemma perm_str_image [simp]: "perm_str p \<in> perm_str ` X \<longleftrightarrow> p \<in> X"
  by auto

section \<open>Further facts\<close>

text \<open>
  The list of departments an administration screen offers for a permission is the inverse of
  the department ceilings: it holds exactly the departments of the list \<open>DEPARTMENTS\<close> whose own
  ceiling contains the permission, shortcuts included.
\<close>

theorem departments_allowing_iff_ceiling:
  "departmentsAllowingPermission p =
     [d \<leftarrow> DEPARTMENTS. p \<in> set (allowedPermissionsForDepartments [d])]"
proof -
  have client: "p \<notin> set (department_ceiling D_client_company)"
    if "p \<in> set CROSS_DEPARTMENT_INTERNAL_PERMISSIONS"
    using that by (auto simp: department_ceiling_def CROSS_DEPARTMENT_INTERNAL_PERMISSIONS_def)
  have other: "p \<in> set (department_ceiling d)"
    if "p \<in> set CROSS_DEPARTMENT_INTERNAL_PERMISSIONS" "d \<noteq> D_client_company" for d
    using that by (simp add: department_ceiling_def)
  show ?thesis
    unfolding departmentsAllowingPermission_def isImplicitPermissionCode_def
    using client other by (auto intro!: filter_cong simp: filter_id_conv)
qed

end
