(* ===== verification/Access_Policy.thy ===== *)
theory Access_Policy
  imports Access_Catalog
begin

text \<open>
  Who may do what: effective permissions (\<open>domain/access/resolve-permissions.ts\<close>), tenant-wide
  authority and the exercise of a permission (\<open>tenant-authority.ts\<close>), the permissions guard of the
  HTTP layer (\<open>shared/http/guards/permissions.guard.ts\<close>), user administration
  (\<open>user-management-policy.ts\<close>) and the frozen legacy projection (\<open>legacy-access-snapshot.ts\<close>).
\<close>

section \<open>Authorities\<close>

text \<open>\<open>TenantAuthorityIdentity\<close>: the lists hold arbitrary texts; an absent list is \<open>None\<close>.\<close>

record authority =
  au_isAdministrator :: bool
  au_departments :: "string list option"
  au_permissionCodes :: "string list option"
  au_permissions :: "string list option"
  au_documentAccessMode :: "string option"

datatype document_access_mode = DA_standard | DA_document_portal | DA_client

primrec access_mode_str :: "document_access_mode \<Rightarrow> string" where
  "access_mode_str DA_standard = ''standard''"
| "access_mode_str DA_document_portal = ''document-portal''"
| "access_mode_str DA_client = ''client''"

text \<open>\<open>list?.includes(x) ?? false\<close>\<close>

definition opt_includes :: "'a list option \<Rightarrow> 'a \<Rightarrow> bool" where
  "opt_includes xs x = (case xs of None \<Rightarrow> False | Some ys \<Rightarrow> x \<in> set ys)"

lemma opt_includes_simps [simp]:
  "opt_includes None x = False" "opt_includes (Some ys) x \<longleftrightarrow> x \<in> set ys"
  by (simp_all add: opt_includes_def)

definition isDocumentPortalAuthority :: "authority \<Rightarrow> bool" where
  "isDocumentPortalAuthority a \<longleftrightarrow>
     map_option kebab (au_documentAccessMode a) = Some ''document-portal''"

definition hasTenantWidePermission :: "string list option \<Rightarrow> bool" where
  "hasTenantWidePermission codes = opt_includes codes (perm_str TENANT_WIDE_PERMISSION)"

definition hasTenantWideAuthority :: "authority \<Rightarrow> bool" where
  "hasTenantWideAuthority a =
     (if au_isAdministrator a then True
      else if isDocumentPortalAuthority a then False
      else opt_includes (au_departments a) (dept_str D_directorate) \<and>
        (hasTenantWidePermission (au_permissionCodes a) \<or> hasTenantWidePermission (au_permissions a)))"

definition isTenantBusinessPermission :: "permission \<Rightarrow> bool" where
  "isTenantBusinessPermission p \<longleftrightarrow> p \<in> set TENANT_BUSINESS_PERMISSION_CODES"

definition canExercisePermission :: "authority \<Rightarrow> permission \<Rightarrow> bool" where
  "canExercisePermission a p =
     (if au_isAdministrator a then True
      else if isDocumentPortalAuthority a then p \<in> set DOCUMENT_PORTAL_PERMISSIONS
      else if hasTenantWideAuthority a \<and> isTenantBusinessPermission p then True
      else opt_includes (au_permissions a) (perm_str p))"

text \<open>
  \<open>PermissionsGuard.canActivate\<close>: the metadata of the handler (\<open>None\<close>: no decorator), the user
  of the request (\<open>None\<close>: not authenticated). A refusal is Nest's \<open>ForbiddenException\<close>.
\<close>

definition permissionsGuard :: "permission list option \<Rightarrow> authority option \<Rightarrow> bool result" where
  "permissionsGuard required user =
     (case required of
        None \<Rightarrow> Inr True
      | Some ps \<Rightarrow>
          if ps = [] then Inr True
          else (case user of
              None \<Rightarrow> Inl (forbidden ''permission-required'')
            | Some u \<Rightarrow>
                if \<not> list_ex (canExercisePermission u) ps then Inl (forbidden ''permission-required'')
                else Inr True))"

section \<open>Effective permissions\<close>

definition filterPermissionCodesForDepartments ::
  "department list \<Rightarrow> permission list \<Rightarrow> permission list" where
  "filterPermissionCodesForDepartments ds codes =
     (let ceiling = set (allowedPermissionsForDepartments ds) in
      sort_key perm_str (js_uniq [p \<leftarrow> codes. p \<in> ceiling]))"

definition IT_USER_PERMISSIONS :: "permission list" where
  "IT_USER_PERMISSIONS =
     [Perm R_users A_view, Perm R_users A_create, Perm R_users A_update, Perm R_users A_manage]"

definition resolveEffectivePermissions ::
  "department list \<Rightarrow> permission list \<Rightarrow> bool \<Rightarrow> document_access_mode \<Rightarrow> permission list" where
  "resolveEffectivePermissions ds individual isAdministrator mode =
     (if isAdministrator then sort_key perm_str ALL_PERMISSION_CODES
      else if mode = DA_document_portal then DOCUMENT_PORTAL_PERMISSIONS
      else
        (let base = EMPLOYEE_SELF_SERVICE_PERMISSIONS @
               (if D_information_technology \<in> set ds then IT_USER_PERMISSIONS else []);
             selected = filterPermissionCodesForDepartments ds individual;
             wide = hasTenantWideAuthority \<lparr>au_isAdministrator = False,
               au_departments = Some (map dept_str ds),
               au_permissionCodes = Some (map perm_str selected),
               au_permissions = None, au_documentAccessMode = None\<rparr>
         in sort_key perm_str (js_uniq (base @ selected @
              (if wide then TENANT_WIDE_PERMISSION # TENANT_BUSINESS_PERMISSION_CODES else [])))))"

lemma dept_str_inject [simp]: "dept_str d = dept_str e \<longleftrightarrow> d = e"
proof -
  have "distinct (map dept_str SUPPORTED_USER_DEPARTMENTS)"
    by (simp add: SUPPORTED_USER_DEPARTMENTS_def ASSIGNABLE_DEPARTMENTS_def LEGACY_DEPARTMENTS_def)
  moreover have "d \<in> set SUPPORTED_USER_DEPARTMENTS" for d
    by (cases d; simp add: SUPPORTED_USER_DEPARTMENTS_def ASSIGNABLE_DEPARTMENTS_def
        LEGACY_DEPARTMENTS_def)
  ultimately show ?thesis by (auto simp: distinct_map inj_on_def)
qed

lemma dept_str_image [simp]: "dept_str d \<in> dept_str ` X \<longleftrightarrow> d \<in> X"
  by auto

lemma dept_text_image [simp]:
  "''directorate'' \<in> dept_str ` X \<longleftrightarrow> D_directorate \<in> X"
  using dept_str_image [of D_directorate X] by (simp del: dept_str_image)

lemma set_filterPermissionCodes [simp]:
  "set (filterPermissionCodesForDepartments ds codes) =
     set codes \<inter> set (allowedPermissionsForDepartments ds)"
  by (auto simp: filterPermissionCodesForDepartments_def Let_def)

lemma it_permissions_in_ceiling:
  "D_information_technology \<in> set ds \<Longrightarrow>
     set IT_USER_PERMISSIONS \<subseteq> set (allowedPermissionsForDepartments ds)"
  by (force simp: IT_USER_PERMISSIONS_def department_ceiling_def)

lemma directorate_ceiling:
  "D_directorate \<in> set ds \<Longrightarrow>
     insert TENANT_WIDE_PERMISSION (set TENANT_BUSINESS_PERMISSION_CODES) \<subseteq>
       set (allowedPermissionsForDepartments ds)"
  by (force simp: department_ceiling_def DIRECTORATE_DEPARTMENT_PERMISSIONS_def)

text \<open>The exact effective set of an account that is neither administrator nor document portal.\<close>

lemma set_resolveEffective_standard:
  assumes "mode \<noteq> DA_document_portal"
  shows "set (resolveEffectivePermissions ds individual False mode) =
     set EMPLOYEE_SELF_SERVICE_PERMISSIONS \<union>
     (if D_information_technology \<in> set ds then set IT_USER_PERMISSIONS else {}) \<union>
     (set individual \<inter> set (allowedPermissionsForDepartments ds)) \<union>
     (if D_directorate \<in> set ds \<and> TENANT_WIDE_PERMISSION \<in> set individual
      then insert TENANT_WIDE_PERMISSION (set TENANT_BUSINESS_PERMISSION_CODES) else {})"
proof -
  have "hasTenantWideAuthority \<lparr>au_isAdministrator = False,
      au_departments = Some (map dept_str ds),
      au_permissionCodes = Some (map perm_str (filterPermissionCodesForDepartments ds individual)),
      au_permissions = None, au_documentAccessMode = None\<rparr> \<longleftrightarrow>
    D_directorate \<in> set ds \<and> TENANT_WIDE_PERMISSION \<in> set individual"
    using directorate_ceiling [of ds]
    by (auto simp: hasTenantWideAuthority_def isDocumentPortalAuthority_def
        hasTenantWidePermission_def simp del: set_allowedPermissions)
  then show ?thesis
    using assms unfolding resolveEffectivePermissions_def Let_def
    by (auto simp del: set_allowedPermissions in_business_iff)
qed

lemma effective_within_ceiling:
  "set (resolveEffectivePermissions ds individual False mode) \<subseteq>
     set (allowedPermissionsForDepartments ds)"
proof (cases "mode = DA_document_portal")
  case True
  then show ?thesis
    using portal_in_employee by (auto simp: resolveEffectivePermissions_def)
next
  case False
  have "set EMPLOYEE_SELF_SERVICE_PERMISSIONS \<subseteq> set (allowedPermissionsForDepartments ds)" by simp
  then show ?thesis
    unfolding set_resolveEffective_standard [OF False]
    using it_permissions_in_ceiling [of ds] directorate_ceiling [of ds]
    by (auto simp del: set_allowedPermissions in_business_iff split: if_splits)
qed

lemma effective_in_catalog:
  "set (resolveEffectivePermissions ds individual isAdministrator mode) \<subseteq> set ALL_PERMISSION_CODES"
proof (cases isAdministrator)
  case True
  then show ?thesis by (simp add: resolveEffectivePermissions_def)
next
  case False
  then have "\<not> isAdministrator" .
  then show ?thesis
    using subset_trans [OF effective_within_ceiling [of ds individual mode] allowed_in_catalog]
    by simp
qed

section \<open>The guard and the resolver agree\<close>

text \<open>
  The authority the guard sees: what \<open>presentUser\<close> (\<open>application/presenters/user.presenter.ts\<close>)
  keeps of a stored account with departments \<open>ds\<close> and individual codes \<open>individual\<close>.
\<close>

definition principal_authority ::
  "department list \<Rightarrow> permission list \<Rightarrow> bool \<Rightarrow> document_access_mode \<Rightarrow> authority" where
  "principal_authority ds individual isAdministrator mode =
     (let documentPortalOnly = (\<not> isAdministrator \<and> mode = DA_document_portal);
          departments = (if documentPortalOnly then [] else ds);
          permissionCodes = (if documentPortalOnly then []
            else if isAdministrator then individual
            else filterPermissionCodesForDepartments departments individual)
      in \<lparr>au_isAdministrator = isAdministrator,
          au_departments = Some (map (\<lambda>d. dept_str (presentUserDepartment d)) departments),
          au_permissionCodes = Some (map perm_str permissionCodes),
          au_permissions = Some (map perm_str
            (resolveEffectivePermissions departments permissionCodes isAdministrator mode)),
          au_documentAccessMode = Some (access_mode_str mode)\<rparr>)"

lemma portal_mode_iff [simp]:
  "kebab (access_mode_str mode) = ''document-portal'' \<longleftrightarrow> mode = DA_document_portal"
  by (cases mode; simp; code_simp)

lemma presented_directorate:
  "dept_str D_directorate \<in> (\<lambda>d. dept_str (presentUserDepartment d)) ` X \<longleftrightarrow> D_directorate \<in> X"
proof -
  have "dept_str D_directorate = dept_str (presentUserDepartment d) \<longleftrightarrow> d = D_directorate" for d
    unfolding dept_str_inject by (auto simp: presentUserDepartment_def)
  then show ?thesis by (auto simp only: image_iff)
qed

text \<open>Codes outside the ceiling have no effect, so filtering them first changes nothing.\<close>

lemma resolve_filtered:
  assumes "mode \<noteq> DA_document_portal"
  shows "set (resolveEffectivePermissions ds (filterPermissionCodesForDepartments ds individual) False mode) =
     set (resolveEffectivePermissions ds individual False mode)"
  unfolding set_resolveEffective_standard [OF assms] set_filterPermissionCodes
  using directorate_ceiling [of ds]
  by (auto simp del: set_allowedPermissions in_business_iff split: if_splits)

lemma tenant_wide_needs_individual:
  assumes "mode \<noteq> DA_document_portal"
    and "TENANT_WIDE_PERMISSION \<in> set (resolveEffectivePermissions ds individual False mode)"
  shows "TENANT_WIDE_PERMISSION \<in> set individual"
  using assms(2) unfolding set_resolveEffective_standard [OF assms(1)]
  by (auto simp: TENANT_WIDE_PERMISSION_def EMPLOYEE_SELF_SERVICE_PERMISSIONS_def
      IT_USER_PERMISSIONS_def split: if_splits)

lemma perm_text_in: "perm_str p \<in> set (map perm_str ps) \<longleftrightarrow> p \<in> set ps"
  by auto

lemma principal_wide_iff:
  assumes "mode \<noteq> DA_document_portal"
  shows "hasTenantWideAuthority (principal_authority ds individual False mode) \<longleftrightarrow>
     D_directorate \<in> set ds \<and> TENANT_WIDE_PERMISSION \<in> set individual"
proof -
  have "TENANT_WIDE_PERMISSION \<in> set (resolveEffectivePermissions ds
      (filterPermissionCodesForDepartments ds individual) False mode) \<Longrightarrow>
      TENANT_WIDE_PERMISSION \<in> set individual"
    using tenant_wide_needs_individual [OF assms] resolve_filtered [OF assms] by blast
  moreover have "D_directorate \<in> set ds \<Longrightarrow>
      TENANT_WIDE_PERMISSION \<in> set (allowedPermissionsForDepartments ds)"
    using directorate_ceiling [of ds] by blast
  moreover have "dept_str D_directorate \<in> set (map (\<lambda>d. dept_str (presentUserDepartment d)) ds) \<longleftrightarrow>
      D_directorate \<in> set ds"
    unfolding set_map by (rule presented_directorate)
  ultimately show ?thesis
    using assms
    by (auto simp: hasTenantWideAuthority_def principal_authority_def isDocumentPortalAuthority_def
        hasTenantWidePermission_def Let_def perm_text_in
        simp del: set_allowedPermissions dept_str.simps set_map)
qed

lemma can_exercise_iff_effective:
  assumes "p \<in> set ALL_PERMISSION_CODES"
  shows "canExercisePermission (principal_authority ds individual isAdministrator mode) p \<longleftrightarrow>
     p \<in> set (resolveEffectivePermissions ds individual isAdministrator mode)"
proof (cases "isAdministrator \<or> mode = DA_document_portal")
  case True
  with assms show ?thesis
    by (auto simp: canExercisePermission_def principal_authority_def isDocumentPortalAuthority_def
        resolveEffectivePermissions_def Let_def)
next
  case False
  let ?a = "principal_authority ds individual False mode"
  from False have mode: "mode \<noteq> DA_document_portal" and adm: "\<not> isAdministrator" by simp_all
  have "canExercisePermission ?a p \<longleftrightarrow>
      (hasTenantWideAuthority ?a \<and> isTenantBusinessPermission p) \<or>
      p \<in> set (resolveEffectivePermissions ds (filterPermissionCodesForDepartments ds individual) False mode)"
    using mode by (auto simp: canExercisePermission_def principal_authority_def
        isDocumentPortalAuthority_def Let_def)
  then show ?thesis
    using adm mode set_resolveEffective_standard [OF mode, of ds individual]
    by (auto simp: isTenantBusinessPermission_def principal_wide_iff resolve_filtered
        simp del: set_allowedPermissions in_business_iff)
qed

section \<open>User administration\<close>

record user_management_identity =
  um_id :: string
  um_isAdministrator :: bool
  um_departments :: "string list"
  um_permissionCodes :: "string list option"
  um_documentAccessMode :: "string option"

datatype user_management_role =
  UM_administrator | UM_information_technology | UM_people_operations | UM_delegated | UM_none

definition isPrivilegedUserManagementTarget :: "user_management_identity \<Rightarrow> bool" where
  "isPrivilegedUserManagementTarget t = hasTenantWideAuthority \<lparr>
     au_isAdministrator = um_isAdministrator t, au_departments = Some (um_departments t),
     au_permissionCodes = um_permissionCodes t, au_permissions = None,
     au_documentAccessMode = um_documentAccessMode t\<rparr>"

definition resolveUserManagementRole :: "user_management_identity \<Rightarrow> user_management_role" where
  "resolveUserManagementRole a =
     (if um_isAdministrator a then UM_administrator
      else if map_option kebab (um_documentAccessMode a) = Some ''document-portal'' then UM_none
      else if ''information-technology'' \<in> set (um_departments a) then UM_information_technology
      else if list_ex (\<lambda>d. d \<in> {''human-resources'', ''personnel-department''}) (um_departments a)
      then UM_people_operations
      else if (case um_permissionCodes a of None \<Rightarrow> False
               | Some ps \<Rightarrow> list_ex (\<lambda>p. p \<in> {''users:view'', ''users:create'', ''users:update'', ''users:manage''}) ps)
      then UM_delegated
      else UM_none)"

definition assertCanAccessUserCatalog :: "user_management_identity \<Rightarrow> user_management_role result" where
  "assertCanAccessUserCatalog a =
     (let role = resolveUserManagementRole a in
      if role = UM_none then Inl (forbidden ''user-administration'') else Inr role)"

definition assertCanAccessUserTarget ::
  "user_management_identity \<Rightarrow> user_management_identity \<Rightarrow> user_management_role result" where
  "assertCanAccessUserTarget a t =
     rbind (assertCanAccessUserCatalog a) (\<lambda>role.
       if role \<noteq> UM_administrator \<and> isPrivilegedUserManagementTarget t
       then Inl (forbidden ''only-administrators-manage-wide-authority'')
       else if role \<in> {UM_information_technology, UM_delegated} \<and> um_id t = um_id a
       then Inl (forbidden ''own-account-through-administration'')
       else Inr role)"

definition assertCanManageUserTarget ::
  "user_management_identity \<Rightarrow> user_management_identity \<Rightarrow> user_management_role result" where
  "assertCanManageUserTarget a t =
     rbind (assertCanAccessUserTarget a t) (\<lambda>role.
       if role = UM_people_operations
       then Inl (forbidden ''people-operations-manage-existing-access'')
       else Inr role)"

lemmas user_management_defs = assertCanAccessUserCatalog_def assertCanAccessUserTarget_def
  assertCanManageUserTarget_def Let_def

lemma role_administrator_iff: "resolveUserManagementRole a = UM_administrator \<longleftrightarrow> um_isAdministrator a"
  by (auto simp: resolveUserManagementRole_def)

text \<open>Granting is exactly these three conditions on the role.\<close>

lemma assertCanManage_Inr_iff:
  "assertCanManageUserTarget a t = Inr role \<longleftrightarrow>
     role = resolveUserManagementRole a \<and>
     (role = UM_administrator \<or>
      (role = UM_information_technology \<or> role = UM_delegated) \<and>
        \<not> isPrivilegedUserManagementTarget t \<and> um_id t \<noteq> um_id a)"
  by (cases "resolveUserManagementRole a") (auto simp: user_management_defs)

lemma assertCanManage_error:
  "assertCanManageUserTarget a t = Inl e \<Longrightarrow> error_code e = FORBIDDEN"
  by (auto simp: user_management_defs rbind_Inl_iff split: if_splits)

text \<open>An administrator is always a privileged target, a document portal account never.\<close>

lemma privileged_administrator: "um_isAdministrator t \<Longrightarrow> isPrivilegedUserManagementTarget t"
  by (simp add: isPrivilegedUserManagementTarget_def hasTenantWideAuthority_def)

lemma privileged_portal:
  "\<not> um_isAdministrator t \<Longrightarrow> map_option kebab (um_documentAccessMode t) = Some ''document-portal'' \<Longrightarrow>
     \<not> isPrivilegedUserManagementTarget t"
  by (simp add: isPrivilegedUserManagementTarget_def hasTenantWideAuthority_def
      isDocumentPortalAuthority_def)

section \<open>Fingerprints of an access state\<close>

text \<open>
  \<open>userMutationAuthorizationFingerprint\<close> hashes the JSON text of a canonical record. The digest of
  \<open>node:crypto\<close> with the serialisation before it is the parameter \<open>digest\<close>; the model computes
  the canonical record.
\<close>

record mutation_identity =
  mi_isAdministrator :: bool
  mi_documentAccessMode :: string
  mi_departments :: "string list"
  mi_permissionCodes :: "string list"
  mi_status :: string
  mi_isActive :: bool
  mi_companyIsActive :: bool

definition canonicalMutationIdentity :: "mutation_identity \<Rightarrow> mutation_identity" where
  "canonicalMutationIdentity a = \<lparr>
     mi_isAdministrator = mi_isAdministrator a,
     mi_documentAccessMode = kebab (mi_documentAccessMode a),
     mi_departments = sort (js_uniq (mi_departments a)),
     mi_permissionCodes = sort (js_uniq (mi_permissionCodes a)),
     mi_status = kebab (mi_status a),
     mi_isActive = mi_isActive a,
     mi_companyIsActive = mi_companyIsActive a\<rparr>"

definition userMutationAuthorizationFingerprint ::
  "(mutation_identity \<Rightarrow> 'h) \<Rightarrow> mutation_identity \<Rightarrow> 'h" where
  "userMutationAuthorizationFingerprint digest a = digest (canonicalMutationIdentity a)"

lemma sort_js_uniq_cong: "set xs = set ys \<Longrightarrow> sort (js_uniq xs) = sort (js_uniq ys)"
  by (rule sorted_distinct_set_unique) simp_all

lemma sort_key_js_uniq_cong:
  assumes "inj key" and "set xs = set ys"
  shows "sort_key key (js_uniq xs) = sort_key key (js_uniq ys)"
proof -
  have d: "distinct (map key (sort_key key (js_uniq zs)))" for zs
    using assms(1) by (simp add: distinct_map inj_on_subset [OF assms(1)])
  have "map key (sort_key key (js_uniq xs)) = map key (sort_key key (js_uniq ys))"
    by (rule sorted_distinct_set_unique) (simp_all add: d assms(2))
  then show ?thesis using assms(1) by (simp add: inj_map_eq_map)
qed

lemma inj_perm_str: "inj perm_str" and inj_dept_str: "inj dept_str"
  by (simp_all add: inj_def)

text \<open>Effective permissions depend on the sets of departments and individual codes only.\<close>

lemma effective_order_independent:
  assumes "set ds = set es" and "set ps = set qs"
  shows "resolveEffectivePermissions ds ps adm mode = resolveEffectivePermissions es qs adm mode"
proof -
  have "set (allowedPermissionsForDepartments ds) = set (allowedPermissionsForDepartments es)"
    using assms(1) by simp
  then have f: "filterPermissionCodesForDepartments ds ps = filterPermissionCodesForDepartments es qs"
    unfolding filterPermissionCodesForDepartments_def Let_def
    by (intro sort_key_js_uniq_cong [OF inj_perm_str]) (simp add: assms(2))
  have "D_information_technology \<in> set ds \<longleftrightarrow> D_information_technology \<in> set es"
    using assms(1) by simp
  moreover have "hasTenantWideAuthority \<lparr>au_isAdministrator = False,
      au_departments = Some (map dept_str ds), au_permissionCodes = c,
      au_permissions = None, au_documentAccessMode = None\<rparr> =
    hasTenantWideAuthority \<lparr>au_isAdministrator = False,
      au_departments = Some (map dept_str es), au_permissionCodes = c,
      au_permissions = None, au_documentAccessMode = None\<rparr>" for c
    using assms(1) by (simp add: hasTenantWideAuthority_def isDocumentPortalAuthority_def)
  ultimately show ?thesis by (simp only: resolveEffectivePermissions_def f)
qed

text \<open>The fingerprint does not depend on the order or repetition of departments and permissions.\<close>

lemma fingerprint_order_independent:
  assumes "set (mi_departments a) = set (mi_departments b)"
    and "set (mi_permissionCodes a) = set (mi_permissionCodes b)"
    and "kebab (mi_documentAccessMode a) = kebab (mi_documentAccessMode b)"
    and "kebab (mi_status a) = kebab (mi_status b)"
    and "mi_isAdministrator a = mi_isAdministrator b" "mi_isActive a = mi_isActive b"
    and "mi_companyIsActive a = mi_companyIsActive b"
  shows "userMutationAuthorizationFingerprint digest a = userMutationAuthorizationFingerprint digest b"
  using assms sort_js_uniq_cong [OF assms(1)] sort_js_uniq_cong [OF assms(2)]
  by (simp add: userMutationAuthorizationFingerprint_def canonicalMutationIdentity_def)

text \<open>\<open>createLegacyAccessSnapshot\<close>, with the digest of the JSON payload as a parameter.\<close>

record legacy_access_source =
  ls_companyId :: string
  ls_userId :: string
  ls_isAdministrator :: bool
  ls_departments :: "department list"
  ls_permissionCodes :: "permission list"
  ls_documentAccessMode :: document_access_mode
  ls_routingCompanyId :: "string option"

record legacy_access_payload =
  lp_companyId :: string
  lp_userId :: string
  lp_isAdministrator :: bool
  lp_departments :: "department list"
  lp_capabilities :: "permission list"
  lp_documentAccessMode :: document_access_mode
  lp_routingCompanyId :: "string option"
  lp_resolverVersion :: string

definition legacyAccessPayload :: "legacy_access_source \<Rightarrow> legacy_access_payload" where
  "legacyAccessPayload s =
     (let departments = sort_key dept_str
            (if ls_isAdministrator s then ASSIGNABLE_DEPARTMENTS
             else map presentUserDepartment (normalizeUserDepartments (ls_departments s)));
          capabilities = resolveEffectivePermissions departments (ls_permissionCodes s)
            (ls_isAdministrator s) (ls_documentAccessMode s)
      in \<lparr>lp_companyId = ls_companyId s, lp_userId = ls_userId s,
          lp_isAdministrator = ls_isAdministrator s, lp_departments = departments,
          lp_capabilities = capabilities, lp_documentAccessMode = ls_documentAccessMode s,
          lp_routingCompanyId = ls_routingCompanyId s, lp_resolverVersion = ''legacy-access-v1''\<rparr>)"

definition createLegacyAccessSnapshot ::
  "(legacy_access_payload \<Rightarrow> 'h) \<Rightarrow> legacy_access_source \<Rightarrow> legacy_access_payload \<times> 'h" where
  "createLegacyAccessSnapshot digest s = (let p = legacyAccessPayload s in (p, digest p))"

lemma legacy_departments_distinct: "distinct (map presentUserDepartment (normalizeUserDepartments ds))"
proof -
  have "D_controllership \<notin> set (normalizeUserDepartments ds)"
    by (auto simp: normalizeUserDepartments_def normalizeUserDepartment_def)
  then show ?thesis
    by (auto simp: normalizeUserDepartments_def distinct_map inj_on_def presentUserDepartment_def
        normalizeUserDepartment_def split: if_splits)
qed

text \<open>The projection of an account does not depend on the order its rows were read in.\<close>

lemma legacy_payload_order_independent:
  assumes "set (ls_departments s) = set ds" and "set (ls_permissionCodes s) = set ps"
  shows "legacyAccessPayload (s\<lparr>ls_departments := ds, ls_permissionCodes := ps\<rparr>) = legacyAccessPayload s"
proof -
  let ?present = "\<lambda>ds. map presentUserDepartment (normalizeUserDepartments ds)"
  have n: "set (?present ds) = set (?present (ls_departments s))"
    using assms(1) by (auto simp: normalizeUserDepartments_def)
  have u: "?present ds = js_uniq (?present ds)" for ds
    by (simp only: js_uniq_id [OF legacy_departments_distinct])
  have "sort_key dept_str (?present ds) = sort_key dept_str (?present (ls_departments s))"
    by (subst (1 2) u) (rule sort_key_js_uniq_cong [OF inj_dept_str n])
  then show ?thesis
    using assms(2) by (simp add: legacyAccessPayload_def Let_def
        effective_order_independent [OF refl assms(2) [symmetric]])
qed

section \<open>Properties\<close>

text \<open>
  C1. The effective permissions of an account, exactly: an administrator has the whole catalog, a
  document portal account the portal's permissions, any other account its self-service
  permissions, the user permissions of information technology, the individual codes its
  departments allow, and the business permissions where a director holds the tenant-wide code.
\<close>

theorem effective_permissions_exact:
  "set (resolveEffectivePermissions ds individual isAdministrator mode) =
     (if isAdministrator then set ALL_PERMISSION_CODES
      else if mode = DA_document_portal then set DOCUMENT_PORTAL_PERMISSIONS
      else set EMPLOYEE_SELF_SERVICE_PERMISSIONS \<union>
        (if D_information_technology \<in> set ds then set IT_USER_PERMISSIONS else {}) \<union>
        (set individual \<inter> set (allowedPermissionsForDepartments ds)) \<union>
        (if D_directorate \<in> set ds \<and> TENANT_WIDE_PERMISSION \<in> set individual
         then insert TENANT_WIDE_PERMISSION (set TENANT_BUSINESS_PERMISSION_CODES) else {}))"
  using set_resolveEffective_standard [of mode ds individual]
  by (simp add: resolveEffectivePermissions_def del: set_allowedPermissions)

text \<open>
  C2. Whatever individual codes are stored for an account that is not an administrator, nothing
  outside the ceiling of its departments and outside the catalog becomes effective.
\<close>

theorem effective_permissions_bounded:
  "set (resolveEffectivePermissions ds individual False mode) \<subseteq>
     set (allowedPermissionsForDepartments ds) \<inter> set ALL_PERMISSION_CODES"
  using effective_within_ceiling [of ds individual mode]
    effective_in_catalog [of ds individual False mode]
  by blast

text \<open>
  C3. The HTTP guard and the resolver agree: on the principal built from a stored account, a
  handler that requires one of a list of catalog permissions is entered exactly when one of
  them is effective for the account; otherwise the request is refused.
\<close>

theorem guard_agrees_with_resolver:
  assumes "required \<noteq> []" and "set required \<subseteq> set ALL_PERMISSION_CODES"
  shows "permissionsGuard (Some required) (Some (principal_authority ds individual adm mode)) =
     (if set required \<inter> set (resolveEffectivePermissions ds individual adm mode) \<noteq> {}
      then Inr True else Inl (forbidden ''permission-required''))"
proof -
  have "list_ex (canExercisePermission (principal_authority ds individual adm mode)) required \<longleftrightarrow>
      set required \<inter> set (resolveEffectivePermissions ds individual adm mode) \<noteq> {}"
    using assms(2) can_exercise_iff_effective by (fastforce simp: list_ex_iff)
  with assms(1) show ?thesis by (simp add: permissionsGuard_def)
qed

lemma guard_agrees_with_resolver_witness:
  "permissionsGuard (Some [Perm R_users A_manage])
     (Some (principal_authority [D_commercial] [] False DA_standard)) =
     (if set [Perm R_users A_manage] \<inter> set (resolveEffectivePermissions [D_commercial] [] False DA_standard) \<noteq> {}
      then Inr True else Inl (forbidden ''permission-required''))"
  by (rule guard_agrees_with_resolver) (simp_all add: in_catalog_iff)

section \<open>Further facts\<close>

text \<open>
  Who may manage whose account: the operation is granted exactly to administrators, and to
  information technology and delegated managers on targets that hold no tenant-wide authority
  and are not their own account.
\<close>

theorem manage_user_granted_iff:
  "(\<exists>role. assertCanManageUserTarget a t = Inr role) \<longleftrightarrow>
     um_isAdministrator a \<or>
     (resolveUserManagementRole a \<in> {UM_information_technology, UM_delegated} \<and>
      \<not> isPrivilegedUserManagementTarget t \<and> um_id t \<noteq> um_id a)"
  using role_administrator_iff [of a] by (auto simp: assertCanManage_Inr_iff)

text \<open>
  The frozen legacy projection of an account and its digest do not depend on the order or
  repetition of the department and permission rows.
\<close>

theorem legacy_snapshot_order_independent:
  assumes "set (ls_departments s) = set ds" and "set (ls_permissionCodes s) = set ps"
  shows "createLegacyAccessSnapshot digest (s\<lparr>ls_departments := ds, ls_permissionCodes := ps\<rparr>) =
    createLegacyAccessSnapshot digest s"
  using legacy_payload_order_independent [OF assms] by (simp add: createLegacyAccessSnapshot_def)

lemma legacy_snapshot_order_independent_witness:
  "\<exists>s. createLegacyAccessSnapshot lp_capabilities
      (s\<lparr>ls_departments := [D_commercial, D_management], ls_permissionCodes := []\<rparr>) =
    createLegacyAccessSnapshot lp_capabilities s \<and>
    ls_departments s = [D_management, D_commercial, D_management]"
proof -
  let ?s = "\<lparr>ls_companyId = ''c'', ls_userId = ''u'', ls_isAdministrator = False,
    ls_departments = [D_management, D_commercial, D_management], ls_permissionCodes = [],
    ls_documentAccessMode = DA_standard, ls_routingCompanyId = None\<rparr>"
  have "set (ls_departments ?s) = set [D_commercial, D_management]" by auto
  moreover have "set (ls_permissionCodes ?s) = set []" by simp
  ultimately show ?thesis
    using legacy_snapshot_order_independent [of ?s "[D_commercial, D_management]" "[]" lp_capabilities]
    by (intro exI [of _ ?s]) simp
qed

end
