(* ===== verification/JS_Date.thy ===== *)
theory JS_Date
  imports JS_Prelude
begin

text \<open>
  Civil dates as texts \<open>AAAA-MM-DD\<close>: the pattern the sources test with a regular expression, the
  proleptic Gregorian calendar behind \<open>Date.UTC\<close>, and the day number of a civil date.
\<close>

definition leap_year :: "int \<Rightarrow> bool" where
  "leap_year y \<longleftrightarrow> y mod 4 = 0 \<and> (y mod 100 \<noteq> 0 \<or> y mod 400 = 0)"

definition days_in_month :: "int \<Rightarrow> int \<Rightarrow> int" where
  "days_in_month y m =
     (if m = 2 then (if leap_year y then 29 else 28)
      else if m \<in> {4, 6, 9, 11} then 30 else 31)"

definition valid_civil :: "int \<Rightarrow> int \<Rightarrow> int \<Rightarrow> bool" where
  "valid_civil y m d \<longleftrightarrow> 1 \<le> m \<and> m \<le> 12 \<and> 1 \<le> d \<and> d \<le> days_in_month y m"

text \<open>\<open>/^(\d{4})-(\d{2})-(\d{2})$/\<close> and the numbers of its groups.\<close>

definition number_of_digits :: "string \<Rightarrow> int" where
  "number_of_digits s = foldl (\<lambda>n c. 10 * n + digit_val c) 0 s"

fun match_date_only :: "string \<Rightarrow> (int \<times> int \<times> int) option" where
  "match_date_only [a, b, c, d, s, e, f, t, g, h] =
     (if list_all is_digit [a, b, c, d, e, f, g, h] \<and> s = CHR ''-'' \<and> t = CHR ''-''
      then Some (number_of_digits [a, b, c, d], number_of_digits [e, f], number_of_digits [g, h])
      else None)"
| "match_date_only _ = None"

text \<open>
  The test of the sources: the pattern holds and the parsed date, written back, is the text. A
  day that does not exist rolls over (or does not parse), so the test is the calendar's.
\<close>

definition civil_date_text :: "string \<Rightarrow> bool" where
  "civil_date_text s =
     (case match_date_only s of None \<Rightarrow> False | Some (y, m, d) \<Rightarrow> valid_civil y m d)"

end
