(* ===== verification/Exact_Decimal.thy ===== *)
theory Exact_Decimal
  imports Complex_Main App_Error JS_Date
begin

text \<open>
  Finite numbers as the sources print them, and the exact decimals that \<open>domain/transport/odometer.ts\<close>
  computes from their text. A finite number is given by what \<open>Number.prototype.toString\<close>
  determines of it: its sign, the shortest digits that denote it and the position of the decimal point
  (the numbers \<open>s\<close>, \<open>k\<close> and \<open>n\<close> of the standard's algorithm); its text is that algorithm's.
\<close>

section \<open>Finite numbers and their text\<close>

datatype js_float = Finite bool string int | Not_finite

text \<open>What the algorithm produces: no leading and no trailing zero, and one zero (negative zero is
  printed as zero and compares equal to it).\<close>

fun float_ok :: "js_float \<Rightarrow> bool" where
  "float_ok (Finite neg ds n) \<longleftrightarrow> list_all is_digit ds \<and> ds \<noteq> [] \<and>
     (if hd ds = CHR ''0'' then ds = ''0'' \<and> n = 1 \<and> \<not> neg else last ds \<noteq> CHR ''0'')"
| "float_ok Not_finite = True"

definition sign_text :: "bool \<Rightarrow> string" where
  "sign_text neg = (if neg then ''-'' else '''')"

text \<open>\<open>Number::toString\<close> of ECMAScript.\<close>

fun num_text :: "js_float \<Rightarrow> string" where
  "num_text (Finite neg ds n) = sign_text neg @
     (let k = int (length ds) in
      if k \<le> n \<and> n \<le> 21 then ds @ replicate (nat (n - k)) (CHR ''0'')
      else if 0 < n \<and> n \<le> 21 then take (nat n) ds @ ''.'' @ drop (nat n) ds
      else if -6 < n \<and> n \<le> 0 then ''0.'' @ replicate (nat (- n)) (CHR ''0'') @ ds
      else take 1 ds @ (if k = 1 then '''' else ''.'' @ drop 1 ds) @ ''e'' @
        (if n - 1 < 0 then ''-'' else ''+'') @ nat_text (nat \<bar>n - 1\<bar>))"
| "num_text Not_finite = ''NaN''"

fun float_value :: "js_float \<Rightarrow> real" where
  "float_value (Finite neg ds n) =
     (if neg then -1 else 1) * of_int (number_of_digits ds) * 10 powi (n - int (length ds))"
| "float_value Not_finite = 0"

section \<open>Exact decimals\<close>

record exact_decimal =
  ed_units :: int
  ed_scale :: nat

text \<open>The first two elements of \<open>s.split(c)\<close>; the second may be missing.\<close>

definition split2 :: "char \<Rightarrow> string \<Rightarrow> string \<times> string option" where
  "split2 c s = (takeWhile (\<lambda>x. x \<noteq> c) s,
     if c \<in> set s then Some (takeWhile (\<lambda>x. x \<noteq> c) (tl (dropWhile (\<lambda>x. x \<noteq> c) s))) else None)"

text \<open>\<open>BigInt(text)\<close> and \<open>Number(text)\<close> of a text of digits after an optional sign.\<close>

definition read_int :: "string \<Rightarrow> int" where
  "read_int s =
     (if s = [] then 0
      else if hd s = CHR ''-'' then - number_of_digits (tl s)
      else if hd s = CHR ''+'' then number_of_digits (tl s)
      else number_of_digits s)"

definition decimal :: "js_float \<Rightarrow> exact_decimal" where
  "decimal v =
     (let (mantissa, e) = split2 (CHR ''e'') (to_lower (num_text v));
          exponent = (case e of None \<Rightarrow> ''0'' | Some t \<Rightarrow> t);
          (whole, f) = split2 (CHR ''.'') mantissa;
          fraction = (case f of None \<Rightarrow> '''' | Some t \<Rightarrow> t);
          units = read_int (whole @ fraction);
          scale = int (length fraction) - read_int exponent
      in \<lparr>ed_units = (if scale < 0 then units * 10 ^ nat (- scale) else units),
          ed_scale = nat (max 0 scale)\<rparr>)"

definition subtract :: "exact_decimal \<Rightarrow> exact_decimal \<Rightarrow> exact_decimal" where
  "subtract left right =
     (let scale = max (ed_scale left) (ed_scale right) in
      \<lparr>ed_units = ed_units left * 10 ^ (scale - ed_scale left) -
         ed_units right * 10 ^ (scale - ed_scale right), ed_scale = scale\<rparr>)"

definition exceeds :: "exact_decimal \<Rightarrow> js_float \<Rightarrow> bool" where
  "exceeds v threshold \<longleftrightarrow> ed_units (subtract v (decimal threshold)) > 0"

text \<open>
  The printed form: a number when the number nearest to the text (\<open>Number(text)\<close>, the parameter
  \<open>nearest\<close>) is exactly the decimal, else the text.
\<close>

datatype decimal_value = Value_number js_float | Value_text string

definition decimal_text :: "exact_decimal \<Rightarrow> string" where
  "decimal_text v =
     (let sign = (if ed_units v < 0 then ''-'' else '''');
          raw = nat_text (nat \<bar>ed_units v\<bar>);
          digits = replicate (ed_scale v + 1 - length raw) (CHR ''0'') @ raw
      in if ed_scale v = 0 then sign @ digits
         else sign @ take (length digits - ed_scale v) digits @ ''.'' @
           drop (length digits - ed_scale v) digits)"

definition decimalValue :: "(string \<Rightarrow> js_float) \<Rightarrow> exact_decimal \<Rightarrow> decimal_value" where
  "decimalValue nearest v =
     (let text = decimal_text v; numeric = nearest text in
      if numeric \<noteq> Not_finite \<and> ed_units (subtract (decimal numeric) v) = 0
      then Value_number numeric else Value_text text)"

definition exact_value :: "exact_decimal \<Rightarrow> real" where
  "exact_value v = of_int (ed_units v) / 10 ^ ed_scale v"

lemma exact_value_make: "exact_value \<lparr>ed_units = u, ed_scale = m\<rparr> = of_int u / 10 ^ m"
  by (simp add: exact_value_def)

lemma exact_value_subtract: "exact_value (subtract a b) = exact_value a - exact_value b"
proof -
  have "real_of_int (ed_units x) * 10 ^ (m - ed_scale x) / 10 ^ m = exact_value x"
    if "ed_scale x \<le> m" for x m
  proof -
    have "(10 :: real) ^ m = 10 ^ (m - ed_scale x) * 10 ^ ed_scale x"
      using that by (simp flip: power_add)
    then show ?thesis by (simp add: exact_value_def)
  qed
  from this [of a "max (ed_scale a) (ed_scale b)"] this [of b "max (ed_scale a) (ed_scale b)"]
  show ?thesis
    by (simp add: exact_value_make subtract_def Let_def diff_divide_distrib)
qed

lemma exact_value_sign:
  "ed_units v < 0 \<longleftrightarrow> exact_value v < 0" "ed_units v > 0 \<longleftrightarrow> exact_value v > 0"
  "ed_units v = 0 \<longleftrightarrow> exact_value v = 0"
  by (simp_all add: exact_value_def divide_less_0_iff zero_less_divide_iff)

lemma exceeds_iff: "exceeds v t \<longleftrightarrow> exact_value v > exact_value (decimal t)"
  by (simp add: exceeds_def exact_value_sign exact_value_subtract)

section \<open>The decimals are exact\<close>

lemma number_of_digits_Nil [simp]: "number_of_digits [] = 0"
  by (simp add: number_of_digits_def)

lemma number_of_digits_snoc: "number_of_digits (s @ [c]) = 10 * number_of_digits s + digit_val c"
  by (simp add: number_of_digits_def)

lemma number_of_digits_append:
  "number_of_digits (s @ t) = number_of_digits s * 10 ^ length t + number_of_digits t"
proof (induction t rule: rev_induct)
  case (snoc c t)
  have "number_of_digits (s @ t @ [c]) = 10 * number_of_digits (s @ t) + digit_val c"
    using number_of_digits_snoc [of "s @ t"] by simp
  with snoc show ?case by (simp add: number_of_digits_snoc algebra_simps)
qed simp

lemma digit_val_zero [simp]: "digit_val (CHR ''0'') = 0"
  by code_simp

lemma number_of_zeros [simp]: "number_of_digits (replicate m (CHR ''0'')) = 0"
  by (induction m) (simp_all add: number_of_digits_append [of "[_]", simplified] number_of_digits_def)

lemma number_of_nat_text [simp]: "number_of_digits (nat_text n) = int n"
proof (induction n rule: nat_text.induct)
  case (1 n)
  have d: "digit_val (char_of (48 + m :: nat)) = int m" if "m < 10" for m
    using that by (simp add: digit_val_def)
  show ?case
    using 1 d [of n] d [of "n mod 10"]
    by (subst nat_text.simps) (simp add: number_of_digits_snoc, simp add: number_of_digits_def zmod_int zdiv_int)
qed

text \<open>The characters of a printed number that are neither digits nor separators stay apart.\<close>

lemma digit_char_facts:
  assumes "is_digit c"
  shows "c \<noteq> CHR ''e''" "c \<noteq> CHR ''.''" "c \<noteq> CHR ''-''" "c \<noteq> CHR ''+''" "lower_char c = c"
  using assms by (auto simp: is_digit_def lower_char_def Let_def code_def)

lemma to_lower_digits: "list_all is_digit s \<Longrightarrow> to_lower s = s"
  by (induction s) (simp_all add: to_lower_def digit_char_facts)

lemma read_int_signed:
  "list_all is_digit s \<Longrightarrow> s \<noteq> [] \<Longrightarrow>
     read_int (sign_text neg @ s) = (if neg then - 1 else 1) * number_of_digits s"
  by (cases s) (auto simp: read_int_def sign_text_def digit_char_facts)

lemma takeWhile_absent [simp]: "c \<notin> set s \<Longrightarrow> takeWhile (\<lambda>x. x \<noteq> c) s = s"
  by (induction s) auto

lemma split2_absent: "c \<notin> set s \<Longrightarrow> split2 c s = (s, None)"
  by (simp add: split2_def)

lemma split2_append: "c \<notin> set s \<Longrightarrow> c \<notin> set t \<Longrightarrow> split2 c (s @ c # t) = (s, Some t)"
proof -
  assume a: "c \<notin> set s" "c \<notin> set t"
  have "takeWhile (\<lambda>x. x \<noteq> c) (s @ c # t) = s" "dropWhile (\<lambda>x. x \<noteq> c) (s @ c # t) = c # t"
    using a(1) by (induction s) auto
  then show ?thesis using a by (simp add: split2_def)
qed

lemma digits_lack:
  assumes "list_all is_digit s"
  shows "CHR ''e'' \<notin> set s" "CHR ''.'' \<notin> set s"
  using assms digit_char_facts(1, 2) unfolding list_all_iff by blast+

lemma sign_text_facts [simp]:
  "CHR ''e'' \<notin> set (sign_text neg)" "CHR ''.'' \<notin> set (sign_text neg)"
  by (simp_all add: sign_text_def)

lemma to_lower_append: "to_lower (s @ t) = to_lower s @ to_lower t"
  by (simp add: to_lower_def)

lemma to_lower_fixed:
  "to_lower [CHR ''e''] = [CHR ''e'']" "to_lower [CHR ''.''] = [CHR ''.'']"
  "to_lower [CHR ''-''] = [CHR ''-'']" "to_lower [CHR ''+''] = [CHR ''+'']"
  "to_lower [] = []"
  by code_simp+

text \<open>The pieces of a printed number.\<close>

definition fraction_part :: "string option \<Rightarrow> string" where
  "fraction_part f = (case f of None \<Rightarrow> [] | Some t \<Rightarrow> CHR ''.'' # t)"

definition exponent_part :: "(bool \<times> string) option \<Rightarrow> string" where
  "exponent_part e = (case e of None \<Rightarrow> []
     | Some (neg, t) \<Rightarrow> CHR ''e'' # (if neg then CHR ''-'' else CHR ''+'') # t)"

lemma scaled_value:
  fixes u scale :: int
  shows "exact_value \<lparr>ed_units = (if scale < 0 then u * 10 ^ nat (- scale) else u),
      ed_scale = nat (max 0 scale)\<rparr> = of_int u * 10 powi (- scale)"
proof (cases "scale < 0")
  case True
  then have "(10 :: real) powi (- scale) = 10 ^ nat (- scale)" by (simp add: power_int_def)
  with True show ?thesis by (simp add: exact_value_make max_def)
next
  case False
  then have "(10 :: real) powi (- scale) = inverse (10 ^ nat scale)"
    unfolding power_int_minus by (simp add: power_int_def)
  with False show ?thesis by (simp add: exact_value_make max_def divide_inverse)
qed

lemma to_lower_signed: "list_all is_digit s \<Longrightarrow> to_lower (c # s) = to_lower [c] @ s"
  using to_lower_append [of "[c]" s] by (simp add: to_lower_digits)

lemma decimal_of_parts:
  assumes nt: "num_text v = sign_text neg @ w @ fraction_part f @ exponent_part e"
    and w: "list_all is_digit w" "w \<noteq> []"
    and f: "list_all is_digit (case f of None \<Rightarrow> [] | Some t \<Rightarrow> t)"
    and e: "list_all is_digit (case e of None \<Rightarrow> [] | Some (_, t) \<Rightarrow> t)"
  shows "exact_value (decimal v) =
    (if neg then - 1 else 1) * of_int (number_of_digits (w @ (case f of None \<Rightarrow> [] | Some t \<Rightarrow> t))) *
    10 powi ((case e of None \<Rightarrow> 0 | Some (n, t) \<Rightarrow> (if n then - 1 else 1) * number_of_digits t) -
      int (length (case f of None \<Rightarrow> [] | Some t \<Rightarrow> t)))"
proof -
  let ?F = "case f of None \<Rightarrow> [] | Some t \<Rightarrow> t"
  let ?X = "case e of None \<Rightarrow> 0 | Some (n, t) \<Rightarrow> (if n then - 1 else 1) * number_of_digits t"
  have "to_lower (sign_text neg) = sign_text neg"
    by (simp add: sign_text_def to_lower_fixed)
  moreover have "to_lower (fraction_part f) = fraction_part f"
    using f by (cases f) (simp_all add: fraction_part_def to_lower_signed to_lower_fixed)
  moreover have "to_lower (exponent_part e) = exponent_part e"
  proof (cases e)
    case (Some p)
    obtain n t where p: "p = (n, t)" by (cases p)
    show ?thesis
      using e to_lower_append [of "[CHR ''e'']" "(if n then CHR ''-'' else CHR ''+'') # t"]
      by (cases n) (simp_all add: Some p exponent_part_def to_lower_signed to_lower_fixed)
  qed (simp add: exponent_part_def to_lower_fixed)
  ultimately have low: "to_lower (num_text v) = num_text v"
    unfolding nt using w by (simp add: to_lower_append to_lower_digits)
  have noe: "CHR ''e'' \<notin> set (sign_text neg @ w @ fraction_part f)"
    using w f by (cases f) (auto simp: fraction_part_def digits_lack)
  have X: "split2 (CHR ''e'') (num_text v) = (sign_text neg @ w @ fraction_part f,
      map_option (\<lambda>(n, t). (if n then CHR ''-'' else CHR ''+'') # t) e)"
  proof (cases e)
    case None
    with noe show ?thesis by (simp add: nt exponent_part_def split2_absent)
  next
    case (Some p)
    obtain n t where p: "p = (n, t)" by (cases p)
    have "CHR ''e'' \<notin> set ((if n then CHR ''-'' else CHR ''+'') # t)"
      using e by (simp add: Some p digits_lack)
    from split2_append [OF noe this] show ?thesis by (simp add: nt exponent_part_def Some p)
  qed
  have Fs: "split2 (CHR ''.'') (sign_text neg @ w @ fraction_part f) = (sign_text neg @ w, f)"
  proof (cases f)
    case None
    then show ?thesis using w by (simp add: fraction_part_def split2_absent digits_lack)
  next
    case (Some t)
    have "CHR ''.'' \<notin> set (sign_text neg @ w)" "CHR ''.'' \<notin> set t"
      using w f by (simp_all add: Some digits_lack)
    from split2_append [OF this] show ?thesis by (simp add: Some fraction_part_def)
  qed
  have ex: "read_int (case map_option (\<lambda>(n, t). (if n then CHR ''-'' else CHR ''+'') # t) e of
      None \<Rightarrow> ''0'' | Some t \<Rightarrow> t) = ?X"
    by (cases e) (auto simp: read_int_def, simp add: number_of_digits_def)
  have un: "read_int ((sign_text neg @ w) @ ?F) = (if neg then - 1 else 1) * number_of_digits (w @ ?F)"
    using read_int_signed [of "w @ ?F" neg] w f by simp
  have "decimal v =
      \<lparr>ed_units = (if int (length ?F) - ?X < 0
         then (if neg then - 1 else 1) * number_of_digits (w @ ?F) * 10 ^ nat (- (int (length ?F) - ?X))
         else (if neg then - 1 else 1) * number_of_digits (w @ ?F)),
       ed_scale = nat (max 0 (int (length ?F) - ?X))\<rparr>"
    unfolding decimal_def low X Let_def prod.case Fs ex un ..
  then show ?thesis by (simp only: scaled_value) simp
qed

lemma number_of_leading_zero [simp]: "number_of_digits (CHR ''0'' # t) = number_of_digits t"
  by (simp add: number_of_digits_def)

text \<open>The decimal the code computes from the text of a number is the number.\<close>

lemma digits_zeros: "list_all is_digit (replicate m (CHR ''0''))"
  by (induction m) (simp_all add: is_digit_def)

lemma powi_shift: "(10 :: real) ^ m * 10 powi z = 10 powi (z + int m)"
  by (simp add: power_int_add)

lemma exact_value_decimal:
  assumes "float_ok (Finite neg ds n)"
  shows "exact_value (decimal (Finite neg ds n)) = float_value (Finite neg ds n)"
proof -
  from assms have ds: "list_all is_digit ds" "ds \<noteq> []" by simp_all
  let ?k = "int (length ds)"
  note parts = decimal_of_parts [where v = "Finite neg ds n" and neg = neg]
  consider (int) "?k \<le> n" "n \<le> 21" | (mixed) "\<not> ?k \<le> n" "0 < n" "n \<le> 21"
    | (frac) "-6 < n" "n \<le> 0" | (exp) "n \<le> -6 \<or> 21 < n"
    by linarith
  then show ?thesis
  proof cases
    case int
    then show ?thesis
      using parts [of "ds @ replicate (nat (n - ?k)) (CHR ''0'')" None None] ds
      by (simp add: fraction_part_def exponent_part_def number_of_digits_append digits_zeros
          power_int_def)
  next
    case mixed
    from mixed have "list_all is_digit (take (nat n) ds)" "list_all is_digit (drop (nat n) ds)"
      "take (nat n) ds \<noteq> []"
      using ds set_take_subset [of "nat n" ds] set_drop_subset [of "nat n" ds]
      unfolding list_all_iff by (blast, blast, simp)
    with mixed show ?thesis
      using parts [of "take (nat n) ds" "Some (drop (nat n) ds)" None] ds
      by (simp add: fraction_part_def exponent_part_def of_nat_diff)
  next
    case frac
    from frac ds have "\<not> ?k \<le> n" by (cases ds) auto
    with frac show ?thesis
      using parts [of "''0''" "Some (replicate (nat (- n)) (CHR ''0'') @ ds)" None] ds
      by (simp add: fraction_part_def exponent_part_def digits_zeros is_digit_def
          number_of_digits_append)
  next
    case exp
    from exp ds have r: "(?k \<le> n \<and> n \<le> 21) = False" "(0 < n \<and> n \<le> 21) = False"
      "(-6 < n \<and> n \<le> 0) = False" by auto
    let ?e = "Some (n - 1 < 0, nat_text (nat \<bar>n - 1\<bar>))"
    have t: "num_text (Finite neg ds n) = sign_text neg @ take 1 ds @
        fraction_part (if ?k = 1 then None else Some (drop 1 ds)) @ exponent_part ?e"
      by (simp only: num_text.simps Let_def r if_False)
        (simp add: fraction_part_def exponent_part_def)
    have e: "(if n - 1 < 0 then - 1 else 1) * \<bar>n - 1\<bar> = n - 1" by simp
    from ds obtain d rest where d: "ds = d # rest" by (cases ds) auto
    have "list_all is_digit (take 1 ds)" "take 1 ds \<noteq> []" "list_all is_digit rest"
      using ds by (simp_all add: d)
    with parts [OF t] show ?thesis
      by (cases "rest = []") (simp_all add: d nat_text_digits e [simplified] diff_diff_eq)
  qed
qed

text \<open>The normal form is unique: numbers printed alike are the same number.\<close>

lemma digit_val_range: "is_digit c \<Longrightarrow> 0 \<le> digit_val c \<and> digit_val c < 10"
  by (auto simp: is_digit_code digit_val_def)

lemma number_of_digits_range:
  "list_all is_digit s \<Longrightarrow> 0 \<le> number_of_digits s \<and> number_of_digits s < 10 ^ length s"
proof (induction s rule: rev_induct)
  case (snoc c s)
  then show ?case using digit_val_range [of c] by (auto simp: number_of_digits_snoc)
qed simp

lemma last_digit_unique:
  fixes a b c d :: int
  shows "10 * a + c = 10 * b + d \<Longrightarrow> 0 \<le> c \<Longrightarrow> c < 10 \<Longrightarrow> 0 \<le> d \<Longrightarrow> d < 10 \<Longrightarrow> a = b \<and> c = d"
  by presburger

lemma number_of_digits_inject:
  "list_all is_digit s \<Longrightarrow> list_all is_digit t \<Longrightarrow> length s = length t \<Longrightarrow>
     number_of_digits s = number_of_digits t \<Longrightarrow> s = t"
proof (induction s arbitrary: t rule: rev_induct)
  case (snoc c s)
  then obtain d t' where t: "t = t' @ [d]" by (cases t rule: rev_cases) auto
  have eq: "10 * number_of_digits s + digit_val c = 10 * number_of_digits t' + digit_val d"
    using snoc.prems(4) unfolding t number_of_digits_snoc .
  have "is_digit c" "is_digit d" using snoc.prems by (simp_all add: t)
  then have n: "number_of_digits s = number_of_digits t'" and c: "digit_val c = digit_val d"
    using last_digit_unique [OF eq] digit_val_range [of c] digit_val_range [of d] by blast+
  have "s = t'"
    by (rule snoc.IH [OF _ _ _ n]) (use snoc.prems(1, 2, 3) in \<open>simp_all add: t\<close>)
  with c show ?case by (simp add: t digit_val_inject)
qed simp

lemma number_of_digits_lower:
  assumes "list_all is_digit s" and "s \<noteq> []" and "hd s \<noteq> CHR ''0''"
  shows "10 ^ (length s - 1) \<le> number_of_digits s"
proof -
  from assms obtain c t where s: "s = c # t" by (cases s) auto
  have "digit_val c \<noteq> 0" using assms(3) digit_val_inject [of c "CHR ''0''"] by (simp add: s)
  with digit_val_range [of c] assms(1) have "1 \<le> digit_val c" by (simp add: s)
  moreover have "number_of_digits (c # t) = digit_val c * 10 ^ length t + number_of_digits t"
    using number_of_digits_append [of "[c]" t] by (simp add: number_of_digits_def)
  moreover have "0 \<le> number_of_digits t" using number_of_digits_range assms(1) by (simp add: s)
  moreover have "10 ^ length t \<le> digit_val c * 10 ^ length t"
    using mult_right_mono [OF \<open>1 \<le> digit_val c\<close>, of "10 ^ length t"]
    by (simp only: mult_1 zero_le_power zero_le_numeral)
  ultimately show ?thesis by (simp only: s length_Cons diff_Suc_1)
qed

lemma length_of_number:
  assumes "list_all is_digit s" "s \<noteq> []" "hd s \<noteq> CHR ''0''"
    and "list_all is_digit t" "t \<noteq> []" "hd t \<noteq> CHR ''0''"
    and "number_of_digits s = number_of_digits t"
  shows "length s = length t"
proof -
  have le: "length u \<le> length v" if "list_all is_digit u" "u \<noteq> []" "hd u \<noteq> CHR ''0''"
    "list_all is_digit v" "number_of_digits u = number_of_digits v" for u v
  proof -
    have "(10 :: int) ^ (length u - 1) < 10 ^ length v"
      using number_of_digits_lower [of u] number_of_digits_range [of v] that by linarith
    then have "length u - 1 < length v" by (rule power_less_imp_less_exp [rotated]) simp
    then show ?thesis by simp
  qed
  show ?thesis using assms by (intro le_antisym le) simp_all
qed

lemma last_digit_divides:
  assumes "list_all is_digit s" and "s \<noteq> []" and "10 dvd number_of_digits s"
  shows "last s = CHR ''0''"
proof -
  from assms(2) obtain u c where s: "s = u @ [c]" by (cases s rule: rev_cases) auto
  have "10 dvd digit_val c" using assms(3) by (simp add: s number_of_digits_snoc dvd_add_right_iff)
  moreover have "0 \<le> digit_val c" "digit_val c < 10"
    using assms(1) digit_val_range [of c] by (simp_all add: s)
  ultimately have "digit_val c = digit_val (CHR ''0'')" unfolding digit_val_zero by presburger
  then show ?thesis unfolding digit_val_inject by (simp add: s)
qed

lemma magnitude_inject:
  assumes ds: "list_all is_digit ds" "ds \<noteq> []" "hd ds \<noteq> CHR ''0''" "last ds \<noteq> CHR ''0''"
    and es: "list_all is_digit es" "es \<noteq> []" "hd es \<noteq> CHR ''0''" "last es \<noteq> CHR ''0''"
    and eq: "of_int (number_of_digits ds) * (10 :: real) powi x = of_int (number_of_digits es) * 10 powi y"
  shows "ds = es \<and> x = y"
proof -
  have no: "\<not> y < x"
    if "list_all is_digit es" "es \<noteq> []" "last es \<noteq> CHR ''0''"
      "of_int (number_of_digits ds) * (10 :: real) powi x = of_int (number_of_digits es) * 10 powi y"
    for ds es x y
  proof
    assume "y < x"
    have "(10 :: real) powi x = 10 ^ nat (x - y) * 10 powi y"
      using \<open>y < x\<close> by (simp add: powi_shift)
    with that(4) have "of_int (number_of_digits ds) * (10 :: real) ^ nat (x - y) = of_int (number_of_digits es)"
      by simp
    then have "real_of_int (number_of_digits ds * 10 ^ nat (x - y)) = of_int (number_of_digits es)"
      by simp
    then have es: "number_of_digits es = number_of_digits ds * 10 ^ nat (x - y)"
      by (simp only: of_int_eq_iff)
    have "10 dvd (10 :: int) ^ nat (x - y)" using \<open>y < x\<close> by simp
    then have "10 dvd number_of_digits es" unfolding es by (rule dvd_mult)
    with last_digit_divides that(1-3) show False by blast
  qed
  have "x = y" using no [OF es(1,2,4) eq] no [OF ds(1,2,4) eq [symmetric]] by linarith
  with eq have n: "number_of_digits ds = number_of_digits es" by simp
  have "length ds = length es" by (rule length_of_number) (use ds es n in simp_all)
  with number_of_digits_inject [OF ds(1) es(1) _ n] \<open>x = y\<close> show ?thesis by simp
qed

lemma float_value_inject:
  assumes "float_ok (Finite a ds n)" and "float_ok (Finite b es m)"
    and eq: "float_value (Finite a ds n) = float_value (Finite b es m)"
  shows "Finite a ds n = Finite b es m"
proof -
  have sgn: "(float_value (Finite c fs k) = 0 \<longleftrightarrow> hd fs = CHR ''0'') \<and>
      (float_value (Finite c fs k) < 0 \<longleftrightarrow> hd fs \<noteq> CHR ''0'' \<and> c)"
    if ok: "float_ok (Finite c fs k)" for c fs k
  proof (cases "hd fs = CHR ''0''")
    case True
    with ok show ?thesis by simp
  next
    case False
    have "(0 :: int) < 10 ^ (length fs - 1)" by simp
    also have "\<dots> \<le> number_of_digits fs" using number_of_digits_lower [of fs] ok False by simp
    finally have "0 < number_of_digits fs" .
    then have "(0 :: real) < of_int (number_of_digits fs) * 10 powi (k - int (length fs))" by simp
    moreover have "float_value (Finite c fs k) =
        (if c then - 1 else 1) * (of_int (number_of_digits fs) * 10 powi (k - int (length fs)))"
      by simp
    ultimately obtain p where "0 < p" "float_value (Finite c fs k) = (if c then - 1 else 1) * p"
      by blast
    with False show ?thesis by (cases c) auto
  qed
  show ?thesis
  proof (cases "hd ds = CHR ''0''")
    case True
    with sgn [OF assms(1)] eq sgn [OF assms(2)] have "hd es = CHR ''0''" by metis
    with True assms show ?thesis by simp
  next
    case False
    with sgn [OF assms(1)] eq sgn [OF assms(2)] have e: "hd es \<noteq> CHR ''0''" and ab: "a = b" by metis+
    have "of_int (number_of_digits ds) * (10 :: real) powi (n - int (length ds)) =
        of_int (number_of_digits es) * 10 powi (m - int (length es))"
      using eq unfolding ab by (cases b) simp_all
    with assms(1,2) False e have "ds = es \<and> n - int (length ds) = m - int (length es)"
      by (intro magnitude_inject) simp_all
    then have "ds = es" and "n = m" by auto
    with ab show ?thesis by simp
  qed
qed

lemma num_text_inject:
  assumes "float_ok (Finite a ds n)" and "float_ok (Finite b es m)"
    and "num_text (Finite a ds n) = num_text (Finite b es m)"
  shows "Finite a ds n = Finite b es m"
proof -
  have "decimal (Finite a ds n) = decimal (Finite b es m)"
    by (simp only: decimal_def assms(3))
  then have "float_value (Finite a ds n) = float_value (Finite b es m)"
    using exact_value_decimal [OF assms(1)] exact_value_decimal [OF assms(2)] by (simp only:)
  with assms(1,2) show ?thesis by (rule float_value_inject)
qed

end
