(* ===== verification/JSON_Text.thy ===== *)
theory JSON_Text
  imports JS_Prelude
begin

text \<open>
  The text \<open>JSON.stringify\<close> makes of strings, which the sources use in keys and fingerprints, and
  its unique reading.
\<close>

text \<open>\<open>JSON.stringify\<close> of a string (\<open>QuoteJSONString\<close>; no surrogates below 256).\<close>

definition hex_digit :: "nat \<Rightarrow> char" where
  "hex_digit n = char_of (if n < 10 then 48 + n else 87 + n)"

definition escape_char :: "char \<Rightarrow> string" where
  "escape_char c =
     (if c = CHR 0x22 then [CHR 0x5C, CHR 0x22]
      else if c = CHR 0x5C then [CHR 0x5C, CHR 0x5C]
      else if c = CHR 0x08 then [CHR 0x5C, CHR ''b'']
      else if c = CHR 0x0C then [CHR 0x5C, CHR ''f'']
      else if c = CHR 0x0A then [CHR 0x5C, CHR ''n'']
      else if c = CHR 0x0D then [CHR 0x5C, CHR ''r'']
      else if c = CHR 0x09 then [CHR 0x5C, CHR ''t'']
      else if code c < 32
      then [CHR 0x5C, CHR ''u'', CHR ''0'', CHR ''0'', hex_digit (code c div 16), hex_digit (code c mod 16)]
      else [c])"

definition quote_json :: "string \<Rightarrow> string" where
  "quote_json s = CHR 0x22 # concat (map escape_char s) @ [CHR 0x22]"

text \<open>\<open>values.join(',')\<close>\<close>

fun join_comma :: "string list \<Rightarrow> string" where
  "join_comma [] = []"
| "join_comma [s] = s"
| "join_comma (s # t # ts) = s @ CHR '','' # join_comma (t # ts)"

definition hex_value :: "char \<Rightarrow> nat" where
  "hex_value c = (if code c < 58 then code c - 48 else code c - 87)"

lemma hex_value_digit: "n < 16 \<Longrightarrow> hex_value (hex_digit n) = n"
  by (simp add: hex_value_def hex_digit_def)

definition unescape_simple :: "char \<Rightarrow> char" where
  "unescape_simple c =
     (if c = CHR ''b'' then CHR 0x08 else if c = CHR ''f'' then CHR 0x0C
      else if c = CHR ''n'' then CHR 0x0A else if c = CHR ''r'' then CHR 0x0D
      else if c = CHR ''t'' then CHR 0x09 else c)"

fun unescape :: "string \<Rightarrow> char \<times> string" where
  "unescape (a # b # z1 # z2 # h # l # r) =
     (if a \<noteq> CHR 0x5C then (a, b # z1 # z2 # h # l # r)
      else if b = CHR ''u'' then (char_of (16 * hex_value h + hex_value l), r)
      else (unescape_simple b, z1 # z2 # h # l # r))"
| "unescape (a # b # r) =
     (if a \<noteq> CHR 0x5C then (a, b # r) else (unescape_simple b, r))"
| "unescape [a] = (a, [])"
| "unescape [] = (CHR 0x00, [])"

lemma unescape_plain: "a \<noteq> CHR 0x5C \<Longrightarrow> unescape (a # r) = (a, r)"
  by (cases "a # r" rule: unescape.cases) auto

lemma unescape_two: "b \<noteq> CHR ''u'' \<Longrightarrow> unescape (CHR 0x5C # b # r) = (unescape_simple b, r)"
  by (cases "CHR 0x5C # b # r" rule: unescape.cases) auto

lemma unescape_escape: "unescape (escape_char c @ r) = (c, r)"
proof (cases "c \<in> {CHR 0x22, CHR 0x5C, CHR 0x08, CHR 0x0C, CHR 0x0A, CHR 0x0D, CHR 0x09}")
  case True
  then show ?thesis
    by (elim insertE; simp add: escape_char_def unescape_two unescape_simple_def)
next
  case False
  show ?thesis
  proof (cases "code c < 32")
    case True
    have "hex_value (hex_digit (code c div 16)) = code c div 16"
      "hex_value (hex_digit (code c mod 16)) = code c mod 16"
      using True by (auto intro!: hex_value_digit)
    with False True show ?thesis by (simp add: escape_char_def)
  next
    case nc: False
    with False show ?thesis by (simp add: escape_char_def unescape_plain)
  qed
qed

lemma escape_char_hd: "escape_char c = a # s \<Longrightarrow> a \<noteq> CHR 0x22"
  by (auto simp: escape_char_def split: if_splits)

lemma escape_char_not_Nil: "escape_char c \<noteq> []"
  by (simp add: escape_char_def)

lemma escaped_decode:
  "concat (map escape_char s) @ CHR 0x22 # x = concat (map escape_char t) @ CHR 0x22 # y \<Longrightarrow>
     s = t \<and> x = y"
proof (induction s arbitrary: t)
  case Nil
  then show ?case
    by (cases t) (auto simp: escape_char_not_Nil Cons_eq_append_conv dest: escape_char_hd escape_char_hd [OF sym])
next
  case (Cons c s)
  show ?case
  proof (cases t)
    case Nil
    with Cons.prems show ?thesis
      by (auto simp: escape_char_not_Nil append_eq_Cons_conv dest: escape_char_hd escape_char_hd [OF sym])
  next
    case t: (Cons d u)
    have "unescape (escape_char c @ (concat (map escape_char s) @ CHR 0x22 # x)) =
        unescape (escape_char d @ (concat (map escape_char u) @ CHR 0x22 # y))"
      using Cons.prems by (simp add: t)
    with Cons.IH [of u] show ?thesis by (simp add: unescape_escape t)
  qed
qed

lemma quote_decode: "quote_json s @ x = quote_json t @ y \<Longrightarrow> s = t \<and> x = y"
  using escaped_decode [of s x t y] by (simp add: quote_json_def)

end
