(* ===== verification/Agent_Tools.thy ===== *)
theory Agent_Tools
  imports Exact_Decimal JSON_Text
begin

text \<open>
  The tools of the AI agents: authorization of an invocation and the fingerprint of its arguments
  (\<open>domain/agents/agent-tool-authorization.ts\<close>), the configuration of the runtime, the capability
  check and the prompt (\<open>domain/agents/agent-runtime.ts\<close>).
\<close>

section \<open>JSON values and their stable text\<close>

text \<open>
  What the arguments of a tool may hold: JSON, and the values \<open>stableJson\<close> refuses (\<open>undefined\<close>, a
  function, a bigint; an object with another prototype). The fields of an object are in insertion
  order.
\<close>

datatype json =
    JNull | JBool bool | JString string | JNumber js_float | JArray "json list"
  | JObject "(string \<times> json) list" | JUnsupported | JInstance

text \<open>Access to a member, \<open>undefined\<close> where there is none.\<close>

definition field :: "(string \<times> json) list \<Rightarrow> string \<Rightarrow> json" where
  "field r key = (case map_of r key of Some v \<Rightarrow> v | None \<Rightarrow> JUnsupported)"

lemma size_field [termination_simp]:
  "(k, v) \<in> set (sort_key fst members) \<Longrightarrow> size v < Suc (size_list (size_prod (\<lambda>_. 0) size) members)"
proof -
  assume "(k, v) \<in> set (sort_key fst members)"
  then have "size_prod (\<lambda>_. 0) size (k, v) \<le> size_list (size_prod (\<lambda>_. 0) size) members"
    by (intro size_list_estimation') auto
  then show ?thesis by simp
qed

fun stableJson :: "json \<Rightarrow> string result" where
  "stableJson JNull = Inr ''null''"
| "stableJson (JBool b) = Inr (if b then ''true'' else ''false'')"
| "stableJson (JString s) = Inr (quote_json s)"
| "stableJson (JNumber Not_finite) = Inl (validationError ''tool-arguments-json'')"
| "stableJson (JNumber (Finite neg ds n)) = Inr (num_text (Finite neg ds n))"
| "stableJson (JArray vs) =
     rbind (map_result stableJson vs) (\<lambda>ts. Inr (CHR 0x5B # join_comma ts @ [CHR 0x5D]))"
| "stableJson JUnsupported = Inl (validationError ''tool-arguments-json'')"
| "stableJson JInstance = Inl (validationError ''tool-arguments-plain'')"
| "stableJson (JObject members) =
     rbind (map_result (\<lambda>(key, v). rbind (stableJson v) (\<lambda>t. Inr (quote_json key @ CHR '':'' # t)))
         (sort_key fst members))
       (\<lambda>ts. Inr (CHR 0x7B # join_comma ts @ [CHR 0x7D]))"

section \<open>The stable text determines the value\<close>

text \<open>The value with the fields of every object in the order of their names.\<close>

fun canon :: "json \<Rightarrow> json" where
  "canon (JArray vs) = JArray (map canon vs)"
| "canon (JObject members) = JObject (map (\<lambda>(key, v). (key, canon v)) (sort_key fst members))"
| "canon v = v"

fun json_ok :: "json \<Rightarrow> bool" where
  "json_ok (JNumber x) = float_ok x"
| "json_ok (JArray vs) = list_all json_ok vs"
| "json_ok (JObject members) = list_all (\<lambda>(key, v). json_ok v) (sort_key fst members)"
| "json_ok v = True"

text \<open>A text is followed by nothing, a comma or a closing bracket; no value begins with those.\<close>

definition closers :: "char set" where
  "closers = {CHR '','', CHR 0x5D, CHR 0x7D}"

definition ends :: "string \<Rightarrow> bool" where
  "ends x \<longleftrightarrow> (x = [] \<or> hd x \<in> closers)"

lemma ends_simps [simp]: "ends []" "ends (c # x) \<longleftrightarrow> c \<in> closers"
  by (simp_all add: ends_def)

definition opens :: "string \<Rightarrow> bool" where
  "opens s \<longleftrightarrow> s \<noteq> [] \<and> hd s \<notin> closers"

lemma join_decode:
  assumes "\<And>t u x y. t \<in> set ts \<Longrightarrow> u \<in> set us \<Longrightarrow> t @ x = u @ y \<Longrightarrow> ends x \<Longrightarrow> ends y \<Longrightarrow> t = u \<and> x = y"
    and "\<And>t. t \<in> set ts \<Longrightarrow> opens t" and "\<And>u. u \<in> set us \<Longrightarrow> opens u"
    and "c \<in> closers" and "c \<noteq> CHR '',''"
    and "join_comma ts @ c # x = join_comma us @ c # y"
  shows "ts = us \<and> x = y"
  using assms(1-3,6)
proof (induction ts arbitrary: us)
  case Nil
  show ?case
  proof (cases us)
    case (Cons u vs)
    then have "opens u" using Nil.prems(3) by simp
    with Nil.prems(4) Cons assms(4) show ?thesis
      by (cases vs; cases u) (auto simp: opens_def)
  qed (use Nil in simp)
next
  case (Cons t ts)
  have t: "opens t" using Cons.prems(2) by simp
  obtain u vs where us: "us = u # vs"
    using Cons.prems(4) t assms(4) by (cases us; cases ts; cases t) (auto simp: opens_def)
  define p where "p = (if ts = [] then c # x else CHR '','' # join_comma ts @ c # x)"
  define q where "q = (if vs = [] then c # y else CHR '','' # join_comma vs @ c # y)"
  have "t @ p = u @ q"
    using Cons.prems(4) by (cases ts; cases vs) (simp_all add: us p_def q_def)
  moreover have "ends p" "ends q" using assms(4) by (auto simp: p_def q_def closers_def)
  ultimately have tu: "t = u" and pq: "p = q" using Cons.prems(1) [of t u] by (auto simp: us)
  have "(ts = []) = (vs = [])" using pq assms(5) by (auto simp: p_def q_def split: if_splits)
  show ?case
  proof (cases "ts = []")
    case True
    with \<open>(ts = []) = (vs = [])\<close> pq tu show ?thesis by (simp add: us p_def q_def)
  next
    case False
    then have j: "join_comma ts @ c # x = join_comma vs @ c # y"
      using \<open>(ts = []) = (vs = [])\<close> pq by (simp add: p_def q_def)
    have "ts = vs \<and> x = y"
    proof (rule Cons.IH [OF _ _ _ j])
      show "t' = u' \<and> x' = y'"
        if "t' \<in> set ts" "u' \<in> set vs" "t' @ x' = u' @ y'" "ends x'" "ends y'" for t' u' x' y'
        using that by (intro Cons.prems(1)) (simp_all add: us)
      show "opens t'" if "t' \<in> set ts" for t' using that Cons.prems(2) by simp
      show "opens u'" if "u' \<in> set vs" for u' using that Cons.prems(3) by (simp add: us)
    qed
    with tu show ?thesis by (simp add: us)
  qed
qed

lemma map_result_list_all2: "map_result f xs = Inr ys \<Longrightarrow> list_all2 (\<lambda>x y. f x = Inr y) xs ys"
  by (induction xs arbitrary: ys) (auto simp: result_simps)


lemma num_text_chars:
  assumes "float_ok (Finite neg ds n)"
  shows "list_all (\<lambda>c. is_digit c \<or> c \<in> {CHR ''-'', CHR ''+'', CHR ''.'', CHR ''e''}) (num_text (Finite neg ds n))"
    (is "list_all ?P _")
proof -
  have D: "list_all is_digit s \<Longrightarrow> list_all ?P s" for s by (simp add: list_all_iff)
  have "list_all is_digit ds" using assms by simp
  then have "list_all ?P ds" "list_all ?P (take m ds)" "list_all ?P (drop m ds)" for m
    using set_take_subset [of m ds] set_drop_subset [of m ds] unfolding list_all_iff by blast+
  then show ?thesis
    using D [OF digits_zeros] D [OF nat_text_digits] by (simp add: Let_def sign_text_def is_digit_def)
qed

lemma num_text_opens:
  assumes "float_ok (Finite neg ds n)"
  shows "num_text (Finite neg ds n) \<noteq> [] \<and>
    (is_digit (hd (num_text (Finite neg ds n))) \<or> hd (num_text (Finite neg ds n)) = CHR ''-'')"
proof -
  from assms obtain d rest where ds: "ds = d # rest" "is_digit d" by (cases ds) auto
  have "is_digit (CHR ''0'')" by (simp add: is_digit_def)
  with ds show ?thesis
    by (cases "nat n") (auto simp: Let_def sign_text_def)
qed

lemma text_decode:
  assumes "list_all (\<lambda>c. c \<notin> closers) s" and "list_all (\<lambda>c. c \<notin> closers) t"
    and "s @ x = t @ y" and "ends x" and "ends y"
  shows "s = t \<and> x = y"
proof -
  have tw: "takeWhile (\<lambda>c. c \<notin> closers) (u @ z) = u"
    if "list_all (\<lambda>c. c \<notin> closers) u" "ends z" for u z
    using that by (induction u; cases z; auto)
  have "s = t" using tw [OF assms(1,4)] tw [OF assms(2,5)] assms(3) by simp
  with assms(3) show ?thesis by simp
qed

lemma num_text_closers:
  assumes "float_ok (Finite neg ds n)"
  shows "list_all (\<lambda>c. c \<notin> closers) (num_text (Finite neg ds n))"
proof -
  have "c \<notin> closers" if "is_digit c \<or> c \<in> {CHR ''-'', CHR ''+'', CHR ''.'', CHR ''e''}" for c
    using that by (auto simp: closers_def is_digit_def)
  with num_text_chars [OF assms] show ?thesis unfolding list_all_iff by blast
qed

definition json_opener :: "json \<Rightarrow> char set" where
  "json_opener v = (case v of JNull \<Rightarrow> {CHR ''n''} | JBool b \<Rightarrow> {CHR ''t'', CHR ''f''}
     | JString _ \<Rightarrow> {CHR 0x22} | JNumber _ \<Rightarrow> insert (CHR ''-'') (set ''0123456789'')
     | JArray _ \<Rightarrow> {CHR 0x5B} | JObject _ \<Rightarrow> {CHR 0x7B} | _ \<Rightarrow> {})"

lemma stableJson_opener:
  assumes "json_ok v" and "stableJson v = Inr s"
  shows "s \<noteq> [] \<and> hd s \<in> json_opener v"
proof (cases v)
  case (JNumber x)
  then obtain neg ds n where x: "x = Finite neg ds n" using assms(2) by (cases x) auto
  have "float_ok (Finite neg ds n)" "s = num_text (Finite neg ds n)"
    using assms by (simp_all add: JNumber x del: num_text.simps float_ok.simps)
  with num_text_opens [of neg ds n] show ?thesis
    by (auto simp add: JNumber json_opener_def is_digit_def simp del: num_text.simps float_ok.simps)
qed (use assms in \<open>auto simp: json_opener_def quote_json_def result_simps split: if_splits\<close>)

lemma json_opener_closers: "json_opener v \<inter> closers = {}"
  by (cases v) (auto simp: json_opener_def closers_def)

lemma stableJson_opens: "json_ok v \<Longrightarrow> stableJson v = Inr s \<Longrightarrow> opens s"
  using stableJson_opener [of v s] json_opener_closers [of v] by (auto simp: opens_def)


lemma same_kind:
  assumes "json_ok v" "stableJson v = Inr s" "json_ok w" "stableJson w = Inr t" "s @ x = t @ y"
  shows "json_opener v \<inter> json_opener w \<noteq> {}"
proof -
  have "s \<noteq> []" "hd s \<in> json_opener v" "t \<noteq> []" "hd t \<in> json_opener w"
    using stableJson_opener assms(1-4) by blast+
  moreover from this assms(5) have "hd s = hd t" by (metis hd_append2)
  ultimately show ?thesis by auto
qed

lemma list_all2_same_right:
  assumes "list_all2 P xs ts" and "list_all2 Q ys ts"
    and "\<And>x y t. x \<in> set xs \<Longrightarrow> y \<in> set ys \<Longrightarrow> P x t \<Longrightarrow> Q y t \<Longrightarrow> f x = g y"
  shows "map f xs = map g ys"
  using assms by (induction arbitrary: ys rule: list_all2_induct) (auto simp: list_all2_Cons2)

lemma list_all2_in_right: "list_all2 P xs ts \<Longrightarrow> t \<in> set ts \<Longrightarrow> \<exists>x\<in>set xs. P x t"
  by (induction rule: list_all2_induct) auto

lemma elements_decode:
  assumes v: "list_all2 P xs ts" and w: "list_all2 Q ys us"
    and open_v: "\<And>a t. a \<in> set xs \<Longrightarrow> P a t \<Longrightarrow> opens t" and open_w: "\<And>b u. b \<in> set ys \<Longrightarrow> Q b u \<Longrightarrow> opens u"
    and dec: "\<And>a b t u x y. a \<in> set xs \<Longrightarrow> b \<in> set ys \<Longrightarrow> P a t \<Longrightarrow> Q b u \<Longrightarrow> t @ x = u @ y \<Longrightarrow>
      ends x \<Longrightarrow> ends y \<Longrightarrow> f a = g b \<and> x = y"
    and c: "c \<in> closers" "c \<noteq> CHR '',''" and eq: "join_comma ts @ c # x = join_comma us @ c # y"
  shows "map f xs = map g ys \<and> x = y"
proof -
  have "ts = us \<and> x = y"
  proof (rule join_decode [OF _ _ _ c eq])
    show "t = u \<and> x' = y'"
      if t: "t \<in> set ts" and u: "u \<in> set us" and e: "t @ x' = u @ y'" "ends x'" "ends y'" for t u x' y'
    proof -
      obtain a b where "a \<in> set xs" "P a t" "b \<in> set ys" "Q b u"
        using list_all2_in_right v w t u by metis
      with dec e have "x' = y'" by blast
      with e(1) show ?thesis by simp
    qed
    show "opens t" if "t \<in> set ts" for t using list_all2_in_right [OF v that] open_v by blast
    show "opens u" if "u \<in> set us" for u using list_all2_in_right [OF w that] open_w by blast
  qed
  moreover have "map f xs = map g ys" if "ts = us"
  proof (rule list_all2_same_right [OF v w [folded that]])
    show "f a = g b" if "a \<in> set xs" "b \<in> set ys" "P a t" "Q b t" for a b t
      using dec [OF that, of "[]" "[]"] by simp
  qed
  ultimately show ?thesis by simp
qed

lemma stableJson_decode:
  "json_ok v \<Longrightarrow> json_ok w \<Longrightarrow> stableJson v = Inr s \<Longrightarrow> stableJson w = Inr t \<Longrightarrow>
     s @ x = t @ y \<Longrightarrow> ends x \<Longrightarrow> ends y \<Longrightarrow> canon v = canon w \<and> x = y"
proof (induction v arbitrary: w s t x y rule: canon.induct [case_names Array Object Null Bool String Number Unsupported Instance])
  case (Array vs)
  have "json_opener (JArray vs) \<inter> json_opener w \<noteq> {}" by (rule same_kind [OF Array.prems(1, 3, 2, 4, 5)])
  then obtain ws where w: "w = JArray ws" by (cases w) (auto simp: json_opener_def)
  obtain ts us where ts: "map_result stableJson vs = Inr ts" "s = CHR 0x5B # join_comma ts @ [CHR 0x5D]"
    and us: "map_result stableJson ws = Inr us" "t = CHR 0x5B # join_comma us @ [CHR 0x5D]"
    using Array.prems by (auto simp: w result_simps)
  have ok: "\<And>a. a \<in> set vs \<Longrightarrow> json_ok a" "\<And>b. b \<in> set ws \<Longrightarrow> json_ok b"
    using Array.prems(1,2) by (auto simp: w list_all_iff)
  have "map canon vs = map canon ws \<and> x = y"
  proof (rule elements_decode [OF map_result_list_all2 [OF ts(1)] map_result_list_all2 [OF us(1)]])
    show "join_comma ts @ CHR 0x5D # x = join_comma us @ CHR 0x5D # y"
      using Array.prems(5) by (simp add: ts us)
    show "canon a = canon b \<and> x' = y'"
      if "a \<in> set vs" "b \<in> set ws" "stableJson a = Inr t'" "stableJson b = Inr u" "t' @ x' = u @ y'"
        "ends x'" "ends y'" for a b t' u x' y'
      using Array.IH [OF that(1) _ _ that(3-7)] ok that(1,2) by blast
  qed (use ok stableJson_opens in \<open>auto simp: closers_def\<close>)
  then show ?case by (simp add: w)
next
  case (Object members)
  let ?f = "\<lambda>(key, v). rbind (stableJson v) (\<lambda>t. Inr (quote_json key @ CHR '':'' # t))"
  have "json_opener (JObject members) \<inter> json_opener w \<noteq> {}" by (rule same_kind [OF Object.prems(1, 3, 2, 4, 5)])
  then obtain ns where w: "w = JObject ns" by (cases w) (auto simp: json_opener_def)
  obtain ts us where ts: "map_result ?f (sort_key fst members) = Inr ts" "s = CHR 0x7B # join_comma ts @ [CHR 0x7D]"
    and us: "map_result ?f (sort_key fst ns) = Inr us" "t = CHR 0x7B # join_comma us @ [CHR 0x7D]"
    using Object.prems by (auto simp: w rbind_Inr_iff simp del: set_sort)
  have ok: "\<And>k a. (k, a) \<in> set (sort_key fst members) \<Longrightarrow> json_ok a"
    "\<And>k b. (k, b) \<in> set (sort_key fst ns) \<Longrightarrow> json_ok b"
    using Object.prems(1,2) by (auto simp: w list_all_iff)
  have "map (\<lambda>(key, v). (key, canon v)) (sort_key fst members) =
      map (\<lambda>(key, v). (key, canon v)) (sort_key fst ns) \<and> x = y"
  proof (rule elements_decode [OF map_result_list_all2 [OF ts(1)] map_result_list_all2 [OF us(1)]])
    show "join_comma ts @ CHR 0x7D # x = join_comma us @ CHR 0x7D # y"
      using Object.prems(5) by (simp add: ts us)
    show "(\<lambda>(key, v). (key, canon v)) p = (\<lambda>(key, v). (key, canon v)) q \<and> x' = y'"
      if "p \<in> set (sort_key fst members)" "q \<in> set (sort_key fst ns)" "?f p = Inr t'" "?f q = Inr u"
        "t' @ x' = u @ y'" "ends x'" "ends y'" for p q t' u x' y'
    proof -
      obtain k a l b where pq: "p = (k, a)" "q = (l, b)" by (cases p; cases q)
      with that obtain a' b' where a: "stableJson a = Inr a'" "t' = quote_json k @ CHR '':'' # a'"
        and b: "stableJson b = Inr b'" "u = quote_json l @ CHR '':'' # b'"
        by (auto simp: rbind_Inr_iff)
      from that(5) have "k = l" "a' @ x' = b' @ y'"
        using quote_decode [of k "CHR '':'' # a' @ x'" l "CHR '':'' # b' @ y'"] by (simp_all add: a b)
      moreover have "canon a = canon b \<and> x' = y'"
        using Object.IH [OF that(1) pq(1) [symmetric] _ _ a(1) b(1) \<open>a' @ x' = b' @ y'\<close> that(6,7)] ok that(1,2)
        unfolding pq by blast
      ultimately show ?thesis by (simp add: pq)
    qed
  qed (auto simp: closers_def opens_def quote_json_def rbind_Inr_iff)
  then show ?case by (simp add: w)
next
  case Null
  have "json_opener JNull \<inter> json_opener w \<noteq> {}" by (rule same_kind [OF Null.prems(1, 3, 2, 4, 5)])
  then show ?case using Null by (cases w) (auto simp: json_opener_def)
next
  case (Bool b)
  have "json_opener (JBool b) \<inter> json_opener w \<noteq> {}" by (rule same_kind [OF Bool.prems(1, 3, 2, 4, 5)])
  then show ?case using Bool by (cases w) (auto simp: json_opener_def split: if_splits)
next
  case (String a)
  have "json_opener (JString a) \<inter> json_opener w \<noteq> {}" by (rule same_kind [OF String.prems(1, 3, 2, 4, 5)])
  then show ?case using String by (cases w) (auto simp: json_opener_def dest: quote_decode)
next
  case (Number a)
  have "json_opener (JNumber a) \<inter> json_opener w \<noteq> {}" by (rule same_kind [OF Number.prems(1, 3, 2, 4, 5)])
  then obtain b where w: "w = JNumber b" by (cases w) (auto simp: json_opener_def)
  obtain neg ds n neg' ds' n' where ab: "a = Finite neg ds n" "b = Finite neg' ds' n'"
    using Number w by (cases a; cases b) auto
  have ok: "float_ok (Finite neg ds n)" "float_ok (Finite neg' ds' n')"
    using Number by (simp_all add: w ab del: float_ok.simps)
  have "s = num_text (Finite neg ds n)" "t = num_text (Finite neg' ds' n')"
    using Number by (simp_all add: w ab del: num_text.simps float_ok.simps)
  then show ?case
    using text_decode [OF num_text_closers [OF ok(1)] num_text_closers [OF ok(2)]] Number(5-7)
      num_text_inject [OF ok] unfolding w ab canon.simps by blast
next
  case Unsupported
  then show ?case by simp
next
  case Instance
  then show ?case by simp
qed

section \<open>Authorization of an invocation\<close>

datatype autonomy_level = AL_read | AL_safe_write | AL_sensitive_write

definition AGENT_TOOL_EXECUTION_TARGETS :: "string list" where
  "AGENT_TOOL_EXECUTION_TARGETS = [''internal-service'', ''transactional-database'']"

datatype execution_target = ET_internal_service | ET_transactional_database

record tool_policy =
  tp_toolId :: string
  tp_requiredCapability :: autonomy_level
  tp_requiredPermission :: string
  tp_executionTarget :: execution_target
  tp_allowedDepartmentIds :: "string list"

record sensitive_confirmation =
  sc_companyId :: string
  sc_serviceSessionId :: string
  sc_toolId :: string
  sc_argumentsFingerprint :: string
  sc_confirmedByUserId :: string
  sc_confirmedAt :: int
  sc_expiresAt :: int

record tool_context =
  tx_companyId :: string
  tx_serviceSessionCompanyId :: string
  tx_serviceSessionId :: string
  tx_currentDepartmentId :: string
  tx_assignedToolIds :: "string list"
  tx_grantedCapabilities :: "autonomy_level list"
  tx_serverGrantedPermissions :: "string list"
  tx_arguments :: "(string \<times> json) list"
  tx_confirmation :: "sensitive_confirmation option"
  tx_now :: int

record authorized_invocation =
  ai_toolId :: string
  ai_argumentsFingerprint :: string
  ai_confirmedByUserId :: "string option"

text \<open>The hexadecimal SHA-256 digest of a text is the parameter \<open>sha256\<close>.\<close>

definition fingerprintAgentToolArguments ::
  "(string \<Rightarrow> string) \<Rightarrow> (string \<times> json) list \<Rightarrow> string result" where
  "fingerprintAgentToolArguments sha256 args =
     rbind (stableJson (JObject args)) (\<lambda>t. Inr (sha256 t))"

definition validConfirmation :: "tool_context \<Rightarrow> string \<Rightarrow> string \<Rightarrow> bool" where
  "validConfirmation context toolId fingerprint =
     (case tx_confirmation context of None \<Rightarrow> False
      | Some c \<Rightarrow> sc_companyId c = tx_companyId context \<and>
          sc_serviceSessionId c = tx_serviceSessionId context \<and> sc_toolId c = toolId \<and>
          sc_argumentsFingerprint c = fingerprint \<and> length (trim (sc_confirmedByUserId c)) > 0 \<and>
          sc_confirmedAt c \<le> tx_now context \<and> sc_expiresAt c > tx_now context)"

text \<open>The member \<open>authorizationSource\<close> of the result is constant and left out.\<close>

definition authorizeAgentToolInvocation ::
  "(string \<Rightarrow> string) \<Rightarrow> tool_policy \<Rightarrow> tool_context \<Rightarrow> authorized_invocation result" where
  "authorizeAgentToolInvocation sha256 policy context =
     (let toolId = trim (tp_toolId policy) in
      if toolId = [] \<or> trim (tp_requiredPermission policy) = []
      then Inl (validationError ''tool-policy-incomplete'')
      else if tx_companyId context \<noteq> tx_serviceSessionCompanyId context
      then Inl (forbidden ''tool-unavailable-for-session'')
      else if toolId \<notin> set (tx_assignedToolIds context)
      then Inl (forbidden ''tool-unavailable-for-agent'')
      else if tp_requiredCapability policy \<notin> set (tx_grantedCapabilities context)
      then Inl (forbidden ''tool-autonomy'')
      else if tp_requiredPermission policy \<notin> set (tx_serverGrantedPermissions context)
      then Inl (forbidden ''tool-unavailable-for-session'')
      else if length (tp_allowedDepartmentIds policy) > 0 \<and>
        tx_currentDepartmentId context \<notin> set (tp_allowedDepartmentIds policy)
      then Inl (forbidden ''tool-unavailable-for-department'')
      else rbind (fingerprintAgentToolArguments sha256 (tx_arguments context)) (\<lambda>fingerprint.
        if tp_requiredCapability policy \<noteq> AL_sensitive_write
        then Inr \<lparr>ai_toolId = toolId, ai_argumentsFingerprint = fingerprint, ai_confirmedByUserId = None\<rparr>
        else if \<not> validConfirmation context toolId fingerprint
        then Inl (forbidden ''sensitive-tool-needs-confirmation'')
        else Inr \<lparr>ai_toolId = toolId, ai_argumentsFingerprint = fingerprint,
          ai_confirmedByUserId = map_option sc_confirmedByUserId (tx_confirmation context)\<rparr>))"

definition isInternetToolTarget :: "string \<Rightarrow> bool" where
  "isInternetToolTarget value = (value \<notin> set AGENT_TOOL_EXECUTION_TARGETS)"

lemma authorize_Inr_iff:
  "authorizeAgentToolInvocation sha256 p x = Inr auth \<longleftrightarrow>
     trim (tp_toolId p) \<noteq> [] \<and> trim (tp_requiredPermission p) \<noteq> [] \<and>
     tx_companyId x = tx_serviceSessionCompanyId x \<and> trim (tp_toolId p) \<in> set (tx_assignedToolIds x) \<and>
     tp_requiredCapability p \<in> set (tx_grantedCapabilities x) \<and>
     tp_requiredPermission p \<in> set (tx_serverGrantedPermissions x) \<and>
     (tp_allowedDepartmentIds p = [] \<or> tx_currentDepartmentId x \<in> set (tp_allowedDepartmentIds p)) \<and>
     ai_toolId auth = trim (tp_toolId p) \<and>
     fingerprintAgentToolArguments sha256 (tx_arguments x) = Inr (ai_argumentsFingerprint auth) \<and>
     (if tp_requiredCapability p = AL_sensitive_write
      then validConfirmation x (ai_toolId auth) (ai_argumentsFingerprint auth) \<and>
        ai_confirmedByUserId auth = map_option sc_confirmedByUserId (tx_confirmation x)
      else ai_confirmedByUserId auth = None)"
  by (cases auth) (auto simp: authorizeAgentToolInvocation_def Let_def rbind_Inr_iff)

text \<open>Texts of arguments that digest to the same fingerprint are the same arguments, unless the
  digest collides on them.\<close>

lemma fingerprint_inject:
  assumes "fingerprintAgentToolArguments sha256 a = Inr f" "fingerprintAgentToolArguments sha256 b = Inr f"
    and "json_ok (JObject a)" "json_ok (JObject b)"
    and "\<And>s t. stableJson (JObject a) = Inr s \<Longrightarrow> stableJson (JObject b) = Inr t \<Longrightarrow> sha256 s = sha256 t \<Longrightarrow> s = t"
  shows "canon (JObject a) = canon (JObject b)"
proof -
  from assms(1,2) obtain s t where st: "stableJson (JObject a) = Inr s" "stableJson (JObject b) = Inr t"
    "sha256 s = sha256 t"
    unfolding fingerprintAgentToolArguments_def rbind_Inr_iff by auto
  with assms(5) have "s @ [] = t @ []" by simp
  from stableJson_decode [OF assms(3,4) st(1,2) this] show ?thesis by (simp del: canon.simps)
qed


section \<open>The runtime of an agent\<close>

datatype lume_agent_type =
  AT_orchestrator | AT_customer_service | AT_specialist | AT_silent_classifier | AT_supervisor

datatype agent_runtime_status = AR_draft | AR_active | AR_superseded | AR_archived

record runtime_config =
  rc_provider :: string
  rc_model :: string
  rc_credentialRef :: string
  rc_credentialIdentifier :: string
  rc_temperature :: "js_float option"
  rc_maxOutputTokens :: "js_number option"
  rc_status :: agent_runtime_status

definition OPENAI_PROVIDER :: string where
  "OPENAI_PROVIDER = ''openai''"

text \<open>The patterns; with the flag \<open>i\<close> a class of lower-case letters admits both cases.\<close>

definition is_alnum :: "char \<Rightarrow> bool" where
  "is_alnum c \<longleftrightarrow> is_lower c \<or> is_upper c \<or> is_digit c"

definition identifier_pattern :: "string \<Rightarrow> nat \<Rightarrow> nat \<Rightarrow> string \<Rightarrow> bool" where
  "identifier_pattern extra least most s =
     (case s of [] \<Rightarrow> False
      | c # cs \<Rightarrow> is_alnum c \<and> list_all (\<lambda>d. is_alnum d \<or> d \<in> set extra) cs \<and>
          least \<le> length cs \<and> length cs \<le> most)"

definition PROVIDER_IDENTIFIER :: "string \<Rightarrow> bool" where
  "PROVIDER_IDENTIFIER s = identifier_pattern ''._-'' 1 79 s"

definition MODEL_IDENTIFIER :: "string \<Rightarrow> bool" where
  "MODEL_IDENTIFIER s = identifier_pattern ''._-'' 1 119 s"

definition starts_with_ci :: "string \<Rightarrow> string \<Rightarrow> bool" where
  "starts_with_ci p s \<longleftrightarrow> to_lower (take (length p) s) = p"

definition CREDENTIAL_SCHEMES :: "string list" where
  "CREDENTIAL_SCHEMES = [''env://'', ''secret://'', ''vault://'', ''docker-secret://'']"

definition CREDENTIAL_REFERENCE :: "string \<Rightarrow> bool" where
  "CREDENTIAL_REFERENCE s =
     list_ex (\<lambda>p. starts_with_ci p s \<and> identifier_pattern ''/_.-'' 2 199 (drop (length p) s)) CREDENTIAL_SCHEMES"

text \<open>\<open>/^(sk-|sess-|Bearer\s)/iu\<close>\<close>

definition looks_like_key :: "string \<Rightarrow> bool" where
  "looks_like_key s \<longleftrightarrow> starts_with_ci ''sk-'' s \<or> starts_with_ci ''sess-'' s \<or>
     (starts_with_ci ''bearer'' s \<and> drop 6 s \<noteq> [] \<and> is_ws (hd (drop 6 s)))"

definition assertSafeCredentialReference :: "string \<Rightarrow> string result" where
  "assertSafeCredentialReference value =
     (let normalized = trim value in
      if looks_like_key normalized \<or> \<not> CREDENTIAL_REFERENCE normalized
      then Inl (validationError ''credential-reference'') else Inr normalized)"

text \<open>Comparison of finite numbers, by their exact decimals.\<close>

definition float_le :: "js_float \<Rightarrow> js_float \<Rightarrow> bool" where
  "float_le a b \<longleftrightarrow> ed_units (subtract (decimal a) (decimal b)) \<le> 0"

lemma float_le_iff:
  assumes "float_ok (Finite a ds n)" and "float_ok (Finite b es m)"
  shows "float_le (Finite a ds n) (Finite b es m) \<longleftrightarrow>
    float_value (Finite a ds n) \<le> float_value (Finite b es m)"
proof -
  have "float_le (Finite a ds n) (Finite b es m) \<longleftrightarrow>
      \<not> 0 < exact_value (subtract (decimal (Finite a ds n)) (decimal (Finite b es m)))"
    unfolding float_le_def exact_value_sign(2) [symmetric] by linarith
  then show ?thesis
    unfolding exact_value_subtract exact_value_decimal [OF assms(1)] exact_value_decimal [OF assms(2)]
    by linarith
qed

definition temperature_in_range :: "js_float \<Rightarrow> bool" where
  "temperature_in_range t \<longleftrightarrow>
     t \<noteq> Not_finite \<and> float_le (Finite False ''0'' 1) t \<and> float_le t (Finite False ''2'' 1)"

definition tokens_in_range :: "js_number \<Rightarrow> bool" where
  "tokens_in_range n = (case n of JInt k \<Rightarrow> 64 \<le> k \<and> k \<le> 128000 | _ \<Rightarrow> False)"

definition validateAgentRuntimeConfig :: "runtime_config \<Rightarrow> runtime_config result" where
  "validateAgentRuntimeConfig config =
     (let provider = to_lower (trim (rc_provider config)); model = trim (rc_model config) in
      if \<not> PROVIDER_IDENTIFIER provider then Inl (validationError ''provider'')
      else if \<not> MODEL_IDENTIFIER model then Inl (validationError ''model'')
      else rbind (assertSafeCredentialReference (rc_credentialRef config)) (\<lambda>credentialRef.
        let credentialIdentifier = trim (rc_credentialIdentifier config) in
        if credentialIdentifier = [] \<or> length credentialIdentifier > 120
        then Inl (validationError ''credential-identifier'')
        else if (case rc_temperature config of None \<Rightarrow> False | Some t \<Rightarrow> \<not> temperature_in_range t)
        then Inl (validationError ''temperature'')
        else if (case rc_maxOutputTokens config of None \<Rightarrow> False | Some n \<Rightarrow> \<not> tokens_in_range n)
        then Inl (validationError ''max-output-tokens'')
        else Inr (config\<lparr>rc_provider := provider, rc_model := model,
          rc_credentialRef := credentialRef, rc_credentialIdentifier := credentialIdentifier\<rparr>)))"

definition validateOpenAiRuntimeConfig :: "runtime_config \<Rightarrow> runtime_config result" where
  "validateOpenAiRuntimeConfig config =
     rbind (validateAgentRuntimeConfig config) (\<lambda>validated.
       if rc_provider validated \<noteq> OPENAI_PROVIDER then Inl (validationError ''not-openai'')
       else Inr (validated\<lparr>rc_provider := OPENAI_PROVIDER\<rparr>))"

definition canAgentCommunicateWithCustomer :: "lume_agent_type \<Rightarrow> bool" where
  "canAgentCommunicateWithCustomer t = (t = AT_customer_service)"

record prompt_layers =
  pl_systemPrompt :: string
  pl_platformAgentPrompt :: string
  pl_tenantInstructions :: "string option"
  pl_runtimeContext :: string
  pl_platformPromptVersion :: nat
  pl_tenantInstructionsVersion :: "nat option"

definition prompt_section :: "string \<Rightarrow> string \<Rightarrow> string \<Rightarrow> string" where
  "prompt_section tag attrs body =
     CHR ''<'' # tag @ attrs @ [CHR ''>'', CHR 0x0A] @ trim body @ CHR 0x0A # ''</'' @ tag @ ''>''"

definition version_attribute :: "nat \<Rightarrow> string" where
  "version_attribute v = '' version='' @ [CHR 0x22] @ nat_text v @ [CHR 0x22]"

fun join_sections :: "string list \<Rightarrow> string" where
  "join_sections [] = []"
| "join_sections [s] = s"
| "join_sections (s # t # ts) = s @ [CHR 0x0A, CHR 0x0A] @ join_sections (t # ts)"

definition buildAgentPrompt :: "prompt_layers \<Rightarrow> string result" where
  "buildAgentPrompt layers =
     (if trim (pl_systemPrompt layers) = [] then Inl (validationError ''system-prompt-empty'')
      else if trim (pl_platformAgentPrompt layers) = [] then Inl (validationError ''platform-agent-prompt-empty'')
      else if trim (pl_runtimeContext layers) = [] then Inl (validationError ''runtime-context-empty'')
      else
        (let first = [prompt_section ''system'' [] (pl_systemPrompt layers),
               prompt_section ''platform-agent'' (version_attribute (pl_platformPromptVersion layers))
                 (pl_platformAgentPrompt layers)];
             last_section = [prompt_section ''runtime-context'' [] (pl_runtimeContext layers)]
         in case pl_tenantInstructions layers of
              None \<Rightarrow> Inr (join_sections (first @ last_section))
            | Some instructions \<Rightarrow>
                if trim instructions = [] then Inr (join_sections (first @ last_section))
                else (case pl_tenantInstructionsVersion layers of
                    None \<Rightarrow> Inl (validationError ''tenant-instructions-version'')
                  | Some v \<Rightarrow> Inr (join_sections (first @
                      [prompt_section ''tenant-instructions'' (version_attribute v) instructions] @ last_section)))))"

record agent_tool_policy =
  at_code :: string
  at_autonomy :: autonomy_level
  at_requiresAuthorization :: bool

definition assertToolInvocationAllowed ::
  "autonomy_level list \<Rightarrow> agent_tool_policy \<Rightarrow> bool \<Rightarrow> string option \<Rightarrow> unit result" where
  "assertToolInvocationAllowed granted tool authorizationGranted confirmationContext =
     (if at_autonomy tool \<notin> set granted then Inl (validationError ''agent-lacks-capability'')
      else if at_requiresAuthorization tool \<and> \<not> authorizationGranted
      then Inl (validationError ''authorization-before-data'')
      else if at_autonomy tool = AL_sensitive_write \<and>
        length (case confirmationContext of None \<Rightarrow> [] | Some c \<Rightarrow> trim c) < 20
      then Inl (validationError ''sensitive-confirmation-context'')
      else Inr ())"

datatype attempt_outcome = AO_succeeded | AO_failed

record attempt_audit =
  aa_attempt :: int
  aa_provider :: string
  aa_model :: string
  aa_runtimeConfigVersion :: int
  aa_credentialIdentifier :: string
  aa_outcome :: attempt_outcome
  aa_errorCode :: "string option"

definition createExecutionAttemptAudit ::
  "js_number \<Rightarrow> runtime_config \<Rightarrow> js_number \<Rightarrow> attempt_outcome \<Rightarrow> string option \<Rightarrow> attempt_audit result" where
  "createExecutionAttemptAudit attempt config version outcome errorCode =
     rbind (validateAgentRuntimeConfig config) (\<lambda>runtime.
     case positive_integer attempt of None \<Rightarrow> Inl (validationError ''attempt'')
     | Some n \<Rightarrow> (case positive_integer version of None \<Rightarrow> Inl (validationError ''runtime-config-version'')
       | Some v \<Rightarrow> Inr \<lparr>aa_attempt = n, aa_provider = rc_provider runtime, aa_model = rc_model runtime,
           aa_runtimeConfigVersion = v, aa_credentialIdentifier = rc_credentialIdentifier runtime,
           aa_outcome = outcome, aa_errorCode = (if falsy errorCode then None else errorCode)\<rparr>))"

lemma assertSafeCredentialReference_Inr:
  "assertSafeCredentialReference v = Inr r \<longleftrightarrow>
     r = trim v \<and> \<not> looks_like_key r \<and> CREDENTIAL_REFERENCE r"
  by (auto simp: assertSafeCredentialReference_def Let_def)

lemma trim_lower: "trim s = s \<Longrightarrow> trim (to_lower s) = to_lower s"
  by (auto simp: trim_id_iff to_lower_def hd_map last_map lower_char_ws)

text \<open>A validated configuration is in normal form: validating it again changes nothing.\<close>

lemma validateAgentRuntimeConfig_idem:
  assumes "validateAgentRuntimeConfig c = Inr d"
  shows "validateAgentRuntimeConfig d = Inr d"
proof -
  have t: "trim (to_lower (trim (rc_provider c))) = to_lower (trim (rc_provider c))"
    by (rule trim_lower) simp
  show ?thesis
    using assms
    by (auto simp: validateAgentRuntimeConfig_def Let_def rbind_Inr_iff assertSafeCredentialReference_Inr t
        split: if_splits)
qed

section \<open>Properties\<close>


text \<open>
  C19. A human confirmation of a sensitive write cannot be replayed for other arguments: where
  the digest does not collide on the two texts, the arguments that run are the arguments that
  were confirmed, up to the order of the fields, in the confirmed company, session and tool and
  before the confirmation expires.
\<close>

theorem confirmation_binds_arguments:
  assumes "authorizeAgentToolInvocation sha256 p x = Inr auth"
    and "tp_requiredCapability p = AL_sensitive_write" and "tx_confirmation x = Some c"
    and "fingerprintAgentToolArguments sha256 args = Inr (sc_argumentsFingerprint c)"
    and "json_ok (JObject args)" and "json_ok (JObject (tx_arguments x))"
    and "\<And>s t. stableJson (JObject (tx_arguments x)) = Inr s \<Longrightarrow> stableJson (JObject args) = Inr t \<Longrightarrow>
      sha256 s = sha256 t \<Longrightarrow> s = t"
  shows "canon (JObject (tx_arguments x)) = canon (JObject args) \<and>
    sc_companyId c = tx_companyId x \<and> sc_serviceSessionId c = tx_serviceSessionId x \<and>
    sc_toolId c = trim (tp_toolId p) \<and> sc_confirmedAt c \<le> tx_now x \<and> tx_now x < sc_expiresAt c"
proof -
  from assms(1,2) have a: "fingerprintAgentToolArguments sha256 (tx_arguments x) = Inr (ai_argumentsFingerprint auth)"
    "validConfirmation x (trim (tp_toolId p)) (ai_argumentsFingerprint auth)"
    unfolding authorize_Inr_iff by auto
  from a(2) have c: "sc_argumentsFingerprint c = ai_argumentsFingerprint auth"
    "sc_companyId c = tx_companyId x \<and> sc_serviceSessionId c = tx_serviceSessionId x \<and>
     sc_toolId c = trim (tp_toolId p) \<and> sc_confirmedAt c \<le> tx_now x \<and> tx_now x < sc_expiresAt c"
    by (simp_all add: validConfirmation_def assms(3))
  from fingerprint_inject [OF a(1) assms(4) [unfolded c(1)] assms(6,5,7)] c(2) show ?thesis by blast
qed

definition sample_arguments :: "(string \<times> json) list" where
  "sample_arguments = [(''valor'', JNumber (Finite False ''125'' 2)), (''cliente'', JString ''A'')]"

definition sample_confirmed_arguments :: "(string \<times> json) list" where
  "sample_confirmed_arguments = [(''cliente'', JString ''A''), (''valor'', JNumber (Finite False ''125'' 2))]"

definition sample_tool_policy :: tool_policy where
  "sample_tool_policy = \<lparr>tp_toolId = ''t1 '', tp_requiredCapability = AL_sensitive_write,
     tp_requiredPermission = ''commercial:manage'', tp_executionTarget = ET_internal_service,
     tp_allowedDepartmentIds = []\<rparr>"

definition sample_text :: string where
  "sample_text = (case stableJson (JObject sample_arguments) of Inl _ \<Rightarrow> [] | Inr s \<Rightarrow> s)"

definition sample_tool_context :: tool_context where
  "sample_tool_context = \<lparr>tx_companyId = ''c1'', tx_serviceSessionCompanyId = ''c1'',
     tx_serviceSessionId = ''s1'', tx_currentDepartmentId = ''d1'', tx_assignedToolIds = [''t1''],
     tx_grantedCapabilities = [AL_sensitive_write], tx_serverGrantedPermissions = [''commercial:manage''],
     tx_arguments = sample_arguments,
     tx_confirmation = Some \<lparr>sc_companyId = ''c1'', sc_serviceSessionId = ''s1'', sc_toolId = ''t1'',
       sc_argumentsFingerprint = sample_text, sc_confirmedByUserId = ''u1'', sc_confirmedAt = 5,
       sc_expiresAt = 20\<rparr>,
     tx_now = 10\<rparr>"

lemma sample_texts:
  "stableJson (JObject sample_arguments) = Inr sample_text"
  "stableJson (JObject sample_confirmed_arguments) = Inr sample_text"
  by code_simp+

definition sample_confirmation :: sensitive_confirmation where
  "sample_confirmation = the (tx_confirmation sample_tool_context)"

lemma sample_authorized:
  "map_sum id ai_toolId (authorizeAgentToolInvocation (\<lambda>t. t) sample_tool_policy sample_tool_context) = Inr ''t1''"
  by code_simp

lemma sample_json_ok:
  "json_ok (JObject sample_confirmed_arguments)" "json_ok (JObject sample_arguments)"
  by code_simp+

lemma confirmation_binds_arguments_witness:
  "canon (JObject sample_arguments) = canon (JObject sample_confirmed_arguments) \<and>
   sample_arguments \<noteq> sample_confirmed_arguments"
proof -
  obtain auth where "authorizeAgentToolInvocation (\<lambda>t. t) sample_tool_policy sample_tool_context = Inr auth"
    using sample_authorized by (cases "authorizeAgentToolInvocation (\<lambda>t. t) sample_tool_policy sample_tool_context") auto
  moreover have "tp_requiredCapability sample_tool_policy = AL_sensitive_write"
    "tx_confirmation sample_tool_context = Some sample_confirmation"
    by (simp_all add: sample_tool_policy_def sample_confirmation_def sample_tool_context_def)
  moreover have "fingerprintAgentToolArguments (\<lambda>t. t) sample_confirmed_arguments =
      Inr (sc_argumentsFingerprint sample_confirmation)"
    unfolding fingerprintAgentToolArguments_def sample_texts
    by (simp add: sample_confirmation_def sample_tool_context_def)
  moreover have "tx_arguments sample_tool_context = sample_arguments"
    by (simp add: sample_tool_context_def)
  ultimately have "canon (JObject sample_arguments) = canon (JObject sample_confirmed_arguments)"
    using confirmation_binds_arguments [of "\<lambda>t. t" sample_tool_policy sample_tool_context _ sample_confirmation
        sample_confirmed_arguments] sample_json_ok by auto
  then show ?thesis by (simp only:) (simp add: sample_arguments_def sample_confirmed_arguments_def)
qed

end
