(* ===== verification/Commercial.thy ===== *)
theory Commercial
  imports Access_Policy "HOL-Library.Word"
begin

text \<open>
  The commercial context: quote statuses (\<open>domain/commercial/quote-status.ts\<close>), the manual closure
  of a quote (\<open>quote-closure.ts\<close>), the authorities around a confirmed service
  (\<open>confirmed-service.ts\<close>) and the checks of a proposal file (\<open>quote-proposal-pdf.ts\<close>).
\<close>

section \<open>What the commercial context relies on\<close>

text \<open>
  The interface of the access context as the commercial policies use it: which permissions an
  authority can exercise, and which authorities are tenant wide.
\<close>

locale permission_oracle =
  fixes can :: "authority \<Rightarrow> permission \<Rightarrow> bool"
    and wide :: "authority \<Rightarrow> bool"
  assumes admin_can: "au_isAdministrator a \<Longrightarrow> can a p"
    and wide_can: "wide a \<Longrightarrow> isTenantBusinessPermission p \<Longrightarrow> can a p"
    and portal_cannot: "\<not> au_isAdministrator a \<Longrightarrow> isDocumentPortalAuthority a \<Longrightarrow>
      p \<notin> set DOCUMENT_PORTAL_PERMISSIONS \<Longrightarrow> \<not> can a p"
    and portal_not_wide: "\<not> au_isAdministrator a \<Longrightarrow> isDocumentPortalAuthority a \<Longrightarrow> \<not> wide a"
begin

text \<open>A document portal account passes no gate made of tenant-wide authority or of one permission
  outside the portal.\<close>

lemma portal_gate:
  "\<not> au_isAdministrator a \<Longrightarrow> isDocumentPortalAuthority a \<Longrightarrow> p \<notin> set DOCUMENT_PORTAL_PERMISSIONS \<Longrightarrow>
     \<not> (wide a \<or> (extra \<and> can a p))"
  using portal_cannot portal_not_wide by blast

end

interpretation access: permission_oracle canExercisePermission hasTenantWideAuthority
  by unfold_locales
    (auto simp: canExercisePermission_def hasTenantWideAuthority_def)

section \<open>Quote statuses and manual closure\<close>

datatype quote_status =
    QS_not_started | QS_collecting_information | QS_waiting_for_customer | QS_under_review
  | QS_approved | QS_rejected | QS_cancelled

primrec quote_status_str :: "quote_status \<Rightarrow> string" where
  "quote_status_str QS_not_started = ''not-started''"
| "quote_status_str QS_collecting_information = ''collecting-information''"
| "quote_status_str QS_waiting_for_customer = ''waiting-for-customer''"
| "quote_status_str QS_under_review = ''under-review''"
| "quote_status_str QS_approved = ''approved''"
| "quote_status_str QS_rejected = ''rejected''"
| "quote_status_str QS_cancelled = ''cancelled''"

definition QUOTE_REQUEST_STATUSES :: "quote_status list" where
  "QUOTE_REQUEST_STATUSES = [QS_not_started, QS_collecting_information, QS_waiting_for_customer,
     QS_under_review, QS_approved, QS_rejected, QS_cancelled]"

definition ACTIVE_QUOTE_REQUEST_STATUSES :: "quote_status list" where
  "ACTIVE_QUOTE_REQUEST_STATUSES = [QS_collecting_information, QS_waiting_for_customer,
     QS_under_review, QS_approved]"

definition isQuoteRequestStatus :: "string \<Rightarrow> bool" where
  "isQuoteRequestStatus v \<longleftrightarrow> v \<in> set (map quote_status_str QUOTE_REQUEST_STATUSES)"

datatype closure_classification =
    CC_opportunity_abandoned | CC_quote_rejected | CC_acceptance_cancelled | CC_superseded
  | CC_legacy_unclassified

definition MANUAL_QUOTE_CANCELLATION_CLASSIFICATIONS :: "closure_classification list" where
  "MANUAL_QUOTE_CANCELLATION_CLASSIFICATIONS = [CC_opportunity_abandoned, CC_acceptance_cancelled]"

definition normalizeManualQuoteCancellation ::
  "closure_classification option \<Rightarrow> string option \<Rightarrow> (closure_classification \<times> string) result" where
  "normalizeManualQuoteCancellation classification reason =
     (case classification of
        None \<Rightarrow> Inl (validationError ''closure-classification'')
      | Some c \<Rightarrow>
          if c \<notin> set MANUAL_QUOTE_CANCELLATION_CLASSIFICATIONS
          then Inl (validationError ''closure-classification'')
          else
            (let r = (case reason of None \<Rightarrow> [] | Some t \<Rightarrow> trim t) in
             if length r < 3 \<or> length r > 500 then Inl (validationError ''closure-reason'')
             else Inr (c, r)))"

definition assertManualQuoteCancellationTransition ::
  "quote_status \<Rightarrow> closure_classification \<Rightarrow> unit result" where
  "assertManualQuoteCancellationTransition current c =
     (if c = CC_acceptance_cancelled \<and> current \<noteq> QS_approved
      then Inl (validationError ''acceptance-cancelled-requires-approval'')
      else if c = CC_opportunity_abandoned \<and> current = QS_approved
      then Inl (validationError ''approved-quote-is-acceptance-cancelled'')
      else Inr ())"

lemma normalizeManualQuoteCancellation_Inr:
  "normalizeManualQuoteCancellation c r = Inr (c', r') \<longleftrightarrow>
     c = Some c' \<and> c' \<in> {CC_opportunity_abandoned, CC_acceptance_cancelled} \<and>
     r' = (case r of None \<Rightarrow> [] | Some t \<Rightarrow> trim t) \<and> 3 \<le> length r' \<and> length r' \<le> 500"
  by (auto simp: normalizeManualQuoteCancellation_def MANUAL_QUOTE_CANCELLATION_CLASSIFICATIONS_def
      Let_def split: option.splits)

section \<open>Confirmed services\<close>

datatype requirement_kind = RK_financial | RK_operational

primrec requirement_kind_str :: "requirement_kind \<Rightarrow> string" where
  "requirement_kind_str RK_financial = ''financial''"
| "requirement_kind_str RK_operational = ''operational''"

datatype requirement_outcome = RO_SATISFIED | RO_NOT_APPLICABLE

record commercial_authority =
  ca_isAdministrator :: "bool option"
  ca_departments :: "string list"
  ca_permissionCodes :: "string list option"
  ca_permissions :: "string list"
  ca_documentAccessMode :: "string option"

definition normalizedAuthorityDepartments :: "commercial_authority \<Rightarrow> string list" where
  "normalizedAuthorityDepartments a = map kebab (ca_departments a)"

text \<open>\<open>{ ...authority, departments, isAdministrator }\<close>\<close>

definition as_authority :: "commercial_authority \<Rightarrow> bool \<Rightarrow> authority" where
  "as_authority a isAdministrator = \<lparr>au_isAdministrator = isAdministrator,
     au_departments = Some (normalizedAuthorityDepartments a),
     au_permissionCodes = ca_permissionCodes a, au_permissions = Some (ca_permissions a),
     au_documentAccessMode = ca_documentAccessMode a\<rparr>"

definition hasElevatedTenantAuthority :: "commercial_authority \<Rightarrow> bool" where
  "hasElevatedTenantAuthority a \<longleftrightarrow>
     ca_isAdministrator a = Some True \<or>
     (''directorate'' \<in> set (normalizedAuthorityDepartments a) \<and>
      hasTenantWideAuthority (as_authority a False))"

definition canExerciseCommercialPermission :: "commercial_authority \<Rightarrow> permission \<Rightarrow> bool" where
  "canExerciseCommercialPermission a p =
     canExercisePermission (as_authority a (ca_isAdministrator a = Some True)) p"

definition assertCanConfirmCommercialService :: "commercial_authority \<Rightarrow> unit result" where
  "assertCanConfirmCommercialService a =
     (if hasElevatedTenantAuthority a then Inr ()
      else if ''commercial'' \<notin> set (normalizedAuthorityDepartments a) \<or>
        \<not> canExerciseCommercialPermission a (Perm R_commercial A_manage)
      then Inl (forbidden ''confirm-service-needs-commercial-manage'')
      else Inr ())"

definition normalizeCommercialServiceRequirementKind :: "string \<Rightarrow> requirement_kind result" where
  "normalizeCommercialServiceRequirementKind v =
     (if v = ''financial'' then Inr RK_financial
      else if v = ''operational'' then Inr RK_operational
      else Inl (validationError ''requirement-kind''))"

definition assertCanAttestCommercialServiceRequirement ::
  "commercial_authority \<Rightarrow> requirement_kind \<Rightarrow> unit result" where
  "assertCanAttestCommercialServiceRequirement a kind =
     (if hasElevatedTenantAuthority a then Inr ()
      else
        (let departments = normalizedAuthorityDepartments a;
             allowed = (if kind = RK_financial
               then ''financial'' \<in> set departments \<and>
                 canExerciseCommercialPermission a (Perm R_financial A_approve)
               else ''operations'' \<in> set departments \<and>
                 canExerciseCommercialPermission a (Perm R_operations A_manage))
         in if \<not> allowed
            then Inl (forbidden (if kind = RK_financial then ''attest-financial'' else ''attest-operational''))
            else Inr ()))"

definition assertCanMarkCommercialServiceRequirementNotApplicable ::
  "commercial_authority \<Rightarrow> unit result" where
  "assertCanMarkCommercialServiceRequirementNotApplicable a =
     (if ca_isAdministrator a = Some True \<or> hasElevatedTenantAuthority a then Inr ()
      else if ''management'' \<notin> set (normalizedAuthorityDepartments a) \<or>
        \<not> canExerciseCommercialPermission a (Perm R_service_confirmations A_approve)
      then Inl (forbidden ''mark-not-applicable'')
      else Inr ())"

definition readiness_gates :: "(string \<times> permission) list" where
  "readiness_gates = [
     (''commercial'', Perm R_commercial A_view), (''commercial'', Perm R_commercial A_manage),
     (''financial'', Perm R_financial A_view), (''financial'', Perm R_financial A_approve),
     (''operations'', Perm R_operations A_view), (''operations'', Perm R_operations A_manage)]"

definition assertCanViewCommercialServiceReadiness :: "commercial_authority \<Rightarrow> unit result" where
  "assertCanViewCommercialServiceReadiness a =
     (if hasElevatedTenantAuthority a then Inr ()
      else
        (let departments = normalizedAuthorityDepartments a;
             allowed = list_ex (\<lambda>(d, p). d \<in> set departments \<and> canExerciseCommercialPermission a p)
               readiness_gates
         in if \<not> allowed \<and>
              \<not> canExerciseCommercialPermission a (Perm R_service_confirmations A_approve)
            then Inl (forbidden ''view-readiness'')
            else Inr ()))"

definition normalizeConfirmationBasis :: "string \<Rightarrow> string result" where
  "normalizeConfirmationBasis v =
     (let n = trim v in
      if length n < 3 \<or> length n > 500 then Inl (validationError ''confirmation-basis'') else Inr n)"

definition normalizeCommercialServiceRequirementEvidence :: "string \<Rightarrow> string result" where
  "normalizeCommercialServiceRequirementEvidence v =
     (let n = compact v in
      if length n < 3 \<or> length n > 500 then Inl (validationError ''requirement-evidence'') else Inr n)"

definition normalizeCommercialServiceRequirementReason :: "string \<Rightarrow> string result" where
  "normalizeCommercialServiceRequirementReason v =
     (let n = compact v in
      if length n < 3 \<or> length n > 500 then Inl (validationError ''requirement-reason'') else Inr n)"

definition assertExpectedAcceptedQuoteVersion :: "js_number \<Rightarrow> unit result" where
  "assertExpectedAcceptedQuoteVersion v =
     (case positive_integer v of None \<Rightarrow> Inl (validationError ''expected-version'') | Some _ \<Rightarrow> Inr ())"

lemmas commercial_gate_defs = assertCanConfirmCommercialService_def
  assertCanAttestCommercialServiceRequirement_def
  assertCanMarkCommercialServiceRequirementNotApplicable_def
  assertCanViewCommercialServiceReadiness_def

text \<open>A document portal account that is no administrator passes none of the four gates.\<close>

definition portal_account :: "commercial_authority \<Rightarrow> bool" where
  "portal_account a \<longleftrightarrow> ca_isAdministrator a \<noteq> Some True \<and>
     map_option kebab (ca_documentAccessMode a) = Some ''document-portal''"

lemma portal_cannot_exercise:
  assumes "portal_account a" and "p \<notin> set DOCUMENT_PORTAL_PERMISSIONS"
  shows "\<not> canExerciseCommercialPermission a p"
  using assms access.portal_cannot [of "as_authority a False" p]
  by (simp add: portal_account_def canExerciseCommercialPermission_def as_authority_def
      isDocumentPortalAuthority_def)

lemma portal_not_elevated: "portal_account a \<Longrightarrow> \<not> hasElevatedTenantAuthority a"
  using access.portal_not_wide [of "as_authority a False"]
  by (simp add: portal_account_def hasElevatedTenantAuthority_def as_authority_def
      isDocumentPortalAuthority_def)

lemma portal_account_refused:
  assumes "portal_account a"
  shows "assertCanConfirmCommercialService a = Inl (forbidden ''confirm-service-needs-commercial-manage'')"
    and "assertCanMarkCommercialServiceRequirementNotApplicable a = Inl (forbidden ''mark-not-applicable'')"
    and "assertCanViewCommercialServiceReadiness a = Inl (forbidden ''view-readiness'')"
    and "\<exists>m. assertCanAttestCommercialServiceRequirement a kind = Inl (forbidden m)"
  using assms portal_not_elevated [OF assms] portal_cannot_exercise [OF assms]
  by (simp_all add: commercial_gate_defs portal_account_def readiness_gates_def
      DOCUMENT_PORTAL_PERMISSIONS_def Let_def)

text \<open>Elevated authority passes all of them.\<close>

lemma elevated_passes:
  assumes "hasElevatedTenantAuthority a"
  shows "assertCanConfirmCommercialService a = Inr ()"
    and "assertCanMarkCommercialServiceRequirementNotApplicable a = Inr ()"
    and "assertCanViewCommercialServiceReadiness a = Inr ()"
    and "assertCanAttestCommercialServiceRequirement a kind = Inr ()"
  using assms by (simp_all add: commercial_gate_defs)

text \<open>Separation of duties: without elevated authority each gate needs its own department.\<close>

lemma attest_needs_department:
  assumes "assertCanAttestCommercialServiceRequirement a kind = Inr ()"
    and "\<not> hasElevatedTenantAuthority a"
  shows "(case kind of RK_financial \<Rightarrow> ''financial'' | RK_operational \<Rightarrow> ''operations'')
     \<in> set (normalizedAuthorityDepartments a)"
  using assms by (cases kind)
    (simp_all add: assertCanAttestCommercialServiceRequirement_def Let_def split: if_splits)

section \<open>The schedule of a quote\<close>

text \<open>
  Dates are milliseconds since the epoch. \<open>presentDateOnly\<close> cuts the ISO text of a date after the
  day; on the years 0 to 9999, where that text has ten characters, its equality and order are
  those of the day number. \<open>dateOnlyFromDateTime\<close> reads the civil day of an instant in
  America/Sao_Paulo from the time zone data of the platform: a parameter, an instant to the UTC
  midnight of its civil day.
\<close>

record quote_schedule =
  qs_departureDate :: "int option"
  qs_departureAt :: "int option"
  qs_returnDate :: "int option"
  qs_returnAt :: "int option"

definition presentDateOnly :: "int option \<Rightarrow> int option" where
  "presentDateOnly v = map_option (\<lambda>t. t div 86400000) v"

definition assertQuoteScheduleConsistency ::
  "(int \<Rightarrow> int) \<Rightarrow> quote_schedule \<Rightarrow> bool \<Rightarrow> unit result" where
  "assertQuoteScheduleConsistency dateOnlyFromDateTime s requireDepartureDate =
     (let departureDate = presentDateOnly (qs_departureDate s);
          returnDate = presentDateOnly (qs_returnDate s);
          civil = (\<lambda>t. presentDateOnly (Some (dateOnlyFromDateTime t)))
      in if requireDepartureDate \<and> departureDate = None
         then Inl (validationError ''departure-date-required'')
         else if qs_departureAt s \<noteq> None \<and> departureDate = None
         then Inl (validationError ''departure-at-without-date'')
         else if qs_returnAt s \<noteq> None \<and> returnDate = None
         then Inl (validationError ''return-at-without-date'')
         else if (case qs_departureAt s of None \<Rightarrow> False | Some t \<Rightarrow> departureDate \<noteq> civil t)
         then Inl (validationError ''departure-day-mismatch'')
         else if (case qs_returnAt s of None \<Rightarrow> False | Some t \<Rightarrow> returnDate \<noteq> civil t)
         then Inl (validationError ''return-day-mismatch'')
         else if (case (departureDate, returnDate) of (Some d, Some r) \<Rightarrow> r < d | _ \<Rightarrow> False)
         then Inl (validationError ''return-date-before-departure'')
         else if (case (qs_departureAt s, qs_returnAt s) of (Some d, Some r) \<Rightarrow> r < d | _ \<Rightarrow> False)
         then Inl (validationError ''return-before-departure'')
         else Inr ())"

lemma schedule_consistent_iff:
  "assertQuoteScheduleConsistency civil s req = Inr () \<longleftrightarrow>
     (req \<longrightarrow> qs_departureDate s \<noteq> None) \<and>
     (\<forall>t. qs_departureAt s = Some t \<longrightarrow>
        presentDateOnly (qs_departureDate s) = Some (civil t div 86400000)) \<and>
     (\<forall>t. qs_returnAt s = Some t \<longrightarrow>
        presentDateOnly (qs_returnDate s) = Some (civil t div 86400000)) \<and>
     (\<forall>d r. qs_departureDate s = Some d \<longrightarrow> qs_returnDate s = Some r \<longrightarrow>
        d div 86400000 \<le> r div 86400000) \<and>
     (\<forall>d r. qs_departureAt s = Some d \<longrightarrow> qs_returnAt s = Some r \<longrightarrow> d \<le> r)"
  by (cases "qs_departureDate s"; cases "qs_departureAt s"; cases "qs_returnDate s";
      cases "qs_returnAt s")
    (auto simp: assertQuoteScheduleConsistency_def presentDateOnly_def Let_def)

section \<open>The proposal file\<close>

text \<open>
  File contents are lists of bytes (\<open>Buffer\<close>), the SHA-256 digest is a parameter. Node's
  \<open>toString('ascii')\<close> clears the highest bit of each byte before it decodes.
\<close>

definition QUOTE_PROPOSAL_MAX_PDF_BYTES :: int where
  "QUOTE_PROPOSAL_MAX_PDF_BYTES = 10 * 1024 * 1024"

definition ascii_decode :: "8 word list \<Rightarrow> string" where
  "ascii_decode bs = map (\<lambda>b. char_of (unat b mod 128)) bs"

definition ascii_encode :: "string \<Rightarrow> 8 word list" where
  "ascii_encode s = map (\<lambda>c. word_of_nat (code c)) s"

record quote_proposal_pdf_input =
  pi_originalName :: string
  pi_mimeType :: string
  pi_sizeBytes :: js_number
  pi_content :: "8 word list"

record validated_quote_proposal_pdf =
  vp_fileName :: string
  vp_mimeType :: string
  vp_sizeBytes :: int
  vp_sha256 :: string

text \<open>\<open>value.split(/[\\/]/).at(-1)\<close>: what follows the last path separator.\<close>

definition last_segment :: "string \<Rightarrow> string" where
  "last_segment s = rev (takeWhile (\<lambda>c. c \<noteq> CHR ''/'' \<and> c \<noteq> CHR 0x5C) (rev s))"

definition is_printable :: "char \<Rightarrow> bool" where
  "is_printable c \<longleftrightarrow> 32 \<le> code c \<and> code c \<noteq> 127"

definition has_pdf_extension :: "string \<Rightarrow> bool" where
  "has_pdf_extension s \<longleftrightarrow> 4 \<le> length s \<and> to_lower (drop (length s - 4) s) = ''.pdf''"

definition normalizeFileName :: "string \<Rightarrow> string result" where
  "normalizeFileName v =
     (let fileName = filter is_printable (trim (last_segment v)) in
      if fileName = [] \<or> length fileName > 255 \<or> \<not> has_pdf_extension fileName
      then Inl (validationError ''proposal-file-name'') else Inr fileName)"

definition validateQuoteProposalPdf ::
  "(8 word list \<Rightarrow> string) \<Rightarrow> quote_proposal_pdf_input \<Rightarrow> validated_quote_proposal_pdf result" where
  "validateQuoteProposalPdf sha256 input =
     (if to_lower (pi_mimeType input) \<noteq> ''application/pdf''
      then Inl (validationError ''proposal-mime-type'')
      else case pi_sizeBytes input of
        JInt n \<Rightarrow>
          (if n < 1 \<or> n > QUOTE_PROPOSAL_MAX_PDF_BYTES \<or>
              int (length (pi_content input)) \<noteq> n
           then Inl (validationError ''proposal-size'')
           else if ascii_decode (take 5 (pi_content input)) \<noteq> ''%PDF-'' \<or>
              \<not> includes_list (drop (length (pi_content input) - 2048) (pi_content input))
                  (ascii_encode ''%%EOF'')
           then Inl (validationError ''proposal-signature'')
           else rbind (normalizeFileName (pi_originalName input)) (\<lambda>name.
             Inr \<lparr>vp_fileName = name, vp_mimeType = ''application/pdf'', vp_sizeBytes = n,
                  vp_sha256 = sha256 (pi_content input)\<rparr>))
      | _ \<Rightarrow> Inl (validationError ''proposal-size''))"

lemma last_segment_no_separator:
  "c \<in> set (last_segment s) \<Longrightarrow> c \<noteq> CHR ''/'' \<and> c \<noteq> CHR 0x5C"
  by (auto simp: last_segment_def dest: set_takeWhileD)

lemma set_trim_subset: "set (trim s) \<subseteq> set s"
  by (auto simp: trim_def) (metis set_dropWhileD set_rev)

lemma normalizeFileName_safe:
  assumes "normalizeFileName v = Inr name"
  shows "name \<noteq> []" "length name \<le> 255" "has_pdf_extension name"
    "\<forall>c\<in>set name. is_printable c \<and> c \<noteq> CHR ''/'' \<and> c \<noteq> CHR 0x5C"
proof -
  from assms have n: "name = filter is_printable (trim (last_segment v))"
    and b: "name \<noteq> []" "length name \<le> 255" "has_pdf_extension name"
    by (auto simp: normalizeFileName_def Let_def split: if_splits)
  from b show "name \<noteq> []" "length name \<le> 255" "has_pdf_extension name" by simp_all
  show "\<forall>c\<in>set name. is_printable c \<and> c \<noteq> CHR ''/'' \<and> c \<noteq> CHR 0x5C"
    using set_trim_subset [of "last_segment v"] last_segment_no_separator [of _ v]
    by (auto simp: n)
qed

lemma validateQuoteProposalPdf_Inr:
  "validateQuoteProposalPdf sha256 input = Inr v \<longleftrightarrow>
     to_lower (pi_mimeType input) = ''application/pdf'' \<and>
     pi_sizeBytes input = JInt (int (length (pi_content input))) \<and>
     1 \<le> length (pi_content input) \<and> int (length (pi_content input)) \<le> QUOTE_PROPOSAL_MAX_PDF_BYTES \<and>
     ascii_decode (take 5 (pi_content input)) = ''%PDF-'' \<and>
     includes_list (drop (length (pi_content input) - 2048) (pi_content input))
       (ascii_encode ''%%EOF'') \<and>
     normalizeFileName (pi_originalName input) = Inr (vp_fileName v) \<and>
     vp_mimeType v = ''application/pdf'' \<and> vp_sizeBytes v = int (length (pi_content input)) \<and>
     vp_sha256 v = sha256 (pi_content input)"
proof (cases "pi_sizeBytes input")
  case (JInt n)
  then show ?thesis
    by (cases v) (auto simp: validateQuoteProposalPdf_def rbind_Inr_iff)
qed (simp_all add: validateQuoteProposalPdf_def)

section \<open>Further facts\<close>

text \<open>
  A document portal account that is no administrator passes none of the gates around a
  confirmed service, whatever departments and permission codes are stored for it.
\<close>

theorem portal_account_passes_no_gate:
  assumes "portal_account a"
  shows "assertCanConfirmCommercialService a = Inl (forbidden ''confirm-service-needs-commercial-manage'') \<and>
    assertCanMarkCommercialServiceRequirementNotApplicable a = Inl (forbidden ''mark-not-applicable'') \<and>
    assertCanViewCommercialServiceReadiness a = Inl (forbidden ''view-readiness'') \<and>
    (\<exists>m. assertCanAttestCommercialServiceRequirement a kind = Inl (forbidden m))"
  using portal_account_refused [OF assms] by blast

definition sample_portal_account :: commercial_authority where
  "sample_portal_account = \<lparr>ca_isAdministrator = None, ca_departments = [''directorate'', ''commercial''],
     ca_permissionCodes = Some [''tenant:manage''], ca_permissions = [''commercial:manage''],
     ca_documentAccessMode = Some ''document-portal''\<rparr>"

lemma sample_portal: "portal_account sample_portal_account"
  unfolding portal_account_def sample_portal_account_def by (simp; code_simp)

lemma portal_account_passes_no_gate_witness:
  "assertCanConfirmCommercialService sample_portal_account =
     Inl (forbidden ''confirm-service-needs-commercial-manage'')"
  using portal_account_passes_no_gate [OF sample_portal] by simp

text \<open>
  Separation of duties: without elevated authority, an account that attests both the
  financial and the operational requirement of a service belongs to both departments; an
  account of one department attests its own requirement only.
\<close>

theorem attestations_need_their_departments:
  assumes "\<not> hasElevatedTenantAuthority a"
    and "assertCanAttestCommercialServiceRequirement a kind = Inr ()"
  shows "(case kind of RK_financial \<Rightarrow> ''financial'' | RK_operational \<Rightarrow> ''operations'')
      \<in> set (normalizedAuthorityDepartments a) \<and>
    canExerciseCommercialPermission a
      (case kind of RK_financial \<Rightarrow> Perm R_financial A_approve | RK_operational \<Rightarrow> Perm R_operations A_manage)"
  using assms by (cases kind)
    (simp_all add: assertCanAttestCommercialServiceRequirement_def Let_def split: if_splits)

definition sample_financial_account :: commercial_authority where
  "sample_financial_account = \<lparr>ca_isAdministrator = None, ca_departments = [''financial''],
     ca_permissionCodes = None, ca_permissions = [''financial:approve''],
     ca_documentAccessMode = None\<rparr>"

lemma attestations_need_their_departments_witness:
  "''financial'' \<in> set (normalizedAuthorityDepartments sample_financial_account)"
proof -
  have k: "kebab ''financial'' = ''financial''" by code_simp
  have p: "perm_str (Perm R_financial A_approve) = ''financial:approve''" by (simp add: perm_str_def)
  have e: "\<not> hasElevatedTenantAuthority sample_financial_account"
    by (simp add: hasElevatedTenantAuthority_def sample_financial_account_def
        normalizedAuthorityDepartments_def k)
  have a: "assertCanAttestCommercialServiceRequirement sample_financial_account RK_financial = Inr ()"
    using e by (simp add: assertCanAttestCommercialServiceRequirement_def Let_def
        normalizedAuthorityDepartments_def sample_financial_account_def k
        canExerciseCommercialPermission_def as_authority_def canExercisePermission_def
        isDocumentPortalAuthority_def p)
  show ?thesis using attestations_need_their_departments [OF e a] by simp
qed

text \<open>
  An accepted proposal file: its stored name has no path separator and no control character,
  is not empty, has at most 255 characters and ends in the extension of a PDF; its size is the
  size of the content and within the limit.
\<close>

theorem accepted_proposal_is_safe:
  assumes "validateQuoteProposalPdf sha256 input = Inr v"
  shows "(\<forall>c\<in>set (vp_fileName v). is_printable c \<and> c \<noteq> CHR ''/'' \<and> c \<noteq> CHR 0x5C) \<and>
    vp_fileName v \<noteq> [] \<and> length (vp_fileName v) \<le> 255 \<and> has_pdf_extension (vp_fileName v) \<and>
    vp_sizeBytes v = int (length (pi_content input)) \<and> 1 \<le> vp_sizeBytes v \<and>
    vp_sizeBytes v \<le> QUOTE_PROPOSAL_MAX_PDF_BYTES \<and> vp_sha256 v = sha256 (pi_content input)"
proof -
  have n: "normalizeFileName (pi_originalName input) = Inr (vp_fileName v)"
    using assms by (simp add: validateQuoteProposalPdf_Inr)
  show ?thesis
    using assms normalizeFileName_safe [OF n] by (simp add: validateQuoteProposalPdf_Inr)
qed

definition sample_proposal :: quote_proposal_pdf_input where
  "sample_proposal = \<lparr>pi_originalName = ''../a b.PDF'', pi_mimeType = ''application/PDF'',
     pi_sizeBytes = JInt 10, pi_content = ascii_encode ''%PDF-%%EOF''\<rparr>"

definition sample_validated :: "validated_quote_proposal_pdf" where
  "sample_validated = \<lparr>vp_fileName = ''a b.PDF'', vp_mimeType = ''application/pdf'', vp_sizeBytes = 10,
     vp_sha256 = ''digest''\<rparr>"

lemma sample_proposal_accepted:
  "validateQuoteProposalPdf (\<lambda>_. ''digest'') sample_proposal = Inr sample_validated"
  unfolding sample_proposal_def sample_validated_def by code_simp

lemma accepted_proposal_is_safe_witness: "1 \<le> vp_sizeBytes sample_validated"
  using accepted_proposal_is_safe [OF sample_proposal_accepted] by blast

text \<open>
  The signature test reads the first bytes as ASCII and so ignores the highest bit of each
  byte: a content whose first byte is not that of a PDF is accepted. (The check means to require
  the signature of a PDF.)
\<close>

theorem pdf_signature_ignores_high_bit:
  "\<exists>input v. validateQuoteProposalPdf sha256 input = Inr v \<and>
     hd (pi_content input) \<noteq> hd (ascii_encode ''%PDF-'')"
proof -
  let ?c = "map (\<lambda>b. or b 0x80) (ascii_encode ''%PDF-'') @ ascii_encode ''%%EOF''"
  let ?i = "\<lparr>pi_originalName = ''a.pdf'', pi_mimeType = ''application/pdf'', pi_sizeBytes = JInt 10,
    pi_content = ?c\<rparr>"
  let ?v = "\<lparr>vp_fileName = ''a.pdf'', vp_mimeType = ''application/pdf'', vp_sizeBytes = 10,
    vp_sha256 = sha256 ?c\<rparr>"
  have "to_lower ''application/pdf'' = ''application/pdf''" by code_simp
  moreover have "length ?c = 10" by (simp add: ascii_encode_def)
  moreover have "ascii_decode (take 5 ?c) = ''%PDF-''" by code_simp
  moreover have "includes_list (drop (10 - 2048) ?c) (ascii_encode ''%%EOF'')" by code_simp
  moreover have "normalizeFileName ''a.pdf'' = Inr ''a.pdf''" by code_simp
  ultimately have "validateQuoteProposalPdf sha256 ?i = Inr ?v"
    unfolding validateQuoteProposalPdf_Inr
    by (simp add: QUOTE_PROPOSAL_MAX_PDF_BYTES_def del: map_append)
  moreover have "hd ?c \<noteq> hd (ascii_encode ''%PDF-'')" by code_simp
  ultimately show ?thesis by (intro exI [of _ ?i] exI [of _ ?v]) simp
qed

text \<open>
  The schedule of a quote is accepted exactly when the stated dates are consistent: an
  instant lies on its civil day, and the return is not before the departure.
\<close>

theorem schedule_accepted_iff:
  "assertQuoteScheduleConsistency civil s req = Inr () \<longleftrightarrow>
     (req \<longrightarrow> qs_departureDate s \<noteq> None) \<and>
     (\<forall>t. qs_departureAt s = Some t \<longrightarrow>
        presentDateOnly (qs_departureDate s) = Some (civil t div 86400000)) \<and>
     (\<forall>t. qs_returnAt s = Some t \<longrightarrow>
        presentDateOnly (qs_returnDate s) = Some (civil t div 86400000)) \<and>
     (\<forall>d r. qs_departureDate s = Some d \<longrightarrow> qs_returnDate s = Some r \<longrightarrow>
        d div 86400000 \<le> r div 86400000) \<and>
     (\<forall>d r. qs_departureAt s = Some d \<longrightarrow> qs_returnAt s = Some r \<longrightarrow> d \<le> r)"
  by (rule schedule_consistent_iff)

lemma schedule_accepted_iff_witness:
  "assertQuoteScheduleConsistency (\<lambda>t. t - 10800000)
     \<lparr>qs_departureDate = Some 0, qs_departureAt = Some 90000000, qs_returnDate = None, qs_returnAt = None\<rparr>
     True = Inr ()"
  unfolding schedule_accepted_iff by (simp add: presentDateOnly_def)

end
