(* ===== verification/Conversation.thy ===== *)
theory Conversation
  imports Commercial
begin

text \<open>
  The conversation state machine of the WhatsApp channel
  (\<open>domain/whatsapp/conversation-transition.matrix.ts\<close>, its types in \<open>whatsapp.constants.ts\<close>): one
  definition per case of the matrix, the dispatcher, the table of the actors each transition
  admits, and the invariants of a conversation.
\<close>

section \<open>Types\<close>

datatype conversation_state =
    CS_bot_active | CS_waiting_for_customer | CS_sent_to_human | CS_human_active | CS_closed

datatype flow_step =
    FS_main_menu | FS_commercial_menu | FS_quote_data_collection | FS_quote_summary_confirmation
  | FS_quote_send_pending | FS_commercial_follow_up_menu | FS_human_service | FS_closed

record conversation =
  cv_department :: department
  cv_conversationState :: conversation_state
  cv_flowStep :: flow_step
  cv_requestStatus :: quote_status
  cv_resumeState :: "conversation_state option"
  cv_resumeFlowStep :: "flow_step option"

datatype transition_name =
    T_present_main_menu | T_select_commercial | T_start_department_contact | T_start_quote
  | T_present_quote_summary | T_correct_quote | T_confirm_quote | T_proposal_delivery_confirmed
  | T_proposal_response_received | T_new_quote_request | T_start_assisted_quote
  | T_return_to_main_menu | T_take_over | T_request_transfer | T_accept_transfer
  | T_return_to_bot | T_forward | T_change_department | T_mark_read | T_archive | T_unarchive
  | T_close | T_close_after_rejection | T_resume_awaited_reply | T_resume_contextual_contact
  | T_reopen_after_customer_message

record transition_input =
  ti_name :: transition_name
  ti_targetDepartment :: "department option"
  ti_departmentOption :: "string option"
  ti_preventCloseWithApprovedQuote :: "bool option"

datatype transition_actor = TA_user | TA_webhook | TA_system

primrec actorsByTransition :: "transition_name \<Rightarrow> transition_actor list" where
  "actorsByTransition T_present_main_menu = [TA_system]"
| "actorsByTransition T_select_commercial = [TA_system]"
| "actorsByTransition T_start_department_contact = [TA_system]"
| "actorsByTransition T_start_quote = [TA_system]"
| "actorsByTransition T_new_quote_request = [TA_system]"
| "actorsByTransition T_start_assisted_quote = [TA_user]"
| "actorsByTransition T_present_quote_summary = [TA_system]"
| "actorsByTransition T_correct_quote = [TA_system]"
| "actorsByTransition T_confirm_quote = [TA_system]"
| "actorsByTransition T_proposal_delivery_confirmed = [TA_system]"
| "actorsByTransition T_proposal_response_received = [TA_webhook, TA_system]"
| "actorsByTransition T_return_to_main_menu = [TA_system]"
| "actorsByTransition T_take_over = [TA_user]"
| "actorsByTransition T_request_transfer = [TA_user]"
| "actorsByTransition T_accept_transfer = [TA_user]"
| "actorsByTransition T_return_to_bot = [TA_user]"
| "actorsByTransition T_forward = [TA_user, TA_system]"
| "actorsByTransition T_change_department = [TA_user]"
| "actorsByTransition T_mark_read = [TA_user]"
| "actorsByTransition T_archive = [TA_user]"
| "actorsByTransition T_unarchive = [TA_user]"
| "actorsByTransition T_close = [TA_user]"
| "actorsByTransition T_close_after_rejection = [TA_user]"
| "actorsByTransition T_resume_awaited_reply = [TA_webhook, TA_system]"
| "actorsByTransition T_resume_contextual_contact = [TA_webhook, TA_system]"
| "actorsByTransition T_reopen_after_customer_message = [TA_webhook]"

definition assertTransitionActor :: "transition_name \<Rightarrow> transition_actor \<Rightarrow> unit result" where
  "assertTransitionActor name actor =
     throw_if (actor \<notin> set (actorsByTransition name)) (forbidden ''transition-actor'')"

section \<open>Guards\<close>

definition assertOpen :: "conversation \<Rightarrow> unit result" where
  "assertOpen current =
     throw_if (cv_conversationState current = CS_closed) (validationError ''conversation-closed'')"

definition assertInternalServiceDepartment :: "department \<Rightarrow> unit result" where
  "assertInternalServiceDepartment d =
     throw_if (d = D_client_company) (validationError ''client-company-not-internal'')"

definition assertState :: "conversation \<Rightarrow> conversation_state list \<Rightarrow> unit result" where
  "assertState current allowed =
     throw_if (cv_conversationState current \<notin> set allowed) (validationError ''transition-not-allowed'')"

definition followUpRequestStatuses :: "quote_status list" where
  "followUpRequestStatuses = [QS_waiting_for_customer, QS_under_review, QS_approved, QS_rejected]"

definition resolveBotFlowStep :: "conversation \<Rightarrow> flow_step" where
  "resolveBotFlowStep current =
     (if cv_requestStatus current \<in> set followUpRequestStatuses then FS_commercial_follow_up_menu
      else
        (let candidate = (case cv_resumeFlowStep current of Some s \<Rightarrow> s | None \<Rightarrow> cv_flowStep current) in
         if candidate \<notin> set [FS_quote_send_pending, FS_human_service, FS_closed] then candidate
         else case cv_requestStatus current of
           QS_collecting_information \<Rightarrow> FS_quote_data_collection
         | QS_waiting_for_customer \<Rightarrow> FS_quote_summary_confirmation
         | QS_not_started \<Rightarrow> FS_main_menu
         | QS_cancelled \<Rightarrow> FS_main_menu
         | QS_under_review \<Rightarrow> FS_commercial_follow_up_menu
         | QS_approved \<Rightarrow> FS_commercial_follow_up_menu
         | QS_rejected \<Rightarrow> FS_commercial_follow_up_menu))"

text \<open>The guard pair \<open>if (!input.targetDepartment) throw; assertInternalServiceDepartment(...)\<close>.\<close>

definition targetDepartmentOf :: "transition_input \<Rightarrow> string \<Rightarrow> department result" where
  "targetDepartmentOf input missing =
     (case ti_targetDepartment input of
        None \<Rightarrow> Inl (validationError missing)
      | Some d \<Rightarrow> rbind (assertInternalServiceDepartment d) (\<lambda>_. Inr d))"

definition validDepartmentOption :: "string option \<Rightarrow> bool" where
  "validDepartmentOption v =
     (case v of None \<Rightarrow> False
      | Some s \<Rightarrow> s \<in> set (map (\<lambda>c. [c]) ''23456789'') \<or> s = ''commercial-continuous-director'')"

section \<open>The cases of the matrix\<close>

definition t_present_main_menu :: "conversation \<Rightarrow> conversation result" where
  "t_present_main_menu current =
     rbind (assertState current [CS_bot_active]) (\<lambda>_.
     if cv_flowStep current \<noteq> FS_main_menu then Inl (validationError ''needs-main-menu'')
     else Inr (current\<lparr>cv_resumeState := None, cv_resumeFlowStep := None\<rparr>))"

definition t_select_commercial :: "conversation \<Rightarrow> conversation result" where
  "t_select_commercial current =
     rbind (assertState current [CS_bot_active]) (\<lambda>_.
     if cv_flowStep current \<noteq> FS_main_menu then Inl (validationError ''select-commercial-needs-main-menu'')
     else Inr \<lparr>cv_department = D_commercial, cv_conversationState = CS_bot_active,
       cv_flowStep = (if cv_requestStatus current = QS_not_started then FS_commercial_menu
                      else FS_commercial_follow_up_menu),
       cv_requestStatus = cv_requestStatus current,
       cv_resumeState = None, cv_resumeFlowStep = None\<rparr>)"

definition t_start_department_contact :: "transition_input \<Rightarrow> conversation \<Rightarrow> conversation result" where
  "t_start_department_contact input current =
     rbind (assertState current [CS_bot_active]) (\<lambda>_.
     if cv_flowStep current \<noteq> FS_main_menu \<and> cv_flowStep current \<noteq> FS_commercial_menu
     then Inl (validationError ''department-needs-menu'')
     else rbind (targetDepartmentOf input ''department-missing'') (\<lambda>d.
       if \<not> validDepartmentOption (ti_departmentOption input)
       then Inl (validationError ''department-option'')
       else Inr (current\<lparr>cv_department := d, cv_conversationState := CS_bot_active,
         cv_flowStep := FS_main_menu, cv_resumeState := None, cv_resumeFlowStep := None\<rparr>)))"

definition quote_collection :: conversation where
  "quote_collection = \<lparr>cv_department = D_commercial, cv_conversationState = CS_bot_active,
     cv_flowStep = FS_quote_data_collection, cv_requestStatus = QS_collecting_information,
     cv_resumeState = None, cv_resumeFlowStep = None\<rparr>"

definition t_start_quote :: "conversation \<Rightarrow> conversation result" where
  "t_start_quote current =
     rbind (assertState current [CS_bot_active]) (\<lambda>_.
     if cv_flowStep current \<notin> set [FS_commercial_menu, FS_main_menu] \<or>
       cv_department current \<noteq> D_commercial \<or> cv_requestStatus current \<noteq> QS_not_started
     then Inl (validationError ''first-quote-needs-fresh-commercial'')
     else Inr quote_collection)"

definition t_start_assisted_quote :: "conversation \<Rightarrow> conversation result" where
  "t_start_assisted_quote current =
     rbind (assertState current [CS_sent_to_human, CS_human_active, CS_waiting_for_customer]) (\<lambda>_.
     Inr quote_collection)"

definition t_new_quote_request :: "conversation \<Rightarrow> conversation result" where
  "t_new_quote_request current =
     rbind (assertState current [CS_bot_active]) (\<lambda>_. Inr quote_collection)"

definition t_present_quote_summary :: "conversation \<Rightarrow> conversation result" where
  "t_present_quote_summary current =
     rbind (assertState current [CS_bot_active]) (\<lambda>_.
     if cv_flowStep current \<noteq> FS_quote_data_collection \<or>
       cv_requestStatus current \<noteq> QS_collecting_information
     then Inl (validationError ''summary-needs-collection'')
     else Inr (current\<lparr>cv_conversationState := CS_waiting_for_customer,
       cv_flowStep := FS_quote_summary_confirmation, cv_requestStatus := QS_waiting_for_customer,
       cv_resumeState := Some CS_bot_active,
       cv_resumeFlowStep := Some FS_quote_summary_confirmation\<rparr>))"

definition t_correct_quote :: "conversation \<Rightarrow> conversation result" where
  "t_correct_quote current =
     rbind (assertState current [CS_waiting_for_customer, CS_bot_active]) (\<lambda>_.
     if cv_flowStep current \<noteq> FS_quote_summary_confirmation \<or>
       cv_requestStatus current \<noteq> QS_waiting_for_customer
     then Inl (validationError ''correction-needs-summary'')
     else Inr (current\<lparr>cv_conversationState := CS_bot_active, cv_flowStep := FS_quote_data_collection,
       cv_requestStatus := QS_collecting_information, cv_resumeState := None,
       cv_resumeFlowStep := None\<rparr>))"

definition t_confirm_quote :: "conversation \<Rightarrow> conversation result" where
  "t_confirm_quote current =
     rbind (assertState current [CS_waiting_for_customer, CS_bot_active]) (\<lambda>_.
     if cv_flowStep current \<noteq> FS_quote_summary_confirmation \<or>
       cv_requestStatus current \<noteq> QS_waiting_for_customer
     then Inl (validationError ''confirmation-needs-summary'')
     else Inr (current\<lparr>cv_conversationState := CS_sent_to_human, cv_flowStep := FS_human_service,
       cv_requestStatus := QS_under_review, cv_resumeState := None,
       cv_resumeFlowStep := Some FS_commercial_follow_up_menu\<rparr>))"

definition t_proposal_delivery_confirmed :: "conversation \<Rightarrow> conversation result" where
  "t_proposal_delivery_confirmed current =
     rbind (assertState current [CS_bot_active, CS_sent_to_human, CS_human_active]) (\<lambda>_.
     if cv_department current \<noteq> D_commercial \<or> cv_flowStep current \<noteq> FS_quote_send_pending \<or>
       cv_requestStatus current \<noteq> QS_under_review
     then Inl (validationError ''delivery-needs-pending-proposal'')
     else Inr (current\<lparr>cv_conversationState := CS_waiting_for_customer,
       cv_flowStep := FS_quote_send_pending, cv_requestStatus := QS_waiting_for_customer,
       cv_resumeState := None, cv_resumeFlowStep := None\<rparr>))"

definition t_proposal_response_received :: "conversation \<Rightarrow> conversation result" where
  "t_proposal_response_received current =
     rbind (assertState current [CS_waiting_for_customer]) (\<lambda>_.
     if cv_department current \<noteq> D_commercial \<or> cv_flowStep current \<noteq> FS_quote_send_pending \<or>
       cv_requestStatus current \<noteq> QS_waiting_for_customer
     then Inl (validationError ''response-needs-delivered-proposal'')
     else Inr (current\<lparr>cv_conversationState := CS_sent_to_human, cv_flowStep := FS_human_service,
       cv_requestStatus := QS_waiting_for_customer, cv_resumeState := None,
       cv_resumeFlowStep := Some FS_commercial_follow_up_menu\<rparr>))"

definition t_return_to_main_menu :: "conversation \<Rightarrow> conversation result" where
  "t_return_to_main_menu current =
     rbind (assertState current [CS_bot_active]) (\<lambda>_.
     Inr (current\<lparr>cv_conversationState := CS_bot_active, cv_flowStep := FS_main_menu,
       cv_resumeState := None, cv_resumeFlowStep := None\<rparr>))"

definition t_take_over :: "conversation \<Rightarrow> conversation result" where
  "t_take_over current =
     Inr (current\<lparr>cv_conversationState := CS_human_active, cv_flowStep := FS_human_service,
       cv_resumeState := None, cv_resumeFlowStep := Some (resolveBotFlowStep current)\<rparr>)"

definition t_request_transfer :: "transition_input \<Rightarrow> conversation \<Rightarrow> conversation result" where
  "t_request_transfer input current =
     rbind (assertState current [CS_human_active]) (\<lambda>_.
     rbind (targetDepartmentOf input ''transfer-department-missing'') (\<lambda>d.
     if d = cv_department current then Inl (validationError ''transfer-same-department'')
     else Inr current))"

definition t_accept_transfer :: "transition_input \<Rightarrow> conversation \<Rightarrow> conversation result" where
  "t_accept_transfer input current =
     rbind (assertState current [CS_human_active]) (\<lambda>_.
     rbind (targetDepartmentOf input ''pending-transfer-without-department'') (\<lambda>d.
     Inr (current\<lparr>cv_department := d, cv_conversationState := CS_human_active,
       cv_flowStep := FS_human_service, cv_resumeState := None,
       cv_resumeFlowStep := Some (resolveBotFlowStep current)\<rparr>)))"

definition t_return_to_bot :: "conversation \<Rightarrow> conversation result" where
  "t_return_to_bot current =
     rbind (assertState current [CS_human_active]) (\<lambda>_.
     Inr (current\<lparr>cv_conversationState := CS_bot_active, cv_flowStep := resolveBotFlowStep current,
       cv_resumeState := None, cv_resumeFlowStep := None\<rparr>))"

definition t_forward :: "transition_input \<Rightarrow> conversation \<Rightarrow> conversation result" where
  "t_forward input current =
     rbind (assertOpen current) (\<lambda>_.
     rbind (targetDepartmentOf input ''forward-department-missing'') (\<lambda>d.
     Inr (current\<lparr>cv_department := d, cv_conversationState := CS_sent_to_human,
       cv_flowStep := FS_human_service, cv_resumeState := None,
       cv_resumeFlowStep := Some (resolveBotFlowStep current)\<rparr>)))"

definition t_change_department :: "transition_input \<Rightarrow> conversation \<Rightarrow> conversation result" where
  "t_change_department input current =
     rbind (assertOpen current) (\<lambda>_.
     rbind (targetDepartmentOf input ''new-department-missing'') (\<lambda>d.
     Inr (current\<lparr>cv_department := d\<rparr>)))"

definition t_mark_read :: "conversation \<Rightarrow> conversation result" where
  "t_mark_read current = rbind (assertOpen current) (\<lambda>_. Inr current)"

definition closed_conversation :: "conversation \<Rightarrow> conversation" where
  "closed_conversation current = current\<lparr>cv_conversationState := CS_closed, cv_flowStep := FS_closed,
     cv_resumeState := None, cv_resumeFlowStep := None\<rparr>"

definition t_close :: "transition_input \<Rightarrow> conversation \<Rightarrow> conversation result" where
  "t_close input current =
     rbind (assertOpen current) (\<lambda>_.
     if ti_preventCloseWithApprovedQuote input = Some True \<and> cv_requestStatus current = QS_approved
     then Inl (validationError ''approved-quote-cannot-close'')
     else Inr (closed_conversation current))"

definition t_close_after_rejection :: "conversation \<Rightarrow> conversation result" where
  "t_close_after_rejection current =
     rbind (assertOpen current) (\<lambda>_.
     if cv_requestStatus current \<noteq> QS_rejected then Inl (validationError ''close-needs-rejection'')
     else Inr (closed_conversation current))"

definition t_reopen_after_customer_message :: "conversation \<Rightarrow> conversation result" where
  "t_reopen_after_customer_message current =
     rbind (assertState current [CS_closed]) (\<lambda>_.
     if cv_flowStep current \<noteq> FS_closed then Inl (validationError ''reopen-needs-closed'')
     else Inr (current\<lparr>cv_department := D_commercial, cv_conversationState := CS_bot_active,
       cv_flowStep := FS_main_menu, cv_resumeState := None, cv_resumeFlowStep := None\<rparr>))"

definition t_resume_awaited_reply :: "conversation \<Rightarrow> conversation result" where
  "t_resume_awaited_reply current =
     rbind (assertState current [CS_waiting_for_customer]) (\<lambda>_.
     if cv_flowStep current \<noteq> FS_quote_summary_confirmation \<or>
       cv_requestStatus current \<noteq> QS_waiting_for_customer \<or>
       cv_resumeState current \<noteq> Some CS_bot_active
     then Inl (validationError ''resume-needs-awaited-summary'')
     else Inr (current\<lparr>cv_conversationState := CS_bot_active, cv_resumeState := None,
       cv_resumeFlowStep := None\<rparr>))"

definition t_resume_contextual_contact :: "conversation \<Rightarrow> conversation result" where
  "t_resume_contextual_contact current =
     rbind (assertState current [CS_sent_to_human, CS_bot_active]) (\<lambda>_.
     if \<not> ((cv_conversationState current = CS_sent_to_human \<and>
             cv_flowStep current = FS_quote_send_pending) \<or>
           (cv_conversationState current = CS_bot_active \<and>
             cv_flowStep current \<in> set [FS_quote_send_pending, FS_commercial_follow_up_menu])) \<or>
       cv_requestStatus current \<notin> set followUpRequestStatuses
     then Inl (validationError ''no-quote-to-resume'')
     else Inr (current\<lparr>cv_department := D_commercial, cv_conversationState := CS_bot_active,
       cv_flowStep := FS_commercial_follow_up_menu, cv_resumeState := None,
       cv_resumeFlowStep := None\<rparr>))"

text \<open>The dispatcher: the \<open>switch\<close> of \<open>resolveConversationTransition\<close>.\<close>

definition resolveConversationTransition ::
  "conversation \<Rightarrow> transition_input \<Rightarrow> conversation result" where
  "resolveConversationTransition current input =
     (case ti_name input of
        T_present_main_menu \<Rightarrow> t_present_main_menu current
      | T_select_commercial \<Rightarrow> t_select_commercial current
      | T_start_department_contact \<Rightarrow> t_start_department_contact input current
      | T_start_quote \<Rightarrow> t_start_quote current
      | T_start_assisted_quote \<Rightarrow> t_start_assisted_quote current
      | T_new_quote_request \<Rightarrow> t_new_quote_request current
      | T_present_quote_summary \<Rightarrow> t_present_quote_summary current
      | T_correct_quote \<Rightarrow> t_correct_quote current
      | T_confirm_quote \<Rightarrow> t_confirm_quote current
      | T_proposal_delivery_confirmed \<Rightarrow> t_proposal_delivery_confirmed current
      | T_proposal_response_received \<Rightarrow> t_proposal_response_received current
      | T_return_to_main_menu \<Rightarrow> t_return_to_main_menu current
      | T_take_over \<Rightarrow> t_take_over current
      | T_request_transfer \<Rightarrow> t_request_transfer input current
      | T_accept_transfer \<Rightarrow> t_accept_transfer input current
      | T_archive \<Rightarrow> Inr current
      | T_unarchive \<Rightarrow> Inr current
      | T_return_to_bot \<Rightarrow> t_return_to_bot current
      | T_forward \<Rightarrow> t_forward input current
      | T_change_department \<Rightarrow> t_change_department input current
      | T_mark_read \<Rightarrow> t_mark_read current
      | T_close \<Rightarrow> t_close input current
      | T_close_after_rejection \<Rightarrow> t_close_after_rejection current
      | T_reopen_after_customer_message \<Rightarrow> t_reopen_after_customer_message current
      | T_resume_awaited_reply \<Rightarrow> t_resume_awaited_reply current
      | T_resume_contextual_contact \<Rightarrow> t_resume_contextual_contact current)"

text \<open>A transition as the repository runs it: the actor is checked first.\<close>

definition actedTransition ::
  "conversation \<Rightarrow> transition_actor \<times> transition_input \<Rightarrow> conversation result" where
  "actedTransition current ac =
     rbind (assertTransitionActor (ti_name (snd ac)) (fst ac)) (\<lambda>_.
       resolveConversationTransition current (snd ac))"

lemmas transition_guards = assertOpen_def assertInternalServiceDepartment_def assertState_def
  targetDepartmentOf_def

lemmas transition_defs = t_present_main_menu_def t_select_commercial_def
  t_start_department_contact_def t_start_quote_def t_start_assisted_quote_def
  t_new_quote_request_def t_present_quote_summary_def t_correct_quote_def t_confirm_quote_def
  t_proposal_delivery_confirmed_def t_proposal_response_received_def t_return_to_main_menu_def
  t_take_over_def t_request_transfer_def t_accept_transfer_def t_return_to_bot_def t_forward_def
  t_change_department_def t_mark_read_def t_close_def t_close_after_rejection_def
  t_reopen_after_customer_message_def t_resume_awaited_reply_def t_resume_contextual_contact_def
  quote_collection_def closed_conversation_def

section \<open>Invariants\<close>

text \<open>What holds of every conversation the matrix produces.\<close>

definition conversation_ok :: "conversation \<Rightarrow> bool" where
  "conversation_ok c \<longleftrightarrow>
     (cv_conversationState c = CS_closed \<longleftrightarrow> cv_flowStep c = FS_closed) \<and>
     (cv_conversationState c = CS_human_active \<longrightarrow> cv_flowStep c = FS_human_service) \<and>
     (cv_flowStep c = FS_human_service \<longrightarrow>
        cv_conversationState c \<in> {CS_human_active, CS_sent_to_human}) \<and>
     cv_resumeFlowStep c \<notin> {Some FS_quote_send_pending, Some FS_human_service, Some FS_closed} \<and>
     (\<forall>s. cv_resumeState c = Some s \<longrightarrow> s = CS_bot_active \<and>
        cv_conversationState c = CS_waiting_for_customer \<and>
        cv_flowStep c = FS_quote_summary_confirmation \<and>
        cv_requestStatus c = QS_waiting_for_customer) \<and>
     cv_department c \<noteq> D_client_company"

lemma resolveBotFlowStep_range:
  "resolveBotFlowStep c \<notin> {FS_quote_send_pending, FS_human_service, FS_closed}"
  by (simp add: resolveBotFlowStep_def Let_def split: quote_status.split)

lemma resolveBotFlowStep_neq [simp]:
  "resolveBotFlowStep c \<noteq> FS_quote_send_pending" "resolveBotFlowStep c \<noteq> FS_human_service"
  "resolveBotFlowStep c \<noteq> FS_closed"
  using resolveBotFlowStep_range [of c] by simp_all

text \<open>What is kept while a human serves: the step to return to.\<close>

lemma resolveBotFlowStep_kept:
  "cv_requestStatus d = cv_requestStatus c \<Longrightarrow> cv_resumeFlowStep d = Some (resolveBotFlowStep c) \<Longrightarrow>
     resolveBotFlowStep d = resolveBotFlowStep c"
  by (simp add: resolveBotFlowStep_def Let_def split: if_splits)

lemma targetDepartmentOf_Inr [result_simps]:
  "targetDepartmentOf i m = Inr d \<longleftrightarrow> ti_targetDepartment i = Some d \<and> d \<noteq> D_client_company"
  by (auto simp: targetDepartmentOf_def assertInternalServiceDepartment_def result_simps
      split: option.splits)

lemma assertState_Inr [result_simps]:
  "assertState c ss = Inr u \<longleftrightarrow> cv_conversationState c \<in> set ss"
  by (simp add: assertState_def result_simps)

lemma assertOpen_Inr [result_simps]: "assertOpen c = Inr u \<longleftrightarrow> cv_conversationState c \<noteq> CS_closed"
  by (simp add: assertOpen_def result_simps)

lemma transition_ok:
  assumes "conversation_ok c" and "resolveConversationTransition c i = Inr c'"
  shows "conversation_ok c'"
  using assms
  by (cases "ti_name i"; clarsimp simp: resolveConversationTransition_def transition_defs result_simps conversation_ok_def)

interpretation conversation: guarded_machine actedTransition conversation_ok
  by unfold_locales (auto simp: actedTransition_def result_simps intro: transition_ok)

text \<open>The errors of the matrix are validation errors, those of the actor check are refusals.\<close>

lemma assert_errors [result_simps]:
  "assertState c ss = Inl e \<longleftrightarrow>
     cv_conversationState c \<notin> set ss \<and> e = validationError ''transition-not-allowed''"
  "assertOpen c = Inl e \<longleftrightarrow>
     cv_conversationState c = CS_closed \<and> e = validationError ''conversation-closed''"
  by (auto simp: assertState_def assertOpen_def result_simps)

lemma targetDepartmentOf_Inl:
  "targetDepartmentOf i m = Inl e \<Longrightarrow> error_code e = VALIDATION_ERROR"
  by (auto simp: targetDepartmentOf_def assertInternalServiceDepartment_def result_simps
      split: option.splits)

lemma transition_error:
  "resolveConversationTransition c i = Inl e \<Longrightarrow> error_code e = VALIDATION_ERROR"
  by (cases "ti_name i")
    (auto simp: resolveConversationTransition_def transition_defs result_simps
      dest: targetDepartmentOf_Inl split: if_splits)

text \<open>The transitions a closed conversation admits.\<close>

lemma closed_admits:
  assumes "conversation_ok c" and "cv_conversationState c = CS_closed"
  shows "(\<exists>c'. resolveConversationTransition c i = Inr c') \<longleftrightarrow>
    ti_name i \<in> {T_take_over, T_archive, T_unarchive, T_reopen_after_customer_message}"
  using assms
  by (cases "ti_name i"; clarsimp simp: resolveConversationTransition_def transition_defs result_simps conversation_ok_def)

text \<open>How a conversation comes to be closed.\<close>

lemma closing_transitions:
  assumes "resolveConversationTransition c i = Inr c'"
    and "cv_conversationState c \<noteq> CS_closed" and "cv_conversationState c' = CS_closed"
  shows "ti_name i = T_close \<or> (ti_name i = T_close_after_rejection \<and> cv_requestStatus c = QS_rejected)"
  using assms
  by (cases "ti_name i"; clarsimp simp: resolveConversationTransition_def transition_defs result_simps)

text \<open>How a conversation in human hands leaves them.\<close>

lemma leaves_human:
  assumes "conversation_ok c" and "cv_conversationState c = CS_human_active"
    and "resolveConversationTransition c i = Inr c'" and "cv_conversationState c' \<noteq> CS_human_active"
  shows "ti_name i \<in> {T_start_assisted_quote, T_return_to_bot, T_forward, T_close,
    T_close_after_rejection}"
  using assms
  by (cases "ti_name i"; clarsimp simp: resolveConversationTransition_def transition_defs result_simps conversation_ok_def)

text \<open>Only these transitions change the status of the quote request, as a table.\<close>

lemma request_status_changes:
  assumes "resolveConversationTransition c i = Inr c'"
    and "cv_requestStatus c' \<noteq> cv_requestStatus c"
  shows "(ti_name i, cv_requestStatus c') \<in>
     {(T_start_quote, QS_collecting_information), (T_start_assisted_quote, QS_collecting_information),
      (T_new_quote_request, QS_collecting_information), (T_correct_quote, QS_collecting_information),
      (T_present_quote_summary, QS_waiting_for_customer), (T_confirm_quote, QS_under_review),
      (T_proposal_delivery_confirmed, QS_waiting_for_customer)}"
  using assms
  by (cases "ti_name i"; clarsimp simp: resolveConversationTransition_def transition_defs result_simps)

text \<open>Taking over and returning to the bot: the step of the bot survives the detour.\<close>

lemma take_over_return:
  assumes "resolveConversationTransition c i = Inr h" and "ti_name i = T_take_over"
    and "resolveConversationTransition h j = Inr b" and "ti_name j = T_return_to_bot"
  shows "b = c\<lparr>cv_conversationState := CS_bot_active, cv_flowStep := resolveBotFlowStep c,
    cv_resumeState := None, cv_resumeFlowStep := None\<rparr>"
  using assms resolveBotFlowStep_kept [of h c]
  by (auto simp: resolveConversationTransition_def transition_defs result_simps)

section \<open>The delivery of a proposal\<close>

text \<open>
  The repository reads a commercial conversation whose proposal is under review as one that is
  sending it (\<open>snapshotForProposalDelivery\<close>), the one way into \<open>quote-send-pending\<close>.
\<close>

definition snapshotForProposalDelivery :: "conversation \<Rightarrow> conversation" where
  "snapshotForProposalDelivery current =
     (if cv_department current = D_commercial \<and> cv_conversationState current = CS_bot_active \<and>
         cv_flowStep current = FS_commercial_follow_up_menu \<and>
         cv_requestStatus current = QS_under_review
      then current\<lparr>cv_flowStep := FS_quote_send_pending\<rparr> else current)"

lemma snapshotForProposalDelivery_ok: "conversation_ok c \<Longrightarrow> conversation_ok (snapshotForProposalDelivery c)"
  by (auto simp: snapshotForProposalDelivery_def conversation_ok_def)

text \<open>Without that reading, no transition enters the sending step from outside.\<close>

lemma send_pending_entered_only_by_delivery:
  assumes "resolveConversationTransition c i = Inr c'" and "cv_flowStep c' = FS_quote_send_pending"
  shows "cv_flowStep c = FS_quote_send_pending"
  using assms
  by (cases "ti_name i"; clarsimp simp: resolveConversationTransition_def transition_defs result_simps split: if_splits)

section \<open>Properties\<close>

text \<open>
  C6. The invariant of a conversation survives every run of transitions by whatever actors:
  closed is closed in both state and step, human service and its step go together, what the bot
  would resume is a step of the bot, a pending resumption belongs to a presented summary, and
  the client company never serves.
\<close>

theorem conversation_run_ok:
  assumes "conversation_ok c" and "run actedTransition c acs = Inr c'"
  shows "conversation_ok c'"
  using assms by (rule conversation.run_inv)

definition initial_conversation :: conversation where
  "initial_conversation = \<lparr>cv_department = D_commercial, cv_conversationState = CS_bot_active,
     cv_flowStep = FS_main_menu, cv_requestStatus = QS_not_started, cv_resumeState = None,
     cv_resumeFlowStep = None\<rparr>"

definition plain_input :: "transition_name \<Rightarrow> transition_input" where
  "plain_input name = \<lparr>ti_name = name, ti_targetDepartment = None, ti_departmentOption = None,
     ti_preventCloseWithApprovedQuote = None\<rparr>"

definition sample_transitions :: "(transition_actor \<times> transition_input) list" where
  "sample_transitions = [(TA_system, plain_input T_select_commercial),
     (TA_system, plain_input T_start_quote), (TA_system, plain_input T_present_quote_summary),
     (TA_user, plain_input T_take_over)]"

lemma initial_conversation_ok: "conversation_ok initial_conversation"
  by (simp add: conversation_ok_def initial_conversation_def)

lemma sample_transitions_run:
  "run actedTransition initial_conversation sample_transitions = Inr (initial_conversation\<lparr>
     cv_conversationState := CS_human_active, cv_flowStep := FS_human_service,
     cv_requestStatus := QS_waiting_for_customer,
     cv_resumeFlowStep := Some FS_commercial_follow_up_menu\<rparr>)"
  by code_simp

lemma conversation_run_ok_witness:
  "conversation_ok (initial_conversation\<lparr>
     cv_conversationState := CS_human_active, cv_flowStep := FS_human_service,
     cv_requestStatus := QS_waiting_for_customer,
     cv_resumeFlowStep := Some FS_commercial_follow_up_menu\<rparr>)"
  by (rule conversation_run_ok [OF initial_conversation_ok sample_transitions_run])

text \<open>
  C16. What a closed conversation still admits: the customer's message that reopens it, a user
  who takes it over, and the archive marks; every other transition is a validation error.
\<close>

theorem closed_conversation_admits:
  assumes "conversation_ok c" and "cv_conversationState c = CS_closed"
  shows "(\<exists>c'. resolveConversationTransition c i = Inr c') \<longleftrightarrow>
    ti_name i \<in> {T_take_over, T_archive, T_unarchive, T_reopen_after_customer_message}"
  using assms by (rule closed_admits)

lemma closed_conversation_admits_witness:
  "\<nexists>c'. resolveConversationTransition (closed_conversation initial_conversation)
     (plain_input T_forward) = Inr c'"
proof -
  have "conversation_ok (closed_conversation initial_conversation)"
    by (simp add: conversation_ok_def closed_conversation_def initial_conversation_def)
  moreover have "cv_conversationState (closed_conversation initial_conversation) = CS_closed"
    by (simp add: closed_conversation_def)
  ultimately show ?thesis
    using closed_conversation_admits [of "closed_conversation initial_conversation" "plain_input T_forward"]
    by (simp add: plain_input_def)
qed

section \<open>Further facts\<close>

text \<open>
  Only a user closes a conversation, and the closing meant for rejected proposals closes
  rejected ones only: neither the bot nor a webhook can end an attendance.
\<close>

theorem only_users_close:
  assumes "actedTransition c (actor, i) = Inr c'"
    and "cv_conversationState c \<noteq> CS_closed" and "cv_conversationState c' = CS_closed"
  shows "actor = TA_user \<and>
    (ti_name i = T_close \<or> (ti_name i = T_close_after_rejection \<and> cv_requestStatus c = QS_rejected))"
proof -
  from assms(1) have a: "actor \<in> set (actorsByTransition (ti_name i))"
    and r: "resolveConversationTransition c i = Inr c'"
    by (auto simp: actedTransition_def assertTransitionActor_def result_simps)
  from closing_transitions [OF r assms(2, 3)] a show ?thesis by auto
qed

lemma only_users_close_witness:
  "actedTransition initial_conversation (TA_user, plain_input T_close) =
     Inr (closed_conversation initial_conversation) \<and>
   \<not> (\<exists>actor. actor \<noteq> TA_user \<and> actedTransition initial_conversation (actor, plain_input T_close) =
     Inr (closed_conversation initial_conversation))"
proof -
  have "cv_conversationState initial_conversation \<noteq> CS_closed"
    "cv_conversationState (closed_conversation initial_conversation) = CS_closed"
    by (simp_all add: initial_conversation_def closed_conversation_def)
  moreover have "actedTransition initial_conversation (TA_user, plain_input T_close) =
      Inr (closed_conversation initial_conversation)"
    by code_simp
  ultimately show ?thesis
    using only_users_close [of initial_conversation _ "plain_input T_close"
      "closed_conversation initial_conversation"] by blast
qed

text \<open>
  A human who takes over and hands back leaves the conversation at the step the bot was
  meant to resume: the detour changes the department, the status of the request and the step
  of the bot not at all.
\<close>

theorem human_detour_keeps_bot_step:
  assumes "resolveConversationTransition c i = Inr h" and "ti_name i = T_take_over"
    and "resolveConversationTransition h j = Inr b" and "ti_name j = T_return_to_bot"
  shows "cv_flowStep b = resolveBotFlowStep c \<and> cv_requestStatus b = cv_requestStatus c \<and>
    cv_department b = cv_department c \<and> cv_conversationState b = CS_bot_active"
  using take_over_return [OF assms] by simp

lemma human_detour_keeps_bot_step_witness: "resolveBotFlowStep quote_collection = FS_quote_data_collection"
proof -
  let ?h = "quote_collection\<lparr>cv_conversationState := CS_human_active, cv_flowStep := FS_human_service,
    cv_resumeFlowStep := Some FS_quote_data_collection\<rparr>"
  have "resolveConversationTransition quote_collection (plain_input T_take_over) = Inr ?h"
    by (simp add: resolveConversationTransition_def plain_input_def t_take_over_def
        quote_collection_def resolveBotFlowStep_def followUpRequestStatuses_def)
  moreover have "resolveConversationTransition ?h (plain_input T_return_to_bot) = Inr quote_collection"
    by (simp add: resolveConversationTransition_def plain_input_def t_return_to_bot_def assertState_def
        quote_collection_def resolveBotFlowStep_def followUpRequestStatuses_def)
  ultimately have "cv_flowStep quote_collection = resolveBotFlowStep quote_collection"
    using human_detour_keeps_bot_step [of quote_collection "plain_input T_take_over" ?h
      "plain_input T_return_to_bot" quote_collection]
    by (simp add: plain_input_def)
  then show ?thesis by (simp add: quote_collection_def)
qed

end
