(* ===== verification/JS_Regex.thy ===== *)
theory JS_Regex
  imports JS_Prelude
begin

text \<open>
  The regular expressions of the sources: a matcher that lists the ends of all matches at a
  position in the order a backtracking engine of ECMAScript tries them, so that its first element
  is the match the engine reports; search, test and global replacement over it.
  The quantifiers of the sources are greedy, and the repeated patterns never match the empty text.
\<close>

section \<open>Patterns\<close>

datatype regex =
    Empty | Sat "char \<Rightarrow> bool" | Seq regex regex | Alt regex regex
  | Rep regex nat "nat option" | Word_boundary | At_start | At_end | Not_ahead regex
  | Behind "char \<Rightarrow> bool"

text \<open>A position: the character before it, if any, and the rest of the text.\<close>

type_synonym position = "char option \<times> string"

definition is_word :: "char \<Rightarrow> bool" where
  "is_word c \<longleftrightarrow> is_lower c \<or> is_upper c \<or> is_digit c \<or> c = CHR ''_''"

definition at_word_boundary :: "position \<Rightarrow> bool" where
  "at_word_boundary p =
     ((case fst p of None \<Rightarrow> False | Some c \<Rightarrow> is_word c) \<noteq>
      (case snd p of [] \<Rightarrow> False | c # _ \<Rightarrow> is_word c))"

definition dec_bound :: "nat option \<Rightarrow> nat option" where
  "dec_bound n = map_option (\<lambda>k. k - 1) n"

function matches :: "regex \<Rightarrow> position \<Rightarrow> position list" where
  "matches Empty p = [p]"
| "matches (Sat f) p = (case snd p of [] \<Rightarrow> [] | c # cs \<Rightarrow> if f c then [(Some c, cs)] else [])"
| "matches (Seq r q) p = concat (map (matches q) (matches r p))"
| "matches (Alt r q) p = matches r p @ matches q p"
| "matches (Rep r least most) p =
     (let more = (if most = Some 0 then []
        else concat (map (\<lambda>p'. if length (snd p') < length (snd p)
          then matches (Rep r (least - 1) (dec_bound most)) p' else []) (matches r p)))
      in if least > 0 then more else more @ [p])"
| "matches Word_boundary p = (if at_word_boundary p then [p] else [])"
| "matches At_start p = (if fst p = None then [p] else [])"
| "matches At_end p = (if snd p = [] then [p] else [])"
| "matches (Not_ahead r) p = (if matches r p = [] then [p] else [])"
| "matches (Behind f) p = (case fst p of None \<Rightarrow> [] | Some c \<Rightarrow> if f c then [p] else [])"
  by pat_completeness auto

termination
  by (relation "measures [\<lambda>(r, p). size r, \<lambda>(r, p). length (snd p)]") auto

declare matches.simps(5) [simp del]

section \<open>Search and replacement\<close>

fun search :: "regex \<Rightarrow> char option \<Rightarrow> string \<Rightarrow> bool" where
  "search r prev [] = (matches r (prev, []) \<noteq> [])"
| "search r prev (c # cs) = (matches r (prev, c # cs) \<noteq> [] \<or> search r (Some c) cs)"

text \<open>\<open>pattern.test(s)\<close>\<close>

definition regex_test :: "regex \<Rightarrow> string \<Rightarrow> bool" where
  "regex_test r s = search r None s"

text \<open>
  \<open>s.replace(/(kept)pattern/g, '$1' + replacement)\<close>: the group that is kept comes first; an
  empty group is \<open>Empty\<close>.
\<close>

definition first_match :: "regex \<Rightarrow> regex \<Rightarrow> position \<Rightarrow> (position \<times> position) option" where
  "first_match kept r p =
     js_first (concat (map (\<lambda>q. map (\<lambda>e. (q, e)) (matches r q)) (matches kept p)))"

function replace_from :: "regex \<Rightarrow> regex \<Rightarrow> string \<Rightarrow> char option \<Rightarrow> string \<Rightarrow> string" where
  "replace_from kept r replacement prev s =
     (case first_match kept r (prev, s) of
        Some (q, e) \<Rightarrow>
          if length (snd e) < length s
          then take (length s - length (snd q)) s @ replacement @ replace_from kept r replacement (fst e) (snd e)
          else (case s of [] \<Rightarrow> [] | c # cs \<Rightarrow> c # replace_from kept r replacement (Some c) cs)
      | None \<Rightarrow> (case s of [] \<Rightarrow> [] | c # cs \<Rightarrow> c # replace_from kept r replacement (Some c) cs))"
  by pat_completeness auto

termination
  by (relation "measure (\<lambda>(kept, r, w, prev, s). length s)") auto

declare replace_from.simps [simp del]

definition replace_keeping :: "regex \<Rightarrow> regex \<Rightarrow> string \<Rightarrow> string \<Rightarrow> string" where
  "replace_keeping kept r replacement s = replace_from kept r replacement None s"

definition replace_all :: "regex \<Rightarrow> string \<Rightarrow> string \<Rightarrow> string" where
  "replace_all r replacement s = replace_keeping Empty r replacement s"

text \<open>\<open>s.split(pattern)\<close> for a pattern that may match the empty text nowhere it is used.\<close>

function split_from :: "regex \<Rightarrow> string \<Rightarrow> char option \<Rightarrow> string \<Rightarrow> string list" where
  "split_from r piece prev [] = [rev piece]"
| "split_from r piece prev (c # cs) =
     (case matches r (prev, c # cs) of
        e # _ \<Rightarrow> if length (snd e) < length (c # cs) then rev piece # split_from r [] (fst e) (snd e)
          else split_from r (c # piece) (Some c) cs
      | [] \<Rightarrow> split_from r (c # piece) (Some c) cs)"
  by pat_completeness auto

termination
  by (relation "measure (\<lambda>(r, piece, prev, s). length s)") auto

definition regex_split :: "regex \<Rightarrow> string \<Rightarrow> string list" where
  "regex_split r s = split_from r [] None s"

section \<open>Building patterns\<close>

definition lit :: "string \<Rightarrow> regex" where
  "lit s = foldr (\<lambda>c r. Seq (Sat (\<lambda>d. d = c)) r) s Empty"

text \<open>A literal under the flag \<open>i\<close>, given in lower case.\<close>

definition lit_ci :: "string \<Rightarrow> regex" where
  "lit_ci s = foldr (\<lambda>c r. Seq (Sat (\<lambda>d. lower_char d = c)) r) s Empty"

definition seq :: "regex list \<Rightarrow> regex" where
  "seq rs = foldr Seq rs Empty"

fun alts :: "regex list \<Rightarrow> regex" where
  "alts [] = Sat (\<lambda>c. False)"
| "alts [r] = r"
| "alts (r # q # rs) = Alt r (alts (q # rs))"

definition opt :: "regex \<Rightarrow> regex" where
  "opt r = Rep r 0 (Some 1)"

definition star :: "regex \<Rightarrow> regex" where
  "star r = Rep r 0 None"

definition plus :: "regex \<Rightarrow> regex" where
  "plus r = Rep r 1 None"

definition times :: "nat \<Rightarrow> regex \<Rightarrow> regex" where
  "times n r = Rep r n (Some n)"

definition one_of :: "string \<Rightarrow> regex" where
  "one_of cs = Sat (\<lambda>c. c \<in> set cs)"

definition none_of :: "string \<Rightarrow> regex" where
  "none_of cs = Sat (\<lambda>c. c \<notin> set cs)"

definition words :: "string list \<Rightarrow> regex" where
  "words ws = alts (map lit ws)"

text \<open>\<open>.\<close> matches all but line terminators.\<close>

definition any :: regex where
  "any = Sat (\<lambda>c. c \<noteq> CHR 0x0A \<and> c \<noteq> CHR 0x0D)"

definition digit :: regex where "digit = Sat is_digit"

definition space :: regex where "space = Sat is_ws"

section \<open>Matches move forward\<close>

text \<open>A match ends at a later position of the same text.\<close>

definition reaches :: "position \<Rightarrow> position \<Rightarrow> bool" where
  "reaches p q \<longleftrightarrow> (\<exists>u. snd p = u @ snd q \<and> fst q = (if u = [] then fst p else Some (last u)))"

lemma reaches_refl [simp]: "reaches p p"
  by (simp add: reaches_def)

lemma reaches_trans: "reaches p q \<Longrightarrow> reaches q r \<Longrightarrow> reaches p r"
proof -
  assume "reaches p q" "reaches q r"
  then obtain u v where u: "snd p = u @ snd q" "fst q = (if u = [] then fst p else Some (last u))"
    and v: "snd q = v @ snd r" "fst r = (if v = [] then fst q else Some (last v))"
    by (auto simp: reaches_def)
  then have "snd p = (u @ v) @ snd r"
    "fst r = (if u @ v = [] then fst p else Some (last (u @ v)))"
    by auto
  then show ?thesis unfolding reaches_def by blast
qed

lemma reaches_step: "reaches (b, c # cs) (Some c, cs)"
  unfolding reaches_def by (intro exI [of _ "[c]"]) simp

lemma matches_Rep_cases:
  "q \<in> set (matches (Rep r least most) p) \<Longrightarrow> q = p \<or>
     most \<noteq> Some 0 \<and> (\<exists>m\<in>set (matches r p). length (snd m) < length (snd p) \<and>
       q \<in> set (matches (Rep r (least - 1) (dec_bound most)) m))"
  by (subst (asm) matches.simps(5)) (auto simp: Let_def split: if_splits)

lemma matches_reach: "q \<in> set (matches r p) \<Longrightarrow> reaches p q"
proof (induction r p arbitrary: q rule: matches.induct)
  case (2 f p)
  then show ?case by (cases p; cases "snd p") (auto intro: reaches_step split: if_splits)
next
  case (3 r s p)
  then obtain m where "m \<in> set (matches r p)" "q \<in> set (matches s m)" by auto
  with 3 show ?case using reaches_trans by blast
next
  case (5 r least most p)
  show ?case
  proof (cases "q = p")
    case False
    with "5.prems" obtain m where "most \<noteq> Some 0" "m \<in> set (matches r p)" "length (snd m) < length (snd p)"
      "q \<in> set (matches (Rep r (least - 1) (dec_bound most)) m)"
      by (auto dest: matches_Rep_cases)
    with "5.IH" have "reaches p m" "reaches m q" by blast+
    then show ?thesis by (rule reaches_trans)
  qed simp
next
  case (4 r s p)
  then show ?case unfolding matches.simps set_append Un_iff by blast
next
  case (10 f p)
  then show ?case by (cases "fst p") (auto split: if_splits)
qed (simp_all split: if_splits)

lemma reaches_length: "reaches p q \<Longrightarrow> length (snd q) \<le> length (snd p)"
  by (auto simp: reaches_def)

end
