(* ===== verification/Automation.thy ===== *)
theory Automation
  imports Conversation Agent_Tools JS_Regex "HOL-Library.AList"
begin

text \<open>
  The automation of the WhatsApp channel (\<open>domain/whatsapp/whatsapp-automation-flow.ts\<close>): the plan
  for an inbound message, the validation of what the AI provider returned, the actions derived from
  it, the buffer of messages, deterministic command ids; and the guards of its executor
  (\<open>infra/integrations/whatsapp/api-whatsapp-automation.provider.ts\<close>).
\<close>

section \<open>Texts\<close>

definition UNSUPPORTED_MESSAGE_KIND_REPLY_TEXT :: string where
  "UNSUPPORTED_MESSAGE_KIND_REPLY_TEXT =
     ''Ainda n'' @ [CHR 0xE3] @
     ''o consigo interpretar esse tipo de arquivo. Por favor, envie sua resposta em texto.''"

definition QUOTE_CONFIRMATION_MESSAGE :: string where
  "QUOTE_CONFIRMATION_MESSAGE =
     ''Tudo certo com os dados! Seu pedido est'' @ [CHR 0xE1] @
     '' na fila do Comercial para preparar o or'' @ [CHR 0xE7] @ ''amento. Voc'' @ [CHR 0xEA] @
     '' pode continuar falando por aqui.''"

definition received_message_reply :: string where
  "received_message_reply =
     ''Recebi sua mensagem. O conte'' @ [CHR 0xFA] @ ''do continuar'' @ [CHR 0xE1] @ '' dispon'' @
     [CHR 0xED] @
     ''vel no atendimento; se precisar, descreva em texto o que deseja enquanto a an'' @
     [CHR 0xE1] @ ''lise '' @ [CHR 0xE9] @ '' preparada.''"

definition unidentified_content_reply :: string where
  "unidentified_content_reply =
     ''N'' @ [CHR 0xE3] @ ''o consegui identificar o conte'' @ [CHR 0xFA] @
     ''do da mensagem. Pode me explicar o que precisa?''"

text \<open>\<open>s.normalize('NFD').replace(/\p{M}/gu, '')\<close> on Latin-1: letters lose their diacritics.\<close>

definition base_letter :: "char \<Rightarrow> char" where
  "base_letter c =
     (let n = code c in
      if 192 \<le> n \<and> n \<le> 197 then CHR ''A'' else if n = 199 then CHR ''C''
      else if 200 \<le> n \<and> n \<le> 203 then CHR ''E'' else if 204 \<le> n \<and> n \<le> 207 then CHR ''I''
      else if n = 209 then CHR ''N'' else if 210 \<le> n \<and> n \<le> 214 then CHR ''O''
      else if 217 \<le> n \<and> n \<le> 220 then CHR ''U'' else if n = 221 then CHR ''Y''
      else if 224 \<le> n \<and> n \<le> 229 then CHR ''a'' else if n = 231 then CHR ''c''
      else if 232 \<le> n \<and> n \<le> 235 then CHR ''e'' else if 236 \<le> n \<and> n \<le> 239 then CHR ''i''
      else if n = 241 then CHR ''n'' else if 242 \<le> n \<and> n \<le> 246 then CHR ''o''
      else if 249 \<le> n \<and> n \<le> 252 then CHR ''u'' else if n = 253 \<or> n = 255 then CHR ''y'' else c)"

definition without_marks :: "string \<Rightarrow> string" where
  "without_marks s = map base_letter s"

definition gap :: "nat \<Rightarrow> regex" where
  "gap n = Rep any 0 (Some n)"

definition word_group :: "string list \<Rightarrow> regex" where
  "word_group ws = seq [Word_boundary, words ws, Word_boundary]"

definition budget_words :: regex where
  "budget_words = words [''orcamento'', ''cotacao'']"

definition new_or_other :: regex where
  "new_or_other = Alt (seq [lit ''nov'', one_of ''oa'']) (seq [lit ''outr'', one_of ''oa''])"

definition negated_new_pattern :: regex where
  "negated_new_pattern = seq [word_group [''nao'', ''nem''], Rep (none_of '',.!?'') 0 (Some 30),
     word_group [''novo'', ''outro'', ''nova'', ''outra'']]"

definition asks_new_quote_pattern :: regex where
  "asks_new_quote_pattern = seq [word_group [''quero'', ''queria'', ''preciso'', ''gostaria'', ''desejo'',
       ''vamos'', ''pode'', ''posso'', ''faz'', ''faca'', ''fazer'', ''solicitar'', ''pedir'', ''criar''],
     gap 60, Word_boundary, new_or_other, plus space, budget_words, Word_boundary]"

definition asks_other_trip_pattern :: regex where
  "asks_other_trip_pattern = seq [word_group [''quero'', ''queria'', ''preciso'', ''gostaria'', ''desejo'',
       ''solicitar'', ''pedir''], gap 50, word_group [''orcamento''], gap 30, Word_boundary,
     words [''outra'', ''nova''], plus space, lit ''viagem'', Word_boundary]"

definition only_new_quote_pattern :: regex where
  "only_new_quote_pattern = seq [At_start, star space, new_or_other, lit '' '', budget_words,
     star (Sat (\<lambda>c. c \<in> set ''.!?'' \<or> is_ws c)), At_end]"

definition isExplicitNewQuoteRequest :: "string \<Rightarrow> bool" where
  "isExplicitNewQuoteRequest message =
     (let t = to_lower (without_marks message) in
      if regex_test negated_new_pattern t then False
      else regex_test asks_new_quote_pattern t \<or> regex_test asks_other_trip_pattern t \<or>
        regex_test only_new_quote_pattern t)"

section \<open>Conversations and messages\<close>

datatype automation_topic =
  TO_inbound_persisted | TO_human_notification | TO_assistant_collection | TO_outbound_requested

datatype message_kind =
    MK_text | MK_image | MK_document | MK_audio | MK_video | MK_sticker | MK_location | MK_contact
  | MK_unknown

record quote_request_snapshot =
  qr_id :: string
  qr_sequence :: int
  qr_status :: quote_status
  qr_version :: int
  qr_contactName :: "string option"
  qr_document :: "string option"
  qr_email :: "string option"
  qr_serviceType :: "string option"
  qr_origin :: "string option"
  qr_destination :: "string option"
  qr_departureDate :: "string option"
  qr_departureAt :: "string option"
  qr_returnDate :: "string option"
  qr_returnAt :: "string option"
  qr_passengerCount :: "int option"
  qr_vehicleType :: "string option"
  qr_vehicleAtDisposal :: "bool option"
  qr_localTransfers :: "bool option"
  qr_notes :: "string option"
  qr_structuredData :: "(string \<times> json) list option"

record automation_conversation =
  ac_id :: string
  ac_department :: department
  ac_conversationState :: conversation_state
  ac_flowStep :: flow_step
  ac_requestStatus :: quote_status
  ac_resumeState :: "conversation_state option"
  ac_version :: int
  ac_mainMenuPresentedAt :: "string option"
  ac_followUpMenuPresentedAt :: "string option"
  ac_departmentContactOption :: "string option"
  ac_assignedTo :: "(string \<times> string) option"
  ac_currentQuoteRequest :: "quote_request_snapshot option"

text \<open>Of the envelope, the members the rules read.\<close>

record automation_envelope =
  en_topic :: automation_topic
  en_messageKind :: message_kind
  en_messageText :: "string option"
  en_conversation :: automation_conversation
  en_automationAllowed :: bool
  en_canGenerateReply :: bool
  en_canSendReply :: bool
  en_isFirstContact :: bool
  en_reopenedAfterClosure :: bool

definition QUOTE_STATUSES_WITH_FOLLOW_UP_MENU :: "quote_status list" where
  "QUOTE_STATUSES_WITH_FOLLOW_UP_MENU =
     [QS_waiting_for_customer, QS_under_review, QS_approved, QS_rejected]"

datatype ai_mode =
    AM_natural_service | AM_eventual_quote | AM_continuous_pretriage
  | AM_quote_correction_or_confirmation

datatype plan_kind = PK_static_reply | PK_ai | PK_human_notification | PK_suppressed | PK_transition_only

datatype outbound_purpose =
  OP_main_menu | OP_commercial_follow_up_menu | OP_department_notification | OP_unsupported_message_kind

record automation_plan =
  ap_kind :: plan_kind
  ap_responseMessage :: "string option"
  ap_transitionBeforeAi :: "transition_name option"
  ap_transitionAfterSend :: "transition_name option"
  ap_transitionMetadata :: "(string \<times> json) list option"
  ap_aiMode :: "ai_mode option"
  ap_reason :: string
  ap_outboundPurpose :: "outbound_purpose option"

section \<open>The plan for an inbound message\<close>

definition aiPlan :: "ai_mode \<Rightarrow> transition_name option \<Rightarrow> string \<Rightarrow> automation_plan" where
  "aiPlan mode before reason = \<lparr>ap_kind = PK_ai, ap_responseMessage = None, ap_transitionBeforeAi = before,
     ap_transitionAfterSend = None, ap_transitionMetadata = None, ap_aiMode = Some mode,
     ap_reason = reason, ap_outboundPurpose = None\<rparr>"

definition suppressed :: "string \<Rightarrow> automation_plan" where
  "suppressed reason = \<lparr>ap_kind = PK_suppressed, ap_responseMessage = None, ap_transitionBeforeAi = None,
     ap_transitionAfterSend = None, ap_transitionMetadata = None, ap_aiMode = None,
     ap_reason = reason, ap_outboundPurpose = None\<rparr>"

definition human_notification :: "string \<Rightarrow> string \<Rightarrow> automation_plan" where
  "human_notification why reason = \<lparr>ap_kind = PK_human_notification, ap_responseMessage = None,
     ap_transitionBeforeAi = None, ap_transitionAfterSend = None,
     ap_transitionMetadata = Some [(''reason'', JString why), (''historyAvailableInPanel'', JBool True)],
     ap_aiMode = None, ap_reason = reason, ap_outboundPurpose = None\<rparr>"

definition static_reply ::
  "string \<Rightarrow> (string \<times> json) list option \<Rightarrow> string \<Rightarrow> outbound_purpose option \<Rightarrow> automation_plan" where
  "static_reply message metadata reason purpose = \<lparr>ap_kind = PK_static_reply, ap_responseMessage = Some message,
     ap_transitionBeforeAi = None, ap_transitionAfterSend = None, ap_transitionMetadata = metadata,
     ap_aiMode = None, ap_reason = reason, ap_outboundPurpose = purpose\<rparr>"

text \<open>\<open>/\b\d{3}[.\s-]?\d{3}[.\s-]?\d{3}[-\s]?\d{2}\b/g\<close>\<close>

definition cpf_pattern :: regex where
  "cpf_pattern =
     (let sep = opt (Sat (\<lambda>c. c = CHR ''.'' \<or> is_ws c \<or> c = CHR ''-'')) in
      seq [Word_boundary, times 3 digit, sep, times 3 digit, sep, times 3 digit,
        opt (Sat (\<lambda>c. c = CHR ''-'' \<or> is_ws c)), times 2 digit, Word_boundary])"

definition getProcessableMessageText :: "automation_envelope \<Rightarrow> string option" where
  "getProcessableMessageText event =
     (if en_messageKind event \<noteq> MK_text then None
      else (let sanitized = replace_all cpf_pattern ''[DADO_PESSOAL_MASCARADO]''
              (trim (case en_messageText event of None \<Rightarrow> [] | Some t \<Rightarrow> t))
            in if length sanitized > 0 then Some sanitized else None))"

definition resolveQuoteMode :: "automation_conversation \<Rightarrow> ai_mode" where
  "resolveQuoteMode c =
     (let quoteMode = Option.bind (ac_currentQuoteRequest c)
            (\<lambda>q. Option.bind (qr_structuredData q) (\<lambda>d. map_of d ''quoteMode''));
          serviceType = (case Option.bind (ac_currentQuoteRequest c) qr_serviceType of
            Some t \<Rightarrow> to_lower t
          | None \<Rightarrow> to_lower (case quoteMode of Some (JString s) \<Rightarrow> s | _ \<Rightarrow> []))
      in if includes_list serviceType ''cont'' \<or> includes_list serviceType ''continuous''
         then AM_continuous_pretriage else AM_eventual_quote)"

definition humanAutomationBlocked :: "automation_topic \<Rightarrow> automation_conversation \<Rightarrow> bool" where
  "humanAutomationBlocked topic c \<longleftrightarrow>
     topic = TO_human_notification \<or> ac_conversationState c = CS_human_active \<or>
     ac_conversationState c = CS_sent_to_human \<or> ac_flowStep c = FS_human_service \<or>
     ac_assignedTo c \<noteq> None"

definition flow_plan :: "automation_conversation \<Rightarrow> automation_plan" where
  "flow_plan c = (case ac_flowStep c of
       FS_main_menu \<Rightarrow> aiPlan AM_natural_service None ''natural-language-service''
     | FS_commercial_menu \<Rightarrow> aiPlan AM_natural_service None ''contextual-commercial-service''
     | FS_commercial_follow_up_menu \<Rightarrow> aiPlan AM_natural_service None ''contextual-commercial-service''
     | FS_quote_data_collection \<Rightarrow> aiPlan (resolveQuoteMode c) None ''continue-quote''
     | FS_quote_summary_confirmation \<Rightarrow>
         aiPlan AM_quote_correction_or_confirmation None ''evaluate-summary-decision''
     | FS_human_service \<Rightarrow> human_notification ''human-service-inbound'' ''human-service-blocks-bot''
     | FS_quote_send_pending \<Rightarrow> human_notification ''human-service-inbound'' ''human-service-blocks-bot''
     | FS_closed \<Rightarrow> suppressed ''conversation-closed'')"

record plan_request =
  pr_envelope :: automation_envelope
  pr_conversation :: "automation_conversation option"
  pr_bufferedText :: "string option"
  pr_pendingQuestion :: "string option"
  pr_mediaInterpretationAvailable :: "bool option"

definition current_conversation :: "plan_request \<Rightarrow> automation_conversation" where
  "current_conversation input =
     (case pr_conversation input of Some c \<Rightarrow> c | None \<Rightarrow> en_conversation (pr_envelope input))"

definition message_text :: "plan_request \<Rightarrow> string" where
  "message_text input = trim (case pr_bufferedText input of Some t \<Rightarrow> t
     | None \<Rightarrow> (case getProcessableMessageText (pr_envelope input) of Some t \<Rightarrow> t | None \<Rightarrow> []))"

definition decideAutomationPlan :: "plan_request \<Rightarrow> automation_plan" where
  "decideAutomationPlan input =
     (let envelope = pr_envelope input; c = current_conversation input; messageText = message_text input;
          mediaAvailable = (pr_mediaInterpretationAvailable input = Some True) in
      if humanAutomationBlocked (en_topic envelope) c
      then human_notification ''human-conversation-inbound'' ''human-active-blocks-bot''
      else if \<not> en_automationAllowed envelope \<or> \<not> en_canGenerateReply envelope \<or>
        \<not> en_canSendReply envelope \<or> ac_conversationState c \<noteq> CS_bot_active
      then suppressed ''tenant-api-did-not-authorize-automatic-reply''
      else if ac_currentQuoteRequest c \<noteq> None \<and> isExplicitNewQuoteRequest messageText
      then aiPlan AM_eventual_quote (Some T_new_quote_request) ''explicit-new-quote-request''
      else if ac_conversationState c = CS_bot_active \<and>
        (en_isFirstContact envelope \<or> en_reopenedAfterClosure envelope) \<and>
        falsy (ac_mainMenuPresentedAt c)
      then (if (en_messageKind envelope = MK_text \<or> mediaAvailable) \<and> messageText \<noteq> []
            then aiPlan AM_natural_service None
              (if en_reopenedAfterClosure envelope then ''natural-language-after-closure''
               else ''natural-language-first-contact'')
            else static_reply received_message_reply
              (Some [(''reason'', JString (if en_reopenedAfterClosure envelope
                then ''main-menu-after-closure'' else ''initial-menu''))])
              (if en_reopenedAfterClosure envelope
               then ''reopened-conversation-menu-pending-durable-confirmation''
               else ''initial-menu-pending-durable-confirmation'') None)
      else if en_messageKind envelope \<noteq> MK_text \<and> \<not> mediaAvailable
      then (let pendingQuestion = (case pr_pendingQuestion input of None \<Rightarrow> [] | Some q \<Rightarrow> trim q) in
            static_reply
              (if ac_flowStep c \<in> set [FS_quote_data_collection, FS_quote_summary_confirmation] \<and> pendingQuestion \<noteq> []
               then pendingQuestion @ [CHR 0x0A, CHR 0x0A] @ UNSUPPORTED_MESSAGE_KIND_REPLY_TEXT
               else UNSUPPORTED_MESSAGE_KIND_REPLY_TEXT)
              None ''unsupported-message-kind-preserves-conversation-state'' (Some OP_unsupported_message_kind))
      else if messageText = []
      then static_reply unidentified_content_reply None ''processable-text-required'' None
      else flow_plan c)"

section \<open>What the AI provider returned\<close>

text \<open>
  The value is the parsed answer of the provider. \<open>String(v)\<close> of a value, which the checks of the
  enumerations use; a missing field is \<open>undefined\<close>.
\<close>

fun js_string :: "json \<Rightarrow> string" where
  "js_string JNull = ''null''"
| "js_string (JBool b) = (if b then ''true'' else ''false'')"
| "js_string (JString s) = s"
| "js_string (JNumber x) = num_text x"
| "js_string (JArray vs) = join_comma (map (\<lambda>v. if v = JNull \<or> v = JUnsupported then [] else js_string v) vs)"
| "js_string (JObject _) = ''[object Object]''"
| "js_string JUnsupported = ''undefined''"
| "js_string JInstance = ''[object Object]''"

definition asRecord :: "json \<Rightarrow> (string \<times> json) list option" where
  "asRecord v = (case v of JObject ms \<Rightarrow> Some ms | _ \<Rightarrow> None)"

definition text_field :: "json \<Rightarrow> string" where
  "text_field v = (case v of JString s \<Rightarrow> trim s | _ \<Rightarrow> [])"

definition is_text :: "json \<Rightarrow> bool" where
  "is_text v = (case v of JString _ \<Rightarrow> True | _ \<Rightarrow> False)"

definition collectionStatuses :: "string list" where
  "collectionStatuses = [''collecting'', ''ready-for-summary'', ''completed'', ''human-handoff'']"

definition customerDecisions :: "string list" where
  "customerDecisions = [''undecided'', ''confirmed'', ''correction-requested'', ''human-requested'']"

definition servicePriorities :: "string list" where
  "servicePriorities = [''low'', ''normal'', ''high'', ''urgent'']"

text \<open>The enumerations are cast, not parsed: they keep the value that was received.\<close>

record ai_output =
  ao_message :: string
  ao_collectionStatus :: json
  ao_extractedDataPatch :: json
  ao_missingFields :: json
  ao_summaryPresented :: bool
  ao_customerDecision :: json
  ao_priority :: "(json \<times> string) option"
  ao_targetDepartment :: "string option"

definition validation_errors :: "(string \<times> json) list \<Rightarrow> string list" where
  "validation_errors r =
     (let check = (\<lambda>bad e. if bad then [e] else []);
          hasPriority = (field r ''priority'' \<noteq> JUnsupported);
          hasPriorityReason = (field r ''priorityReason'' \<noteq> JUnsupported);
          priorityReason = text_field (field r ''priorityReason'')
      in check (text_field (field r ''message'') = []) ''message'' @
         check (js_string (field r ''collectionStatus'') \<notin> set collectionStatuses) ''collectionStatus'' @
         check (asRecord (field r ''extractedDataPatch'') = None) ''extractedDataPatch'' @
         check (case field r ''missingFields'' of JArray vs \<Rightarrow> list_ex (\<lambda>v. \<not> is_text v) vs | _ \<Rightarrow> True)
           ''missingFields'' @
         check (case field r ''summaryPresented'' of JBool _ \<Rightarrow> False | _ \<Rightarrow> True) ''summaryPresented'' @
         check (js_string (field r ''customerDecision'') \<notin> set customerDecisions) ''customerDecision'' @
         check (hasPriority \<noteq> hasPriorityReason) ''priority-and-reason'' @
         check (hasPriority \<and> js_string (field r ''priority'') \<notin> set servicePriorities) ''priority'' @
         check (hasPriorityReason \<and> (priorityReason = [] \<or> length priorityReason > 500)) ''priorityReason'' @
         check (field r ''targetDepartment'' \<noteq> JUnsupported \<and>
           (case field r ''targetDepartment'' of JString d \<Rightarrow> d \<notin> set (map dept_str INTERNAL_DEPARTMENTS)
             | _ \<Rightarrow> True)) ''targetDepartment'')"

definition validateAiProviderOutput :: "json \<Rightarrow> string list + ai_output" where
  "validateAiProviderOutput value =
     (case asRecord value of None \<Rightarrow> Inl [''not-an-object'']
      | Some r \<Rightarrow>
          (let errors = validation_errors r in
           if length errors > 0 then Inl errors
           else Inr \<lparr>ao_message = text_field (field r ''message''),
             ao_collectionStatus = field r ''collectionStatus'',
             ao_extractedDataPatch = field r ''extractedDataPatch'',
             ao_missingFields = field r ''missingFields'',
             ao_summaryPresented = (field r ''summaryPresented'' = JBool True),
             ao_customerDecision = field r ''customerDecision'',
             ao_priority = (if field r ''priority'' \<noteq> JUnsupported
               then Some (field r ''priority'', text_field (field r ''priorityReason'')) else None),
             ao_targetDepartment = (case field r ''targetDepartment'' of JString d \<Rightarrow> Some d | _ \<Rightarrow> None)\<rparr>))"

section \<open>The actions of an answer\<close>

text \<open>The sentences of a text: \<open>split(/(?<=[.!?;])\s+|\n+/u)\<close>.\<close>

definition sentence_separator :: regex where
  "sentence_separator = Alt (seq [Behind (\<lambda>c. c \<in> set ''.!?;''), plus space]) (plus (Sat (\<lambda>c. c = CHR 0x0A)))"

definition conditional_pattern :: regex where
  "conditional_pattern = word_group [''se'', ''caso'', ''quando'']"

definition o_or_a :: regex where
  "o_or_a = one_of ''oa''"

definition i_will_pattern :: regex where
  "i_will_pattern = seq [At_start,
     opt (seq [alts [lit ''tudo certo'', lit ''certo'', lit ''entendi'', lit ''perfeito'', seq [lit ''obrigad'', o_or_a]],
       opt (lit '',''), plus space]),
     opt (seq [lit ''eu'', plus space]),
     alts [seq [lit ''vou'', plus space, words [''encaminhar'', ''transferir'', ''conectar'', ''direcionar'']],
       seq [lit ''vamos'', plus space, words [''encaminhar'', ''transferir'', ''conectar'', ''direcionar'']],
       seq [lit ''estou'', plus space, words [''encaminhando'', ''transferindo'', ''conectando'', ''direcionando'']],
       lit ''encaminharei'', lit ''transferirei'', lit ''encaminhei'', lit ''transferi''],
     Word_boundary]"

definition was_forwarded_pattern :: regex where
  "was_forwarded_pattern = seq [At_start,
     star (seq [words [''o'', ''a'', ''seu'', ''sua''], plus space]),
     words [''atendimento'', ''solicitacao'', ''pedido''], plus space, opt (seq [lit ''ja'', plus space]),
     words [''foi'', ''esta sendo''], plus space,
     alts [seq [lit ''encaminhad'', o_or_a], seq [lit ''transferid'', o_or_a], seq [lit ''direcionad'', o_or_a]],
     Word_boundary]"

definition handoff_object_pattern :: regex where
  "handoff_object_pattern = word_group [''atendimento'', ''solicitacao'', ''pedido'', ''voce'', ''equipe'',
     ''time'', ''departamento'', ''setor'', ''responsavel'']"

definition bare_handoff_pattern :: regex where
  "bare_handoff_pattern = seq [At_start, words [''vou'', ''vamos''], plus space,
     words [''encaminhar'', ''transferir''], opt (one_of ''.!''), At_end]"

definition commits_handoff :: "string \<Rightarrow> bool" where
  "commits_handoff sentence =
     (if CHR ''?'' \<in> set sentence \<or> regex_test conditional_pattern sentence then False
      else (regex_test i_will_pattern (trim sentence) \<or> regex_test was_forwarded_pattern (trim sentence)) \<and>
        (regex_test handoff_object_pattern sentence \<or> regex_test bare_handoff_pattern (trim sentence)))"

definition announcesHumanHandoff :: "string \<Rightarrow> bool" where
  "announcesHumanHandoff message =
     list_ex commits_handoff (regex_split sentence_separator (to_lower (without_marks message)))"

definition aiOutputResolvesConversation :: "ai_output \<Rightarrow> ai_mode \<Rightarrow> bool" where
  "aiOutputResolvesConversation output mode \<longleftrightarrow>
     mode = AM_natural_service \<and> ao_collectionStatus output = JString ''completed'' \<and>
     \<not> announcesHumanHandoff (ao_message output) \<and> ao_missingFields output = JArray [] \<and>
     (ao_customerDecision output = JString ''undecided'' \<or> ao_customerDecision output = JString ''confirmed'')"

record ai_actions =
  aa_sendMessage :: bool
  aa_transitionBeforeSend :: "transition_name option"
  aa_transitionAfterSend :: "transition_name option"
  aa_humanReason :: "string option"

definition send_and ::
  "transition_name option \<Rightarrow> transition_name option \<Rightarrow> string option \<Rightarrow> ai_actions" where
  "send_and before after reason = \<lparr>aa_sendMessage = True, aa_transitionBeforeSend = before,
     aa_transitionAfterSend = after, aa_humanReason = reason\<rparr>"

definition deriveAiActions :: "ai_output \<Rightarrow> ai_mode \<Rightarrow> ai_actions" where
  "deriveAiActions output mode =
     (let decision = ao_customerDecision output; status = ao_collectionStatus output in
      if mode = AM_natural_service
      then (if decision = JString ''human-requested'' \<or> status = JString ''human-handoff'' \<or>
              announcesHumanHandoff (ao_message output)
            then send_and None (Some T_forward) (Some ''customer-requested-human'')
            else send_and None None None)
      else if decision = JString ''confirmed''
      then send_and None (Some T_confirm_quote) (Some ''quote-summary-confirmed'')
      else if decision = JString ''correction-requested'' then send_and (Some T_correct_quote) None None
      else if decision = JString ''human-requested'' \<or> status = JString ''human-handoff''
      then send_and None (Some T_forward) (Some ''customer-requested-human'')
      else if mode = AM_continuous_pretriage \<and> status = JString ''completed''
      then send_and None (Some T_forward) (Some ''continuous-pretriage-completed'')
      else if ao_summaryPresented output \<or> status = JString ''ready-for-summary''
      then send_and None (Some T_present_quote_summary) None
      else send_and None None None)"

text \<open>Trailing marks go with \<open>replace(/[.!?]+$/g, '')\<close>.\<close>

definition normalized_answer :: "string \<Rightarrow> string" where
  "normalized_answer value =
     trim (rev (dropWhile (\<lambda>c. c \<in> set ''.!?'') (rev (without_marks (to_lower (trim value))))))"

definition confirmations :: "string list" where
  "confirmations = [''sim'', ''sim, confirmo'', ''sim, esta correto'', ''sim, pode confirmar'',
     ''sim, pode enviar'', ''sim, pode encaminhar'', ''confirmo'', ''confirmado'', ''correto'', ''esta correto'',
     ''esta tudo certo'', ''os dados estao corretos'', ''pode confirmar'', ''pode enviar'', ''pode encaminhar'',
     ''de acordo'', ''tudo certo'', ''ok'', ''okay'']"

definition starts_with :: "string \<Rightarrow> string \<Rightarrow> bool" where
  "starts_with p s \<longleftrightarrow> take (length p) s = p"

definition isExplicitPositiveConfirmation :: "string \<Rightarrow> bool" where
  "isExplicitPositiveConfirmation value =
     (let normalized = normalized_answer value in
      list_ex (\<lambda>c. normalized = c \<or> list_ex (\<lambda>d. starts_with (c @ [d]) normalized) '',.;: '') confirmations)"

section \<open>The buffer of messages\<close>

datatype interpretation_source = IS_human | IS_machine | IS_none

record buffered_message =
  bm_sourceEventId :: string
  bm_messageId :: string
  bm_occurredAt :: string
  bm_kind :: string
  bm_text :: "string option"
  bm_interpretedText :: "string option"
  bm_interpretationSource :: "interpretation_source option"
  bm_mediaInterpretationId :: "string option"
  bm_isFirstContact :: bool

definition appendBufferedMessage ::
  "(string \<Rightarrow> string \<Rightarrow> int) \<Rightarrow> buffered_message list \<Rightarrow> buffered_message \<Rightarrow> buffered_message list" where
  "appendBufferedMessage locale current next =
     js_sort (\<lambda>l r. locale (bm_occurredAt l) (bm_occurredAt r))
       (map snd (AList.update (bm_sourceEventId next) next
          (fold (\<lambda>m. AList.update (bm_sourceEventId m) m) current [])))"

definition message_content :: "buffered_message \<Rightarrow> string" where
  "message_content m =
     (let interpreted = (case bm_interpretedText m of None \<Rightarrow> [] | Some t \<Rightarrow> trim t) in
      if interpreted \<noteq> [] then interpreted else (case bm_text m of None \<Rightarrow> [] | Some t \<Rightarrow> trim t))"

fun join_lines :: "string list \<Rightarrow> string" where
  "join_lines [] = []"
| "join_lines [s] = s"
| "join_lines (s # t # ts) = s @ CHR 0x0A # join_lines (t # ts)"

definition buildBufferedText :: "buffered_message list \<Rightarrow> string" where
  "buildBufferedText messages = join_lines (filter (\<lambda>t. t \<noteq> []) (map message_content messages))"

definition used_interpretation :: "buffered_message \<Rightarrow> (string \<times> interpretation_source) option" where
  "used_interpretation m =
     (let ident = (case bm_mediaInterpretationId m of None \<Rightarrow> [] | Some i \<Rightarrow> trim i);
          interpreted = (case bm_interpretedText m of None \<Rightarrow> [] | Some t \<Rightarrow> trim t) in
      case bm_interpretationSource m of
        Some source \<Rightarrow> if ident = [] \<or> interpreted = [] \<or> source = IS_none then None else Some (ident, source)
      | None \<Rightarrow> None)"

definition mediaInterpretationsUsedInBufferedText ::
  "buffered_message list \<Rightarrow> (string \<times> interpretation_source) list" where
  "mediaInterpretationsUsedInBufferedText messages =
     fold (\<lambda>m s. case used_interpretation m of None \<Rightarrow> s | Some (i, source) \<Rightarrow> AList.update i source s) messages []"

section \<open>Deterministic command ids\<close>

text \<open>Numbers are taken to 32 bits by the bit operations of JavaScript; \<open>Math.imul\<close> is the product
  of 32-bit words.\<close>

definition hash_step :: "nat \<Rightarrow> char \<Rightarrow> 32 word \<Rightarrow> 32 word" where
  "hash_step index c hash =
     (let h = xor hash (of_nat (code c + index * 17)) * 0x01000193 in xor h (drop_bit 13 h))"

definition hash_text :: "nat \<Rightarrow> 32 word \<Rightarrow> string \<Rightarrow> 32 word" where
  "hash_text index seed value = fold (hash_step index) value seed"

definition word_bytes :: "32 word \<Rightarrow> 8 word list" where
  "word_bytes h = [ucast (drop_bit 24 h), ucast (drop_bit 16 h), ucast (drop_bit 8 h), ucast h]"

definition hex_byte :: "8 word \<Rightarrow> string" where
  "hex_byte b = [hex_digit (unat b div 16), hex_digit (unat b mod 16)]"

definition id_bytes :: "string \<Rightarrow> 8 word list" where
  "id_bytes value =
     (let bytes = concat (map word_bytes [hash_text 0 0x811c9dc5 value, hash_text 1 0x9e3779b1 value,
            hash_text 2 0x85ebca77 value, hash_text 3 0xc2b2ae3d value]);
          versioned = bytes[6 := or (and (bytes ! 6) 0x0f) 0x50]
      in versioned[8 := or (and (versioned ! 8) 0x3f) 0x80])"

definition uuid_text :: "string \<Rightarrow> string" where
  "uuid_text hex = take 8 hex @ ''-'' @ take 4 (drop 8 hex) @ ''-'' @ take 4 (drop 12 hex) @ ''-'' @
     take 4 (drop 16 hex) @ ''-'' @ drop 20 hex"

definition deterministicCommandId :: "string \<Rightarrow> string \<Rightarrow> string" where
  "deterministicCommandId sourceEventId action =
     uuid_text (concat (map hex_byte (id_bytes (sourceEventId @ '':'' @ action))))"

definition clean_key :: "string \<Rightarrow> string" where
  "clean_key value = map (\<lambda>c. if is_lower c \<or> is_digit c \<or> c = CHR ''-'' then c else CHR ''-'') (to_lower value)"

definition redisConversationPrefix :: "string \<Rightarrow> string \<Rightarrow> string \<Rightarrow> string" where
  "redisConversationPrefix environment companyId conversationId =
     ''milenium:whatsapp:'' @ clean_key (if environment = [] then ''local'' else environment) @ '':'' @
     clean_key companyId @ '':'' @ clean_key conversationId"

section \<open>The executor of a plan\<close>

text \<open>
  The decisions of \<open>processInteractivePlan\<close> between the answer of the AI and the commands it sends:
  the guards, the mode in force, the transitions before and after the message. The transitions run
  through the conversation machine as the actor \<open>system\<close>; the writes of the quote are a parameter
  (\<open>patch\<close>: the conversation after the write, or the failure of the write).
\<close>

datatype execution_failure =
    Execution_error string | Transition_refused app_error

type_synonym 'a execution = "execution_failure + 'a"

definition assertSafeAiDecision :: "ai_output \<Rightarrow> ai_mode \<Rightarrow> string \<Rightarrow> unit execution" where
  "assertSafeAiDecision output mode userMessage =
     throw_if (mode \<noteq> AM_natural_service \<and> ao_customerDecision output = JString ''confirmed'' \<and>
       (mode \<noteq> AM_quote_correction_or_confirmation \<or> \<not> isExplicitPositiveConfirmation userMessage))
       (Execution_error ''AI_CONFIRMATION_NOT_EXPLICIT'')"

definition string_value :: "json option \<Rightarrow> string option" where
  "string_value v = (case v of Some (JString s) \<Rightarrow> if trim s = [] then None else Some (trim s) | _ \<Rightarrow> None)"

definition missing_quote_fields :: "quote_request_snapshot option \<Rightarrow> string list" where
  "missing_quote_fields quote =
     (let structured = (case Option.bind quote qr_structuredData of None \<Rightarrow> [] | Some d \<Rightarrow> d);
          tripType = string_value (map_of structured ''tripType'');
          check = (\<lambda>bad name. if bad then [name] else [])
      in check (falsy (Option.bind quote qr_contactName)) ''contactName'' @ check (falsy (Option.bind quote qr_serviceType)) ''serviceType'' @
         check (tripType = None) ''tripType'' @ check (falsy (Option.bind quote qr_origin)) ''origin'' @
         check (falsy (Option.bind quote qr_destination)) ''destination'' @
         check (falsy (Option.bind quote qr_departureDate) \<and> falsy (Option.bind quote qr_departureAt)) ''departureAt'' @
         check (tripType = Some ''round_trip'' \<and> falsy (Option.bind quote qr_returnDate) \<and> falsy (Option.bind quote qr_returnAt)) ''returnAt'' @
         check (case Option.bind quote qr_passengerCount of None \<Rightarrow> True | Some n \<Rightarrow> n = 0 \<or> n < 1) ''passengerCount'' @
         check (falsy (Option.bind quote qr_vehicleType)) ''vehicleType'' @
         check (Option.bind quote qr_vehicleAtDisposal = None) ''vehicleAtDisposal'' @
         check (Option.bind quote qr_localTransfers = None) ''localTransfers'')"

definition assertMinimumQuoteComplete :: "quote_request_snapshot option \<Rightarrow> unit execution" where
  "assertMinimumQuoteComplete quote =
     throw_if (missing_quote_fields quote \<noteq> []) (Execution_error ''AI_QUOTE_INCOMPLETE'')"

record live_conversation =
  lc_conversation :: conversation
  lc_quote :: "quote_request_snapshot option"

definition run_transition ::
  "live_conversation \<Rightarrow> transition_name \<Rightarrow> department option \<Rightarrow> live_conversation execution" where
  "run_transition l name target =
     (case actedTransition (lc_conversation l) (TA_system, \<lparr>ti_name = name, ti_targetDepartment = target,
         ti_departmentOption = None, ti_preventCloseWithApprovedQuote = None\<rparr>) of
        Inl e \<Rightarrow> Inl (Transition_refused e) | Inr c \<Rightarrow> Inr (l\<lparr>lc_conversation := c\<rparr>))"

definition startsEventualQuote :: "ai_mode \<Rightarrow> live_conversation \<Rightarrow> ai_output \<Rightarrow> bool" where
  "startsEventualQuote mode l output \<longleftrightarrow>
     mode = AM_natural_service \<and> cv_department (lc_conversation l) = D_commercial \<and> lc_quote l = None \<and>
     cv_requestStatus (lc_conversation l) = QS_not_started \<and>
     cv_flowStep (lc_conversation l) \<in> set [FS_main_menu, FS_commercial_menu] \<and>
     (case ao_extractedDataPatch output of JObject ms \<Rightarrow> field ms ''serviceType'' = JString ''eventual'' | _ \<Rightarrow> False) \<and>
     ao_customerDecision output \<noteq> JString ''human-requested'' \<and>
     ao_collectionStatus output \<noteq> JString ''human-handoff''"

definition department_of :: "string option \<Rightarrow> department option" where
  "department_of s = (case s of None \<Rightarrow> None | Some t \<Rightarrow> js_first (filter (\<lambda>d. dept_str d = t) DEPARTMENTS))"

definition before_send ::
  "(live_conversation \<Rightarrow> ai_output \<Rightarrow> ai_mode \<Rightarrow> live_conversation execution) \<Rightarrow>
   ai_output \<Rightarrow> ai_mode \<Rightarrow> string \<Rightarrow> live_conversation \<Rightarrow> (live_conversation \<times> ai_actions) execution" where
  "before_send patch output mode userMessage l =
     rbind (assertSafeAiDecision output mode userMessage) (\<lambda>_.
     let actions = deriveAiActions output mode in
     if aa_transitionAfterSend actions = Some T_forward \<and> falsy (ao_targetDepartment output)
     then Inl (Execution_error ''targetDepartment'')
     else rbind (case aa_transitionBeforeSend actions of None \<Rightarrow> Inr l | Some name \<Rightarrow> run_transition l name None) (\<lambda>l1.
       rbind (if mode \<noteq> AM_natural_service then patch l1 output mode else Inr l1) (\<lambda>l2.
       rbind (if aa_transitionAfterSend actions \<in> {Some T_present_quote_summary, Some T_confirm_quote}
              then assertMinimumQuoteComplete (lc_quote l2) else Inr ()) (\<lambda>_. Inr (l2, actions)))))"

text \<open>The commands of an answer in their order: a handoff sends its message with the transition, any
  other message is delivered before the transition runs.\<close>

datatype executed = Message_sent string | Transition_done transition_name

definition after_send ::
  "ai_output \<Rightarrow> ai_mode \<Rightarrow> live_conversation \<times> ai_actions \<Rightarrow> executed list \<times> live_conversation execution" where
  "after_send output mode la =
     (case la of (l, actions) \<Rightarrow>
       let message = (if mode \<noteq> AM_natural_service \<and> ao_customerDecision output = JString ''confirmed''
             then QUOTE_CONFIRMATION_MESSAGE else ao_message output) in
       case aa_transitionAfterSend actions of
         None \<Rightarrow> ([Message_sent message], Inr l)
       | Some name \<Rightarrow>
           (case run_transition l name (if name = T_confirm_quote then Some D_commercial
               else if name = T_forward then department_of (ao_targetDepartment output) else None) of
              Inr l' \<Rightarrow> ([Message_sent message, Transition_done name], Inr l')
            | Inl e \<Rightarrow> (if name \<in> {T_forward, T_confirm_quote} then [] else [Message_sent message], Inl e)))"

definition executeAnswer ::
  "(live_conversation \<Rightarrow> ai_output \<Rightarrow> ai_mode \<Rightarrow> live_conversation execution) \<Rightarrow>
   ai_mode \<Rightarrow> ai_output \<Rightarrow> string \<Rightarrow> live_conversation \<Rightarrow> executed list \<times> live_conversation execution" where
  "executeAnswer patch planMode output userMessage l =
     (let started = (if startsEventualQuote planMode l output
            then rbind (assertSafeAiDecision output AM_eventual_quote userMessage) (\<lambda>_.
              rbind (run_transition l T_start_quote None) (\<lambda>l'. Inr (l', AM_eventual_quote)))
            else Inr (l, planMode))
      in case started of Inl e \<Rightarrow> ([], Inl e)
         | Inr (l1, mode) \<Rightarrow>
             (case before_send patch output mode userMessage l1 of
                Inl e \<Rightarrow> ([], Inl e) | Inr la \<Rightarrow> after_send output mode la))"

section \<open>Plans\<close>

definition answers :: "automation_plan \<Rightarrow> bool" where
  "answers p \<longleftrightarrow> ap_kind p \<in> {PK_ai, PK_static_reply}"

lemmas plan_defs = aiPlan_def suppressed_def human_notification_def static_reply_def

lemma flow_plan_answers:
  "ap_transitionBeforeAi (flow_plan c) = None \<and> ap_transitionAfterSend (flow_plan c) = None"
  by (simp add: flow_plan_def plan_defs split: flow_step.split)

lemma plan_answers:
  assumes "answers (decideAutomationPlan input)"
  shows "\<not> humanAutomationBlocked (en_topic (pr_envelope input)) (current_conversation input) \<and>
    en_automationAllowed (pr_envelope input) \<and> en_canGenerateReply (pr_envelope input) \<and>
    en_canSendReply (pr_envelope input) \<and> ac_conversationState (current_conversation input) = CS_bot_active"
proof (rule ccontr)
  assume "\<not> ?thesis"
  then have "\<not> answers (decideAutomationPlan input)"
    by (auto simp: decideAutomationPlan_def Let_def answers_def human_notification_def suppressed_def)
  with assms show False by simp
qed

lemma plan_transitions:
  "ap_transitionAfterSend (decideAutomationPlan input) = None \<and>
   (ap_transitionBeforeAi (decideAutomationPlan input) = None \<or>
    ap_transitionBeforeAi (decideAutomationPlan input) = Some T_new_quote_request \<and>
    answers (decideAutomationPlan input))"
  using flow_plan_answers
  by (simp add: decideAutomationPlan_def Let_def answers_def plan_defs)

lemma plan_mode_summary:
  "ap_aiMode (decideAutomationPlan input) = Some AM_quote_correction_or_confirmation \<Longrightarrow>
     ac_flowStep (current_conversation input) = FS_quote_summary_confirmation"
  by (auto simp: decideAutomationPlan_def Let_def plan_defs flow_plan_def resolveQuoteMode_def
      split: if_splits flow_step.splits)

section \<open>Executions\<close>

lemma derive_confirm:
  "aa_transitionAfterSend (deriveAiActions output mode) = Some T_confirm_quote \<longleftrightarrow>
     mode \<noteq> AM_natural_service \<and> ao_customerDecision output = JString ''confirmed''"
  by (auto simp: deriveAiActions_def Let_def send_and_def)

lemma before_send_Inr:
  assumes "before_send patch output mode userMessage l = Inr (l2, actions)"
  shows "actions = deriveAiActions output mode \<and> assertSafeAiDecision output mode userMessage = Inr () \<and>
    (aa_transitionAfterSend actions \<in> {Some T_present_quote_summary, Some T_confirm_quote} \<longrightarrow>
      missing_quote_fields (lc_quote l2) = [])"
  using assms
  by (auto simp: before_send_def Let_def rbind_Inr_iff assertMinimumQuoteComplete_def throw_if_Inr
      split: if_splits)

lemma after_send_done:
  "Transition_done name \<in> set (fst (after_send output mode (l, actions))) \<Longrightarrow>
     aa_transitionAfterSend actions = Some name \<and>
     (\<exists>target l'. run_transition l name target = Inr l' \<and> snd (after_send output mode (l, actions)) = Inr l')"
  by (auto simp: after_send_def Let_def split: option.splits sum.splits if_splits)

lemma run_transition_confirm:
  "run_transition l T_confirm_quote target = Inr l' \<Longrightarrow>
     cv_flowStep (lc_conversation l) = FS_quote_summary_confirmation \<and>
     cv_requestStatus (lc_conversation l) = QS_waiting_for_customer \<and>
     lc_conversation l' = (lc_conversation l)\<lparr>cv_conversationState := CS_sent_to_human,
       cv_flowStep := FS_human_service, cv_requestStatus := QS_under_review, cv_resumeState := None,
       cv_resumeFlowStep := Some FS_commercial_follow_up_menu\<rparr> \<and> lc_quote l' = lc_quote l"
  by (auto simp: run_transition_def actedTransition_def resolveConversationTransition_def
      t_confirm_quote_def assertState_def result_simps split: sum.splits if_splits)

lemma executeAnswer_cases:
  assumes "executeAnswer patch planMode output userMessage l = (done, r)" and "done \<noteq> []"
  shows "\<exists>l1 mode l2 actions. (mode = planMode \<or> mode = AM_eventual_quote) \<and>
    before_send patch output mode userMessage l1 = Inr (l2, actions) \<and>
    after_send output mode (l2, actions) = (done, r)"
  using assms
  by (fastforce simp: executeAnswer_def Let_def rbind_Inr_iff split: sum.splits if_splits)

lemma executed_confirmation:
  assumes "executeAnswer patch planMode output userMessage l = (done, r)"
    and "Transition_done T_confirm_quote \<in> set done"
  shows "planMode = AM_quote_correction_or_confirmation \<and> isExplicitPositiveConfirmation userMessage \<and>
    ao_customerDecision output = JString ''confirmed'' \<and>
    (\<exists>l'. r = Inr l' \<and> missing_quote_fields (lc_quote l') = [] \<and>
      cv_requestStatus (lc_conversation l') = QS_under_review \<and>
      cv_conversationState (lc_conversation l') = CS_sent_to_human)"
proof -
  obtain l1 mode l2 actions where mode: "mode = planMode \<or> mode = AM_eventual_quote"
    and b: "before_send patch output mode userMessage l1 = Inr (l2, actions)"
    and d: "after_send output mode (l2, actions) = (done, r)"
    using executeAnswer_cases [OF assms(1)] assms(2) by (metis empty_iff list.set(1))
  have "Transition_done T_confirm_quote \<in> set (fst (after_send output mode (l2, actions)))"
    using assms(2) d by simp
  from after_send_done [OF this] obtain target l' where
    a: "aa_transitionAfterSend actions = Some T_confirm_quote" and t: "run_transition l2 T_confirm_quote target = Inr l'"
    and r: "r = Inr l'" using d by auto
  note bs = before_send_Inr [OF b]
  from bs a derive_confirm have c: "mode \<noteq> AM_natural_service" "ao_customerDecision output = JString ''confirmed''"
    by simp_all
  with bs have m: "mode = AM_quote_correction_or_confirmation" "isExplicitPositiveConfirmation userMessage"
    by (simp_all add: assertSafeAiDecision_def throw_if_Inr)
  with mode have "planMode = AM_quote_correction_or_confirmation" by auto
  with m c r bs a run_transition_confirm [OF t] show ?thesis by auto
qed

section \<open>Command ids are UUIDs\<close>

definition hex_chars :: string where
  "hex_chars = ''0123456789abcdef''"

text \<open>The shape that the executor requires of ids: version 5 of the eight it admits.\<close>

definition uuid_shape :: "string \<Rightarrow> bool" where
  "uuid_shape s \<longleftrightarrow> length s = 36 \<and>
     (\<forall>i<36. if i \<in> {8, 13, 18, 23} then s ! i = CHR ''-''
       else s ! i \<in> set hex_chars) \<and> s ! 14 = CHR ''5'' \<and> s ! 19 \<in> set ''89ab''"

lemma hex_digit_chars: "n < 16 \<Longrightarrow> hex_digit n \<in> set hex_chars"
proof -
  assume "n < 16"
  then have "n \<in> set [0..<16]" by simp
  moreover have "\<forall>n\<in>set [0..<16]. hex_digit n \<in> set hex_chars" by code_simp
  ultimately show ?thesis by blast
qed

lemma unat_byte: "unat (b :: 8 word) < 256"
  using unsigned_less [of b] by (simp add: mult.commute)

lemma hex_byte_two: "\<exists>x y. hex_byte b = [x, y] \<and> x \<in> set hex_chars \<and> y \<in> set hex_chars"
  using unat_byte [of b] by (simp add: hex_byte_def hex_digit_chars)

lemma hex_byte_set: "x \<in> set (hex_byte b) \<Longrightarrow> x \<in> set hex_chars"
  using hex_byte_two [of b] by auto

lemma and_low: "and (n :: nat) 15 = n mod 16" "and (n :: nat) 63 = n mod 64"
  using take_bit_eq_mask [of 4 n] take_bit_eq_mask [of 6 n] by (simp_all add: mask_eq_exp_minus_1 take_bit_eq_mod)

lemma or_div_16: "or m n div 16 = or (m div 16) (n div 16 :: nat)"
  using drop_bit_or [of 4 m n] by (simp add: drop_bit_eq_div)

lemma version_nibble: "m < 16 \<Longrightarrow> or m 80 div 16 = (5 :: nat)"
  by (simp add: or_div_16)

lemma variant_nibble: 
  assumes "m < 64"
  shows "or m 128 div 16 \<in> {8, 9, 10, 11 :: nat}"
proof -
  have "m div 16 = 0 \<or> m div 16 = 1 \<or> m div 16 = 2 \<or> m div 16 = 3" using assms by linarith
  then show ?thesis by (elim disjE) (simp_all add: or_div_16)
qed

lemma version_byte: "hd (hex_byte (or (and b 0x0f) 0x50)) = CHR ''5''"
proof -
  have "unat (or (and b 0x0f) 0x50) div 16 = 5"
    using version_nibble [of "unat b mod 16"] by (simp add: unsigned_or_eq unsigned_and_eq and_low)
  then have "hd (hex_byte (or (and b 0x0f) 0x50)) = hex_digit 5" by (simp add: hex_byte_def)
  also have "\<dots> = CHR ''5''" by code_simp
  finally show ?thesis .
qed

lemma variant_byte: "hd (hex_byte (or (and b 0x3f) 0x80)) \<in> set ''89ab''"
proof -
  have "unat (or (and b 0x3f) 0x80) div 16 \<in> {8, 9, 10, 11}"
    using variant_nibble [of "unat b mod 64"] by (simp add: unsigned_or_eq unsigned_and_eq and_low)
  moreover have "\<forall>n\<in>set [8, 9, 10, 11]. hex_digit n \<in> set ''89ab''" by code_simp
  ultimately have "hex_digit (unat (or (and b 0x3f) 0x80) div 16) \<in> set ''89ab''"
    by (metis empty_set list.simps(15))
  then show ?thesis by (simp only: hex_byte_def list.sel)
qed

lemma id_bytes_shape:
  "\<exists>b0 b1 b2 b3 b4 b5 b6 b7 b8 b9 b10 b11 b12 b13 b14 b15.
     id_bytes value = [b0, b1, b2, b3, b4, b5, or (and b6 0x0f) 0x50, b7, or (and b8 0x3f) 0x80,
       b9, b10, b11, b12, b13, b14, b15]"
  by (simp add: id_bytes_def word_bytes_def Let_def) (intro conjI exI; rule refl)

lemma uuid_shape_of_bytes:
  assumes "length hs = 32" and "set hs \<subseteq> set hex_chars" and "hs ! 12 = CHR ''5''" and "hs ! 16 \<in> set ''89ab''"
  shows "uuid_shape (uuid_text hs)"
proof -
  have h: "hs ! i \<in> set hex_chars" if "i < 32" for i
    using assms(1,2) that nth_mem [of i hs] by auto
  have n: "uuid_text hs ! i = (if i < 8 then hs ! i else if i = 8 then CHR ''-'' else if i < 13 then hs ! (i - 1)
      else if i = 13 then CHR ''-'' else if i < 18 then hs ! (i - 2) else if i = 18 then CHR ''-''
      else if i < 23 then hs ! (i - 3) else if i = 23 then CHR ''-'' else hs ! (i - 4))" if "i < 36" for i
    using that assms(1) by (auto simp: uuid_text_def nth_append nth_Cons')
  have "length (uuid_text hs) = 36" using assms(1) by (simp add: uuid_text_def)
  moreover have "uuid_text hs ! i \<in> set hex_chars" if "i < 36" "i \<notin> {8, 13, 18, 23}" for i
    using that h by (auto simp: n)
  ultimately show ?thesis using assms(3,4) by (simp add: uuid_shape_def n)
qed

lemma command_id_shape: "uuid_shape (deterministicCommandId sourceEventId action)"
proof -
  obtain b0 b1 b2 b3 b4 b5 b6 b7 b8 b9 b10 b11 b12 b13 b14 b15 where
    b: "id_bytes (sourceEventId @ '':'' @ action) = [b0, b1, b2, b3, b4, b5, or (and b6 0x0f) 0x50, b7,
      or (and b8 0x3f) 0x80, b9, b10, b11, b12, b13, b14, b15]"
    using id_bytes_shape [of "sourceEventId @ '':'' @ action"] by (elim exE)
  let ?hs = "concat (map hex_byte (id_bytes (sourceEventId @ '':'' @ action)))"
  have "set ?hs \<subseteq> set hex_chars"
    using hex_byte_set by (auto simp only: set_concat set_map)
  moreover have l: "length (hex_byte b) = 2" "hex_byte b ! 0 = hd (hex_byte b)" for b
    by (simp_all add: hex_byte_def)
  moreover have "length ?hs = 32" unfolding b by (simp add: l(1))
  moreover have "?hs ! 12 = CHR ''5''" "?hs ! 16 \<in> set ''89ab''"
    unfolding b using version_byte [of b6] variant_byte [of b8]
    by (simp_all only: concat.simps list.map nth_append l) (simp_all add: l)
  ultimately show ?thesis unfolding deterministicCommandId_def by (intro uuid_shape_of_bytes)
qed

section \<open>Answers that count as a confirmation\<close>

lemma lower_letters:
  "is_lower c \<Longrightarrow> lower_char c = c \<and> base_letter c = c \<and> \<not> is_ws c \<and> c \<notin> set ''.!?''"
proof -
  have "\<forall>c\<in>set ''abcdefghijklmnopqrstuvwxyz''. lower_char c = c \<and> base_letter c = c \<and> \<not> is_ws c \<and> c \<notin> set ''.!?''"
    by code_simp
  then show "is_lower c \<Longrightarrow> ?thesis" unfolding is_lower_def by blast
qed

lemma normalized_answer_plain:
  assumes "s \<noteq> []" and "\<forall>c\<in>set s. lower_char c = c \<and> base_letter c = c"
    and "is_lower (hd s)" and "is_lower (last s)"
  shows "normalized_answer s = s"
proof -
  have t: "trim s = s" using assms(3,4) lower_letters trim_id_iff by blast
  have l: "to_lower s = s" using assms(2) by (simp add: to_lower_def map_idI)
  have b: "without_marks s = s" using assms(2) by (simp add: without_marks_def map_idI)
  have "rev s \<noteq> []" and "hd (rev s) \<notin> set ''.!?''"
    using assms(1,4) lower_letters by (simp, metis hd_rev)
  then have "dropWhile (\<lambda>c. c \<in> set ''.!?'') (rev s) = rev s"
    by (cases "rev s") simp_all
  with t l b show ?thesis by (simp only: normalized_answer_def rev_rev_ident)
qed

lemma confirmations_plain:
  "\<forall>w\<in>set confirmations. w \<noteq> [] \<and> is_lower (hd w) \<and> (\<forall>c\<in>set w. lower_char c = c \<and> base_letter c = c)"
  by code_simp

section \<open>The buffer\<close>

definition buffer_ok :: "buffered_message list \<Rightarrow> bool" where
  "buffer_ok b \<longleftrightarrow> distinct (map bm_sourceEventId b)"

definition keyed :: "(string \<times> buffered_message) list \<Rightarrow> bool" where
  "keyed al \<longleftrightarrow> distinct (map fst al) \<and> (\<forall>(k, m)\<in>set al. k = bm_sourceEventId m)"

lemma update_mem: "(k', m') \<in> set (AList.update k m al) \<Longrightarrow> (k', m') = (k, m) \<or> (k', m') \<in> set al"
  by (induction al) (auto split: if_splits)

lemma keyed_update: "keyed al \<Longrightarrow> keyed (AList.update (bm_sourceEventId m) m al)"
  by (auto simp: keyed_def distinct_update dest!: update_mem)

lemma keyed_mem:
  assumes "keyed al"
  shows "m \<in> set (map snd al) \<longleftrightarrow> map_of al (bm_sourceEventId m) = Some m"
proof -
  have "m \<in> set (map snd al) \<longleftrightarrow> (bm_sourceEventId m, m) \<in> set al"
    using assms by (force simp: keyed_def)
  then show ?thesis using assms by (simp add: keyed_def)
qed

lemma keyed_snd: "keyed al \<Longrightarrow> map bm_sourceEventId (map snd al) = map fst al"
  by (auto simp: keyed_def)

lemma keyed_fold:
  assumes "keyed al" and "distinct (map bm_sourceEventId ms)"
  shows "keyed (fold (\<lambda>m. AList.update (bm_sourceEventId m) m) ms al) \<and>
    (\<forall>k. map_of (fold (\<lambda>m. AList.update (bm_sourceEventId m) m) ms al) k =
      (case map_of (map (\<lambda>m. (bm_sourceEventId m, m)) ms) k of Some m \<Rightarrow> Some m | None \<Rightarrow> map_of al k))"
  using assms
proof (induction ms arbitrary: al)
  case Nil
  then show ?case by simp
next
  case (Cons m ms)
  have "map_of (map (\<lambda>m. (bm_sourceEventId m, m)) ms) (bm_sourceEventId m) = None"
    using Cons.prems by (auto simp: map_of_eq_None_iff)
  with Cons.IH [OF keyed_update [OF Cons.prems(1)], of m] Cons.prems(2) show ?case
    by (auto simp: update_conv' split: option.split)
qed

lemma map_of_ids: "distinct (map f xs) \<Longrightarrow> map_of (map (\<lambda>m. (f m, m)) xs) (f m) = Some m \<longleftrightarrow> m \<in> set xs"
  by (induction xs) (auto intro: rev_image_eqI)

lemma append_buffer:
  assumes "buffer_ok cur"
  shows "buffer_ok (appendBufferedMessage loc cur next)"
    and "m \<in> set (appendBufferedMessage loc cur next) \<longleftrightarrow>
      (if bm_sourceEventId m = bm_sourceEventId next then m = next else m \<in> set cur)"
proof -
  let ?al = "fold (\<lambda>m. AList.update (bm_sourceEventId m) m) cur []"
  let ?al' = "AList.update (bm_sourceEventId next) next ?al"
  have f: "keyed ?al" and mo: "map_of ?al k = map_of (map (\<lambda>m. (bm_sourceEventId m, m)) cur) k" for k
    using keyed_fold [of "[]" cur] assms by (auto simp: keyed_def buffer_ok_def split: option.splits)
  have k: "keyed ?al'" using f by (rule keyed_update)
  have s: "mset (appendBufferedMessage loc cur next) = mset (map snd ?al')"
    by (simp only: appendBufferedMessage_def mset_js_sort)
  have "mset (map bm_sourceEventId (appendBufferedMessage loc cur next)) = mset (map fst ?al')"
    unfolding keyed_snd [OF k, symmetric] using s by (simp only: mset_map)
  from mset_eq_imp_distinct_iff [OF this] show "buffer_ok (appendBufferedMessage loc cur next)"
    using k by (simp add: buffer_ok_def keyed_def)
  have a: "m \<in> set (appendBufferedMessage loc cur next) \<longleftrightarrow> map_of ?al' (bm_sourceEventId m) = Some m"
    unfolding keyed_mem [OF k, symmetric] by (simp only: appendBufferedMessage_def set_js_sort)
  have "m \<in> set cur \<longleftrightarrow> map_of ?al (bm_sourceEventId m) = Some m"
    unfolding mo using assms by (simp add: buffer_ok_def map_of_ids)
  then show "m \<in> set (appendBufferedMessage loc cur next) \<longleftrightarrow>
      (if bm_sourceEventId m = bm_sourceEventId next then m = next else m \<in> set cur)"
    unfolding a by (auto simp: update_conv')
qed

lemma append_buffer_sorted:
  assumes "comparator (\<lambda>(l :: buffered_message) r. loc (bm_occurredAt l) (bm_occurredAt r))"
  shows "sorted_wrt (\<lambda>l r. loc (bm_occurredAt l) (bm_occurredAt r) \<le> 0) (appendBufferedMessage loc cur next)"
  unfolding appendBufferedMessage_def by (rule comparator.sorted_js_sort [OF assms])

lemma buffer_of_messages:
  "buffer_ok (fold (\<lambda>m b. appendBufferedMessage loc b m) ms []) \<and>
   (m \<in> set (fold (\<lambda>m b. appendBufferedMessage loc b m) ms []) \<longleftrightarrow>
      map_of (rev (map (\<lambda>m. (bm_sourceEventId m, m)) ms)) (bm_sourceEventId m) = Some m)"
proof (induction ms arbitrary: m rule: rev_induct)
  case Nil
  then show ?case by (simp add: buffer_ok_def)
next
  case (snoc x ms)
  then have "buffer_ok (fold (\<lambda>m b. appendBufferedMessage loc b m) ms [])" by blast
  from append_buffer(1) [OF this, of loc x] append_buffer(2) [OF this, of m loc x] snoc
  show ?case by auto
qed



section \<open>Validated answers\<close>

lemma check_Nil [simp]: "(if bad then [e] else []) = [] \<longleftrightarrow> \<not> bad"
  by simp

lemma texts_are_strings:
  "\<forall>v\<in>set vs. is_text v \<Longrightarrow> \<exists>ts. vs = map JString ts"
proof (induction vs)
  case Nil
  then show ?case by simp
next
  case (Cons v vs)
  then obtain ts where "vs = map JString ts" by auto
  moreover obtain t where "v = JString t" using Cons.prems by (auto simp: is_text_def split: json.splits)
  ultimately have "v # vs = map JString (t # ts)" by simp
  then show ?case by (rule exI)
qed

lemma text_field_trim: "trim (text_field v) = text_field v"
  by (cases v) (simp_all add: text_field_def trim_Nil)

lemma validated_fields:
  assumes "validateAiProviderOutput value = Inr output"
  shows "\<exists>r. validation_errors r = [] \<and> output = \<lparr>ao_message = text_field (field r ''message''),
             ao_collectionStatus = field r ''collectionStatus'',
             ao_extractedDataPatch = field r ''extractedDataPatch'',
             ao_missingFields = field r ''missingFields'',
             ao_summaryPresented = (field r ''summaryPresented'' = JBool True),
             ao_customerDecision = field r ''customerDecision'',
             ao_priority = (if field r ''priority'' \<noteq> JUnsupported
               then Some (field r ''priority'', text_field (field r ''priorityReason'')) else None),
             ao_targetDepartment = (case field r ''targetDepartment'' of JString d \<Rightarrow> Some d | _ \<Rightarrow> None)\<rparr>"
proof -
  obtain r where r: "value = JObject r"
    using assms by (cases "value") (simp_all add: validateAiProviderOutput_def asRecord_def)
  show ?thesis
    using assms by (intro exI [of _ r]) (simp add: r validateAiProviderOutput_def asRecord_def Let_def split: if_splits)
qed

lemma no_validation_errors:
  assumes "validation_errors r = []"
  shows "text_field (field r ''message'') \<noteq> []"
    and "js_string (field r ''collectionStatus'') \<in> set collectionStatuses"
    and "asRecord (field r ''extractedDataPatch'') \<noteq> None"
    and "\<exists>vs. field r ''missingFields'' = JArray vs \<and> (\<forall>v\<in>set vs. is_text v)"
    and "js_string (field r ''customerDecision'') \<in> set customerDecisions"
    and "field r ''priority'' \<noteq> JUnsupported \<Longrightarrow> js_string (field r ''priority'') \<in> set servicePriorities \<and>
      text_field (field r ''priorityReason'') \<noteq> [] \<and> length (text_field (field r ''priorityReason'')) \<le> 500"
    and "field r ''targetDepartment'' = JString d \<Longrightarrow> d \<in> set (map dept_str INTERNAL_DEPARTMENTS)"
  using assms unfolding validation_errors_def Let_def append_is_Nil_conv
  by (auto simp: list_ex_iff simp del: set_map split: json.splits if_splits)

lemma validated_shape:
  assumes "validateAiProviderOutput value = Inr output"
  shows "ao_message output \<noteq> [] \<and> trim (ao_message output) = ao_message output \<and>
    (\<exists>ms. ao_extractedDataPatch output = JObject ms) \<and>
    (\<exists>ts. ao_missingFields output = JArray (map JString ts)) \<and>
    js_string (ao_collectionStatus output) \<in> set collectionStatuses \<and>
    js_string (ao_customerDecision output) \<in> set customerDecisions \<and>
    (\<forall>p reason. ao_priority output = Some (p, reason) \<longrightarrow>
       js_string p \<in> set servicePriorities \<and> 1 \<le> length reason \<and> length reason \<le> 500) \<and>
    (\<forall>d. ao_targetDepartment output = Some d \<longrightarrow> d \<in> set (map dept_str INTERNAL_DEPARTMENTS))"
proof -
  from validated_fields [OF assms] obtain r where e: "validation_errors r = []" and
    o: "output = \<lparr>ao_message = text_field (field r ''message''),
             ao_collectionStatus = field r ''collectionStatus'',
             ao_extractedDataPatch = field r ''extractedDataPatch'',
             ao_missingFields = field r ''missingFields'',
             ao_summaryPresented = (field r ''summaryPresented'' = JBool True),
             ao_customerDecision = field r ''customerDecision'',
             ao_priority = (if field r ''priority'' \<noteq> JUnsupported
               then Some (field r ''priority'', text_field (field r ''priorityReason'')) else None),
             ao_targetDepartment = (case field r ''targetDepartment'' of JString d \<Rightarrow> Some d | _ \<Rightarrow> None)\<rparr>"
    by (elim exE conjE)
  note n = no_validation_errors [OF e]
  have "\<exists>ms. field r ''extractedDataPatch'' = JObject ms"
    using n(3) by (auto simp: asRecord_def split: json.splits)
  moreover have "\<exists>ts. field r ''missingFields'' = JArray (map JString ts)"
    using n(4) texts_are_strings by blast
  ultimately show ?thesis using n(1,2,5,6,7)
    by (auto simp: o text_field_trim Suc_le_eq simp del: set_map split: if_splits json.splits)
qed

section \<open>Sample values\<close>

lemma run_new_quote:
  "cv_conversationState (lc_conversation l) = CS_bot_active \<Longrightarrow>
     \<exists>l'. run_transition l T_new_quote_request None = Inr l' \<and> cv_flowStep (lc_conversation l') = FS_quote_data_collection"
  by (simp add: run_transition_def actedTransition_def resolveConversationTransition_def t_new_quote_request_def
      assertState_def throw_if_def quote_collection_def assertTransitionActor_def)

definition sample_quote :: quote_request_snapshot where
  "sample_quote = \<lparr>qr_id = ''q'', qr_sequence = 1, qr_status = QS_waiting_for_customer, qr_version = 1,
    qr_contactName = Some ''Ana'', qr_document = None, qr_email = None, qr_serviceType = Some ''eventual'',
    qr_origin = Some ''Campinas'', qr_destination = Some ''Santos'', qr_departureDate = Some ''2026-08-01'',
    qr_departureAt = None, qr_returnDate = None, qr_returnAt = None, qr_passengerCount = Some 20,
    qr_vehicleType = Some ''van'', qr_vehicleAtDisposal = Some False, qr_localTransfers = Some False,
    qr_notes = None, qr_structuredData = Some [(''tripType'', JString ''one_way'')]\<rparr>"

definition sample_summary :: conversation where
  "sample_summary = \<lparr>cv_department = D_commercial, cv_conversationState = CS_bot_active,
    cv_flowStep = FS_quote_summary_confirmation, cv_requestStatus = QS_waiting_for_customer,
    cv_resumeState = None, cv_resumeFlowStep = None\<rparr>"

definition sample_live :: conversation where
  "sample_live = \<lparr>cv_department = D_commercial, cv_conversationState = CS_bot_active,
    cv_flowStep = FS_commercial_menu, cv_requestStatus = QS_cancelled,
    cv_resumeState = None, cv_resumeFlowStep = None\<rparr>"

definition sample_envelope :: automation_envelope where
  "sample_envelope = \<lparr>en_topic = TO_inbound_persisted, en_messageKind = MK_text, en_messageText = None,
    en_conversation = \<lparr>ac_id = ''c'', ac_department = D_commercial, ac_conversationState = CS_bot_active,
      ac_flowStep = FS_commercial_menu, ac_requestStatus = QS_cancelled, ac_resumeState = None,
      ac_version = 3, ac_mainMenuPresentedAt = Some ''t'', ac_followUpMenuPresentedAt = None,
      ac_departmentContactOption = None, ac_assignedTo = None, ac_currentQuoteRequest = Some sample_quote\<rparr>,
    en_automationAllowed = True, en_canGenerateReply = True, en_canSendReply = True,
    en_isFirstContact = False, en_reopenedAfterClosure = False\<rparr>"

definition sample_output :: "string \<Rightarrow> bool \<Rightarrow> ai_output" where
  "sample_output decision summary = \<lparr>ao_message = ''Seguem os dados.'', ao_collectionStatus = JString ''collecting'',
    ao_extractedDataPatch = JObject [], ao_missingFields = JArray [], ao_summaryPresented = summary,
    ao_customerDecision = JString decision, ao_priority = None, ao_targetDepartment = None\<rparr>"

definition sample_message :: "string \<Rightarrow> string \<Rightarrow> string \<Rightarrow> buffered_message" where
  "sample_message event time txt = \<lparr>bm_sourceEventId = event, bm_messageId = event, bm_occurredAt = time,
    bm_kind = ''text'', bm_text = Some txt, bm_interpretedText = None, bm_interpretationSource = None,
    bm_mediaInterpretationId = None, bm_isFirstContact = False\<rparr>"

definition provider_fields :: "json \<Rightarrow> (string \<times> json) list" where
  "provider_fields status = [(''message'', JString ''Certo.''), (''collectionStatus'', status),
    (''extractedDataPatch'', JObject []), (''missingFields'', JArray [JString ''origin'']),
    (''summaryPresented'', JBool False), (''customerDecision'', JString ''undecided'')]"

definition sample_answer :: "json \<Rightarrow> json" where
  "sample_answer status = JObject (provider_fields status)"

lemma sample_trim: "trim ''Certo.'' = ''Certo.''"
  by code_simp

section \<open>Properties\<close>

text \<open>
  C21. The bot speaks only where no human is involved: an answering plan is made only for a
  conversation that no user holds, that is not at the human step, and for which the server
  authorized the reply; a transition planned before the answer is accepted by the machine.
\<close>

theorem bot_answers_only_unattended:
  assumes "answers (decideAutomationPlan input)"
  shows "en_topic (pr_envelope input) \<noteq> TO_human_notification \<and>
    ac_assignedTo (current_conversation input) = None \<and>
    ac_flowStep (current_conversation input) \<noteq> FS_human_service \<and>
    ac_conversationState (current_conversation input) = CS_bot_active \<and>
    en_automationAllowed (pr_envelope input) \<and> en_canGenerateReply (pr_envelope input) \<and>
    en_canSendReply (pr_envelope input) \<and>
    (\<forall>l name. cv_conversationState (lc_conversation l) = ac_conversationState (current_conversation input) \<and>
       ap_transitionBeforeAi (decideAutomationPlan input) = Some name \<longrightarrow>
       (\<exists>l'. run_transition l name None = Inr l' \<and> cv_flowStep (lc_conversation l') = FS_quote_data_collection))"
proof -
  note p = plan_answers [OF assms]
  have "\<exists>l'. run_transition l name None = Inr l' \<and> cv_flowStep (lc_conversation l') = FS_quote_data_collection"
    if "cv_conversationState (lc_conversation l) = ac_conversationState (current_conversation input)"
      and "ap_transitionBeforeAi (decideAutomationPlan input) = Some name" for l name
    using that p plan_transitions [of input] by (auto simp: run_new_quote)
  with p show ?thesis unfolding humanAutomationBlocked_def by blast
qed

definition sample_request :: plan_request where
  "sample_request = \<lparr>pr_envelope = sample_envelope, pr_conversation = None,
        pr_bufferedText = Some ''quero um novo orcamento'', pr_pendingQuestion = None,
        pr_mediaInterpretationAvailable = None\<rparr>"

theorem bot_answers_only_unattended_witness:
  "ap_transitionBeforeAi (decideAutomationPlan sample_request) = Some T_new_quote_request \<and>
    (\<exists>l'. run_transition \<lparr>lc_conversation = sample_live, lc_quote = None\<rparr> T_new_quote_request None = Inr l')"
proof
  show p: "ap_transitionBeforeAi (decideAutomationPlan sample_request) = Some T_new_quote_request"
    by code_simp
  then have "answers (decideAutomationPlan sample_request)" using plan_transitions [of sample_request] by simp
  moreover have "cv_conversationState sample_live = ac_conversationState (current_conversation sample_request)"
    by code_simp
  ultimately show "\<exists>l'. run_transition \<lparr>lc_conversation = sample_live, lc_quote = None\<rparr> T_new_quote_request None = Inr l'"
    using p bot_answers_only_unattended [of sample_request] by (metis live_conversation.select_convs(1))
qed





section \<open>Further facts\<close>

text \<open>
  Any answer that begins with one of the confirming phrases and a blank counts as an explicit
  confirmation, whatever follows, also where the rest denies it. The code intends this test to
  admit only confirmations (a defect).
\<close>

theorem denied_confirmation_counts:
  assumes "phrase \<in> set confirmations" and "rest \<noteq> []" and "\<forall>c\<in>set rest. is_lower c \<or> c = CHR '' ''"
    and "is_lower (last rest)"
  shows "isExplicitPositiveConfirmation (phrase @ CHR '' '' # rest)"
proof -
  have w: "phrase \<noteq> []" "is_lower (hd phrase)" "\<forall>c\<in>set phrase. lower_char c = c \<and> base_letter c = c"
    using confirmations_plain assms(1) by blast+
  have b: "lower_char (CHR '' '') = CHR '' '' \<and> base_letter (CHR '' '') = CHR '' ''" by code_simp
  have "normalized_answer (phrase @ CHR '' '' # rest) = phrase @ CHR '' '' # rest"
    using w b assms(2-) lower_letters by (intro normalized_answer_plain) auto
  moreover have "starts_with (phrase @ [CHR '' '']) (phrase @ CHR '' '' # rest)"
    by (simp add: starts_with_def)
  ultimately show ?thesis
    using assms(1) by (auto simp: isExplicitPositiveConfirmation_def Let_def list_ex_iff)
qed

theorem denied_confirmation_counts_witness:
  "isExplicitPositiveConfirmation ''ok nao confirmo'' \<and> isExplicitPositiveConfirmation ''correto nao esta''"
proof -
  have p: "''ok'' \<in> set confirmations" "''correto'' \<in> set confirmations" by code_simp+
  have l: "\<forall>c\<in>set ''nao confirmo''. is_lower c \<or> c = CHR '' ''" "\<forall>c\<in>set ''nao esta''. is_lower c \<or> c = CHR '' ''"
    "is_lower (last ''nao confirmo'')" "is_lower (last ''nao esta'')" by code_simp+
  from denied_confirmation_counts [OF p(1) _ l(1,3)] denied_confirmation_counts [OF p(2) _ l(2,4)]
  show ?thesis by simp
qed

text \<open>
  At the summary an answer that leaves the decision open and shows the summary again is sent to
  the customer, and then the transition it asks for is refused, since a summary is presented
  from the data collection only (a defect: the failure comes after the message left).
\<close>

theorem repeated_summary_fails_after_message:
  assumes "ao_customerDecision output = JString ''undecided''"
    and "ao_collectionStatus output \<noteq> JString ''human-handoff''"
    and "ao_summaryPresented output \<or> ao_collectionStatus output = JString ''ready-for-summary''"
    and "patch l output AM_quote_correction_or_confirmation = Inr l2"
    and "missing_quote_fields (lc_quote l2) = []"
    and "cv_flowStep (lc_conversation l2) = FS_quote_summary_confirmation"
  shows "\<exists>e. executeAnswer patch AM_quote_correction_or_confirmation output userMessage l =
    ([Message_sent (ao_message output)], Inl (Transition_refused e))"
proof -
  have d: "deriveAiActions output AM_quote_correction_or_confirmation = send_and None (Some T_present_quote_summary) None"
    using assms(1-3) by (auto simp: deriveAiActions_def)
  have t: "\<exists>e. run_transition l2 T_present_quote_summary None = Inl (Transition_refused e)"
    using assms(6) by (auto simp: run_transition_def actedTransition_def resolveConversationTransition_def
        t_present_quote_summary_def assertState_def result_simps split: sum.splits)
  have b: "before_send patch output AM_quote_correction_or_confirmation userMessage l =
      Inr (l2, send_and None (Some T_present_quote_summary) None)"
    using assms(1,4,5) by (simp add: before_send_def d assertSafeAiDecision_def throw_if_def
        send_and_def assertMinimumQuoteComplete_def Let_def)
  from t show ?thesis
    by (auto simp: executeAnswer_def startsEventualQuote_def b after_send_def send_and_def assms(1) Let_def)
qed

theorem repeated_summary_fails_after_message_witness:
  "\<exists>e. executeAnswer (\<lambda>l _ _. Inr l) AM_quote_correction_or_confirmation (sample_output ''undecided'' True) ''qual o valor?''
      \<lparr>lc_conversation = sample_summary, lc_quote = Some sample_quote\<rparr> =
    ([Message_sent ''Seguem os dados.''], Inl (Transition_refused e))"
proof -
  have h: "ao_customerDecision (sample_output ''undecided'' True) = JString ''undecided''"
    "ao_collectionStatus (sample_output ''undecided'' True) \<noteq> JString ''human-handoff''"
    "ao_summaryPresented (sample_output ''undecided'' True)"
    "ao_message (sample_output ''undecided'' True) = ''Seguem os dados.''"
    by (simp_all add: sample_output_def)
  have q: "missing_quote_fields (Some sample_quote) = []" by code_simp
  have "cv_flowStep sample_summary = FS_quote_summary_confirmation" by (simp add: sample_summary_def)
  with h q repeated_summary_fails_after_message [of "sample_output ''undecided'' True" "\<lambda>l _ _. Inr l"
      "\<lparr>lc_conversation = sample_summary, lc_quote = Some sample_quote\<rparr>"
      "\<lparr>lc_conversation = sample_summary, lc_quote = Some sample_quote\<rparr>" "''qual o valor?''"]
  show ?thesis by simp
qed

text \<open>
  A command id is the text of a UUID of version 5 and the standard variant, for every source event
  and action: 36 characters, dashes at four places, lower-case hexadecimal digits elsewhere.
\<close>

theorem command_id_is_uuid:
  "length (deterministicCommandId sourceEventId action) = 36 \<and>
   (\<forall>i<36. if i \<in> {8, 13, 18, 23} then deterministicCommandId sourceEventId action ! i = CHR ''-''
      else deterministicCommandId sourceEventId action ! i \<in> set ''0123456789abcdef'') \<and>
   deterministicCommandId sourceEventId action ! 14 = CHR ''5'' \<and>
   deterministicCommandId sourceEventId action ! 19 \<in> set ''89ab''"
  using command_id_shape [of sourceEventId action] unfolding uuid_shape_def hex_chars_def .

theorem command_id_is_uuid_witness:
  "length (deterministicCommandId ''event'' ''outbound'') = 36 \<and>
    deterministicCommandId ''event'' ''outbound'' ! 14 = CHR ''5''"
  using command_id_is_uuid [of "''event''" "''outbound''"] by blast

text \<open>
  However messages are delivered, repeated or out of order, the buffer holds one message for each
  source event, the one delivered last, in the order of their times.
\<close>

theorem buffer_last_per_event:
  assumes "comparator (\<lambda>(l :: buffered_message) r. loc (bm_occurredAt l) (bm_occurredAt r))" and "ms \<noteq> []"
    and "b = fold (\<lambda>m b. appendBufferedMessage loc b m) ms []"
  shows "distinct (map bm_sourceEventId b) \<and>
    (\<forall>m. m \<in> set b \<longleftrightarrow> map_of (rev (map (\<lambda>m. (bm_sourceEventId m, m)) ms)) (bm_sourceEventId m) = Some m) \<and>
    sorted_wrt (\<lambda>l r. loc (bm_occurredAt l) (bm_occurredAt r) \<le> 0) b"
proof -
  obtain ms' m where "ms = ms' @ [m]" using assms(2) by (metis rev_exhaust)
  then have "b = appendBufferedMessage loc (fold (\<lambda>m b. appendBufferedMessage loc b m) ms' []) m"
    unfolding assms(3) by simp
  with append_buffer_sorted [OF assms(1)] have "sorted_wrt (\<lambda>l r. loc (bm_occurredAt l) (bm_occurredAt r) \<le> 0) b"
    by simp
  with buffer_of_messages [of loc ms] show ?thesis unfolding assms(3) buffer_ok_def by blast
qed

definition sample_buffer :: "buffered_message list" where
  "sample_buffer = fold (\<lambda>m b. appendBufferedMessage (\<lambda>s t. int (length s) - int (length t)) b m)
      [sample_message ''e1'' ''1111'' ''a'', sample_message ''e2'' ''11'' ''b'', sample_message ''e1'' ''1111'' ''c''] []"

theorem buffer_last_per_event_witness:
  "distinct (map bm_sourceEventId sample_buffer) \<and> sample_message ''e1'' ''1111'' ''c'' \<in> set sample_buffer \<and>
    sample_message ''e1'' ''1111'' ''a'' \<notin> set sample_buffer"
proof -
  have "comparator (\<lambda>(l :: buffered_message) r. int (length (bm_occurredAt l)) - int (length (bm_occurredAt r)))"
    by standard auto
  from buffer_last_per_event [OF this _ sample_buffer_def] show ?thesis by (simp add: sample_message_def)
qed

text \<open>
  The enumerations are compared as texts but kept as received: an answer whose collection status
  is the one-element array of \<open>human-handoff\<close> is accepted, and no handoff follows from it (a
  defect: the cast of the value hides that it is no text).
\<close>

theorem array_status_loses_handoff:
  assumes "validateAiProviderOutput (JObject r) = Inr output"
    and "field r ''collectionStatus'' = JArray [JString ''human-handoff'']"
    and "ao_customerDecision output = JString ''undecided''"
    and "\<not> announcesHumanHandoff (ao_message output)"
  shows "aa_transitionAfterSend (deriveAiActions output mode) \<noteq> Some T_forward \<and>
    js_string (ao_collectionStatus output) = ''human-handoff''"
proof -
  have "ao_collectionStatus output = JArray [JString ''human-handoff'']"
    using assms(1,2) by (auto simp: validateAiProviderOutput_def asRecord_def Let_def split: if_splits)
  then show ?thesis using assms(3,4) by (simp add: deriveAiActions_def send_and_def Let_def)
qed

theorem array_status_loses_handoff_witness:
  "\<exists>output. validateAiProviderOutput (sample_answer (JArray [JString ''human-handoff''])) = Inr output \<and>
    aa_transitionAfterSend (deriveAiActions output AM_natural_service) \<noteq> Some T_forward"
proof -
  let ?r = "provider_fields (JArray [JString ''human-handoff''])"
  have "validation_errors ?r = []" by code_simp
  then obtain out where o: "validateAiProviderOutput (JObject ?r) = Inr out"
    by (simp add: validateAiProviderOutput_def asRecord_def Let_def)
  moreover have "ao_customerDecision out = JString ''undecided'' \<and> ao_message out = ''Certo.''"
    using o by (auto simp: validateAiProviderOutput_def asRecord_def Let_def field_def provider_fields_def
        text_field_def sample_trim split: if_splits)
  moreover have "\<not> announcesHumanHandoff ''Certo.''" by code_simp
  moreover have "field ?r ''collectionStatus'' = JArray [JString ''human-handoff'']"
    by (simp add: field_def provider_fields_def)
  ultimately show ?thesis
    using array_status_loses_handoff [of ?r out AM_natural_service] unfolding sample_answer_def by auto
qed

end
