(* ===== verification/Brazilian_Documents.thy ===== *)
theory Brazilian_Documents
  imports App_Error
begin

text \<open>
  The normal forms of identifiers (\<open>shared/utils/normalization.ts\<close>): digits, tax numbers, login
  names, WhatsApp numbers; and the check digits of CPF and CNPJ
  (\<open>shared/utils/brazilian-documents.ts\<close>).
\<close>

section \<open>Normal forms\<close>

definition onlyDigits :: "string \<Rightarrow> string" where
  "onlyDigits s = filter is_digit s"

definition normalizeEmail :: "string \<Rightarrow> string" where
  "normalizeEmail s = to_lower (trim s)"

definition normalizeUsername :: "string \<Rightarrow> string" where
  "normalizeUsername s = to_lower (trim s)"

definition normalizeCpf :: "string option \<Rightarrow> string option" where
  "normalizeCpf v = (if falsy v then None else Some (onlyDigits (the v)))"

definition normalizeTaxId :: "string \<Rightarrow> string" where
  "normalizeTaxId s = filter (\<lambda>c. is_upper c \<or> is_digit c) (to_upper s)"

definition normalizeLoginIdentifier :: "string \<Rightarrow> string" where
  "normalizeLoginIdentifier s =
     (let trimmed = trim s in
      if CHR ''@'' \<in> set trimmed then normalizeEmail trimmed
      else
        (let digits = onlyDigits trimmed in
         if length digits = 11 \<or> length digits = 14 then digits else normalizeUsername trimmed))"

lemma onlyDigits_idem [simp]: "onlyDigits (onlyDigits s) = onlyDigits s"
  by (simp add: onlyDigits_def)

lemma onlyDigits_id: "list_all is_digit s \<Longrightarrow> onlyDigits s = s"
  by (simp add: onlyDigits_def filter_id_conv list_all_iff)

lemma list_all_onlyDigits [simp]: "list_all is_digit (onlyDigits s)"
  by (simp add: onlyDigits_def list_all_iff)

lemma digit_not_ws: "is_digit c \<Longrightarrow> \<not> is_ws c"
  by (auto simp: is_digit_code is_ws_code)

lemma trim_digits: "list_all is_digit s \<Longrightarrow> trim s = s"
  by (cases "s = []") (auto simp: trim_id_iff list_all_iff digit_not_ws)

lemma onlyDigits_to_lower [simp]: "onlyDigits (to_lower s) = onlyDigits s"
  by (induction s) (auto simp: onlyDigits_def to_lower_def lower_char_id)

lemma at_to_lower: "CHR ''@'' \<in> set (to_lower s) \<longleftrightarrow> CHR ''@'' \<in> set s"
proof -
  have at: "lower_char c = CHR ''@'' \<longleftrightarrow> c = CHR ''@''" for c
  proof -
    have "code (CHR ''@'') = 64" by code_simp
    then have "lower_char c = CHR ''@'' \<longleftrightarrow> code (lower_char c) = 64" by (metis code_inject)
    also have "\<dots> \<longleftrightarrow> code c = 64" by (auto simp: code_lower_char)
    also have "\<dots> \<longleftrightarrow> c = CHR ''@''" by (metis \<open>code (CHR ''@'') = 64\<close> code_inject)
    finally show ?thesis .
  qed
  show ?thesis unfolding to_lower_def set_map image_iff by (metis at)
qed

lemma at_not_digit: "list_all is_digit s \<Longrightarrow> CHR ''@'' \<notin> set s"
proof -
  assume d: "list_all is_digit s"
  have "\<not> is_digit CHR ''@''" by code_simp
  with d show ?thesis by (auto simp: list_all_iff)
qed

lemma normalizeLoginIdentifier_idem:
  "normalizeLoginIdentifier (normalizeLoginIdentifier s) = normalizeLoginIdentifier s"
proof (cases "CHR ''@'' \<in> set (trim s)")
  case True
  then have "normalizeLoginIdentifier s = to_lower (trim s)"
    by (simp add: normalizeLoginIdentifier_def normalizeEmail_def)
  with True show ?thesis
    by (simp add: normalizeLoginIdentifier_def normalizeEmail_def trim_to_lower at_to_lower)
next
  case False
  define d where "d = onlyDigits (trim s)"
  show ?thesis
  proof (cases "length d = 11 \<or> length d = 14")
    case True
    with False have "normalizeLoginIdentifier s = d"
      by (simp add: normalizeLoginIdentifier_def d_def Let_def)
    moreover have "list_all is_digit d" by (simp add: d_def)
    ultimately show ?thesis
      using True by (simp add: normalizeLoginIdentifier_def trim_digits at_not_digit onlyDigits_id Let_def)
  next
    case no: False
    with False have n: "normalizeLoginIdentifier s = to_lower (trim s)"
      by (simp add: normalizeLoginIdentifier_def d_def Let_def normalizeUsername_def)
    show ?thesis unfolding n
      using False no
      by (simp add: normalizeLoginIdentifier_def trim_to_lower at_to_lower d_def Let_def
          normalizeUsername_def)
  qed
qed

section \<open>Check digits of CPF\<close>

text \<open>\<open>/^(\d)\1+$/\<close>\<close>

definition hasRepeatedDigits :: "string \<Rightarrow> bool" where
  "hasRepeatedDigits s \<longleftrightarrow> 2 \<le> length s \<and> is_digit (hd s) \<and> list_all (\<lambda>c. c = hd s) s"

definition cpf_digit :: "string \<Rightarrow> nat \<Rightarrow> int" where
  "cpf_digit cpf len =
     (let sum = sum_list (map (\<lambda>i. digit_val (cpf ! i) * (int len + 1 - int i)) [0..<len]);
          remainder = (sum * 10) mod 11
      in if remainder = 10 then 0 else remainder)"

definition isValidCpf :: "string \<Rightarrow> bool" where
  "isValidCpf v =
     (let cpf = onlyDigits v in
      if length cpf \<noteq> 11 \<or> hasRepeatedDigits cpf then False
      else cpf_digit cpf 9 = digit_val (cpf ! 9) \<and> cpf_digit cpf 10 = digit_val (cpf ! 10))"

definition digit_char :: "int \<Rightarrow> char" where
  "digit_char n = char_of (nat (48 + n))"

lemma digit_char: "0 \<le> n \<Longrightarrow> n \<le> 9 \<Longrightarrow> is_digit (digit_char n) \<and> digit_val (digit_char n) = n"
  by (auto simp: digit_char_def is_digit_code digit_val_def)

lemma cpf_digit_range: "0 \<le> cpf_digit s n \<and> cpf_digit s n \<le> 9"
proof -
  have "0 \<le> (x * 10) mod 11 \<and> (x * 10) mod 11 \<le> (10::int)" for x
    using pos_mod_bound [of 11 "x * 10"] pos_mod_sign [of 11 "x * 10"] by linarith
  then show ?thesis
    unfolding cpf_digit_def Let_def
    using pos_mod_bound [of 11] pos_mod_sign [of 11] by (smt (verit))
qed

lemma cpf_digit_append: "n \<le> length b \<Longrightarrow> cpf_digit (b @ t) n = cpf_digit b n"
proof -
  assume n: "n \<le> length b"
  have "map (\<lambda>i. digit_val ((b @ t) ! i) * (int n + 1 - int i)) [0..<n] =
      map (\<lambda>i. digit_val (b ! i) * (int n + 1 - int i)) [0..<n]"
    using n by (intro map_cong) (auto simp: nth_append)
  then show ?thesis by (simp only: cpf_digit_def)
qed

lemma isValidCpf_append:
  assumes "list_all is_digit b" and "length b = 9" and "is_digit x" and "is_digit y"
  shows "isValidCpf (b @ [x, y]) \<longleftrightarrow> \<not> hasRepeatedDigits (b @ [x, y]) \<and>
    digit_val x = cpf_digit b 9 \<and> digit_val y = cpf_digit (b @ [x]) 10"
proof -
  have o: "onlyDigits (b @ [x, y]) = b @ [x, y]"
    using assms by (intro onlyDigits_id) simp
  have "cpf_digit (b @ [x, y]) 9 = cpf_digit b 9" using assms(2) by (simp add: cpf_digit_append)
  moreover have "cpf_digit (b @ [x, y]) 10 = cpf_digit (b @ [x]) 10"
    using cpf_digit_append [of 10 "b @ [x]" "[y]"] assms(2) by simp
  ultimately show ?thesis using assms(2) by (auto simp: isValidCpf_def o nth_append Let_def)
qed

lemma isValidCpf_format: "isValidCpf (onlyDigits v) = isValidCpf v"
  by (simp add: isValidCpf_def)

lemma isValidCpf_normalized: "isValidCpf v \<Longrightarrow> length (onlyDigits v) = 11"
  by (simp add: isValidCpf_def Let_def split: if_splits)

section \<open>Check digits of CNPJ\<close>

text \<open>Since 2026 the first twelve characters may be letters; their value is the code less 48.\<close>

definition cnpj_digit :: "string \<Rightarrow> int list \<Rightarrow> int" where
  "cnpj_digit characters weights =
     (let sum = sum_list (map2 (\<lambda>c w. (int (code c) - 48) * w) characters weights);
          remainder = sum mod 11
      in if remainder < 2 then 0 else 11 - remainder)"

definition isValidCnpj :: "string \<Rightarrow> bool" where
  "isValidCnpj v =
     (let cnpj = normalizeTaxId v in
      if \<not> (length cnpj = 14 \<and> list_all is_digit (drop 12 cnpj)) \<or> list_all (\<lambda>c. c = hd cnpj) cnpj
      then False
      else
        (let base = take 12 cnpj;
             firstDigit = digit_char (cnpj_digit base [5, 4, 3, 2, 9, 8, 7, 6, 5, 4, 3, 2]);
             secondDigit = digit_char (cnpj_digit (base @ [firstDigit])
               [6, 5, 4, 3, 2, 9, 8, 7, 6, 5, 4, 3, 2])
         in drop 12 cnpj = [firstDigit, secondDigit]))"

lemma upper_char_code:
  "code c < 97 \<Longrightarrow> upper_char c = [c]"
  by (simp add: upper_char_def Let_def)

lemma upper_codes: "map code ''ABCDEFGHIJKLMNOPQRSTUVWXYZ'' = [65..<91]"
  by code_simp

lemma is_upper_code: "is_upper c \<longleftrightarrow> 65 \<le> code c \<and> code c \<le> 90"
proof -
  have "is_upper c \<longleftrightarrow> code c \<in> code ` set ''ABCDEFGHIJKLMNOPQRSTUVWXYZ''"
    unfolding is_upper_def by (auto simp: code_inject)
  also have "\<dots> \<longleftrightarrow> code c \<in> set [65..<91]"
    by (simp only: set_map [symmetric] upper_codes)
  also have "\<dots> \<longleftrightarrow> 65 \<le> code c \<and> code c \<le> 90"
    unfolding set_upt atLeastLessThan_iff by linarith
  finally show ?thesis .
qed

definition alnum_upper :: "char \<Rightarrow> bool" where
  "alnum_upper c \<longleftrightarrow> is_upper c \<or> is_digit c"

lemma to_upper_id: "list_all alnum_upper s \<Longrightarrow> to_upper s = s"
  by (induction s) (auto simp: to_upper_def alnum_upper_def is_upper_code is_digit_code upper_char_code)

lemma normalizeTaxId_alnum [simp]: "list_all alnum_upper (normalizeTaxId s)"
  by (simp add: normalizeTaxId_def list_all_iff alnum_upper_def)

lemma normalizeTaxId_id: "list_all alnum_upper s \<Longrightarrow> normalizeTaxId s = s"
  by (simp add: normalizeTaxId_def to_upper_id filter_id_conv list_all_iff alnum_upper_def)

lemma normalizeTaxId_idem [simp]: "normalizeTaxId (normalizeTaxId s) = normalizeTaxId s"
  by (simp add: normalizeTaxId_id)

lemma isValidCnpj_format: "isValidCnpj (normalizeTaxId v) = isValidCnpj v"
  by (simp add: isValidCnpj_def)

lemma isValidCnpj_determined:
  assumes "isValidCnpj s" and "isValidCnpj t"
    and "take 12 (normalizeTaxId s) = take 12 (normalizeTaxId t)"
  shows "normalizeTaxId s = normalizeTaxId t"
proof -
  have "drop 12 (normalizeTaxId s) = drop 12 (normalizeTaxId t)"
    using assms by (simp add: isValidCnpj_def Let_def split: if_splits)
  with assms(3) show ?thesis by (metis append_take_drop_id)
qed

lemma isValidCpf_determined:
  assumes "isValidCpf s" and "isValidCpf t" and "take 9 (onlyDigits s) = take 9 (onlyDigits t)"
  shows "onlyDigits s = onlyDigits t"
proof -
  have split: "\<exists>b x y. onlyDigits u = b @ [x, y] \<and> length b = 9 \<and> list_all is_digit b \<and>
      is_digit x \<and> is_digit y" if u: "isValidCpf u" for u
  proof -
    have l: "length (onlyDigits u) = 11" by (rule isValidCpf_normalized [OF u])
    then have "length (drop 9 (onlyDigits u)) = 2" by simp
    then obtain x y where xy: "drop 9 (onlyDigits u) = [x, y]"
      by (metis (no_types, opaque_lifting) length_0_conv length_Suc_conv numeral_2_eq_2)
    then have e: "onlyDigits u = take 9 (onlyDigits u) @ [x, y]" by (metis append_take_drop_id)
    have "list_all is_digit (take 9 (onlyDigits u) @ [x, y])" using list_all_onlyDigits [of u] e by metis
    then have "list_all is_digit (take 9 (onlyDigits u))" "is_digit x" "is_digit y" by simp_all
    moreover have "length (take 9 (onlyDigits u)) = 9" using l by simp
    ultimately show ?thesis using e by metis
  qed
  from split [OF assms(1)] obtain b x y where s: "onlyDigits s = b @ [x, y]" "length b = 9"
    "list_all is_digit b" "is_digit x" "is_digit y" by blast
  from split [OF assms(2)] obtain b' x' y' where t: "onlyDigits t = b' @ [x', y']" "length b' = 9"
    "list_all is_digit b'" "is_digit x'" "is_digit y'" by blast
  have b: "b' = b" using assms(3) s t by simp
  have "isValidCpf (b @ [x, y])" "isValidCpf (b @ [x', y'])"
    using assms(1, 2) s(1) t(1) b isValidCpf_format by metis+
  then have v: "digit_val x = cpf_digit b 9" "digit_val x' = cpf_digit b 9"
    "digit_val y = cpf_digit (b @ [x]) 10" "digit_val y' = cpf_digit (b @ [x']) 10"
    using isValidCpf_append s t by blast+
  then have "x = x'" using digit_val_inject s t by metis
  moreover from this v have "y = y'" using digit_val_inject s t by metis
  ultimately show ?thesis using s t b by simp
qed

lemma cpf_completion:
  assumes "list_all is_digit b" and "length b = 9" and "\<not> hasRepeatedDigits b"
  shows "\<exists>x y. isValidCpf (b @ [x, y])"
proof -
  define x where "x = digit_char (cpf_digit b 9)"
  define y where "y = digit_char (cpf_digit (b @ [x]) 10)"
  have x: "is_digit x" "digit_val x = cpf_digit b 9"
    using digit_char [of "cpf_digit b 9"] cpf_digit_range by (simp_all add: x_def)
  have y: "is_digit y" "digit_val y = cpf_digit (b @ [x]) 10"
    using digit_char [of "cpf_digit (b @ [x]) 10"] cpf_digit_range by (simp_all add: y_def)
  have "\<not> hasRepeatedDigits (b @ [x, y])"
    using assms(2, 3) by (cases b) (auto simp: hasRepeatedDigits_def)
  with isValidCpf_append [OF assms(1, 2) x(1) y(1)] x(2) y(2) show ?thesis by blast
qed

section \<open>WhatsApp numbers\<close>

text \<open>A plain \<open>Error\<close> is thrown outside the lengths of E.164: \<open>None\<close>.\<close>

definition phone_local_part :: "string \<Rightarrow> string" where
  "phone_local_part v = takeWhile (\<lambda>c. c \<noteq> CHR '':'') (takeWhile (\<lambda>c. c \<noteq> CHR ''@'') v)"

text \<open>The digits with the country code and the ninth digit, where the number is Brazilian.\<close>

definition canonical_digits :: "string \<Rightarrow> string" where
  "canonical_digits digits =
     (let hasBrazilianCountryCode = take 2 digits = ''55'' \<and> 12 \<le> length digits;
          brazilianDigits = (if hasBrazilianCountryCode then drop 2 digits else digits)
      in if length brazilianDigits = 10 \<or> length brazilianDigits = 11
         then
           (let areaCode = take 2 brazilianDigits; subscriber = drop 2 brazilianDigits;
                subscriber' = (if length subscriber = 8 \<and> hd subscriber \<in> set ''6789''
                  then CHR ''9'' # subscriber else subscriber)
            in ''55'' @ areaCode @ subscriber')
         else digits)"

definition normalizeWhatsAppPhone :: "string \<Rightarrow> string option" where
  "normalizeWhatsAppPhone v =
     (let digits = onlyDigits (phone_local_part v);
          stripped = (if take 1 digits = ''0'' then drop 1 digits else digits);
          canonical = canonical_digits stripped
      in if length canonical < 12 \<or> length canonical > 15 then None else Some canonical)"

definition whatsAppPhoneAliases :: "string \<Rightarrow> string list option" where
  "whatsAppPhoneAliases v =
     (case normalizeWhatsAppPhone v of None \<Rightarrow> None
      | Some normalized \<Rightarrow>
          Some (if take 2 normalized = ''55'' \<and> length normalized = 13 \<and> normalized ! 4 = CHR ''9''
                then [normalized, take 4 normalized @ drop 5 normalized] else [normalized]))"

definition formatWhatsAppPhone :: "string \<Rightarrow> string option" where
  "formatWhatsAppPhone v =
     (case normalizeWhatsAppPhone v of None \<Rightarrow> None
      | Some normalized \<Rightarrow>
          Some (if take 2 normalized \<noteq> ''55'' then CHR ''+'' # normalized
            else
              (let rest = drop 2 normalized in
               if length rest = 11
               then ''('' @ take 2 rest @ '') '' @ take 5 (drop 2 rest) @ ''-'' @ drop 7 rest
               else if length rest = 10
               then ''('' @ take 2 rest @ '') '' @ take 4 (drop 2 rest) @ ''-'' @ drop 6 rest
               else CHR ''+'' # normalized)))"

lemma canonical_digits_digits:
  "list_all is_digit d \<Longrightarrow> list_all is_digit (canonical_digits d)"
proof -
  assume d: "list_all is_digit d"
  have n: "is_digit CHR ''5''" "is_digit CHR ''9''" by code_simp+
  have t: "list_all is_digit (take k d)" "list_all is_digit (drop k d)"
    "list_all is_digit (take k (drop j d))" "list_all is_digit (drop k (drop j d))" for k j
    using d by (auto simp: list_all_iff dest: in_set_takeD in_set_dropD)
  show ?thesis
    using t d n by (simp add: canonical_digits_def Let_def)
qed

lemma canonical_digits_idem:
  "canonical_digits (canonical_digits d) = canonical_digits d"
proof -
  define b where "b = (if take 2 d = ''55'' \<and> 12 \<le> length d then drop 2 d else d)"
  show ?thesis
  proof (cases "length b = 10 \<or> length b = 11")
    case False
    then have "canonical_digits d = d" by (auto simp: canonical_digits_def b_def Let_def)
    then show ?thesis by simp
  next
    case True
    define s where "s = (if length (drop 2 b) = 8 \<and> hd (drop 2 b) \<in> set ''6789''
      then CHR ''9'' # drop 2 b else drop 2 b)"
    have c: "canonical_digits d = ''55'' @ take 2 b @ s"
      using True by (simp add: canonical_digits_def b_def [symmetric] s_def Let_def)
    have s: "length s = 8 \<and> hd s \<notin> set ''6789'' \<or> length s = 9"
      using True by (auto simp: s_def)
    have l: "length (take 2 b) = 2" using True by auto
    have "canonical_digits (''55'' @ take 2 b @ s) = ''55'' @ take 2 b @ s"
      using s l by (auto simp: canonical_digits_def Let_def)
    then show ?thesis by (simp only: c)
  qed
qed

lemma local_part_digits: "list_all is_digit d \<Longrightarrow> phone_local_part d = d"
proof -
  assume d: "list_all is_digit d"
  have n: "\<not> is_digit CHR ''@''" "\<not> is_digit CHR '':''" by code_simp+
  have "takeWhile (\<lambda>c. c \<noteq> CHR ''@'') d = d"
    unfolding takeWhile_eq_all_conv using d n by (metis list_all_iff)
  moreover have "takeWhile (\<lambda>c. c \<noteq> CHR '':'') d = d"
    unfolding takeWhile_eq_all_conv using d n by (metis list_all_iff)
  ultimately show ?thesis by (simp only: phone_local_part_def)
qed

lemma normalizeWhatsAppPhone_Some:
  assumes "normalizeWhatsAppPhone v = Some d"
  shows "list_all is_digit d" "12 \<le> length d" "length d \<le> 15" "canonical_digits d = d"
proof -
  define s where "s = (if take 1 (onlyDigits (phone_local_part v)) = ''0''
    then drop 1 (onlyDigits (phone_local_part v)) else onlyDigits (phone_local_part v))"
  have d: "d = canonical_digits s" "12 \<le> length d" "length d \<le> 15"
    using assms by (auto simp: normalizeWhatsAppPhone_def Let_def s_def split: if_splits)
  have "list_all is_digit s"
    unfolding s_def using list_all_onlyDigits [of "phone_local_part v"]
    by (auto simp: list_all_iff dest: in_set_dropD)
  then show "list_all is_digit d" by (simp add: d(1) canonical_digits_digits)
  show "12 \<le> length d" "length d \<le> 15" by (fact d)+
  show "canonical_digits d = d" by (simp add: d(1) canonical_digits_idem)
qed

lemma normalizeWhatsAppPhone_idem:
  assumes "normalizeWhatsAppPhone v = Some d" and "take 1 d \<noteq> ''0''"
  shows "normalizeWhatsAppPhone d = Some d"
  using normalizeWhatsAppPhone_Some [OF assms(1)] assms(2)
  by (simp add: normalizeWhatsAppPhone_def local_part_digits onlyDigits_id Let_def)

text \<open>The second key of a mobile number, and the number it normalizes to.\<close>

lemma length_13: "length s = 13 \<Longrightarrow>
    \<exists>a b c d e f g h i j k l m. s = [a, b, c, d, e, f, g, h, i, j, k, l, m]"
  by (auto simp: numeral_eq_Suc length_Suc_conv)

lemma normalize_canonical:
  "list_all is_digit d \<Longrightarrow> take 1 d \<noteq> ''0'' \<Longrightarrow> canonical_digits d = c \<Longrightarrow> 12 \<le> length c \<Longrightarrow>
     length c \<le> 15 \<Longrightarrow> normalizeWhatsAppPhone d = Some c"
  by (simp add: normalizeWhatsAppPhone_def local_part_digits onlyDigits_id Let_def)

lemma alias_normalizes:
  assumes "whatsAppPhoneAliases v = Some [canon, alias]"
  shows "normalizeWhatsAppPhone v = Some canon" and "length alias = 12" and
    "normalizeWhatsAppPhone alias = Some (if canon ! 5 \<in> set ''6789'' then canon else alias)"
proof -
  from assms have n: "normalizeWhatsAppPhone v = Some canon"
    and p: "take 2 canon = ''55''" "length canon = 13" "canon ! 4 = CHR ''9''"
    and a: "alias = take 4 canon @ drop 5 canon"
    by (auto simp: whatsAppPhoneAliases_def split: option.splits if_splits)
  show "normalizeWhatsAppPhone v = Some canon" by (fact n)
  show "length alias = 12" using p(2) by (simp add: a)
  obtain c d f g h i j k l m where canon: "canon = [CHR ''5'', CHR ''5'', c, d, CHR ''9'', f, g, h, i, j, k, l, m]"
    using length_13 [OF p(2)] p by auto
  have dig: "list_all is_digit alias"
    using normalizeWhatsAppPhone_Some(1) [OF n] by (simp add: a canon)
  have al: "alias = [CHR ''5'', CHR ''5'', c, d, f, g, h, i, j, k, l, m]"
    by (simp add: a canon numeral_eq_Suc)
  show "normalizeWhatsAppPhone alias = Some (if canon ! 5 \<in> set ''6789'' then canon else alias)"
    by (rule normalize_canonical [OF dig])
      (auto simp: al canon canonical_digits_def numeral_eq_Suc Let_def)
qed

section \<open>Further facts\<close>

text \<open>
  The check digits of a CPF are determined by its first nine digits: two valid numbers that
  agree on these are the same number, however they are punctuated.
\<close>

theorem cpf_check_digits_determined:
  assumes "isValidCpf s" and "isValidCpf t" and "take 9 (onlyDigits s) = take 9 (onlyDigits t)"
  shows "onlyDigits s = onlyDigits t"
  using assms by (rule isValidCpf_determined)

lemma cpf_check_digits_determined_witness:
  "onlyDigits ''529.982.247-25'' = onlyDigits ''52998224725''"
proof (rule cpf_check_digits_determined)
  show "isValidCpf ''529.982.247-25''" "isValidCpf ''52998224725''" by code_simp+
  show "take 9 (onlyDigits ''529.982.247-25'') = take 9 (onlyDigits ''52998224725'')" by code_simp
qed

text \<open>
  Every nine digits that are not all equal have a completion to a valid CPF.
\<close>

theorem cpf_completion_exists:
  assumes "list_all is_digit b" and "length b = 9" and "\<not> hasRepeatedDigits b"
  shows "\<exists>x y. isValidCpf (b @ [x, y])"
  using assms by (rule cpf_completion)

lemma cpf_completion_exists_witness: "\<exists>x y. isValidCpf (''529982247'' @ [x, y])"
proof (rule cpf_completion_exists)
  show "list_all is_digit ''529982247''" "\<not> hasRepeatedDigits ''529982247''" by code_simp+
qed simp

text \<open>
  The check digits of a CNPJ, alphanumeric ones included, are determined by its first twelve
  characters.
\<close>

theorem cnpj_check_digits_determined:
  assumes "isValidCnpj s" and "isValidCnpj t"
    and "take 12 (normalizeTaxId s) = take 12 (normalizeTaxId t)"
  shows "normalizeTaxId s = normalizeTaxId t"
  using assms by (rule isValidCnpj_determined)

lemma cnpj_check_digits_determined_witness:
  "normalizeTaxId ''12.abc.345/01de-35'' = normalizeTaxId ''12ABC34501DE35''"
proof (rule cnpj_check_digits_determined)
  show "isValidCnpj ''12.abc.345/01de-35''" "isValidCnpj ''12ABC34501DE35''" by code_simp+
  show "take 12 (normalizeTaxId ''12.abc.345/01de-35'') = take 12 (normalizeTaxId ''12ABC34501DE35'')"
    by code_simp
qed

text \<open>
  A login identifier in normal form, be it an e-mail, a document number or a user name, is its
  own normal form: what was stored under the form is found again.
\<close>

theorem login_identifier_idempotent:
  "normalizeLoginIdentifier (normalizeLoginIdentifier s) = normalizeLoginIdentifier s"
  by (rule normalizeLoginIdentifier_idem)

text \<open>
  The canonical form of a WhatsApp number is digits only, 12 to 15 of them, and canonical
  again, unless it still begins with a zero.
\<close>

theorem whatsapp_number_canonical:
  assumes "normalizeWhatsAppPhone v = Some d" and "take 1 d \<noteq> ''0''"
  shows "list_all is_digit d \<and> 12 \<le> length d \<and> length d \<le> 15 \<and> normalizeWhatsAppPhone d = Some d"
  using normalizeWhatsAppPhone_Some [OF assms(1)] normalizeWhatsAppPhone_idem [OF assms] by simp

lemma whatsapp_number_canonical_witness: "normalizeWhatsAppPhone ''5511987654321'' = Some ''5511987654321''"
proof -
  have "normalizeWhatsAppPhone ''(11) 8765-4321'' = Some ''5511987654321''" by code_simp
  from whatsapp_number_canonical [OF this] show ?thesis by simp
qed

text \<open>
  A number dialled with the international prefix 00 is not brought to canonical form: only one
  zero is dropped, and the result normalizes to another number.
\<close>

theorem international_prefix_not_canonical:
  "\<exists>d. normalizeWhatsAppPhone ''005511987654321'' = Some d \<and> normalizeWhatsAppPhone d \<noteq> Some d"
proof -
  have "normalizeWhatsAppPhone ''005511987654321'' = Some ''05511987654321''"
    "normalizeWhatsAppPhone ''05511987654321'' = Some ''5511987654321''" by code_simp+
  then show ?thesis by simp
qed

text \<open>
  The second key of a mobile number stands for the same number only where the digit after the
  ninth one is 6 to 9; otherwise the key is a different (landline) number that normalizes to
  itself.
\<close>

theorem phone_alias_may_be_another_number:
  assumes "whatsAppPhoneAliases v = Some [canon, alias]"
  shows "normalizeWhatsAppPhone v = Some canon \<and>
    normalizeWhatsAppPhone alias = Some (if canon ! 5 \<in> set ''6789'' then canon else alias) \<and> alias \<noteq> canon"
proof -
  have "length canon = 13"
    using assms by (auto simp: whatsAppPhoneAliases_def split: option.splits if_splits)
  then show ?thesis using alias_normalizes [OF assms] by auto
qed

lemma phone_alias_may_be_another_number_witness:
  "normalizeWhatsAppPhone ''551134567890'' = Some ''551134567890''"
proof -
  have "whatsAppPhoneAliases ''11934567890'' = Some [''5511934567890'', ''551134567890'']" by code_simp
  from phone_alias_may_be_another_number [OF this] show ?thesis by simp
qed

end
