(* ===== verification/Channels.thy ===== *)
theory Channels
  imports App_Error Brazilian_Documents
begin

text \<open>
  The channels of the company (\<open>domain/whatsapp/whatsapp-channel.ts\<close>): their configuration, technical
  name and life cycle; and what may be done with the media of a conversation
  (\<open>domain/whatsapp/media-interpretation-policy.ts\<close>).
\<close>

section \<open>Channels\<close>

datatype organizational_status = OS_pending | OS_active | OS_cancelled | OS_disabled

datatype connection_status = CN_unknown | CN_connected | CN_disconnected | CN_connecting | CN_error

datatype routing_mode = RM_department_owned | RM_general_triage

record channel_snapshot =
  ch_agentsEnabled :: "bool option"
  ch_displayName :: string
  ch_phoneNumber :: string
  ch_evolutionInstanceName :: string
  ch_departmentId :: "string option"
  ch_routingMode :: routing_mode
  ch_organizationalStatus :: organizational_status
  ch_connectionStatus :: connection_status
  ch_allowedTargets :: "string list"

text \<open>
  Failures: an \<open>AppError\<close>, the error of the provider's gateway with its reason, and the plain \<open>Error\<close>
  with which a number out of range is refused.
\<close>

datatype provider_reason =
    PR_invalid_configuration | PR_invalid_request | PR_already_exists | PR_not_found
  | PR_provider_rejected | PR_provider_unavailable | PR_timeout | PR_invalid_response

datatype failure = App_failure app_error | Provider_failure provider_reason | Plain_failure

type_synonym 'a outcome = "failure + 'a"

definition invalid :: "string \<Rightarrow> 'a outcome" where
  "invalid message = Inl (App_failure (validationError message))"

definition normalizePhysicalChannelPhone :: "string \<Rightarrow> string outcome" where
  "normalizePhysicalChannelPhone v =
     (if includes_list v ''@g.us'' then invalid ''channel-phone-is-group''
      else case normalizeWhatsAppPhone v of None \<Rightarrow> Inl Plain_failure | Some d \<Rightarrow> Inr d)"

section \<open>Technical names\<close>

text \<open>
  \<open>normalize('NFKD')\<close> without the combining marks, on Latin-1. The marks stay apart from their letters;
  the characters that it takes out of Latin-1 (the fraction slash, the Greek mu) stand as a slash,
  which the slug replaces like them.
\<close>

definition decompose_char :: "char \<Rightarrow> string" where
  "decompose_char c =
     (let n = code c in
      if n = 170 then ''a'' else if n = 186 then ''o''
      else if n = 178 then ''2'' else if n = 179 then ''3'' else if n = 185 then ''1''
      else if n = 188 then ''1/4'' else if n = 189 then ''1/2'' else if n = 190 then ''3/4''
      else if n \<in> {160, 168, 175, 180, 184} then '' '' else if n = 181 then ''/''
      else if 192 \<le> n \<and> n \<le> 197 then ''A'' else if n = 199 then ''C''
      else if 200 \<le> n \<and> n \<le> 203 then ''E'' else if 204 \<le> n \<and> n \<le> 207 then ''I''
      else if n = 209 then ''N'' else if 210 \<le> n \<and> n \<le> 214 then ''O''
      else if 217 \<le> n \<and> n \<le> 220 then ''U'' else if n = 221 then ''Y''
      else if 224 \<le> n \<and> n \<le> 229 then ''a'' else if n = 231 then ''c''
      else if 232 \<le> n \<and> n \<le> 235 then ''e'' else if 236 \<le> n \<and> n \<le> 239 then ''i''
      else if n = 241 then ''n'' else if 242 \<le> n \<and> n \<le> 246 then ''o''
      else if 249 \<le> n \<and> n \<le> 252 then ''u'' else if n = 253 \<or> n = 255 then ''y'' else [c])"

definition slug_char :: "char \<Rightarrow> bool" where
  "slug_char c \<longleftrightarrow> is_lower c \<or> is_digit c"

text \<open>\<open>replace(/[^a-z0-9]+/gu, '-')\<close>: each run of other characters becomes a dash.\<close>

fun dash_runs :: "bool \<Rightarrow> string \<Rightarrow> string" where
  "dash_runs in_run [] = []"
| "dash_runs in_run (c # cs) =
     (if slug_char c then c # dash_runs False cs
      else if in_run then dash_runs True cs else CHR ''-'' # dash_runs True cs)"

text \<open>\<open>replace(/^-+|-+$/gu, '')\<close>\<close>

definition strip_dashes :: "string \<Rightarrow> string" where
  "strip_dashes s =
     rev (dropWhile (\<lambda>c. c = CHR ''-'') (rev (dropWhile (\<lambda>c. c = CHR ''-'') s)))"

definition slug :: "string \<Rightarrow> string \<Rightarrow> string outcome" where
  "slug v field =
     (let normalized = take 48 (strip_dashes (dash_runs False (to_lower (concat (map decompose_char v)))))
      in if normalized = [] then invalid (field @ '' slug'') else Inr normalized)"

definition createEvolutionInstanceName :: "string \<Rightarrow> string \<Rightarrow> string outcome" where
  "createEvolutionInstanceName tenantSlug channelSlug =
     rbind (slug tenantSlug ''Tenant'') (\<lambda>t.
     rbind (slug channelSlug ''Canal'') (\<lambda>c. Inr (t @ ''-production-'' @ c)))"

section \<open>Configuration and life cycle\<close>

definition validateChannelConfiguration ::
  "'a channel_snapshot_scheme \<Rightarrow> 'a channel_snapshot_scheme outcome" where
  "validateChannelConfiguration snapshot =
     (let displayName = trim (ch_displayName snapshot) in
      if displayName = [] \<or> length displayName > 80 then invalid ''channel-display-name''
      else if ch_routingMode snapshot = RM_department_owned \<and> ch_departmentId snapshot = None
      then invalid ''channel-needs-department''
      else
        (let allowed = filter (\<lambda>v. v \<noteq> []) (js_uniq (map trim (ch_allowedTargets snapshot))) in
         rbind (normalizePhysicalChannelPhone (ch_phoneNumber snapshot)) (\<lambda>phone.
           Inr (snapshot\<lparr>ch_displayName := displayName, ch_phoneNumber := phone, ch_allowedTargets := allowed\<rparr>))))"

definition assertEvolutionInstanceNameUnchanged :: "string \<Rightarrow> string \<Rightarrow> unit outcome" where
  "assertEvolutionInstanceNameUnchanged current proposed =
     throw_if (current \<noteq> proposed) (App_failure (validationError ''instance-name-immutable''))"

datatype channel_action =
    CA_request_qr | CA_connected | CA_disconnected | CA_connection_error | CA_cancel_pending
  | CA_disable_operational

definition evolveChannelStatus ::
  "'a channel_snapshot_scheme \<Rightarrow> channel_action \<Rightarrow> bool \<Rightarrow> 'a channel_snapshot_scheme outcome" where
  "evolveChannelStatus input action isAdministrator =
     rbind (validateChannelConfiguration input) (\<lambda>current.
     case action of
       CA_request_qr \<Rightarrow>
         if ch_organizationalStatus current = OS_cancelled \<or> ch_organizationalStatus current = OS_disabled
         then invalid ''channel-does-not-connect''
         else Inr (current\<lparr>ch_connectionStatus := CN_connecting\<rparr>)
     | CA_connected \<Rightarrow>
         if ch_organizationalStatus current = OS_cancelled \<or> ch_organizationalStatus current = OS_disabled
         then invalid ''channel-not-activated''
         else Inr (current\<lparr>ch_organizationalStatus := OS_active, ch_connectionStatus := CN_connected\<rparr>)
     | CA_disconnected \<Rightarrow> Inr (current\<lparr>ch_connectionStatus := CN_disconnected\<rparr>)
     | CA_connection_error \<Rightarrow> Inr (current\<lparr>ch_connectionStatus := CN_error\<rparr>)
     | CA_cancel_pending \<Rightarrow>
         if ch_organizationalStatus current \<noteq> OS_pending then invalid ''only-pending-cancelled''
         else Inr (current\<lparr>ch_organizationalStatus := OS_cancelled, ch_connectionStatus := CN_disconnected\<rparr>)
     | CA_disable_operational \<Rightarrow>
         if \<not> isAdministrator then Inl (App_failure (forbidden ''only-administrators-disable''))
         else if ch_organizationalStatus current \<noteq> OS_active then invalid ''only-active-disabled''
         else Inr (current\<lparr>ch_organizationalStatus := OS_disabled\<rparr>))"

definition canAutomaticallyRouteChannelTo :: "'a channel_snapshot_scheme \<Rightarrow> string \<Rightarrow> bool" where
  "canAutomaticallyRouteChannelTo channel targetDepartmentId \<longleftrightarrow>
     targetDepartmentId \<in> set (ch_allowedTargets channel)"

definition channelDeletionOperation :: "unit outcome" where
  "channelDeletionOperation = invalid ''channels-are-not-deleted''"

section \<open>Media interpretation\<close>

datatype media_type =
    MT_audio | MT_image | MT_document | MT_spreadsheet | MT_location | MT_contact | MT_video | MT_other

datatype interpretation_status = IN_pending | IN_succeeded | IN_failed | IN_unsupported

record interpretation_state =
  is_mediaType :: media_type
  is_interpretationStatus :: "interpretation_status option"
  is_interpretationId :: "string option"
  is_humanCorrection :: "string option"

datatype interpretation_action = IA_interpret | IA_preserve_only | IA_use_existing | IA_skip_during_human_control

text \<open>\<open>human\<close> of the control modes; the other modes do not differ here.\<close>

definition decideMediaInterpretation ::
  "interpretation_state \<Rightarrow> bool \<Rightarrow> bool \<Rightarrow> bool \<Rightarrow> interpretation_action \<times> string" where
  "decideMediaInterpretation state humanControl processDuringHumanControl requestedManually =
     (if is_mediaType state = MT_video \<or> is_mediaType state = MT_other
      then (IA_preserve_only, ''media-preserved'')
      else if is_interpretationId state \<noteq> None \<or> is_interpretationStatus state \<noteq> None
      then (IA_use_existing, ''single-attempt-recorded'')
      else if humanControl \<and> \<not> processDuringHumanControl \<and> \<not> requestedManually
      then (IA_skip_during_human_control, ''automatic-processing-disabled'')
      else (IA_interpret, if requestedManually then ''requested-manually'' else ''eligible-media''))"

datatype effective_source = EF_human | EF_machine | EF_none

definition effectiveMediaInterpretation ::
  "string option \<Rightarrow> string option \<Rightarrow> string option \<times> effective_source" where
  "effectiveMediaInterpretation machineInterpretation humanCorrection =
     (case trim_or_null humanCorrection of Some human \<Rightarrow> (Some human, EF_human)
      | None \<Rightarrow> (case trim_or_null machineInterpretation of Some machine \<Rightarrow> (Some machine, EF_machine)
          | None \<Rightarrow> (None, EF_none)))"

section \<open>What the configuration and the life cycle keep\<close>

lemma rbind_outcome_Inr: "rbind r f = Inr y \<longleftrightarrow> (\<exists>x. r = Inr x \<and> f x = Inr y)"
  by (rule rbind_Inr_iff)

lemma invalid_Inr [simp]: "invalid m \<noteq> Inr x"
  by (simp add: invalid_def)

lemma configuration_Inr:
  assumes "validateChannelConfiguration c = Inr d"
  obtains phone where "normalizePhysicalChannelPhone (ch_phoneNumber c) = Inr phone"
    and "trim (ch_displayName c) \<noteq> []" and "length (trim (ch_displayName c)) \<le> 80"
    and "ch_routingMode c = RM_department_owned \<longrightarrow> ch_departmentId c \<noteq> None"
    and "d = c\<lparr>ch_displayName := trim (ch_displayName c), ch_phoneNumber := phone,
      ch_allowedTargets := filter (\<lambda>v. v \<noteq> []) (js_uniq (map trim (ch_allowedTargets c)))\<rparr>"
  using assms by (auto simp: validateChannelConfiguration_def Let_def rbind_outcome_Inr split: if_splits)

lemma configuration_keeps:
  assumes "validateChannelConfiguration c = Inr d"
  shows "ch_organizationalStatus d = ch_organizationalStatus c \<and> ch_connectionStatus d = ch_connectionStatus c \<and>
    ch_evolutionInstanceName d = ch_evolutionInstanceName c \<and> ch_departmentId d = ch_departmentId c \<and>
    ch_routingMode d = ch_routingMode c \<and> ch_agentsEnabled d = ch_agentsEnabled c"
  by (rule configuration_Inr [OF assms]) simp

lemma evolve_Inr:
  assumes "evolveChannelStatus c action admin = Inr d"
  obtains v where "validateChannelConfiguration c = Inr v" and "ch_evolutionInstanceName v = ch_evolutionInstanceName c"
    and "ch_organizationalStatus v = ch_organizationalStatus c" and "ch_evolutionInstanceName d = ch_evolutionInstanceName v"
    and "case action of
      CA_request_qr \<Rightarrow> ch_organizationalStatus v \<notin> {OS_cancelled, OS_disabled} \<and> d = v\<lparr>ch_connectionStatus := CN_connecting\<rparr>
    | CA_connected \<Rightarrow> ch_organizationalStatus v \<notin> {OS_cancelled, OS_disabled} \<and>
        d = v\<lparr>ch_organizationalStatus := OS_active, ch_connectionStatus := CN_connected\<rparr>
    | CA_disconnected \<Rightarrow> d = v\<lparr>ch_connectionStatus := CN_disconnected\<rparr>
    | CA_connection_error \<Rightarrow> d = v\<lparr>ch_connectionStatus := CN_error\<rparr>
    | CA_cancel_pending \<Rightarrow> ch_organizationalStatus v = OS_pending \<and>
        d = v\<lparr>ch_organizationalStatus := OS_cancelled, ch_connectionStatus := CN_disconnected\<rparr>
    | CA_disable_operational \<Rightarrow> admin \<and> ch_organizationalStatus v = OS_active \<and>
        d = v\<lparr>ch_organizationalStatus := OS_disabled\<rparr>"
proof -
  obtain v where v: "validateChannelConfiguration c = Inr v"
    using assms unfolding evolveChannelStatus_def rbind_outcome_Inr by blast
  have e: "evolveChannelStatus c action admin = Inr d" by (rule assms)
  note k = configuration_keeps [OF v]
  show thesis
    by (rule that [OF v]) (use e k in \<open>cases action; simp add: evolveChannelStatus_def v split: if_splits; fastforce\<close>)+
qed

lemma evolve_final:
  assumes "evolveChannelStatus c action admin = Inr d" and "ch_organizationalStatus c \<in> {OS_cancelled, OS_disabled}"
  shows "ch_organizationalStatus d = ch_organizationalStatus c"
  using assms(2) by (rule_tac evolve_Inr [OF assms(1)]) (cases action; auto)

lemma evolve_activates:
  assumes "evolveChannelStatus c action admin = Inr d" and "ch_organizationalStatus d = OS_active"
  shows "ch_organizationalStatus c = OS_active \<or> action = CA_connected"
  using assms(2) by (rule_tac evolve_Inr [OF assms(1)]) (cases action; auto)

end
