(* ===== verification/JS_Time.thy ===== *)
theory JS_Time
  imports JS_Date
begin

text \<open>
  Instants, as milliseconds since the epoch, in the fields of UTC: the day numbers of the language and
  the civil dates they stand for, with the proof that each determines the other, and
  \<open>Date.prototype.toISOString\<close>.
\<close>

section \<open>Days and years\<close>

definition ms_per_day :: int where
  "ms_per_day = 86400000"

text \<open>\<open>DayFromYear\<close> and \<open>YearFromTime\<close> of the language, the year estimated by its mean length.\<close>

definition day_from_year :: "int \<Rightarrow> int" where
  "day_from_year y = 365 * (y - 1970) + (y - 1969) div 4 - (y - 1901) div 100 + (y - 1601) div 400"

definition year_from_day :: "int \<Rightarrow> int" where
  "year_from_day n =
     (let e = 1970 + 400 * n div 146097
      in if day_from_year (e + 1) \<le> n then e + 1 else if day_from_year e \<le> n then e else e - 1)"

definition year_length :: "int \<Rightarrow> int" where
  "year_length y = (if leap_year y then 366 else 365)"

lemma div_step:
  assumes "0 < (n :: int)"
  shows "(k + 1) div n = k div n + (if (k + 1) mod n = 0 then 1 else 0)"
proof (cases "(k + 1) mod n = 0")
  case True
  have "k + 1 = n * ((k + 1) div n)" using True mult_div_mod_eq [of n "k + 1"] by simp
  then have "k = n * ((k + 1) div n - 1) + (n - 1)" by (simp add: algebra_simps)
  from int_div_pos_eq [OF this] assms have "k div n = (k + 1) div n - 1" by simp
  with True show ?thesis by simp
next
  case False
  have "k = n * ((k + 1) div n) + ((k + 1) mod n - 1)" using mult_div_mod_eq [of n "k + 1"] by linarith
  moreover have "0 \<le> (k + 1) mod n - 1" "(k + 1) mod n - 1 < n"
    using assms False pos_mod_sign [OF assms, of "k + 1"] pos_mod_bound [OF assms, of "k + 1"] by linarith+
  ultimately have "k div n = (k + 1) div n" by (rule int_div_pos_eq)
  with False show ?thesis by simp
qed

lemma day_from_year_step: "day_from_year (y + 1) = day_from_year y + year_length y"
proof -
  define p where "p = (y mod 4 = 0)"
  define q where "q = (y mod 100 = 0)"
  define r where "r = (y mod 400 = 0)"
  have "(y - 1968) div 4 = (y - 1969) div 4 + (if p then 1 else 0)"
    using div_step [of 4 "y - 1969"] mod_diff_right_eq [of y 1968 4] by (simp add: p_def)
  moreover have "(y - 1900) div 100 = (y - 1901) div 100 + (if q then 1 else 0)"
    using div_step [of 100 "y - 1901"] mod_diff_right_eq [of y 1900 100] by (simp add: q_def)
  moreover have "(y - 1600) div 400 = (y - 1601) div 400 + (if r then 1 else 0)"
    using div_step [of 400 "y - 1601"] mod_diff_right_eq [of y 1600 400] by (simp add: r_def)
  ultimately have "day_from_year (y + 1) = day_from_year y + 365 + (if p then 1 else 0) - (if q then 1 else 0) + (if r then 1 else 0)"
    unfolding day_from_year_def by simp
  moreover have "r \<Longrightarrow> q" "q \<Longrightarrow> p"
    using dvd_trans [of 100 400 y] dvd_trans [of 4 100 y] by (simp_all add: p_def q_def r_def mod_eq_0_iff_dvd)
  ultimately show ?thesis
    unfolding year_length_def leap_year_def p_def [symmetric] q_def [symmetric] r_def [symmetric]
    by (cases p; cases q; cases r) simp_all
qed

lemma year_from_day:
  assumes y_def: "y = year_from_day n"
  shows "day_from_year y \<le> n" and "n < day_from_year (y + 1)"
proof -
  define k where "k = 400 * n div 146097"
  have k: "146097 * k \<le> 400 * n" "400 * n < 146097 * k + 146097"
    using mult_div_mod_eq [of 146097 "400 * n"] pos_mod_sign [of 146097 "400 * n"] pos_mod_bound [of 146097 "400 * n"]
    unfolding k_def by linarith+
  have q: "4 * (a div 4) \<le> a" "a < 4 * (a div 4) + 4" "100 * (a div 100) \<le> a" "a < 100 * (a div 100) + 100"
    "400 * (a div 400) \<le> a" "a < 400 * (a div 400) + 400" for a :: int
    by (simp_all add: minus_mod_eq_mult_div [symmetric])
  have lo: "day_from_year (1970 + k - 1) \<le> n"
    using k(1) q(1) [of k] q(4) [of "k + 68"] q(5) [of "k + 368"] unfolding day_from_year_def by (simp add: algebra_simps)
  have hi: "n < day_from_year (1970 + k + 2)"
    using k(2) q(2) [of "k + 3"] q(3) [of "k + 71"] q(6) [of "k + 371"] unfolding day_from_year_def by (simp add: algebra_simps)
  show "day_from_year y \<le> n" "n < day_from_year (y + 1)"
    using lo hi unfolding y_def year_from_day_def Let_def k_def [symmetric] by (simp_all add: algebra_simps)
qed


lemma year_length_pos: "365 \<le> year_length y" "year_length y \<le> 366"
  by (simp_all add: year_length_def)

lemma day_from_year_mono: "y \<le> z \<Longrightarrow> day_from_year y + 365 * (z - y) \<le> day_from_year z"
proof (induction "nat (z - y)" arbitrary: z)
  case 0
  then show ?case by simp
next
  case (Suc k)
  then have "k = nat (z - 1 - y)" "y \<le> z - 1" by linarith+
  with Suc.hyps(1) have "day_from_year y + 365 * (z - 1 - y) \<le> day_from_year (z - 1)" by blast
  then show ?case using day_from_year_step [of "z - 1"] year_length_pos [of "z - 1"] by simp
qed

lemma year_of_day:
  assumes "day_from_year y \<le> n" and "n < day_from_year (y + 1)"
  shows "year_from_day n = y"
proof -
  note z = year_from_day [OF refl, of n]
  have "\<not> year_from_day n < y" using day_from_year_mono [of "year_from_day n + 1" y] z assms by auto
  moreover have "\<not> y < year_from_day n" using day_from_year_mono [of "y + 1" "year_from_day n"] z assms by auto
  ultimately show ?thesis by simp
qed

section \<open>Months and days\<close>

text \<open>The first day of a month within its year, the month of a day, and the civil date of a day number.\<close>

definition month_start :: "int \<Rightarrow> int \<Rightarrow> int" where
  "month_start y m =
     (if m \<le> 2 then 31 * (m - 1)
      else (if leap_year y then 60 else 59) +
        (if m = 3 then 0 else if m = 4 then 31 else if m = 5 then 61 else if m = 6 then 92 else if m = 7 then 122
         else if m = 8 then 153 else if m = 9 then 184 else if m = 10 then 214 else if m = 11 then 245 else 275))"

definition month_of_day :: "int \<Rightarrow> int \<Rightarrow> int" where
  "month_of_day y k =
     (if k < month_start y 2 then 1 else if k < month_start y 3 then 2 else if k < month_start y 4 then 3
      else if k < month_start y 5 then 4 else if k < month_start y 6 then 5 else if k < month_start y 7 then 6
      else if k < month_start y 8 then 7 else if k < month_start y 9 then 8 else if k < month_start y 10 then 9
      else if k < month_start y 11 then 10 else if k < month_start y 12 then 11 else 12)"

definition civil_of_days :: "int \<Rightarrow> int \<times> int \<times> int" where
  "civil_of_days n =
     (let y = year_from_day n; k = n - day_from_year y; m = month_of_day y k in (y, m, k - month_start y m + 1))"

text \<open>\<open>MakeDay\<close>: months beyond the year and days beyond the month roll over.\<close>

definition make_day :: "int \<Rightarrow> int \<Rightarrow> int \<Rightarrow> int" where
  "make_day y m d =
     (let y' = y + (m - 1) div 12; m' = (m - 1) mod 12 + 1 in day_from_year y' + month_start y' m' + d - 1)"

lemma month_cases:
  "1 \<le> (m :: int) \<Longrightarrow> m \<le> 12 \<Longrightarrow>
     m = 1 \<or> m = 2 \<or> m = 3 \<or> m = 4 \<or> m = 5 \<or> m = 6 \<or> m = 7 \<or> m = 8 \<or> m = 9 \<or> m = 10 \<or> m = 11 \<or> m = 12"
  by arith

lemma month_start_values:
  "month_start y 1 = 0" "month_start y 2 = 31" "month_start y 3 = month_start y 2 + days_in_month y 2"
  "month_start y 4 = month_start y 3 + 31" "month_start y 5 = month_start y 4 + 30" "month_start y 6 = month_start y 5 + 31"
  "month_start y 7 = month_start y 6 + 30" "month_start y 8 = month_start y 7 + 31" "month_start y 9 = month_start y 8 + 31"
  "month_start y 10 = month_start y 9 + 30" "month_start y 11 = month_start y 10 + 31"
  "month_start y 12 = month_start y 11 + 30" "year_length y = month_start y 12 + 31"
  by (simp_all add: month_start_def days_in_month_def year_length_def)

lemma month_lengths:
  "28 \<le> days_in_month y 2" "days_in_month y 2 \<le> 29" "days_in_month y 1 = 31" "days_in_month y 3 = 31" "days_in_month y 4 = 30"
  "days_in_month y 5 = 31" "days_in_month y 6 = 30" "days_in_month y 7 = 31" "days_in_month y 8 = 31" "days_in_month y 9 = 30"
  "days_in_month y 10 = 31" "days_in_month y 11 = 30" "days_in_month y 12 = 31"
  by (simp_all add: days_in_month_def)

lemma month_start_bounds:
  assumes "valid_civil y m d"
  shows "0 \<le> month_start y m + d - 1 \<and> month_start y m + d - 1 < year_length y"
proof -
  have d: "1 \<le> d" "d \<le> days_in_month y m" using assms by (simp_all add: valid_civil_def)
  have "m = 1 \<or> m = 2 \<or> m = 3 \<or> m = 4 \<or> m = 5 \<or> m = 6 \<or> m = 7 \<or> m = 8 \<or> m = 9 \<or> m = 10 \<or> m = 11 \<or> m = 12"
    using assms by (intro month_cases) (simp_all add: valid_civil_def)
  with d month_lengths(1,2) [of y] show ?thesis by (elim disjE) (simp_all add: month_start_values month_lengths(3-))
qed

lemma month_of_start:
  assumes "valid_civil y m d"
  shows "month_of_day y (month_start y m + d - 1) = m"
proof -
  have d: "1 \<le> d" "d \<le> days_in_month y m" using assms by (simp_all add: valid_civil_def)
  have "m = 1 \<or> m = 2 \<or> m = 3 \<or> m = 4 \<or> m = 5 \<or> m = 6 \<or> m = 7 \<or> m = 8 \<or> m = 9 \<or> m = 10 \<or> m = 11 \<or> m = 12"
    using assms by (intro month_cases) (simp_all add: valid_civil_def)
  with d month_lengths(1,2) [of y] show ?thesis
    by (elim disjE) (simp_all add: month_of_day_def month_start_values month_lengths(3-))
qed

lemma month_of_valid:
  assumes "0 \<le> k" and "k < year_length y"
  shows "valid_civil y (month_of_day y k) (k - month_start y (month_of_day y k) + 1)"
proof -
  have "1 \<le> month_of_day y k \<and> month_of_day y k \<le> 12 \<and> month_start y (month_of_day y k) \<le> k \<and>
      k < month_start y (month_of_day y k) + days_in_month y (month_of_day y k)"
    using assms unfolding month_of_day_def
    by (simp split: if_split) (simp add: month_start_values month_lengths)
  then show ?thesis by (simp add: valid_civil_def)
qed

lemma make_day_valid: "1 \<le> m \<Longrightarrow> m \<le> 12 \<Longrightarrow> make_day y m d = day_from_year y + month_start y m + d - 1"
  by (simp add: make_day_def div_pos_pos_trivial)

lemma civil_make_day:
  assumes "valid_civil y m d"
  shows "civil_of_days (make_day y m d) = (y, m, d)"
proof -
  have m: "1 \<le> m" "m \<le> 12" using assms by (auto simp: valid_civil_def)
  note b = month_start_bounds [OF assms]
  have "year_from_day (make_day y m d) = y"
    using b by (intro year_of_day) (simp_all add: make_day_valid m day_from_year_step)
  then show ?thesis
    using month_of_start [OF assms] by (simp add: civil_of_days_def make_day_valid m Let_def add.assoc [symmetric] add_diff_eq)
qed

lemma civil_of_days_valid: "civil_of_days n = (y, m, d) \<Longrightarrow> valid_civil y m d \<and> make_day y m d = n"
proof -
  assume c: "civil_of_days n = (y, m, d)"
  then have y: "y = year_from_day n" and m: "m = month_of_day y (n - day_from_year y)"
    and d: "d = n - day_from_year y - month_start y m + 1"
    by (auto simp: civil_of_days_def Let_def)
  have v: "valid_civil y m d"
    using year_from_day [OF y] unfolding m d by (intro month_of_valid) (simp_all add: day_from_year_step)
  then show ?thesis by (simp add: make_day_valid valid_civil_def d)
qed

lemma calendar_round_trip:
  "civil_of_days (make_day y m d) = (y, m, d) \<longleftrightarrow> valid_civil y m d"
  using civil_make_day civil_of_days_valid by blast

section \<open>Texts\<close>

definition pad :: "nat \<Rightarrow> nat \<Rightarrow> string" where
  "pad k n = replicate (k - length (nat_text n)) (CHR ''0'') @ nat_text n"

definition year_text :: "int \<Rightarrow> string" where
  "year_text y = (if 0 \<le> y \<and> y \<le> 9999 then pad 4 (nat y)
     else (if y < 0 then ''-'' else ''+'') @ pad 6 (nat \<bar>y\<bar>))"

definition iso_string :: "int \<Rightarrow> string" where
  "iso_string t =
     (let (y, m, d) = civil_of_days (t div ms_per_day); r = t mod ms_per_day
      in year_text y @ ''-'' @ pad 2 (nat m) @ ''-'' @ pad 2 (nat d) @ ''T'' @ pad 2 (nat (r div 3600000)) @ '':'' @
         pad 2 (nat (r div 60000 mod 60)) @ '':'' @ pad 2 (nat (r div 1000 mod 60)) @ ''.'' @
         pad 3 (nat (r mod 1000)) @ ''Z'')"

end
