(* ===== verification/Effects.thy ===== *)
theory Effects
  imports JS_Prelude
begin

text \<open>
  Asynchronous operations over a store: a run ends with a value or a failure and leaves a store. The
  sequence of awaits is \<open>bind_op\<close>, \<open>try ... catch\<close> is \<open>catch_op\<close>. A small logic states what an
  operation does to the store under a relation that is reflexive and transitive.
\<close>

type_synonym ('s, 'e, 'a) store_action = "'s \<Rightarrow> ('e + 'a) \<times> 's"

definition return_op :: "'e + 'a \<Rightarrow> ('s, 'e, 'a) store_action" where
  "return_op r s = (r, s)"

definition bind_op :: "('s, 'e, 'a) store_action \<Rightarrow> ('a \<Rightarrow> ('s, 'e, 'b) store_action) \<Rightarrow> ('s, 'e, 'b) store_action" where
  "bind_op m f s = (case m s of (Inl e, s') \<Rightarrow> (Inl e, s') | (Inr x, s') \<Rightarrow> f x s')"

definition catch_op :: "('s, 'e, 'a) store_action \<Rightarrow> ('e \<Rightarrow> ('s, 'e, 'a) store_action) \<Rightarrow> ('s, 'e, 'a) store_action" where
  "catch_op m h s = (case m s of (Inl e, s') \<Rightarrow> h e s' | (Inr x, s') \<Rightarrow> (Inr x, s'))"

definition store_after :: "('s, 'e, 'a) store_action \<Rightarrow> 's \<Rightarrow> 's" where
  "store_after m s = snd (m s)"

lemma bind_op_Inr: "m s = (Inr x, s') \<Longrightarrow> bind_op m f s = f x s'"
  by (simp add: bind_op_def)

lemma bind_op_Inl: "m s = (Inl e, s') \<Longrightarrow> bind_op m f s = (Inl e, s')"
  by (simp add: bind_op_def)

lemma catch_op_Inr: "m s = (Inr x, s') \<Longrightarrow> catch_op m h s = (Inr x, s')"
  by (simp add: catch_op_def)

lemma catch_op_Inl: "m s = (Inl e, s') \<Longrightarrow> catch_op m h s = h e s'"
  by (simp add: catch_op_def)

lemma bind_return [simp]: "bind_op (return_op (Inr x)) f = f x" "bind_op (return_op (Inl e)) f = return_op (Inl e)"
  by (simp_all add: bind_op_def return_op_def fun_eq_iff)

lemma bind_op_done:
  "bind_op m f s = (Inr y, t) \<longleftrightarrow> (\<exists>x s'. m s = (Inr x, s') \<and> f x s' = (Inr y, t))"
  by (auto simp: bind_op_def split: prod.splits sum.splits)

text \<open>
  \<open>effect R P m Q\<close>: from a store with \<open>P\<close>, the operation moves the store along \<open>R\<close>, whether it fails
  or not, and a value it ends with satisfies \<open>Q\<close> in the store it leaves.
\<close>

definition effect :: "('s \<Rightarrow> 's \<Rightarrow> bool) \<Rightarrow> ('s \<Rightarrow> bool) \<Rightarrow> ('s, 'e, 'a) store_action \<Rightarrow> ('a \<Rightarrow> 's \<Rightarrow> bool) \<Rightarrow> bool" where
  "effect R P m Q \<longleftrightarrow>
     (\<forall>s. P s \<longrightarrow> R s (snd (m s)) \<and> (\<forall>x. fst (m s) = Inr x \<longrightarrow> Q x (snd (m s))))"

locale store_relation =
  fixes R :: "'s \<Rightarrow> 's \<Rightarrow> bool"
  assumes reflR: "R s s"
    and transR: "R s t \<Longrightarrow> R t u \<Longrightarrow> R s u"
begin

lemma effect_return: "(\<And>s x. P s \<Longrightarrow> r = Inr x \<Longrightarrow> Q x s) \<Longrightarrow> effect R P (return_op r) Q"
  by (simp add: effect_def return_op_def reflR)

lemma effect_bind:
  assumes "effect R P m Q" and "\<And>x. effect R (Q x) (f x) Q'"
  shows "effect R P (bind_op m f) Q'"
  unfolding effect_def
proof (intro allI impI)
  fix s assume s: "P s"
  obtain r s' where m: "m s = (r, s')" by (cases "m s")
  have R: "R s s'" and Q: "\<And>x. r = Inr x \<Longrightarrow> Q x s'"
    using assms(1) s m by (auto simp: effect_def)
  show "R s (snd (bind_op m f s)) \<and> (\<forall>x. fst (bind_op m f s) = Inr x \<longrightarrow> Q' x (snd (bind_op m f s)))"
  proof (cases r)
    case (Inl e)
    then show ?thesis using m R by (simp add: bind_op_def)
  next
    case (Inr x)
    with Q have "Q x s'" by simp
    then have "R s' (snd (f x s')) \<and> (\<forall>y. fst (f x s') = Inr y \<longrightarrow> Q' y (snd (f x s')))"
      using assms(2) by (simp add: effect_def)
    then show ?thesis using transR [OF R] Inr m by (simp add: bind_op_def)
  qed
qed

lemma effect_catch:
  assumes "effect R P m Q" and "\<And>e. effect R (\<lambda>_. True) (h e) Q"
  shows "effect R P (catch_op m h) Q"
  unfolding effect_def
proof (intro allI impI)
  fix s assume s: "P s"
  obtain r s' where m: "m s = (r, s')" by (cases "m s")
  have R: "R s s'" and Q: "\<And>x. r = Inr x \<Longrightarrow> Q x s'"
    using assms(1) s m by (auto simp: effect_def)
  show "R s (snd (catch_op m h s)) \<and> (\<forall>x. fst (catch_op m h s) = Inr x \<longrightarrow> Q x (snd (catch_op m h s)))"
  proof (cases r)
    case (Inl e)
    have "R s' (snd (h e s')) \<and> (\<forall>y. fst (h e s') = Inr y \<longrightarrow> Q y (snd (h e s')))"
      using assms(2) by (simp add: effect_def)
    then show ?thesis using transR [OF R] Inl m by (simp add: catch_op_def)
  next
    case (Inr x)
    then show ?thesis using m R Q by (simp add: catch_op_def)
  qed
qed

lemma effect_weaken:
  "effect R P m Q \<Longrightarrow> (\<And>s. P' s \<Longrightarrow> P s) \<Longrightarrow> (\<And>x s. Q x s \<Longrightarrow> Q' x s) \<Longrightarrow> effect R P' m Q'"
  by (auto simp: effect_def)

lemma effect_if:
  "(c \<Longrightarrow> effect R P m Q) \<Longrightarrow> (\<not> c \<Longrightarrow> effect R P m' Q) \<Longrightarrow> effect R P (if c then m else m') Q"
  by simp

end

end
