(* ===== verification/Channel_Management.thy ===== *)
theory Channel_Management
  imports Channels Agent_Tools JS_Time Effects
begin

text \<open>
  The management of channels: the repository with its log of events
  (\<open>infra/database/repositories/prisma-whatsapp-channel-management.repository.ts\<close>) and the use cases
  over it and the provider's gateway (\<open>application/use-cases/whatsapp/manage-whatsapp-channels.use-case.ts\<close>).
  A transaction that throws leaves the store as it was; ids, times and the answers of the gateway are
  parameters of each call, the digest (SHA-256) is one of the repository.
\<close>

section \<open>Rows\<close>

record managed_channel = channel_snapshot +
  mc_id :: string
  mc_companyId :: string
  mc_providerId :: string
  mc_evolutionInstanceId :: "string option"
  mc_version :: int
  mc_createdAt :: int
  mc_updatedAt :: int

record channel_row = managed_channel +
  cr_createdByUserId :: string
  cr_cancelledAt :: "int option"
  cr_disabledAt :: "int option"

definition toManagedChannel :: "channel_row \<Rightarrow> managed_channel" where
  "toManagedChannel row = managed_channel.truncate (row\<lparr>ch_allowedTargets := sort (ch_allowedTargets row)\<rparr>)"

datatype channel_event_name =
    EN_channel_created | EN_configuration_updated | EN_qr_requested | EN_connection_synchronized
  | EN_disconnected | EN_reconnect_requested | EN_setup_cancelled | EN_operational_channel_disabled
  | EN_provider_operation_failed

record channel_event =
  ev_companyId :: string
  ev_channelId :: string
  ev_commandId :: string
  ev_commandFingerprint :: string
  ev_name :: channel_event_name
  ev_expectedVersion :: int
  ev_resultingVersion :: int
  ev_actorUserId :: string
  ev_beforeSnapshot :: "managed_channel option"
  ev_afterSnapshot :: managed_channel
  ev_metadata :: "(string \<times> string) list"

record provider_row =
  pv_id :: string
  pv_companyId :: string
  pv_name :: string
  pv_evolution :: bool
  pv_baseUrl :: string
  pv_apiKeyHash :: string
  pv_enabled :: bool

datatype gateway_call =
    G_create string string string | G_connect string | G_state string | G_restart string
  | G_disconnect string | G_remove string

text \<open>Departments are pairs of company and id; companies have a legal and perhaps a trade name.\<close>

record channel_store =
  cs_rows :: "channel_row list"
  cs_events :: "channel_event list"
  cs_departments :: "(string \<times> string) list"
  cs_providers :: "provider_row list"
  cs_companies :: "(string \<times> string \<times> string option) list"
  cs_gateway :: "gateway_call list"

section \<open>Operations on the store\<close>

type_synonym 'a op = "(channel_store, failure, 'a) store_action"

section \<open>Fingerprints\<close>

text \<open>A date is given by its text; objects of other prototypes do not occur in commands.\<close>

fun repository_stableJson :: "json \<Rightarrow> string" where
  "repository_stableJson JUnsupported = ''null''"
| "repository_stableJson JNull = ''null''"
| "repository_stableJson (JString s) = quote_json s"
| "repository_stableJson (JBool b) = (if b then ''true'' else ''false'')"
| "repository_stableJson (JNumber x) = (if x = Not_finite then ''null'' else num_text x)"
| "repository_stableJson (JArray vs) = CHR 0x5B # join_comma (map repository_stableJson vs) @ [CHR 0x5D]"
| "repository_stableJson (JObject members) =
     CHR 0x7B # join_comma (map (\<lambda>(key, v). quote_json key @ CHR '':'' # repository_stableJson v)
       (sort_key fst members)) @ [CHR 0x7D]"
| "repository_stableJson JInstance = ''{}''"

definition strip_zeros :: "string \<Rightarrow> string" where
  "strip_zeros s = rev (dropWhile (\<lambda>c. c = CHR ''0'') (rev s))"

text \<open>A version, as a number.\<close>

definition int_number :: "int \<Rightarrow> js_float" where
  "int_number n = (if n = 0 then Finite False ''0'' 1
     else Finite (n < 0) (strip_zeros (nat_text (nat \<bar>n\<bar>))) (int (length (nat_text (nat \<bar>n\<bar>)))))"

definition optional_text :: "string option \<Rightarrow> json" where
  "optional_text v = (case v of None \<Rightarrow> JNull | Some s \<Rightarrow> JString s)"

primrec routing_str :: "routing_mode \<Rightarrow> string" where
  "routing_str RM_department_owned = ''department-owned''"
| "routing_str RM_general_triage = ''general-triage''"

primrec organizational_str :: "organizational_status \<Rightarrow> string" where
  "organizational_str OS_pending = ''pending''"
| "organizational_str OS_active = ''active''"
| "organizational_str OS_cancelled = ''cancelled''"
| "organizational_str OS_disabled = ''disabled''"

primrec connection_str :: "connection_status \<Rightarrow> string" where
  "connection_str CN_unknown = ''unknown''"
| "connection_str CN_connected = ''connected''"
| "connection_str CN_disconnected = ''disconnected''"
| "connection_str CN_connecting = ''connecting''"
| "connection_str CN_error = ''error''"

primrec event_str :: "channel_event_name \<Rightarrow> string" where
  "event_str EN_channel_created = ''channel-created''"
| "event_str EN_configuration_updated = ''configuration-updated''"
| "event_str EN_qr_requested = ''qr-requested''"
| "event_str EN_connection_synchronized = ''connection-synchronized''"
| "event_str EN_disconnected = ''disconnected''"
| "event_str EN_reconnect_requested = ''reconnect-requested''"
| "event_str EN_setup_cancelled = ''setup-cancelled''"
| "event_str EN_operational_channel_disabled = ''operational-channel-disabled''"
| "event_str EN_provider_operation_failed = ''provider-operation-failed''"

text \<open>In a patch, \<open>None\<close> is an absent field.\<close>

record channel_patch =
  cp_agentsEnabled :: "bool option"
  cp_displayName :: "string option"
  cp_departmentId :: "string option option"
  cp_routingMode :: "routing_mode option"
  cp_organizationalStatus :: "organizational_status option"
  cp_connectionStatus :: "connection_status option"
  cp_allowedTargets :: "string list option"
  cp_evolutionInstanceId :: "string option option"
  cp_cancelledAt :: "int option option"
  cp_disabledAt :: "int option option"

definition no_patch :: channel_patch where
  "no_patch = \<lparr>cp_agentsEnabled = None, cp_displayName = None, cp_departmentId = None, cp_routingMode = None,
     cp_organizationalStatus = None, cp_connectionStatus = None, cp_allowedTargets = None,
     cp_evolutionInstanceId = None, cp_cancelledAt = None, cp_disabledAt = None\<rparr>"

definition patch_field :: "string \<Rightarrow> ('a \<Rightarrow> json) \<Rightarrow> 'a option \<Rightarrow> (string \<times> json) list" where
  "patch_field key f v = (case v of None \<Rightarrow> [] | Some x \<Rightarrow> [(key, f x)])"

definition optional_date :: "int option \<Rightarrow> json" where
  "optional_date v = (case v of None \<Rightarrow> JNull | Some t \<Rightarrow> JString (iso_string t))"

definition patch_json :: "channel_patch \<Rightarrow> json" where
  "patch_json p = JObject
     (patch_field ''agentsEnabled'' JBool (cp_agentsEnabled p) @ patch_field ''displayName'' JString (cp_displayName p) @
      patch_field ''departmentId'' optional_text (cp_departmentId p) @
      patch_field ''routingMode'' (\<lambda>m. JString (routing_str m)) (cp_routingMode p) @
      patch_field ''organizationalStatus'' (\<lambda>m. JString (organizational_str m)) (cp_organizationalStatus p) @
      patch_field ''connectionStatus'' (\<lambda>m. JString (connection_str m)) (cp_connectionStatus p) @
      patch_field ''allowedAutomaticTargetDepartmentIds'' (\<lambda>ds. JArray (map JString ds)) (cp_allowedTargets p) @
      patch_field ''evolutionInstanceId'' optional_text (cp_evolutionInstanceId p) @
      patch_field ''cancelledAt'' optional_date (cp_cancelledAt p) @
      patch_field ''disabledAt'' optional_date (cp_disabledAt p))"

record mutate_input =
  mi_companyId :: string
  mi_channelId :: string
  mi_commandId :: string
  mi_expectedVersion :: int
  mi_eventName :: channel_event_name
  mi_actorUserId :: string
  mi_patch :: channel_patch
  mi_metadata :: "(string \<times> string) list"

definition mutate_content :: "mutate_input \<Rightarrow> json" where
  "mutate_content input = JObject [(''operation'', JString (event_str (mi_eventName input))),
     (''channelId'', JString (mi_channelId input)), (''expectedVersion'', JNumber (int_number (mi_expectedVersion input))),
     (''patch'', patch_json (mi_patch input)),
     (''metadata'', JObject (map (\<lambda>(k, v). (k, JString v)) (mi_metadata input)))]"

record create_input =
  ci_companyId :: string
  ci_actorUserId :: string
  ci_commandId :: string
  ci_displayName :: string
  ci_phoneNumber :: string
  ci_evolutionInstanceName :: string
  ci_departmentId :: "string option"
  ci_routingMode :: routing_mode
  ci_agentsEnabled :: bool
  ci_allowedTargets :: "string list"

definition create_content :: "create_input \<Rightarrow> json" where
  "create_content input = JObject [(''operation'', JString ''create-pending-channel''),
     (''companyId'', JString (ci_companyId input)), (''actorUserId'', JString (ci_actorUserId input)),
     (''commandId'', JUnsupported), (''displayName'', JString (ci_displayName input)),
     (''phoneNumber'', JString (ci_phoneNumber input)),
     (''evolutionInstanceName'', JString (ci_evolutionInstanceName input)),
     (''departmentId'', optional_text (ci_departmentId input)),
     (''routingMode'', JString (routing_str (ci_routingMode input))),
     (''agentsEnabled'', JBool (ci_agentsEnabled input)),
     (''allowedAutomaticTargetDepartmentIds'', JArray (map JString (ci_allowedTargets input)))]"

section \<open>The repository\<close>

record repository_env =
  re_digest :: "string \<Rightarrow> string"
  re_webhookSecret :: string
  re_baseUrl :: string
  re_apiKey :: string

definition validateCommandId :: "string \<Rightarrow> string outcome" where
  "validateCommandId v =
     (let commandId = trim v in
      if commandId = [] \<or> length commandId > 120 then invalid ''command-id'' else Inr commandId)"

definition assertDepartments :: "(string \<times> string) list \<Rightarrow> string \<Rightarrow> string list \<Rightarrow> unit outcome" where
  "assertDepartments departments companyId departmentIds =
     (let unique = js_uniq (filter (\<lambda>d. d \<noteq> []) departmentIds) in
      if unique = [] then Inr ()
      else throw_if (length (filter (\<lambda>(c, d). c = companyId \<and> d \<in> set unique) departments) \<noteq> length unique)
        (App_failure (validationError ''department-of-other-tenant'')))"

definition get_channel :: "string \<Rightarrow> string \<Rightarrow> channel_store \<Rightarrow> channel_row option" where
  "get_channel companyId channelId s =
     find (\<lambda>r. mc_id r = channelId \<and> mc_companyId r = companyId) (cs_rows s)"

definition find_event :: "string \<Rightarrow> string \<Rightarrow> channel_store \<Rightarrow> channel_event option" where
  "find_event companyId commandId s =
     find (\<lambda>e. ev_companyId e = companyId \<and> ev_commandId e = commandId) (cs_events s)"

definition app_conflict :: "string \<Rightarrow> 'a outcome" where
  "app_conflict message = Inl (App_failure (conflict message None))"

definition app_notFound :: "string \<Rightarrow> 'a outcome" where
  "app_notFound what = Inl (App_failure (notFound what))"

definition replayed_channel ::
  "string \<Rightarrow> string \<Rightarrow> channel_store \<Rightarrow> (managed_channel \<times> bool) outcome" where
  "replayed_channel companyId channelId s =
     (case get_channel companyId channelId s of None \<Rightarrow> app_notFound ''Canal WhatsApp''
      | Some existing \<Rightarrow> Inr (toManagedChannel existing, True))"

text \<open>References the database enforces: a department of the row is one of its company.\<close>

definition departments_exist :: "channel_store \<Rightarrow> channel_row \<Rightarrow> bool" where
  "departments_exist s row \<longleftrightarrow>
     (\<forall>d\<in>set_option (ch_departmentId row) \<union> set (ch_allowedTargets row).
        (mc_companyId row, d) \<in> set (cs_departments s))"

definition unique_violation :: "channel_store \<Rightarrow> channel_row \<Rightarrow> bool" where
  "unique_violation s row \<longleftrightarrow>
     list_ex (\<lambda>r. mc_id r = mc_id row \<or> ch_phoneNumber r = ch_phoneNumber row \<or>
       (mc_companyId r = mc_companyId row \<and> mc_providerId r = mc_providerId row \<and>
        ch_evolutionInstanceName r = ch_evolutionInstanceName row)) (cs_rows s)"

definition strip_slashes :: "string \<Rightarrow> string" where
  "strip_slashes s = rev (dropWhile (\<lambda>c. c = CHR ''/'') (rev s))"

definition ensure_provider ::
  "repository_env \<Rightarrow> string \<Rightarrow> string \<Rightarrow> channel_store \<Rightarrow> (provider_row \<times> channel_store) outcome" where
  "ensure_provider env newProviderId companyId s =
     (case find (\<lambda>p. pv_companyId p = companyId \<and> pv_enabled p \<and> pv_evolution p) (cs_providers s) of
        Some p \<Rightarrow> Inr (p, s)
      | None \<Rightarrow>
          if list_ex (\<lambda>p. pv_companyId p = companyId \<and> pv_evolution p) (cs_providers s)
          then invalid ''provider-disabled''
          else
            (let baseUrl = strip_slashes (trim (re_baseUrl env)); apiKey = trim (re_apiKey env) in
             if baseUrl = [] \<or> apiKey = [] then invalid ''configuration-missing''
             else case find (\<lambda>p. pv_companyId p = companyId \<and> pv_name p = ''Evolution'') (cs_providers s) of
               Some p \<Rightarrow> Inr (p, s)
             | None \<Rightarrow>
                 let p = \<lparr>pv_id = newProviderId, pv_companyId = companyId, pv_name = ''Evolution'',
                   pv_evolution = True, pv_baseUrl = baseUrl, pv_apiKeyHash = re_digest env apiKey,
                   pv_enabled = True\<rparr>
                 in Inr (p, s\<lparr>cs_providers := cs_providers s @ [p]\<rparr>)))"

record fresh_values =
  fv_channelId :: string
  fv_providerId :: string
  fv_now :: int

definition created_row :: "fresh_values \<Rightarrow> create_input \<Rightarrow> provider_row \<Rightarrow> channel_row" where
  "created_row fresh input provider =
     \<lparr>ch_agentsEnabled = Some (ci_agentsEnabled input), ch_displayName = ci_displayName input,
      ch_phoneNumber = ci_phoneNumber input, ch_evolutionInstanceName = ci_evolutionInstanceName input,
      ch_departmentId = ci_departmentId input, ch_routingMode = ci_routingMode input,
      ch_organizationalStatus = OS_pending, ch_connectionStatus = CN_disconnected,
      ch_allowedTargets = js_uniq (filter (\<lambda>d. d \<noteq> []) (ci_allowedTargets input)),
      mc_id = fv_channelId fresh, mc_companyId = ci_companyId input, mc_providerId = pv_id provider,
      mc_evolutionInstanceId = None, mc_version = 1, mc_createdAt = fv_now fresh, mc_updatedAt = fv_now fresh,
      cr_createdByUserId = ci_actorUserId input, cr_cancelledAt = None, cr_disabledAt = None\<rparr>"

definition created_event ::
  "repository_env \<Rightarrow> string \<Rightarrow> create_input \<Rightarrow> channel_row \<Rightarrow> channel_event" where
  "created_event env commandId input row =
     \<lparr>ev_companyId = ci_companyId input, ev_channelId = mc_id row, ev_commandId = commandId,
      ev_commandFingerprint = re_digest env (repository_stableJson (create_content input)),
      ev_name = EN_channel_created, ev_expectedVersion = 0, ev_resultingVersion = 1,
      ev_actorUserId = ci_actorUserId input, ev_beforeSnapshot = None,
      ev_afterSnapshot = toManagedChannel row,
      ev_metadata = [(''provider'', ''evolution''), (''operationId'', commandId)]\<rparr>"

definition createPending ::
  "repository_env \<Rightarrow> fresh_values \<Rightarrow> create_input \<Rightarrow> (managed_channel \<times> bool) op" where
  "createPending env fresh input s =
     (if length (trim (re_webhookSecret env)) < 32 then (invalid ''webhook-secret'', s)
      else case validateCommandId (ci_commandId input) of Inl e \<Rightarrow> (Inl e, s)
      | Inr commandId \<Rightarrow>
          (case find_event (ci_companyId input) commandId s of
             Some replay \<Rightarrow>
               if ev_commandFingerprint replay \<noteq> re_digest env (repository_stableJson (create_content input))
               then (app_conflict ''command-id-used'', s)
               else (replayed_channel (ci_companyId input) (ev_channelId replay) s, s)
           | None \<Rightarrow>
               (case assertDepartments (cs_departments s) (ci_companyId input)
                   ((case ci_departmentId input of Some d \<Rightarrow> if d \<noteq> [] then [d] else [] | None \<Rightarrow> []) @
                    ci_allowedTargets input) of
                  Inl e \<Rightarrow> (Inl e, s)
                | Inr _ \<Rightarrow>
                    (case ensure_provider env (fv_providerId fresh) (ci_companyId input) s of
                       Inl e \<Rightarrow> (Inl e, s)
                     | Inr (provider, s1) \<Rightarrow>
                         (let row = created_row fresh input provider in
                          if \<not> pv_enabled provider \<or> \<not> pv_evolution provider then (invalid ''provider-review'', s)
                          else if unique_violation s row then (app_conflict ''unique'', s)
                          else if \<not> departments_exist s row then (app_conflict ''reference'', s)
                          else (Inr (toManagedChannel row, False),
                            s1\<lparr>cs_rows := cs_rows s1 @ [row],
                               cs_events := cs_events s1 @ [created_event env commandId input row]\<rparr>))))))"

definition or_keep :: "'a \<Rightarrow> 'a option \<Rightarrow> 'a" where
  "or_keep old new = (case new of None \<Rightarrow> old | Some v \<Rightarrow> v)"

definition patched_row :: "int \<Rightarrow> channel_patch \<Rightarrow> channel_row \<Rightarrow> channel_row" where
  "patched_row now p row = row\<lparr>
     ch_agentsEnabled := (case cp_agentsEnabled p of None \<Rightarrow> ch_agentsEnabled row | Some b \<Rightarrow> Some b),
     ch_displayName := or_keep (ch_displayName row) (cp_displayName p),
     ch_departmentId := or_keep (ch_departmentId row) (cp_departmentId p),
     ch_routingMode := or_keep (ch_routingMode row) (cp_routingMode p),
     ch_organizationalStatus := or_keep (ch_organizationalStatus row) (cp_organizationalStatus p),
     ch_connectionStatus := or_keep (ch_connectionStatus row) (cp_connectionStatus p),
     ch_allowedTargets := (case cp_allowedTargets p of None \<Rightarrow> ch_allowedTargets row | Some ds \<Rightarrow> js_uniq ds),
     mc_evolutionInstanceId := or_keep (mc_evolutionInstanceId row) (cp_evolutionInstanceId p),
     mc_version := mc_version row + 1, mc_updatedAt := now,
     cr_cancelledAt := or_keep (cr_cancelledAt row) (cp_cancelledAt p),
     cr_disabledAt := or_keep (cr_disabledAt row) (cp_disabledAt p)\<rparr>"

text \<open>\<open>commandId.replace(/:(started|provider-ready|provider-failed)$/u, '')\<close>\<close>

definition ends_with :: "string \<Rightarrow> string \<Rightarrow> bool" where
  "ends_with suffix s \<longleftrightarrow> drop (length s - length suffix) s = suffix"

definition operation_id :: "string \<Rightarrow> string" where
  "operation_id commandId =
     (if ends_with '':started'' commandId then take (length commandId - length '':started'') commandId
      else if ends_with '':provider-ready'' commandId then take (length commandId - length '':provider-ready'') commandId
      else if ends_with '':provider-failed'' commandId then take (length commandId - length '':provider-failed'') commandId
      else commandId)"

definition mutate_event ::
  "repository_env \<Rightarrow> string \<Rightarrow> mutate_input \<Rightarrow> channel_row \<Rightarrow> channel_row \<Rightarrow> channel_event" where
  "mutate_event env commandId input before after =
     \<lparr>ev_companyId = mi_companyId input, ev_channelId = mi_channelId input, ev_commandId = commandId,
      ev_commandFingerprint = re_digest env (repository_stableJson (mutate_content input)),
      ev_name = mi_eventName input, ev_expectedVersion = mi_expectedVersion input,
      ev_resultingVersion = mi_expectedVersion input + 1, ev_actorUserId = mi_actorUserId input,
      ev_beforeSnapshot = Some (toManagedChannel before), ev_afterSnapshot = toManagedChannel after,
      ev_metadata = mi_metadata input @ [(''operationId'', operation_id commandId)]\<rparr>"

definition mutate :: "repository_env \<Rightarrow> int \<Rightarrow> mutate_input \<Rightarrow> (managed_channel \<times> bool) op" where
  "mutate env now input s =
     (case validateCommandId (mi_commandId input) of Inl e \<Rightarrow> (Inl e, s)
      | Inr commandId \<Rightarrow>
          (case find_event (mi_companyId input) commandId s of
             Some replay \<Rightarrow>
               if ev_channelId replay \<noteq> mi_channelId input \<or>
                 ev_commandFingerprint replay \<noteq> re_digest env (repository_stableJson (mutate_content input))
               then (app_conflict ''command-id-used'', s)
               else (replayed_channel (mi_companyId input) (mi_channelId input) s, s)
           | None \<Rightarrow>
               (case get_channel (mi_companyId input) (mi_channelId input) s of
                  None \<Rightarrow> (app_notFound ''Canal WhatsApp'', s)
                | Some before \<Rightarrow>
                    if mc_version before \<noteq> mi_expectedVersion input then (app_conflict ''channel-updated-elsewhere'', s)
                    else
                      (let p = mi_patch input;
                           targetIds = or_keep (ch_allowedTargets before) (cp_allowedTargets p);
                           owner = (case cp_departmentId p of
                               Some (Some d) \<Rightarrow> if d \<noteq> [] then [d] else []
                             | Some None \<Rightarrow> []
                             | None \<Rightarrow> (case ch_departmentId before of Some d \<Rightarrow> if d \<noteq> [] then [d] else [] | None \<Rightarrow> []));
                           matches = (\<lambda>r. mc_id r = mi_channelId input \<and> mc_companyId r = mi_companyId input \<and>
                             mc_version r = mi_expectedVersion input);
                           after = patched_row now p before
                       in case assertDepartments (cs_departments s) (mi_companyId input) (owner @ targetIds) of
                            Inl e \<Rightarrow> (Inl e, s)
                          | Inr _ \<Rightarrow>
                              if length (filter matches (cs_rows s)) \<noteq> 1
                              then (app_conflict ''channel-updated-elsewhere'', s)
                              else if \<not> departments_exist s after then (app_conflict ''reference'', s)
                              else (Inr (toManagedChannel after, False),
                                s\<lparr>cs_rows := map (\<lambda>r. if matches r then patched_row now p r else r) (cs_rows s),
                                  cs_events := cs_events s @ [mutate_event env commandId input before after]\<rparr>)))))"

section \<open>The provider's gateway\<close>

datatype provider_state = PS_connected | PS_connecting | PS_disconnected | PS_error

record instance_snapshot =
  in_instanceId :: "string option"
  in_connectionState :: provider_state
  in_qrCode :: "(string option \<times> string) option"

text \<open>The answers of the gateway to the calls of one command.\<close>

record gateway_answers =
  ga_create :: "instance_snapshot outcome"
  ga_connect :: "instance_snapshot outcome"
  ga_state :: "provider_state outcome"
  ga_restart :: "unit outcome"
  ga_disconnect :: "unit outcome"
  ga_remove :: "unit outcome"

definition gateway :: "gateway_call \<Rightarrow> 'a outcome \<Rightarrow> 'a op" where
  "gateway call answer s = (answer, s\<lparr>cs_gateway := cs_gateway s @ [call]\<rparr>)"

primrec connection_of :: "provider_state \<Rightarrow> connection_status" where
  "connection_of PS_connected = CN_connected"
| "connection_of PS_connecting = CN_connecting"
| "connection_of PS_disconnected = CN_disconnected"
| "connection_of PS_error = CN_error"

text \<open>Only errors of the gateway are issues of the provider; others go on.\<close>

definition providerIssue :: "failure \<Rightarrow> provider_reason outcome" where
  "providerIssue e = (case e of Provider_failure reason \<Rightarrow> Inr reason | _ \<Rightarrow> Inl e)"

primrec reason_str :: "provider_reason \<Rightarrow> string" where
  "reason_str PR_invalid_configuration = ''invalid-configuration''"
| "reason_str PR_invalid_request = ''invalid-request''"
| "reason_str PR_already_exists = ''already-exists''"
| "reason_str PR_not_found = ''not-found''"
| "reason_str PR_provider_rejected = ''provider-rejected''"
| "reason_str PR_provider_unavailable = ''provider-unavailable''"
| "reason_str PR_timeout = ''timeout''"
| "reason_str PR_invalid_response = ''invalid-response''"

section \<open>Use cases\<close>

record operation_result =
  or_channel :: managed_channel
  or_qrCode :: "(string option \<times> string) option"
  or_providerIssue :: "provider_reason option"
  or_cleanupPending :: "bool option"

definition operation_result_of ::
  "managed_channel \<Rightarrow> (string option \<times> string) option \<Rightarrow> provider_reason option \<Rightarrow> operation_result" where
  "operation_result_of channel qr reason =
     \<lparr>or_channel = channel, or_qrCode = qr, or_providerIssue = reason, or_cleanupPending = None\<rparr>"

definition mutationCommand :: "string \<Rightarrow> string \<Rightarrow> string outcome" where
  "mutationCommand commandId step =
     (let v = commandId @ '':'' @ step in if length v > 120 then invalid ''command-id-too-long'' else Inr v)"

definition required :: "string \<Rightarrow> string \<Rightarrow> managed_channel op" where
  "required companyId channelId s =
     (case get_channel companyId channelId s of None \<Rightarrow> (app_notFound ''Canal WhatsApp'', s)
      | Some row \<Rightarrow> (Inr (toManagedChannel row), s))"

definition synchronizeProviderState ::
  "managed_channel \<Rightarrow> provider_state \<Rightarrow> bool \<Rightarrow> managed_channel outcome" where
  "synchronizeProviderState current providerState isAdministrator =
     (if providerState = PS_connected then evolveChannelStatus current CA_connected isAdministrator
      else if providerState = PS_disconnected then evolveChannelStatus current CA_disconnected isAdministrator
      else Inr (current\<lparr>ch_connectionStatus := connection_of providerState\<rparr>))"

record channel_command =
  vc_companyId :: string
  vc_channelId :: string
  vc_actorUserId :: string
  vc_commandId :: string
  vc_expectedVersion :: int
  vc_isAdministrator :: bool
  vc_now :: int

definition command_mutation ::
  "repository_env \<Rightarrow> channel_command \<Rightarrow> string \<Rightarrow> int \<Rightarrow> channel_event_name \<Rightarrow> channel_patch \<Rightarrow>
   (string \<times> string) list \<Rightarrow> managed_channel op" where
  "command_mutation env input commandId expectedVersion event patch metadata =
     bind_op (mutate env (vc_now input) \<lparr>mi_companyId = vc_companyId input, mi_channelId = vc_channelId input,
         mi_commandId = commandId, mi_expectedVersion = expectedVersion, mi_eventName = event,
         mi_actorUserId = vc_actorUserId input, mi_patch = patch, mi_metadata = metadata\<rparr>)
       (\<lambda>(channel, replayed). return_op (Inr channel))"

definition recordProviderFailure ::
  "repository_env \<Rightarrow> channel_command \<Rightarrow> int \<Rightarrow> failure \<Rightarrow> operation_result op" where
  "recordProviderFailure env input expectedVersion e =
     bind_op (return_op (providerIssue e)) (\<lambda>reason.
     bind_op (return_op (mutationCommand (vc_commandId input) ''provider-failed'')) (\<lambda>commandId.
     bind_op (command_mutation env input commandId expectedVersion EN_provider_operation_failed
         (no_patch\<lparr>cp_connectionStatus := Some CN_error\<rparr>) [(''reason'', reason_str reason)]) (\<lambda>channel.
     return_op (Inr (operation_result_of channel None (Some reason))))))"

definition status_patch :: "managed_channel \<Rightarrow> channel_patch" where
  "status_patch c = no_patch\<lparr>cp_organizationalStatus := Some (ch_organizationalStatus c),
     cp_connectionStatus := Some (ch_connectionStatus c)\<rparr>"

definition ready_patch :: "managed_channel \<Rightarrow> string option \<Rightarrow> channel_patch" where
  "ready_patch c instanceId = (status_patch c)\<lparr>cp_evolutionInstanceId :=
     (if falsy instanceId then None else Some instanceId)\<rparr>"

definition updateConfiguration ::
  "repository_env \<Rightarrow> channel_command \<Rightarrow> string \<Rightarrow> string option \<Rightarrow> routing_mode \<Rightarrow> bool option \<Rightarrow> string list \<Rightarrow>
   managed_channel op" where
  "updateConfiguration env input displayName departmentId routingMode agentsEnabled allowedTargets =
     bind_op (required (vc_companyId input) (vc_channelId input)) (\<lambda>current.
     bind_op (return_op (validateChannelConfiguration (current\<lparr>
         ch_agentsEnabled := Some (case agentsEnabled of Some b \<Rightarrow> b
           | None \<Rightarrow> (case ch_agentsEnabled current of Some b \<Rightarrow> b | None \<Rightarrow> True)),
         ch_displayName := displayName, ch_departmentId := departmentId, ch_routingMode := routingMode,
         ch_allowedTargets := allowedTargets\<rparr>))) (\<lambda>next.
     command_mutation env input (vc_commandId input) (vc_expectedVersion input) EN_configuration_updated
       (no_patch\<lparr>cp_displayName := Some (ch_displayName next), cp_agentsEnabled := ch_agentsEnabled next,
          cp_departmentId := Some (ch_departmentId next), cp_routingMode := Some (ch_routingMode next),
          cp_allowedTargets := Some (ch_allowedTargets next)\<rparr>) []))"

definition synchronizeConnection ::
  "repository_env \<Rightarrow> gateway_answers \<Rightarrow> channel_command \<Rightarrow> operation_result op" where
  "synchronizeConnection env answers input =
     bind_op (required (vc_companyId input) (vc_channelId input)) (\<lambda>current.
     catch_op
       (bind_op (gateway (G_state (ch_evolutionInstanceName current)) (ga_state answers)) (\<lambda>providerState.
        bind_op (return_op (synchronizeProviderState current providerState (vc_isAdministrator input))) (\<lambda>snapshot.
        bind_op (command_mutation env input (vc_commandId input) (vc_expectedVersion input)
            EN_connection_synchronized (status_patch snapshot) []) (\<lambda>channel.
        return_op (Inr (operation_result_of channel None None))))))
       (recordProviderFailure env input (vc_expectedVersion input)))"

definition disconnect ::
  "repository_env \<Rightarrow> gateway_answers \<Rightarrow> channel_command \<Rightarrow> operation_result op" where
  "disconnect env answers input =
     bind_op (required (vc_companyId input) (vc_channelId input)) (\<lambda>current.
     catch_op
       (bind_op (gateway (G_disconnect (ch_evolutionInstanceName current)) (ga_disconnect answers)) (\<lambda>_.
        bind_op (return_op (evolveChannelStatus current CA_disconnected (vc_isAdministrator input))) (\<lambda>snapshot.
        bind_op (command_mutation env input (vc_commandId input) (vc_expectedVersion input) EN_disconnected
            (no_patch\<lparr>cp_connectionStatus := Some (ch_connectionStatus snapshot)\<rparr>) []) (\<lambda>channel.
        return_op (Inr (operation_result_of channel None None))))))
       (recordProviderFailure env input (vc_expectedVersion input)))"

definition cancelSetup ::
  "repository_env \<Rightarrow> gateway_answers \<Rightarrow> channel_command \<Rightarrow> operation_result op" where
  "cancelSetup env answers input =
     bind_op (required (vc_companyId input) (vc_channelId input)) (\<lambda>current.
     bind_op (return_op (evolveChannelStatus current CA_cancel_pending (vc_isAdministrator input))) (\<lambda>snapshot.
     bind_op (command_mutation env input (vc_commandId input) (vc_expectedVersion input) EN_setup_cancelled
         ((status_patch snapshot)\<lparr>cp_cancelledAt := Some (Some (vc_now input))\<rparr>) []) (\<lambda>cancelled.
     catch_op
       (bind_op (gateway (G_remove (ch_evolutionInstanceName current)) (ga_remove answers)) (\<lambda>_.
        return_op (Inr ((operation_result_of cancelled None None)\<lparr>or_cleanupPending := Some False\<rparr>))))
       (\<lambda>e. bind_op (return_op (providerIssue e)) (\<lambda>reason.
        return_op (Inr ((operation_result_of cancelled None (Some reason))\<lparr>or_cleanupPending := Some True\<rparr>)))))))"

definition disable ::
  "repository_env \<Rightarrow> gateway_answers \<Rightarrow> channel_command \<Rightarrow> operation_result op" where
  "disable env answers input =
     bind_op (required (vc_companyId input) (vc_channelId input)) (\<lambda>current.
     bind_op (return_op (evolveChannelStatus current CA_disable_operational (vc_isAdministrator input))) (\<lambda>snapshot.
     bind_op (command_mutation env input (vc_commandId input) (vc_expectedVersion input)
         EN_operational_channel_disabled
         (no_patch\<lparr>cp_organizationalStatus := Some (ch_organizationalStatus snapshot),
            cp_disabledAt := Some (Some (vc_now input))\<rparr>) []) (\<lambda>disabled.
     catch_op
       (bind_op (gateway (G_disconnect (ch_evolutionInstanceName current)) (ga_disconnect answers)) (\<lambda>_.
        return_op (Inr (operation_result_of disabled None None))))
       (\<lambda>e. bind_op (return_op (providerIssue e)) (\<lambda>reason.
        return_op (Inr (operation_result_of disabled None (Some reason))))))))"

definition connect ::
  "repository_env \<Rightarrow> gateway_answers \<Rightarrow> channel_command \<Rightarrow> channel_event_name \<Rightarrow> bool \<Rightarrow> operation_result op" where
  "connect env answers input eventName restart =
     bind_op (required (vc_companyId input) (vc_channelId input)) (\<lambda>current.
     bind_op (return_op (evolveChannelStatus current CA_request_qr (vc_isAdministrator input))) (\<lambda>connecting.
     bind_op (return_op (mutationCommand (vc_commandId input) ''started'')) (\<lambda>startedId.
     bind_op (command_mutation env input startedId (vc_expectedVersion input) eventName
         (no_patch\<lparr>cp_connectionStatus := Some (ch_connectionStatus connecting)\<rparr>) []) (\<lambda>started.
     catch_op
       (bind_op (if restart then gateway (G_restart (ch_evolutionInstanceName current)) (ga_restart answers)
          else return_op (Inr ())) (\<lambda>_.
        bind_op (gateway (G_connect (ch_evolutionInstanceName current)) (ga_connect answers)) (\<lambda>provider.
        bind_op (return_op (synchronizeProviderState started (in_connectionState provider) (vc_isAdministrator input)))
          (\<lambda>snapshot.
        bind_op (return_op (mutationCommand (vc_commandId input) ''provider-ready'')) (\<lambda>readyId.
        bind_op (command_mutation env input readyId (mc_version started) EN_connection_synchronized
            (ready_patch snapshot (in_instanceId provider)) []) (\<lambda>synchronized.
        return_op (Inr (operation_result_of synchronized (in_qrCode provider) None))))))))
       (recordProviderFailure env input (mc_version started))))))"

definition requestQr :: "repository_env \<Rightarrow> gateway_answers \<Rightarrow> channel_command \<Rightarrow> operation_result op" where
  "requestQr env answers input = connect env answers input EN_qr_requested False"

definition reconnect :: "repository_env \<Rightarrow> gateway_answers \<Rightarrow> channel_command \<Rightarrow> operation_result op" where
  "reconnect env answers input = connect env answers input EN_reconnect_requested True"

text \<open>The pairing view reads the state of the provider and writes nothing.\<close>

definition pairing ::
  "gateway_answers \<Rightarrow> string \<Rightarrow> string \<Rightarrow>
   (managed_channel \<times> connection_status \<times> (string option \<times> string) option \<times> provider_reason option) op" where
  "pairing answers companyId channelId =
     bind_op (required companyId channelId) (\<lambda>channel.
     if ch_organizationalStatus channel = OS_cancelled \<or> ch_organizationalStatus channel = OS_disabled
     then return_op (invalid ''channel-not-available'')
     else catch_op
       (bind_op (gateway (G_state (ch_evolutionInstanceName channel)) (ga_state answers)) (\<lambda>state.
        if state = PS_connected then return_op (Inr (channel, connection_of state, None, None))
        else bind_op (gateway (G_connect (ch_evolutionInstanceName channel)) (ga_connect answers)) (\<lambda>provider.
          return_op (Inr (channel, connection_of (in_connectionState provider), in_qrCode provider, None)))))
       (\<lambda>e. bind_op (return_op (providerIssue e)) (\<lambda>reason.
        return_op (Inr (channel, CN_error, None, Some reason)))))"

section \<open>Creation\<close>

text \<open>\<open>new URL(base).protocol\<close> is the parameter \<open>protocol\<close>, with \<open>None\<close> where the text does not parse;
  a channel id is a UUID, which \<open>encodeURIComponent\<close> leaves as it is.\<close>

definition webhookUrl :: "(string \<Rightarrow> string option) \<Rightarrow> string \<Rightarrow> string \<Rightarrow> string outcome" where
  "webhookUrl protocol publicApiBaseUrl channelId =
     (let base = strip_slashes (trim publicApiBaseUrl) in
      if protocol base \<in> {Some ''http:'', Some ''https:''}
      then Inr (base @ ''/webhooks/evolution/'' @ channelId) else invalid ''public-url'')"

definition getTenantTechnicalName :: "string \<Rightarrow> string op" where
  "getTenantTechnicalName companyId s =
     (case map_of (cs_companies s) companyId of
        None \<Rightarrow> (app_notFound ''Tenant'', s)
      | Some (legalName, tradeName) \<Rightarrow>
          (Inr (case trim_or_null tradeName of Some t \<Rightarrow> t | None \<Rightarrow> legalName), s))"

record creation_request =
  cq_companyId :: string
  cq_actorUserId :: string
  cq_commandId :: string
  cq_displayName :: string
  cq_phoneNumber :: string
  cq_departmentId :: "string option"
  cq_routingMode :: routing_mode
  cq_agentsEnabled :: "bool option"
  cq_allowedTargets :: "string list"

definition creation_command :: "creation_request \<Rightarrow> int \<Rightarrow> string \<Rightarrow> channel_command" where
  "creation_command input now channelId =
     \<lparr>vc_companyId = cq_companyId input, vc_channelId = channelId, vc_actorUserId = cq_actorUserId input,
      vc_commandId = cq_commandId input, vc_expectedVersion = 0, vc_isAdministrator = False, vc_now = now\<rparr>"

definition requested_snapshot :: "creation_request \<Rightarrow> string \<Rightarrow> channel_snapshot" where
  "requested_snapshot input instanceName =
     \<lparr>ch_agentsEnabled = Some (case cq_agentsEnabled input of Some b \<Rightarrow> b | None \<Rightarrow> True),
      ch_displayName = cq_displayName input, ch_phoneNumber = cq_phoneNumber input,
      ch_evolutionInstanceName = instanceName, ch_departmentId = cq_departmentId input,
      ch_routingMode = cq_routingMode input, ch_organizationalStatus = OS_pending,
      ch_connectionStatus = CN_disconnected, ch_allowedTargets = cq_allowedTargets input\<rparr>"

definition create_input_of :: "creation_request \<Rightarrow> channel_snapshot \<Rightarrow> create_input" where
  "create_input_of input configuration =
     \<lparr>ci_companyId = cq_companyId input, ci_actorUserId = cq_actorUserId input, ci_commandId = cq_commandId input,
      ci_displayName = ch_displayName configuration, ci_phoneNumber = ch_phoneNumber configuration,
      ci_evolutionInstanceName = ch_evolutionInstanceName configuration,
      ci_departmentId = ch_departmentId configuration, ci_routingMode = ch_routingMode configuration,
      ci_agentsEnabled = (ch_agentsEnabled configuration = Some True),
      ci_allowedTargets = ch_allowedTargets configuration\<rparr>"

definition createChannel ::
  "repository_env \<Rightarrow> (string \<Rightarrow> string option) \<Rightarrow> string \<Rightarrow> fresh_values \<Rightarrow> gateway_answers \<Rightarrow> creation_request \<Rightarrow>
   operation_result op" where
  "createChannel env protocol publicApiBaseUrl fresh answers input =
     bind_op (return_op (webhookUrl protocol publicApiBaseUrl ''configuration-check'')) (\<lambda>_.
     bind_op (getTenantTechnicalName (cq_companyId input)) (\<lambda>tenantName.
     bind_op (return_op (createEvolutionInstanceName tenantName (cq_displayName input))) (\<lambda>instanceName.
     bind_op (return_op (validateChannelConfiguration (requested_snapshot input instanceName))) (\<lambda>configuration.
     bind_op (createPending env fresh (create_input_of input configuration)) (\<lambda>(channel, replayed).
     catch_op
       (bind_op (if replayed then gateway (G_connect instanceName) (ga_connect answers)
          else bind_op (return_op (webhookUrl protocol publicApiBaseUrl (mc_id channel))) (\<lambda>url.
            gateway (G_create instanceName (ch_phoneNumber configuration) url) (ga_create answers))) (\<lambda>provider.
        bind_op (return_op (synchronizeProviderState channel (in_connectionState provider) False)) (\<lambda>snapshot.
        bind_op (return_op (mutationCommand (cq_commandId input) ''provider-ready'')) (\<lambda>readyId.
        bind_op (command_mutation env (creation_command input (fv_now fresh) (mc_id channel)) readyId (mc_version channel)
            EN_qr_requested (ready_patch snapshot (in_instanceId provider)) [(''provider'', ''evolution'')]) (\<lambda>result.
        return_op (Inr (operation_result_of result (in_qrCode provider) None)))))))
       (recordProviderFailure env (creation_command input (fv_now fresh) (mc_id channel)) (mc_version channel)))))))"

section \<open>Commands\<close>

datatype managed_command =
    MC_create fresh_values gateway_answers creation_request
  | MC_update channel_command string "string option" routing_mode "bool option" "string list"
  | MC_request_qr gateway_answers channel_command
  | MC_reconnect gateway_answers channel_command
  | MC_synchronize gateway_answers channel_command
  | MC_disconnect gateway_answers channel_command
  | MC_cancel_setup gateway_answers channel_command
  | MC_disable gateway_answers channel_command

text \<open>The store after a command, accepted or refused.\<close>

definition managed_step ::
  "repository_env \<Rightarrow> (string \<Rightarrow> string option) \<Rightarrow> string \<Rightarrow> managed_command \<Rightarrow> channel_store \<Rightarrow> channel_store" where
  "managed_step env protocol url command = (case command of
       MC_create fresh answers input \<Rightarrow> store_after (createChannel env protocol url fresh answers input)
     | MC_update input name dept mode agents targets \<Rightarrow>
         store_after (updateConfiguration env input name dept mode agents targets)
     | MC_request_qr answers input \<Rightarrow> store_after (requestQr env answers input)
     | MC_reconnect answers input \<Rightarrow> store_after (reconnect env answers input)
     | MC_synchronize answers input \<Rightarrow> store_after (synchronizeConnection env answers input)
     | MC_disconnect answers input \<Rightarrow> store_after (disconnect env answers input)
     | MC_cancel_setup answers input \<Rightarrow> store_after (cancelSetup env answers input)
     | MC_disable answers input \<Rightarrow> store_after (disable env answers input))"

definition managed_run ::
  "repository_env \<Rightarrow> (string \<Rightarrow> string option) \<Rightarrow> string \<Rightarrow> managed_command list \<Rightarrow> channel_store \<Rightarrow> channel_store" where
  "managed_run env protocol url commands s = fold (managed_step env protocol url) commands s"

section \<open>How the store moves\<close>

text \<open>The life cycle: a pending channel is activated or cancelled, an active one disabled.\<close>

definition status_moves :: "organizational_status \<Rightarrow> organizational_status \<Rightarrow> bool" where
  "status_moves a b \<longleftrightarrow> a = b \<or> a = OS_pending \<or> (a = OS_active \<and> b = OS_disabled)"

definition row_moves :: "channel_row \<Rightarrow> channel_row \<Rightarrow> bool" where
  "row_moves r r' \<longleftrightarrow> mc_id r' = mc_id r \<and> mc_companyId r' = mc_companyId r \<and> mc_providerId r' = mc_providerId r \<and>
     ch_phoneNumber r' = ch_phoneNumber r \<and> ch_evolutionInstanceName r' = ch_evolutionInstanceName r \<and>
     mc_version r \<le> mc_version r' \<and>
     status_moves (ch_organizationalStatus r) (ch_organizationalStatus r')"

definition rows_move :: "channel_store \<Rightarrow> channel_store \<Rightarrow> bool" where
  "rows_move s s' \<longleftrightarrow> cs_departments s' = cs_departments s \<and>
     length (cs_rows s) \<le> length (cs_rows s') \<and>
     (\<forall>i<length (cs_rows s). row_moves (cs_rows s ! i) (cs_rows s' ! i)) \<and>
     (\<exists>es. cs_events s' = cs_events s @ es)"

definition row_ok :: "channel_store \<Rightarrow> channel_row \<Rightarrow> bool" where
  "row_ok s r \<longleftrightarrow> departments_exist s r \<and> ch_displayName r \<noteq> [] \<and> length (ch_displayName r) \<le> 80 \<and>
     (ch_routingMode r = RM_department_owned \<longrightarrow> ch_departmentId r \<noteq> None) \<and> 1 \<le> mc_version r \<and>
     map ev_resultingVersion (filter (\<lambda>e. ev_channelId e = mc_id r) (cs_events s)) = [1..mc_version r]"

definition channel_store_ok :: "channel_store \<Rightarrow> bool" where
  "channel_store_ok s \<longleftrightarrow> distinct (map mc_id (cs_rows s)) \<and> distinct (map ch_phoneNumber (cs_rows s)) \<and>
     distinct (map (\<lambda>e. (ev_companyId e, ev_commandId e)) (cs_events s)) \<and>
     ev_channelId ` set (cs_events s) \<subseteq> mc_id ` set (cs_rows s) \<and> (\<forall>r\<in>set (cs_rows s). row_ok s r)"

definition store_moves :: "channel_store \<Rightarrow> channel_store \<Rightarrow> bool" where
  "store_moves s s' \<longleftrightarrow> rows_move s s' \<and> (channel_store_ok s \<longrightarrow> channel_store_ok s')"

lemma status_moves_refl [simp]: "status_moves a a"
  by (simp add: status_moves_def)

lemma status_moves_trans: "status_moves a b \<Longrightarrow> status_moves b c \<Longrightarrow> status_moves a c"
  by (auto simp: status_moves_def)

lemma row_moves_refl [simp]: "row_moves r r"
  by (simp add: row_moves_def)

lemma row_moves_trans: "row_moves a b \<Longrightarrow> row_moves b c \<Longrightarrow> row_moves a c"
  unfolding row_moves_def using status_moves_trans by fastforce

lemma rows_move_trans:
  assumes "rows_move s t" and "rows_move t u"
  shows "rows_move s u"
proof -
  have "row_moves (cs_rows s ! i) (cs_rows u ! i)" if "i < length (cs_rows s)" for i
    using assms that unfolding rows_move_def by (meson less_le_trans row_moves_trans)
  then show ?thesis using assms unfolding rows_move_def by auto
qed

interpretation channels: store_relation store_moves
proof
  show "store_moves s s" for s by (simp add: store_moves_def rows_move_def)
  show "store_moves s t \<Longrightarrow> store_moves t u \<Longrightarrow> store_moves s u" for s t u
    unfolding store_moves_def using rows_move_trans by blast
qed

section \<open>The primitive operations\<close>

lemma get_channel_Some:
  "get_channel companyId channelId s = Some r \<Longrightarrow> r \<in> set (cs_rows s) \<and> mc_id r = channelId \<and> mc_companyId r = companyId"
  by (auto simp: get_channel_def find_Some_iff)

lemma find_event_None:
  "find_event companyId commandId s = None \<longleftrightarrow>
     (companyId, commandId) \<notin> set (map (\<lambda>e. (ev_companyId e, ev_commandId e)) (cs_events s))"
  by (auto simp: find_event_def find_None_iff)

lemma gateway_ok [simp]:
  "channel_store_ok (s\<lparr>cs_gateway := g\<rparr>) = channel_store_ok s" "rows_move s (s\<lparr>cs_gateway := g\<rparr>)"
  "get_channel c i (s\<lparr>cs_gateway := g\<rparr>) = get_channel c i s"
  by (simp_all add: channel_store_ok_def row_ok_def departments_exist_def rows_move_def get_channel_def)

definition has_status :: "string \<Rightarrow> string \<Rightarrow> organizational_status \<Rightarrow> channel_store \<Rightarrow> bool" where
  "has_status companyId channelId st s \<longleftrightarrow>
     (\<forall>r. get_channel companyId channelId s = Some r \<longrightarrow> ch_organizationalStatus r = st)"

lemma effect_gateway:
  "effect store_moves (has_status c i st) (gateway call answer) (\<lambda>_. has_status c i st)"
  by (simp add: effect_def gateway_def store_moves_def has_status_def)

lemma toManagedChannel_fields [simp]:
  "ch_organizationalStatus (toManagedChannel r) = ch_organizationalStatus r"
  "mc_version (toManagedChannel r) = mc_version r" "mc_id (toManagedChannel r) = mc_id r"
  "ch_evolutionInstanceName (toManagedChannel r) = ch_evolutionInstanceName r"
  "ch_connectionStatus (toManagedChannel r) = ch_connectionStatus r"
  "ch_departmentId (toManagedChannel r) = ch_departmentId r"
  "ch_routingMode (toManagedChannel r) = ch_routingMode r"
  by (simp_all add: toManagedChannel_def managed_channel.truncate_def)

lemma effect_required:
  "effect store_moves P (required companyId channelId)
     (\<lambda>c s. has_status companyId channelId (ch_organizationalStatus c) s)"
  by (auto simp: effect_def required_def has_status_def app_notFound_def channels.reflR split: option.split)

definition patch_ok :: "channel_patch \<Rightarrow> bool" where
  "patch_ok p \<longleftrightarrow>
     (case cp_displayName p of None \<Rightarrow> True | Some n \<Rightarrow> n \<noteq> [] \<and> length n \<le> 80) \<and>
     (case cp_departmentId p of None \<Rightarrow> cp_routingMode p = None
      | Some d \<Rightarrow> (case cp_routingMode p of None \<Rightarrow> False | Some m \<Rightarrow> m = RM_department_owned \<longrightarrow> d \<noteq> None))"

text \<open>What an accepted mutation does, beside a replay.\<close>

lemma mutate_cases:
  assumes "mutate env now input s = (r, s')"
  obtains "s' = s" and "\<And>c b. r = Inr (c, b) \<Longrightarrow> b \<and>
      (\<exists>row. get_channel (mi_companyId input) (mi_channelId input) s = Some row \<and> c = toManagedChannel row)"
  | commandId before where "r = Inr (toManagedChannel (patched_row now (mi_patch input) before), False)"
    and "get_channel (mi_companyId input) (mi_channelId input) s = Some before"
    and "mc_version before = mi_expectedVersion input"
    and "departments_exist s (patched_row now (mi_patch input) before)"
    and "(mi_companyId input, commandId) \<notin> set (map (\<lambda>e. (ev_companyId e, ev_commandId e)) (cs_events s))"
    and "s' = s\<lparr>cs_rows := map (\<lambda>r. if mc_id r = mi_channelId input \<and> mc_companyId r = mi_companyId input \<and>
        mc_version r = mi_expectedVersion input then patched_row now (mi_patch input) r else r) (cs_rows s),
      cs_events := cs_events s @ [mutate_event env commandId input before (patched_row now (mi_patch input) before)]\<rparr>"
    and "length (filter (\<lambda>r. mc_id r = mi_channelId input \<and> mc_companyId r = mi_companyId input \<and>
        mc_version r = mi_expectedVersion input) (cs_rows s)) = 1"
    and "validateCommandId (mi_commandId input) = Inr commandId"
proof (cases "validateCommandId (mi_commandId input)")
  case (Inl e)
  then show thesis using assms that(1) by (auto simp: mutate_def)
next
  case v: (Inr commandId)
  show thesis
  proof (cases "find_event (mi_companyId input) commandId s")
    case (Some replay)
    then show thesis using assms that(1) v
      by (auto simp: mutate_def replayed_channel_def app_conflict_def app_notFound_def split: if_splits option.splits)
  next
    case f: None
    show thesis
    proof (cases "get_channel (mi_companyId input) (mi_channelId input) s")
      case None
      then show thesis using assms that(1) v f by (auto simp: mutate_def app_notFound_def)
    next
      case (Some before)
      show thesis
      proof (cases "mc_version before = mi_expectedVersion input")
        case False
        then show thesis using assms that(1) v f Some by (auto simp: mutate_def app_conflict_def)
      next
        case ver: True
        define dep where "dep = assertDepartments (cs_departments s) (mi_companyId input)
          ((case cp_departmentId (mi_patch input) of
               Some (Some d) \<Rightarrow> if d \<noteq> [] then [d] else [] | Some None \<Rightarrow> []
             | None \<Rightarrow> (case ch_departmentId before of Some d \<Rightarrow> if d \<noteq> [] then [d] else [] | None \<Rightarrow> [])) @
           or_keep (ch_allowedTargets before) (cp_allowedTargets (mi_patch input)))"
        define one where "one = (length (filter (\<lambda>r. mc_id r = mi_channelId input \<and> mc_companyId r = mi_companyId input \<and>
          mc_version r = mi_expectedVersion input) (cs_rows s)) = 1)"
        define after where "after = patched_row now (mi_patch input) before"
        have m: "mutate env now input s = (case dep of Inl e \<Rightarrow> (Inl e, s) | Inr _ \<Rightarrow>
            if \<not> one then (app_conflict ''channel-updated-elsewhere'', s)
            else if \<not> departments_exist s after then (app_conflict ''reference'', s)
            else (Inr (toManagedChannel after, False),
              s\<lparr>cs_rows := map (\<lambda>r. if mc_id r = mi_channelId input \<and> mc_companyId r = mi_companyId input \<and>
                  mc_version r = mi_expectedVersion input then patched_row now (mi_patch input) r else r) (cs_rows s),
                cs_events := cs_events s @ [mutate_event env commandId input before after]\<rparr>))"
          unfolding mutate_def v sum.case f option.case Some Let_def dep_def one_def after_def
          using ver by (simp only: if_False simp_thms)
        show thesis
        proof (cases "\<exists>u. dep = Inr u \<and> one \<and> departments_exist s after")
          case True
          then have "r = Inr (toManagedChannel after, False)"
            and "s' = s\<lparr>cs_rows := map (\<lambda>r. if mc_id r = mi_channelId input \<and> mc_companyId r = mi_companyId input \<and>
                  mc_version r = mi_expectedVersion input then patched_row now (mi_patch input) r else r) (cs_rows s),
                cs_events := cs_events s @ [mutate_event env commandId input before after]\<rparr>"
            using assms unfolding m by auto
          then show thesis using that(2) Some ver True f v unfolding after_def one_def find_event_None by blast
        next
          case False
          then show thesis using assms that(1) unfolding m by (auto simp: app_conflict_def split: sum.splits if_splits)
        qed
      qed
    qed
  qed
qed


lemma only_match:
  assumes "length (filter P xs) = 1" and "x \<in> set xs" and "P x" and "y \<in> set xs" and "P y"
  shows "x = y"
proof -
  obtain z where "filter P xs = [z]" using assms(1) by (metis One_nat_def length_0_conv length_Suc_conv)
  then have "set (filter P xs) = {z}" by simp
  moreover have "x \<in> set (filter P xs)" "y \<in> set (filter P xs)" using assms(2-) by simp_all
  ultimately show ?thesis by auto
qed

lemma patched_row_fields [simp]:
  "mc_id (patched_row now p r) = mc_id r" "mc_companyId (patched_row now p r) = mc_companyId r"
  "mc_providerId (patched_row now p r) = mc_providerId r" "ch_phoneNumber (patched_row now p r) = ch_phoneNumber r"
  "ch_evolutionInstanceName (patched_row now p r) = ch_evolutionInstanceName r"
  "mc_version (patched_row now p r) = mc_version r + 1"
  "ch_organizationalStatus (patched_row now p r) = or_keep (ch_organizationalStatus r) (cp_organizationalStatus p)"
  by (simp_all add: patched_row_def)

definition matches :: "mutate_input \<Rightarrow> channel_row \<Rightarrow> bool" where
  "matches input r \<longleftrightarrow> mc_id r = mi_channelId input \<and> mc_companyId r = mi_companyId input \<and>
     mc_version r = mi_expectedVersion input"

definition mutated_store ::
  "repository_env \<Rightarrow> int \<Rightarrow> mutate_input \<Rightarrow> string \<Rightarrow> channel_row \<Rightarrow> channel_store \<Rightarrow> channel_store" where
  "mutated_store env now input commandId before s =
     s\<lparr>cs_rows := map (\<lambda>r. if matches input r then patched_row now (mi_patch input) r else r) (cs_rows s),
       cs_events := cs_events s @ [mutate_event env commandId input before (patched_row now (mi_patch input) before)]\<rparr>"

lemma mutated_rows_move:
  assumes "\<forall>r\<in>set (cs_rows s). matches input r \<longrightarrow>
    status_moves (ch_organizationalStatus r) (or_keep (ch_organizationalStatus r) (cp_organizationalStatus (mi_patch input)))"
  shows "rows_move s (mutated_store env now input commandId before s)"
  using assms by (auto simp: rows_move_def mutated_store_def row_moves_def)

lemma patched_config:
  "patch_ok p \<Longrightarrow> ch_displayName r \<noteq> [] \<Longrightarrow> length (ch_displayName r) \<le> 80 \<Longrightarrow>
     (ch_routingMode r = RM_department_owned \<longrightarrow> ch_departmentId r \<noteq> None) \<Longrightarrow>
     ch_displayName (patched_row now p r) \<noteq> [] \<and> length (ch_displayName (patched_row now p r)) \<le> 80 \<and>
     (ch_routingMode (patched_row now p r) = RM_department_owned \<longrightarrow> ch_departmentId (patched_row now p r) \<noteq> None)"
  by (auto simp: patch_ok_def patched_row_def or_keep_def split: option.splits)

lemma mutate_event_fields [simp]:
  "ev_channelId (mutate_event env c input b a) = mi_channelId input"
  "ev_companyId (mutate_event env c input b a) = mi_companyId input"
  "ev_commandId (mutate_event env c input b a) = c"
  "ev_resultingVersion (mutate_event env c input b a) = mi_expectedVersion input + 1"
  by (simp_all add: mutate_event_def)

lemma mutated_store_ok:
  assumes ok: "channel_store_ok s" and p: "patch_ok (mi_patch input)"
    and b: "before \<in> set (cs_rows s)" "matches input before"
    and d: "departments_exist s (patched_row now (mi_patch input) before)"
    and new: "(mi_companyId input, commandId) \<notin> set (map (\<lambda>e. (ev_companyId e, ev_commandId e)) (cs_events s))"
  shows "channel_store_ok (mutated_store env now input commandId before s)"
proof -
  let ?s = "mutated_store env now input commandId before s"
  let ?f = "\<lambda>r. if matches input r then patched_row now (mi_patch input) r else r"
  have dist: "distinct (map mc_id (cs_rows s))" using ok by (simp add: channel_store_ok_def)
  have only: "r = before" if "r \<in> set (cs_rows s)" "mc_id r = mi_channelId input" for r
    using dist that b by (metis distinct_map inj_onD matches_def)
  have rows: "cs_rows ?s = map ?f (cs_rows s)" by (simp add: mutated_store_def)
  have ids: "map mc_id (cs_rows ?s) = map mc_id (cs_rows s)"
    "map ch_phoneNumber (cs_rows ?s) = map ch_phoneNumber (cs_rows s)"
    by (simp_all add: rows)
  have new_ok: "row_ok ?s (?f r)" if r: "r \<in> set (cs_rows s)" for r
  proof (cases "matches input r")
    case True
    then have rb: "r = before" using only r by (simp add: matches_def)
    have "row_ok s r" using ok r by (simp add: channel_store_ok_def)
    then show ?thesis
      using patched_config [OF p, of r now] d True
      by (simp add: row_ok_def departments_exist_def mutated_store_def rb matches_def upto_rec2)
  next
    case False
    then have "mc_id r \<noteq> mi_channelId input" using only r b by (auto simp: matches_def)
    then show ?thesis using False ok r
      by (auto simp: row_ok_def departments_exist_def mutated_store_def channel_store_ok_def)
  qed
  have "\<forall>r\<in>set (cs_rows ?s). row_ok ?s r" unfolding rows set_map using new_ok by blast
  moreover have "ev_channelId ` set (cs_events ?s) \<subseteq> mc_id ` set (cs_rows ?s)"
  proof -
    have "mc_id ` set (cs_rows ?s) = mc_id ` set (cs_rows s)" using ids(1) by (metis list.set_map)
    moreover have "mi_channelId input \<in> mc_id ` set (cs_rows s)"
      using b by (auto simp: matches_def intro: rev_image_eqI)
    ultimately show ?thesis using ok by (simp add: mutated_store_def channel_store_ok_def)
  qed
  moreover have "distinct (map (\<lambda>e. (ev_companyId e, ev_commandId e)) (cs_events ?s))"
    using ok new by (simp add: mutated_store_def channel_store_ok_def)
  ultimately show ?thesis
    unfolding channel_store_ok_def ids using ok unfolding channel_store_ok_def by blast
qed

lemma find_map_id:
  assumes "\<And>x. P (f x) = P x"
  shows "find P (map f xs) = map_option f (find P xs)"
  by (induction xs) (auto simp: assms)

lemma effect_mutate:
  assumes p: "patch_ok (mi_patch input)"
    and st: "\<And>s r. P s \<Longrightarrow> get_channel (mi_companyId input) (mi_channelId input) s = Some r \<Longrightarrow>
      status_moves (ch_organizationalStatus r) (or_keep (ch_organizationalStatus r) (cp_organizationalStatus (mi_patch input)))"
  shows "effect store_moves P (mutate env now input)
    (\<lambda>(c, b) s. has_status (mi_companyId input) (mi_channelId input) (ch_organizationalStatus c) s)"
  unfolding effect_def
proof (intro allI impI)
  fix s assume P: "P s"
  obtain r s' where m: "mutate env now input s = (r, s')" by (cases "mutate env now input s")
  show "store_moves s (snd (mutate env now input s)) \<and> (\<forall>x. fst (mutate env now input s) = Inr x \<longrightarrow>
      (case x of (c, b) \<Rightarrow> has_status (mi_companyId input) (mi_channelId input) (ch_organizationalStatus c))
        (snd (mutate env now input s)))"
    using m
  proof (cases rule: mutate_cases)
    case 1
    have "has_status (mi_companyId input) (mi_channelId input) (ch_organizationalStatus c) s" if "r = Inr (c, b)" for c b
      using 1(2) [OF that] by (auto simp: has_status_def)
    then show ?thesis unfolding m by (simp add: 1(1) channels.reflR)
  next
    case (2 commandId before)
    note b = get_channel_Some [OF 2(2)]
    have bm: "before \<in> set (cs_rows s)" "matches input before" using b 2(3) by (simp_all add: matches_def)
    have s': "s' = mutated_store env now input commandId before s"
      using 2(6) by (simp add: mutated_store_def matches_def)
    have only: "r = before" if "r \<in> set (cs_rows s)" "matches input r" for r
      using only_match [OF 2(7)] that bm by (simp add: matches_def)
    have "rows_move s s'" unfolding s'
      using st [OF P 2(2)] only by (intro mutated_rows_move) blast
    moreover have "channel_store_ok s \<Longrightarrow> channel_store_ok s'"
      unfolding s' using p bm 2(4,5) by (intro mutated_store_ok)
    moreover have "get_channel (mi_companyId input) (mi_channelId input) s' = Some (patched_row now (mi_patch input) before)"
      unfolding s' get_channel_def mutated_store_def using 2(2) bm(2)
      by (simp add: find_map_id get_channel_def)
    ultimately show ?thesis unfolding m by (simp add: 2(1) store_moves_def has_status_def)
  qed
qed


definition create_ok :: "create_input \<Rightarrow> bool" where
  "create_ok input \<longleftrightarrow> ci_displayName input \<noteq> [] \<and> length (ci_displayName input) \<le> 80 \<and>
     (ci_routingMode input = RM_department_owned \<longrightarrow> ci_departmentId input \<noteq> None)"

definition created_store ::
  "repository_env \<Rightarrow> string \<Rightarrow> create_input \<Rightarrow> channel_row \<Rightarrow> provider_row list \<Rightarrow> channel_store \<Rightarrow> channel_store" where
  "created_store env commandId input row ps s =
     s\<lparr>cs_rows := cs_rows s @ [row], cs_events := cs_events s @ [created_event env commandId input row],
       cs_providers := ps\<rparr>"

lemma ensure_provider_store:
  "ensure_provider env pid companyId s = Inr (p, s1) \<Longrightarrow> s1 = s\<lparr>cs_providers := cs_providers s1\<rparr>"
  by (auto simp: ensure_provider_def Let_def split: option.splits if_splits)

lemma create_cases:
  assumes "createPending env fresh input s = (r, s')"
  obtains "s' = s" and "\<And>c b. r = Inr (c, b) \<Longrightarrow> b \<and>
      (\<exists>row. get_channel (ci_companyId input) (mc_id row) s = Some row \<and> c = toManagedChannel row)"
  | commandId provider row ps where "r = Inr (toManagedChannel row, False)"
    and "row = created_row fresh input provider" and "\<not> unique_violation s row" and "departments_exist s row"
    and "(ci_companyId input, commandId) \<notin> set (map (\<lambda>e. (ev_companyId e, ev_commandId e)) (cs_events s))"
    and "s' = created_store env commandId input row ps s"
proof (cases "length (trim (re_webhookSecret env)) < 32")
  case True
  then show thesis using assms that(1) by (auto simp: createPending_def)
next
  case w: False
  show thesis
  proof (cases "validateCommandId (ci_commandId input)")
    case (Inl e)
    then show thesis using assms that(1) w by (auto simp: createPending_def)
  next
    case v: (Inr commandId)
    show thesis
    proof (cases "find_event (ci_companyId input) commandId s")
      case (Some replay)
      have "get_channel (ci_companyId input) (mc_id row) s = Some row"
        if "get_channel (ci_companyId input) (ev_channelId replay) s = Some row" for row
        using that get_channel_Some by metis
      then show thesis using assms that(1) v w Some
        by (auto simp: createPending_def replayed_channel_def app_conflict_def app_notFound_def split: if_splits option.splits)
    next
      case f: None
      define dep where "dep = assertDepartments (cs_departments s) (ci_companyId input)
          ((case ci_departmentId input of Some d \<Rightarrow> if d \<noteq> [] then [d] else [] | None \<Rightarrow> []) @ ci_allowedTargets input)"
      have m: "createPending env fresh input s = (case dep of Inl e \<Rightarrow> (Inl e, s) | Inr _ \<Rightarrow>
          (case ensure_provider env (fv_providerId fresh) (ci_companyId input) s of
             Inl e \<Rightarrow> (Inl e, s)
           | Inr (provider, s1) \<Rightarrow>
               if \<not> pv_enabled provider \<or> \<not> pv_evolution provider then (invalid ''provider-review'', s)
               else if unique_violation s (created_row fresh input provider) then (app_conflict ''unique'', s)
               else if \<not> departments_exist s (created_row fresh input provider) then (app_conflict ''reference'', s)
               else (Inr (toManagedChannel (created_row fresh input provider), False),
                 s1\<lparr>cs_rows := cs_rows s1 @ [created_row fresh input provider],
                    cs_events := cs_events s1 @ [created_event env commandId input (created_row fresh input provider)]\<rparr>)))"
        unfolding createPending_def v sum.case f option.case Let_def dep_def using w by (simp only: if_False)
      show thesis
      proof (cases "\<exists>u provider s1. dep = Inr u \<and>
          ensure_provider env (fv_providerId fresh) (ci_companyId input) s = Inr (provider, s1) \<and>
          pv_enabled provider \<and> pv_evolution provider \<and> \<not> unique_violation s (created_row fresh input provider) \<and>
          departments_exist s (created_row fresh input provider)")
        case True
        then obtain u provider s1 where a: "dep = Inr u"
          "ensure_provider env (fv_providerId fresh) (ci_companyId input) s = Inr (provider, s1)"
          "pv_enabled provider" "pv_evolution provider" "\<not> unique_violation s (created_row fresh input provider)"
          "departments_exist s (created_row fresh input provider)" by blast
        have s1: "s1 = s\<lparr>cs_providers := cs_providers s1\<rparr>" by (rule ensure_provider_store [OF a(2)])
        have "cs_rows s1 = cs_rows s" "cs_events s1 = cs_events s" by (subst s1, simp)+
        then have "s1\<lparr>cs_rows := cs_rows s1 @ [created_row fresh input provider],
            cs_events := cs_events s1 @ [created_event env commandId input (created_row fresh input provider)]\<rparr> =
            created_store env commandId input (created_row fresh input provider) (cs_providers s1) s"
          unfolding created_store_def by (subst s1) simp
        then have "r = Inr (toManagedChannel (created_row fresh input provider), False)"
          "s' = created_store env commandId input (created_row fresh input provider) (cs_providers s1) s"
          using assms unfolding m by (simp_all add: a)
        then show thesis using that(2) a f unfolding find_event_None by blast
      next
        case False
        then show thesis using assms that(1) unfolding m
          by (auto simp: app_conflict_def invalid_def split: sum.splits if_splits prod.splits)
      qed
    qed
  qed
qed

lemma created_row_fields [simp]:
  "mc_id (created_row fresh input p) = fv_channelId fresh" "mc_version (created_row fresh input p) = 1"
  "mc_companyId (created_row fresh input p) = ci_companyId input"
  "ch_displayName (created_row fresh input p) = ci_displayName input"
  "ch_departmentId (created_row fresh input p) = ci_departmentId input"
  "ch_routingMode (created_row fresh input p) = ci_routingMode input"
  by (simp_all add: created_row_def)

lemma created_store_ok:
  assumes ok: "channel_store_ok s" and c: "create_ok input" and row: "row = created_row fresh input provider"
    and u: "\<not> unique_violation s row" and d: "departments_exist s row"
    and new: "(ci_companyId input, commandId) \<notin> set (map (\<lambda>e. (ev_companyId e, ev_commandId e)) (cs_events s))"
  shows "channel_store_ok (created_store env commandId input row ps s)"
proof -
  let ?s = "created_store env commandId input row ps s"
  have fresh_id: "mc_id row \<notin> mc_id ` set (cs_rows s)" "ch_phoneNumber row \<notin> ch_phoneNumber ` set (cs_rows s)"
    using u by (auto simp: unique_violation_def list_ex_iff)
  have ev: "ev_channelId e \<noteq> mc_id row" if "e \<in> set (cs_events s)" for e
    using ok fresh_id(1) that unfolding channel_store_ok_def by (metis image_eqI subsetD)
  have "row_ok ?s r" if "r \<in> set (cs_rows s)" for r
    using ok that fresh_id(1) by (auto simp: row_ok_def channel_store_ok_def created_store_def created_event_def departments_exist_def)
  moreover have "filter (\<lambda>e. ev_channelId e = mc_id row) (cs_events s) = []"
    using ev by (auto simp: filter_empty_conv)
  then have "row_ok ?s row"
    using c d by (auto simp: row_ok_def created_store_def created_event_def create_ok_def departments_exist_def row)
  ultimately have "\<forall>r\<in>set (cs_rows ?s). row_ok ?s r" by (simp add: created_store_def)
  moreover have "ev_channelId ` set (cs_events ?s) \<subseteq> mc_id ` set (cs_rows ?s)"
    using ok by (auto simp: created_store_def created_event_def channel_store_ok_def)
  ultimately show ?thesis
    using ok fresh_id new by (simp add: channel_store_ok_def created_store_def created_event_def)
qed

lemma find_append: "find P (xs @ ys) = (case find P xs of None \<Rightarrow> find P ys | Some x \<Rightarrow> Some x)"
  by (induction xs) simp_all

lemma effect_create:
  assumes "create_ok input"
  shows "effect store_moves P (createPending env fresh input)
    (\<lambda>(c, b) s. has_status (ci_companyId input) (mc_id c) (ch_organizationalStatus c) s)"
  unfolding effect_def
proof (intro allI impI)
  fix s
  obtain r s' where m: "createPending env fresh input s = (r, s')" by (cases "createPending env fresh input s")
  show "store_moves s (snd (createPending env fresh input s)) \<and> (\<forall>x. fst (createPending env fresh input s) = Inr x \<longrightarrow>
      (case x of (c, b) \<Rightarrow> has_status (ci_companyId input) (mc_id c) (ch_organizationalStatus c))
        (snd (createPending env fresh input s)))"
    using m
  proof (cases rule: create_cases)
    case 1
    have "has_status (ci_companyId input) (mc_id c) (ch_organizationalStatus c) s" if "r = Inr (c, b)" for c b
      using 1(2) [OF that] by (auto simp: has_status_def)
    then show ?thesis unfolding m by (simp add: 1(1) channels.reflR)
  next
    case (2 commandId provider row ps)
    have "rows_move s s'" unfolding 2(6) by (auto simp: rows_move_def created_store_def nth_append)
    moreover have "channel_store_ok s \<Longrightarrow> channel_store_ok s'"
      unfolding 2(6) using 2(2-5) assms by (intro created_store_ok)
    moreover have "get_channel (ci_companyId input) (mc_id row) s' = Some row"
    proof -
      have "find (\<lambda>r. mc_id r = mc_id row \<and> mc_companyId r = ci_companyId input) (cs_rows s) = None"
        using 2(3) by (auto simp: find_None_iff unique_violation_def list_ex_iff)
      then show ?thesis by (simp add: 2(6) get_channel_def created_store_def find_append 2(2))
    qed
    ultimately show ?thesis unfolding m by (simp add: 2(1) store_moves_def has_status_def)
  qed
qed


section \<open>The use cases\<close>

lemma effect_command_mutation:
  assumes "patch_ok patch"
    and "\<And>s r. P s \<Longrightarrow> get_channel (vc_companyId input) (vc_channelId input) s = Some r \<Longrightarrow>
      status_moves (ch_organizationalStatus r) (or_keep (ch_organizationalStatus r) (cp_organizationalStatus patch))"
  shows "effect store_moves P (command_mutation env input commandId v event patch metadata)
    (\<lambda>c. has_status (vc_companyId input) (vc_channelId input) (ch_organizationalStatus c))"
  unfolding command_mutation_def
proof (rule channels.effect_bind)
  show "effect store_moves P (mutate env (vc_now input) \<lparr>mi_companyId = vc_companyId input, mi_channelId = vc_channelId input,
      mi_commandId = commandId, mi_expectedVersion = v, mi_eventName = event, mi_actorUserId = vc_actorUserId input,
      mi_patch = patch, mi_metadata = metadata\<rparr>)
    (\<lambda>(c, b) s. has_status (vc_companyId input) (vc_channelId input) (ch_organizationalStatus c) s)"
    using assms by (intro channels.effect_weaken [OF effect_mutate [where P = P]]) auto
qed (auto intro!: channels.effect_return)

lemma no_patch_ok [simp]:
  "patch_ok no_patch" "patch_ok (no_patch\<lparr>cp_connectionStatus := c\<rparr>)" "patch_ok (status_patch x)"
  "patch_ok (ready_patch x i)" "patch_ok ((status_patch x)\<lparr>cp_cancelledAt := t\<rparr>)"
  "patch_ok (no_patch\<lparr>cp_organizationalStatus := st, cp_disabledAt := t\<rparr>)"
  by (simp_all add: patch_ok_def no_patch_def status_patch_def ready_patch_def)

lemma patch_status [simp]:
  "cp_organizationalStatus no_patch = None"
  "cp_organizationalStatus (status_patch x) = Some (ch_organizationalStatus x)"
  "cp_organizationalStatus (ready_patch x i) = Some (ch_organizationalStatus x)"
  by (simp_all add: no_patch_def status_patch_def ready_patch_def)

lemma or_keep_simps [simp]: "or_keep a None = a" "or_keep a (Some b) = b"
  by (simp_all add: or_keep_def)

lemma evolve_moves:
  "evolveChannelStatus c action admin = Inr d \<Longrightarrow> status_moves (ch_organizationalStatus c) (ch_organizationalStatus d)"
  by (erule evolve_Inr) (cases action; auto simp: status_moves_def; cases "ch_organizationalStatus c"; simp)

lemma synchronize_moves:
  "synchronizeProviderState c p admin = Inr d \<Longrightarrow> status_moves (ch_organizationalStatus c) (ch_organizationalStatus d)"
  by (auto simp: synchronizeProviderState_def evolve_moves split: if_splits)

lemma effect_failure: "effect store_moves P (recordProviderFailure env input v e) (\<lambda>_ _. True)"
  unfolding recordProviderFailure_def
proof (intro channels.effect_bind)
  show "effect store_moves P (return_op (providerIssue e)) (\<lambda>_ _. True)" by (rule channels.effect_return) simp
  show "effect store_moves (\<lambda>_. True) (return_op (mutationCommand (vc_commandId input) ''provider-failed'')) (\<lambda>_ _. True)"
    by (rule channels.effect_return) simp
  show "effect store_moves (\<lambda>_. True) (command_mutation env input c v EN_provider_operation_failed
      (no_patch\<lparr>cp_connectionStatus := Some CN_error\<rparr>) [(''reason'', reason_str r)])
      (\<lambda>c. has_status (vc_companyId input) (vc_channelId input) (ch_organizationalStatus c))" for c r
    by (rule effect_command_mutation) simp_all
qed (auto intro!: channels.effect_return)

text \<open>A mutation whose status comes from the row that was read.\<close>

lemma effect_read_mutation:
  assumes "patch_ok patch" and "status_moves st (or_keep st (cp_organizationalStatus patch))"
  shows "effect store_moves (has_status (vc_companyId input) (vc_channelId input) st)
    (command_mutation env input commandId v event patch metadata)
    (\<lambda>c. has_status (vc_companyId input) (vc_channelId input) (ch_organizationalStatus c))"
  using assms by (intro effect_command_mutation) (auto simp: has_status_def)

lemma effect_step_read:
  assumes "\<And>x. r = Inr x \<Longrightarrow> effect R P (f x) Q" and "store_relation R"
  shows "effect R P (bind_op (return_op r) f) Q"
  using assms by (cases r) (simp_all add: effect_def return_op_def store_relation.reflR)

lemmas effect_checked = effect_step_read [OF _ channels.store_relation_axioms]

lemma effect_done: "effect store_moves P (return_op r) (\<lambda>_ _. True)"
  by (rule channels.effect_return) simp

lemma effect_update: "effect store_moves P (updateConfiguration env input n d m a ts) (\<lambda>_ _. True)"
  unfolding updateConfiguration_def
proof (intro channels.effect_bind [OF effect_required] effect_checked)
  fix c x
  assume v: "validateChannelConfiguration (c\<lparr>ch_agentsEnabled := Some (case a of None \<Rightarrow>
      case ch_agentsEnabled c of None \<Rightarrow> True | Some b \<Rightarrow> b | Some b \<Rightarrow> b), ch_displayName := n, ch_departmentId := d,
      ch_routingMode := m, ch_allowedTargets := ts\<rparr>) = Inr x"
  have "patch_ok (no_patch\<lparr>cp_displayName := Some (ch_displayName x), cp_agentsEnabled := ch_agentsEnabled x,
      cp_departmentId := Some (ch_departmentId x), cp_routingMode := Some (ch_routingMode x),
      cp_allowedTargets := Some (ch_allowedTargets x)\<rparr>)"
    by (rule configuration_Inr [OF v]) (auto simp: patch_ok_def)
  then show "effect store_moves (has_status (vc_companyId input) (vc_channelId input) (ch_organizationalStatus c))
      (command_mutation env input (vc_commandId input) (vc_expectedVersion input) EN_configuration_updated
       (no_patch\<lparr>cp_displayName := Some (ch_displayName x), cp_agentsEnabled := ch_agentsEnabled x,
          cp_departmentId := Some (ch_departmentId x), cp_routingMode := Some (ch_routingMode x),
          cp_allowedTargets := Some (ch_allowedTargets x)\<rparr>) []) (\<lambda>_ _. True)"
    by (intro channels.effect_weaken [OF effect_read_mutation]) simp_all
qed

lemma effect_synchronize: "effect store_moves P (synchronizeConnection env answers input) (\<lambda>_ _. True)"
  unfolding synchronizeConnection_def
  by (intro channels.effect_bind [OF effect_required] channels.effect_catch effect_failure
      channels.effect_bind [OF effect_gateway] effect_checked channels.effect_bind [OF effect_read_mutation] effect_done)
    (simp_all add: synchronize_moves)

lemma effect_disconnect: "effect store_moves P (disconnect env answers input) (\<lambda>_ _. True)"
  unfolding disconnect_def
  by (intro channels.effect_bind [OF effect_required] channels.effect_catch effect_failure
      channels.effect_bind [OF effect_gateway] effect_checked channels.effect_bind [OF effect_read_mutation] effect_done)
    simp_all

lemma effect_cancel: "effect store_moves P (cancelSetup env answers input) (\<lambda>_ _. True)"
  unfolding cancelSetup_def
  by (intro channels.effect_bind [OF effect_required] channels.effect_catch
      channels.effect_bind [OF effect_gateway] effect_checked channels.effect_bind [OF effect_read_mutation] effect_done)
    (simp_all add: evolve_moves status_patch_def no_patch_def patch_ok_def)

lemma effect_disable: "effect store_moves P (disable env answers input) (\<lambda>_ _. True)"
  unfolding disable_def
  by (intro channels.effect_bind [OF effect_required] channels.effect_catch
      channels.effect_bind [OF effect_gateway] effect_checked channels.effect_bind [OF effect_read_mutation] effect_done)
    (simp_all add: evolve_moves)


lemma effect_restart:
  "effect store_moves (has_status c i st) (if restart then gateway call answer else return_op (Inr ())) (\<lambda>_. has_status c i st)"
  by (cases restart) (simp_all add: effect_gateway channels.effect_return)

lemma effect_connect: "effect store_moves P (connect env answers input event restart) (\<lambda>_ _. True)"
  unfolding connect_def
  by (intro channels.effect_bind [OF effect_required] channels.effect_catch effect_failure effect_checked
      channels.effect_bind [OF effect_restart] channels.effect_bind [OF effect_gateway]
      channels.effect_bind [OF effect_read_mutation] effect_done)
    (simp_all add: synchronize_moves)

lemma effect_companies: "effect store_moves P (getTenantTechnicalName c) (\<lambda>_ _. True)"
  by (auto simp: effect_def getTenantTechnicalName_def channels.reflR split: option.split)

lemma creation_fields [simp]:
  "vc_companyId (creation_command input now i) = cq_companyId input" "vc_channelId (creation_command input now i) = i"
  "ci_companyId (create_input_of input c) = cq_companyId input"
  by (simp_all add: creation_command_def create_input_of_def)

lemma effect_created_mutation:
  assumes "patch_ok patch" and "status_moves (ch_organizationalStatus c) (or_keep (ch_organizationalStatus c) (cp_organizationalStatus patch))"
  shows "effect store_moves (has_status (cq_companyId input) (mc_id c) (ch_organizationalStatus c))
    (command_mutation env (creation_command input now (mc_id c)) commandId v event patch metadata) (\<lambda>_ _. True)"
  by (rule channels.effect_weaken [OF effect_read_mutation [OF assms, of "creation_command input now (mc_id c)"]]) simp_all

lemma effect_create_call:
  "effect store_moves (has_status c i st) (if replayed then gateway call answer
      else bind_op (return_op url) (\<lambda>u. gateway (call' u) answer')) (\<lambda>_. has_status c i st)"
  by (cases replayed) (simp_all add: effect_gateway effect_checked)

lemma effect_createChannel: "effect store_moves P (createChannel env protocol url fresh answers input) (\<lambda>_ _. True)"
  unfolding createChannel_def
proof (intro effect_checked channels.effect_bind [OF effect_companies])
  fix instanceName configuration
  assume v: "validateChannelConfiguration (requested_snapshot input instanceName) = Inr configuration"
  have "create_ok (create_input_of input configuration)"
    by (rule configuration_Inr [OF v]) (auto simp: create_ok_def create_input_of_def)
  note c = effect_create [OF this, unfolded creation_fields]
  show "effect store_moves (\<lambda>_. True) (bind_op (createPending env fresh (create_input_of input configuration)) (\<lambda>(channel, replayed).
     catch_op
       (bind_op (if replayed then gateway (G_connect instanceName) (ga_connect answers)
          else bind_op (return_op (webhookUrl protocol url (mc_id channel))) (\<lambda>url.
            gateway (G_create instanceName (ch_phoneNumber configuration) url) (ga_create answers))) (\<lambda>provider.
        bind_op (return_op (synchronizeProviderState channel (in_connectionState provider) False)) (\<lambda>snapshot.
        bind_op (return_op (mutationCommand (cq_commandId input) ''provider-ready'')) (\<lambda>readyId.
        bind_op (command_mutation env (creation_command input (fv_now fresh) (mc_id channel)) readyId (mc_version channel)
            EN_qr_requested (ready_patch snapshot (in_instanceId provider)) [(''provider'', ''evolution'')]) (\<lambda>result.
        return_op (Inr (operation_result_of result (in_qrCode provider) None)))))))
       (recordProviderFailure env (creation_command input (fv_now fresh) (mc_id channel)) (mc_version channel))))
     (\<lambda>_ _. True)"
  proof (rule channels.effect_bind [OF c], unfold split_paired_all prod.case)
    fix channel replayed
    show "effect store_moves (has_status (cq_companyId input) (mc_id channel) (ch_organizationalStatus channel))
     (catch_op
       (bind_op (if replayed then gateway (G_connect instanceName) (ga_connect answers)
          else bind_op (return_op (webhookUrl protocol url (mc_id channel))) (\<lambda>url.
            gateway (G_create instanceName (ch_phoneNumber configuration) url) (ga_create answers))) (\<lambda>provider.
        bind_op (return_op (synchronizeProviderState channel (in_connectionState provider) False)) (\<lambda>snapshot.
        bind_op (return_op (mutationCommand (cq_commandId input) ''provider-ready'')) (\<lambda>readyId.
        bind_op (command_mutation env (creation_command input (fv_now fresh) (mc_id channel)) readyId (mc_version channel)
            EN_qr_requested (ready_patch snapshot (in_instanceId provider)) [(''provider'', ''evolution'')]) (\<lambda>result.
        return_op (Inr (operation_result_of result (in_qrCode provider) None)))))))
       (recordProviderFailure env (creation_command input (fv_now fresh) (mc_id channel)) (mc_version channel)))
     (\<lambda>_ _. True)"
      by (intro channels.effect_catch effect_failure channels.effect_bind [OF effect_create_call] effect_checked
          channels.effect_bind [OF effect_created_mutation] effect_done) (simp_all add: synchronize_moves)
  qed
qed

lemma effect_after: "effect store_moves (\<lambda>_. True) m (\<lambda>_ _. True) \<Longrightarrow> store_moves s (store_after m s)"
  by (simp add: effect_def store_after_def)

lemma managed_step_moves: "store_moves s (managed_step env protocol url command s)"
  by (cases command) (simp_all add: managed_step_def requestQr_def reconnect_def effect_after
      effect_createChannel effect_update effect_connect effect_synchronize effect_disconnect effect_cancel effect_disable)

lemma managed_run_moves: "store_moves s (managed_run env protocol url commands s)"
proof (induction commands arbitrary: s)
  case Nil
  show ?case by (simp add: managed_run_def channels.reflR)
next
  case (Cons c cs)
  show ?case unfolding managed_run_def fold.simps o_apply
    by (rule channels.transR [OF managed_step_moves Cons [unfolded managed_run_def]])
qed

section \<open>Fingerprints tell contents apart\<close>

fun plain :: "json \<Rightarrow> json" where
  "plain JUnsupported = JNull"
| "plain (JArray vs) = JArray (map plain vs)"
| "plain (JObject members) = JObject (map (\<lambda>(k, v). (k, plain v)) members)"
| "plain v = v"

fun plain_ok :: "json \<Rightarrow> bool" where
  "plain_ok (JNumber x) = (x \<noteq> Not_finite \<and> float_ok x)"
| "plain_ok (JArray vs) = list_all plain_ok vs"
| "plain_ok (JObject members) = list_all (\<lambda>(k, v). plain_ok v) (sort_key fst members)"
| "plain_ok JInstance = False"
| "plain_ok v = True"

lemma insort_key_map: "insort_key f (g x) (map g xs) = map g (insort_key (\<lambda>x. f (g x)) x xs)"
  by (induction xs) simp_all

lemma sort_key_map: "sort_key f (map g xs) = map g (sort_key (\<lambda>x. f (g x)) xs)"
  by (induction xs) (simp_all add: insort_key_map)

lemma sort_plain: "sort_key fst (map (\<lambda>(k, v). (k, f v)) members) = map (\<lambda>(k, v). (k, f v)) (sort_key fst members)"
  by (simp add: sort_key_map case_prod_beta)

lemma map_result_values:
  "(\<And>x. x \<in> set xs \<Longrightarrow> f x = Inr (g x)) \<Longrightarrow> map_result f xs = Inr (map g xs)"
  by (rule map_result_total)

lemma stable_plain: "plain_ok v \<Longrightarrow> stableJson (plain v) = Inr (repository_stableJson v)"
proof (induction v rule: repository_stableJson.induct)
  case (5 x)
  then show ?case by (cases x) simp_all
next
  case (6 vs)
  then have "map_result stableJson (map plain vs) = Inr (map repository_stableJson vs)"
    unfolding map_result_map_arg by (intro map_result_total) (auto simp: list_all_iff)
  then show ?case by simp
next
  case (7 members)
  have "map_result (\<lambda>(k, v). rbind (stableJson v) (\<lambda>t. Inr (quote_json k @ CHR '':'' # t)))
      (sort_key fst (map (\<lambda>(k, v). (k, plain v)) members)) =
      Inr (map (\<lambda>(k, v). quote_json k @ CHR '':'' # repository_stableJson v) (sort_key fst members))"
    unfolding sort_plain map_result_map_arg
    using 7 by (intro map_result_total) (auto simp: list_all_iff)
  then show ?case by simp
qed simp_all


section \<open>Replays\<close>

lemma mutate_new:
  assumes "mutate env now input s = (Inr (c, b), s')"
    and "validateCommandId (mi_commandId input) = Inr commandId"
    and "find_event (mi_companyId input) commandId s = None"
  obtains before where "get_channel (mi_companyId input) (mi_channelId input) s = Some before"
    and "mc_version before = mi_expectedVersion input"
    and "c = toManagedChannel (patched_row now (mi_patch input) before)"
    and "get_channel (mi_companyId input) (mi_channelId input) s' = Some (patched_row now (mi_patch input) before)"
    and "cs_events s' = cs_events s @ [mutate_event env commandId input before (patched_row now (mi_patch input) before)]"
  using assms(1)
proof (cases rule: mutate_cases)
  case 1
  have "b" using 1(2) by blast
  moreover have "\<not> b"
    using assms by (auto simp: mutate_def Let_def app_conflict_def app_notFound_def split: option.splits sum.splits if_splits)
  ultimately show thesis by simp
next
  case (2 commandId' before)
  have "s' = mutated_store env now input commandId' before s"
    using 2(6) by (simp add: mutated_store_def matches_def)
  moreover have "matches input before" using 2(3) get_channel_Some [OF 2(2)] by (simp add: matches_def)
  ultimately have g: "get_channel (mi_companyId input) (mi_channelId input) s' = Some (patched_row now (mi_patch input) before)"
    using 2(2) by (simp add: mutated_store_def find_map_id get_channel_def)
  have e: "cs_events s' = cs_events s @ [mutate_event env commandId input before (patched_row now (mi_patch input) before)]"
    using 2(6,8) assms(2) by simp
  have c: "c = toManagedChannel (patched_row now (mi_patch input) before)" using 2(1) by simp
  show thesis by (rule that [OF 2(2,3) c g e])
qed

lemma mutate_fingerprint [simp]:
  "ev_commandFingerprint (mutate_event env c input b a) = re_digest env (repository_stableJson (mutate_content input))"
  by (simp add: mutate_event_def)

lemma find_event_events: "cs_events s = cs_events t \<Longrightarrow> find_event i c s = find_event i c t"
  by (simp add: find_event_def)

lemma replay_of_event:
  assumes "validateCommandId (mi_commandId input) = Inr commandId"
    and "find_event (mi_companyId input) commandId s = Some e"
    and "ev_channelId e = mi_channelId input"
    and "ev_commandFingerprint e = re_digest env (repository_stableJson (mutate_content input))"
    and "get_channel (mi_companyId input) (mi_channelId input) s = Some row"
  shows "mutate env now input s = (Inr (toManagedChannel row, True), s)"
  using assms by (simp add: mutate_def replayed_channel_def)

lemma reuse_conflicts:
  assumes "validateCommandId (mi_commandId input) = Inr commandId"
    and "find_event (mi_companyId input) commandId s = Some e"
    and "ev_commandFingerprint e \<noteq> re_digest env (repository_stableJson (mutate_content input))"
  shows "mutate env now input s = (app_conflict ''command-id-used'', s)"
  using assms by (simp add: mutate_def)

lemma mutate_Inr_id: "mutate env now input s = (Inr x, s') \<Longrightarrow> \<exists>c. validateCommandId (mi_commandId input) = Inr c"
  by (auto simp: mutate_def split: sum.splits)

lemma event_after_mutate:
  assumes "mutate env now input s = (Inr (c, b), s')" and "validateCommandId (mi_commandId input) = Inr commandId"
  shows "\<exists>e row. find_event (mi_companyId input) commandId s' = Some e \<and> ev_channelId e = mi_channelId input \<and>
    ev_commandFingerprint e = re_digest env (repository_stableJson (mutate_content input)) \<and>
    get_channel (mi_companyId input) (mi_channelId input) s' = Some row"
proof (cases "find_event (mi_companyId input) commandId s")
  case None
  show ?thesis
  proof (rule mutate_new [OF assms None])
    fix before
    assume g: "get_channel (mi_companyId input) (mi_channelId input) s' = Some (patched_row now (mi_patch input) before)"
      and e: "cs_events s' = cs_events s @ [mutate_event env commandId input before (patched_row now (mi_patch input) before)]"
    have "find_event (mi_companyId input) commandId s' =
        Some (mutate_event env commandId input before (patched_row now (mi_patch input) before))"
      using None by (simp add: find_event_def e find_append)
    then show ?thesis using g by simp
  qed
next
  case (Some e)
  then show ?thesis using assms
    by (auto simp: mutate_def replayed_channel_def app_conflict_def app_notFound_def split: if_splits option.splits)
qed

lemma mutate_again:
  assumes "mutate env now input s = (Inr (c, b), s')"
  shows "\<exists>c'. mutate env now' input s' = (Inr (c', True), s') \<and> mc_id c' = mi_channelId input \<and>
    (\<not> b \<longrightarrow> c' = c)"
proof -
  obtain commandId where v: "validateCommandId (mi_commandId input) = Inr commandId"
    using mutate_Inr_id [OF assms] by blast
  from event_after_mutate [OF assms v] obtain e row where
    e: "find_event (mi_companyId input) commandId s' = Some e" "ev_channelId e = mi_channelId input"
      "ev_commandFingerprint e = re_digest env (repository_stableJson (mutate_content input))"
    and row: "get_channel (mi_companyId input) (mi_channelId input) s' = Some row" by blast
  have "toManagedChannel row = c" if "\<not> b"
    using assms
  proof (cases rule: mutate_cases)
    case 1
    then show ?thesis using that by blast
  next
    case (2 commandId' before)
    have "find_event (mi_companyId input) commandId s = None" using 2(5,8) v by (simp add: find_event_None)
    from mutate_new [OF assms v this] show ?thesis using row by (metis option.inject)
  qed
  with replay_of_event [OF v e row] get_channel_Some [OF row] show ?thesis by simp
qed


text \<open>What makes the configuration of a row valid is kept when only its status changes.\<close>

definition configuration_valid :: "channel_row \<Rightarrow> bool" where
  "configuration_valid row \<longleftrightarrow> (\<exists>c. validateChannelConfiguration (toManagedChannel row) = Inr c)"

lemma validated_status: "validateChannelConfiguration c = Inr d \<Longrightarrow> ch_organizationalStatus d = ch_organizationalStatus c"
  by (auto simp: validateChannelConfiguration_def rbind_Inr_iff Let_def invalid_def split: if_splits)

lemma configuration_valid_iff:
  "configuration_valid row \<longleftrightarrow> trim (ch_displayName row) \<noteq> [] \<and> length (trim (ch_displayName row)) \<le> 80 \<and>
     (ch_routingMode row = RM_department_owned \<longrightarrow> ch_departmentId row \<noteq> None) \<and>
     (\<exists>phone. normalizePhysicalChannelPhone (ch_phoneNumber row) = Inr phone)"
  by (auto simp: configuration_valid_def validateChannelConfiguration_def rbind_Inr_iff Let_def invalid_def
      toManagedChannel_def managed_channel.truncate_def)

lemma patched_valid:
  "cp_displayName p = None \<Longrightarrow> cp_departmentId p = None \<Longrightarrow> cp_routingMode p = None \<Longrightarrow>
     configuration_valid (patched_row now p row) = configuration_valid row"
  by (simp add: configuration_valid_iff patched_row_def or_keep_def)

lemma find_event_gateway [simp]: "find_event c i (s\<lparr>cs_gateway := g\<rparr>) = find_event c i s"
  by (simp add: find_event_def)

lemma command_mutation_done:
  assumes "command_mutation env input commandId v event p metadata s = (Inr c, s')"
    and "validateCommandId commandId = Inr k" and "find_event (vc_companyId input) k s = None"
  obtains before where "get_channel (vc_companyId input) (vc_channelId input) s = Some before"
    and "get_channel (vc_companyId input) (vc_channelId input) s' = Some (patched_row (vc_now input) p before)"
    and "find_event (vc_companyId input) k s' \<noteq> None"
proof -
  let ?input = "\<lparr>mi_companyId = vc_companyId input, mi_channelId = vc_channelId input, mi_commandId = commandId,
    mi_expectedVersion = v, mi_eventName = event, mi_actorUserId = vc_actorUserId input, mi_patch = p, mi_metadata = metadata\<rparr>"
  from assms(1) obtain b where m: "mutate env (vc_now input) ?input s = (Inr (c, b), s')"
    by (auto simp: command_mutation_def bind_op_done return_op_def)
  have "validateCommandId (mi_commandId ?input) = Inr k" "find_event (mi_companyId ?input) k s = None"
    using assms(2,3) by simp_all
  from mutate_new [OF m this] obtain before where
    "get_channel (vc_companyId input) (vc_channelId input) s = Some before"
    "get_channel (vc_companyId input) (vc_channelId input) s' = Some (patched_row (vc_now input) p before)" by auto
  moreover have "find_event (vc_companyId input) k s' \<noteq> None"
    using event_after_mutate [OF m, of k] assms(2) by auto
  ultimately show thesis by (rule that)
qed

lemma cancelled_once:
  assumes "cancelSetup env answers input s = (Inr result, s')"
    and "validateCommandId (vc_commandId input) = Inr commandId"
    and "find_event (vc_companyId input) commandId s = None"
  shows "\<exists>row. get_channel (vc_companyId input) (vc_channelId input) s' = Some row \<and>
    ch_organizationalStatus row = OS_cancelled \<and> configuration_valid row \<and>
    find_event (vc_companyId input) commandId s' \<noteq> None"
proof -
  from assms(1) obtain row snapshot c t where
    row: "get_channel (vc_companyId input) (vc_channelId input) s = Some row"
    and sn: "evolveChannelStatus (toManagedChannel row) CA_cancel_pending (vc_isAdministrator input) = Inr snapshot"
    and m: "command_mutation env input (vc_commandId input) (vc_expectedVersion input) EN_setup_cancelled
        ((status_patch snapshot)\<lparr>cp_cancelledAt := Some (Some (vc_now input))\<rparr>) [] s = (Inr c, t)"
    and t: "s' = t\<lparr>cs_gateway := cs_gateway s'\<rparr>"
    by (fastforce simp: cancelSetup_def bind_op_done required_def return_op_def app_notFound_def catch_op_def gateway_def
        bind_op_def split: option.splits sum.splits prod.splits)
  from command_mutation_done [OF m assms(2,3)] row have
    g: "get_channel (vc_companyId input) (vc_channelId input) t =
        Some (patched_row (vc_now input) ((status_patch snapshot)\<lparr>cp_cancelledAt := Some (Some (vc_now input))\<rparr>) row)"
    and e: "find_event (vc_companyId input) commandId t \<noteq> None" by auto
  have "configuration_valid row" using sn by (auto simp: configuration_valid_def evolveChannelStatus_def rbind_Inr_iff)
  moreover have "ch_organizationalStatus snapshot = OS_cancelled"
    using sn by (auto simp: evolveChannelStatus_def rbind_Inr_iff invalid_def split: if_splits)
  moreover have "get_channel c i s' = get_channel c i t" "find_event c i s' = find_event c i t" for c i by (subst t, simp)+
  ultimately show ?thesis using g e
    by (auto simp: patched_valid status_patch_def no_patch_def or_keep_def)
qed

section \<open>Properties\<close>

text \<open>
  C24. Whatever commands a well-formed store runs, accepted or refused, whatever the provider answers: phone
  numbers are used once, a command id is recorded once in a company, the log of every channel numbers its
  versions 1, 2, ... up to the current one without a gap, a channel owned by a department names it, and the
  departments a channel names are departments of its company.
\<close>

theorem channel_log_complete:
  assumes "channel_store_ok s"
    and "t = managed_run env protocol url commands s"
  shows "distinct (map ch_phoneNumber (cs_rows t)) \<and>
    distinct (map (\<lambda>e. (ev_companyId e, ev_commandId e)) (cs_events t)) \<and>
    (\<forall>r\<in>set (cs_rows t).
       map ev_resultingVersion (filter (\<lambda>e. ev_channelId e = mc_id r) (cs_events t)) = [1..mc_version r] \<and>
       (ch_routingMode r = RM_department_owned \<longrightarrow> ch_departmentId r \<noteq> None) \<and>
       (\<forall>d\<in>set_option (ch_departmentId r) \<union> set (ch_allowedTargets r). (mc_companyId r, d) \<in> set (cs_departments t)))"
proof -
  have "channel_store_ok t"
    using managed_run_moves [of s env protocol url commands] assms by (simp add: store_moves_def)
  then show ?thesis by (simp add: channel_store_ok_def row_ok_def departments_exist_def)
qed

definition sample_env :: repository_env where
  "sample_env = \<lparr>re_digest = (\<lambda>s. s), re_webhookSecret = replicate 32 (CHR ''s''),
     re_baseUrl = ''http://evolution'', re_apiKey = ''key''\<rparr>"

definition sample_store :: channel_store where
  "sample_store = \<lparr>cs_rows = [], cs_events = [], cs_departments = [(''c1'', ''sales'')], cs_providers = [],
     cs_companies = [(''c1'', ''Lume Tur'', None)], cs_gateway = []\<rparr>"

definition sample_answers :: gateway_answers where
  "sample_answers = (let i = \<lparr>in_instanceId = Some ''i1'', in_connectionState = PS_connecting, in_qrCode = None\<rparr> in
     \<lparr>ga_create = Inr i, ga_connect = Inr i, ga_state = Inr PS_connected, ga_restart = Inr (), ga_disconnect = Inr (),
      ga_remove = Inr ()\<rparr>)"

definition sample_creation :: managed_command where
  "sample_creation = MC_create \<lparr>fv_channelId = ''w1'', fv_providerId = ''p1'', fv_now = 0\<rparr> sample_answers
     \<lparr>cq_companyId = ''c1'', cq_actorUserId = ''u1'', cq_commandId = ''k1'', cq_displayName = ''Vendas'',
      cq_phoneNumber = ''5541999998888'', cq_departmentId = Some ''sales'', cq_routingMode = RM_department_owned,
      cq_agentsEnabled = None, cq_allowedTargets = []\<rparr>"

definition sample_command :: "string \<Rightarrow> int \<Rightarrow> channel_command" where
  "sample_command k v = \<lparr>vc_companyId = ''c1'', vc_channelId = ''w1'', vc_actorUserId = ''u1'', vc_commandId = k,
     vc_expectedVersion = v, vc_isAdministrator = True, vc_now = 0\<rparr>"

definition sample_run :: "managed_command list \<Rightarrow> channel_store" where
  "sample_run commands = managed_run sample_env (\<lambda>_. Some ''https:'') ''https://lume'' commands sample_store"

lemma sample_created:
  "map (\<lambda>r. (mc_version r, ch_organizationalStatus r)) (cs_rows (sample_run [sample_creation])) = [(2, OS_pending)]"
  by code_simp


lemma sample_store_ok: "channel_store_ok sample_store"
  by (simp add: channel_store_ok_def sample_store_def)

theorem channel_log_complete_witness:
  "distinct (map ch_phoneNumber (cs_rows (sample_run [sample_creation]))) \<and>
   map ev_resultingVersion (filter (\<lambda>e. ev_channelId e = mc_id (cs_rows (sample_run [sample_creation]) ! 0))
     (cs_events (sample_run [sample_creation]))) = [1, 2]"
proof -
  have r: "cs_rows (sample_run [sample_creation]) ! 0 \<in> set (cs_rows (sample_run [sample_creation]))"
    "mc_version (cs_rows (sample_run [sample_creation]) ! 0) = 2"
    using sample_created by (auto simp: map_eq_Cons_conv)
  have "[1..2::int] = [1, 2]" by code_simp
  with channel_log_complete [OF sample_store_ok, of "sample_run [sample_creation]" sample_env "\<lambda>_. Some ''https:''"
    "''https://lume''" "[sample_creation]"] r show ?thesis unfolding sample_run_def by simp
qed

text \<open>
  C25. No sequence of commands deletes a channel or changes what it is: it keeps its company, its phone number and
  its technical name, its version never decreases, and its status moves one way only: a cancelled or
  disabled channel stays so for ever, an active one is at most disabled, and the log is only appended to.
\<close>

theorem channel_life_cycle:
  assumes "i < length (cs_rows s)" and "r = cs_rows s ! i"
    and "t = managed_run env protocol url commands s" and "r' = cs_rows t ! i"
  shows "i < length (cs_rows t) \<and> mc_id r' = mc_id r \<and> mc_companyId r' = mc_companyId r \<and>
    ch_phoneNumber r' = ch_phoneNumber r \<and> ch_evolutionInstanceName r' = ch_evolutionInstanceName r \<and>
    mc_version r \<le> mc_version r' \<and> (\<exists>es. cs_events t = cs_events s @ es) \<and>
    (ch_organizationalStatus r \<in> {OS_cancelled, OS_disabled} \<longrightarrow>
       ch_organizationalStatus r' = ch_organizationalStatus r) \<and>
    (ch_organizationalStatus r = OS_active \<longrightarrow> ch_organizationalStatus r' \<in> {OS_active, OS_disabled})"
proof -
  have m: "rows_move s t" using managed_run_moves [of s env protocol url commands] assms(3) by (simp add: store_moves_def)
  then have "row_moves r r'" "i < length (cs_rows t)" using assms by (auto simp: rows_move_def)
  moreover have "\<exists>es. cs_events t = cs_events s @ es" using m by (simp add: rows_move_def)
  ultimately show ?thesis by (auto simp: row_moves_def status_moves_def)
qed

definition sample_cancelled :: channel_store where
  "sample_cancelled = sample_run [sample_creation, MC_cancel_setup sample_answers (sample_command ''k2'' 2)]"

lemma sample_cancelled_status: "map ch_organizationalStatus (cs_rows sample_cancelled) = [OS_cancelled]"
  by code_simp

theorem channel_life_cycle_witness:
  "map ch_organizationalStatus (cs_rows (managed_run sample_env (\<lambda>_. Some ''https:'') ''https://lume''
     [MC_request_qr sample_answers (sample_command ''k3'' 3), MC_synchronize sample_answers (sample_command ''k4'' 3)]
     sample_cancelled)) ! 0 = OS_cancelled"
proof -
  have "length (cs_rows sample_cancelled) = 1" "ch_organizationalStatus (cs_rows sample_cancelled ! 0) = OS_cancelled"
    using sample_cancelled_status by (auto simp: map_eq_Cons_conv)
  then show ?thesis using channel_life_cycle [OF _ refl refl refl, of 0 sample_cancelled] by simp
qed

section \<open>Further facts\<close>

text \<open>
  A repeated mutation is safe: when the repository accepts a mutation, the very same mutation, at any later
  time of the clock, is answered again with a channel, is marked as a replay and leaves the store as it is.
\<close>

theorem repeated_mutation_is_replayed:
  assumes "mutate env now input s = (Inr (c, b), s')"
  shows "\<exists>c'. mutate env now' input s' = (Inr (c', True), s') \<and> mc_id c' = mi_channelId input \<and>
    (\<not> b \<longrightarrow> c' = c)"
  using mutate_again [OF assms] .


definition sample_mutation :: mutate_input where
  "sample_mutation = \<lparr>mi_companyId = ''c1'', mi_channelId = ''w1'', mi_commandId = ''k2'', mi_expectedVersion = 2,
     mi_eventName = EN_disconnected, mi_actorUserId = ''u1'',
     mi_patch = no_patch\<lparr>cp_connectionStatus := Some CN_disconnected\<rparr>, mi_metadata = []\<rparr>"

lemma sample_mutated:
  "\<exists>c s'. mutate sample_env 0 sample_mutation (sample_run [sample_creation]) = (Inr (c, False), s')"
proof -
  have "map_sum id snd (fst (mutate sample_env 0 sample_mutation (sample_run [sample_creation]))) = Inr False"
    by code_simp
  then show ?thesis
    by (cases "mutate sample_env 0 sample_mutation (sample_run [sample_creation])"; cases "fst (mutate sample_env 0
      sample_mutation (sample_run [sample_creation]))") auto
qed

theorem repeated_mutation_is_replayed_witness:
  "\<exists>c s'. mutate sample_env 0 sample_mutation (sample_run [sample_creation]) = (Inr (c, False), s') \<and>
     mutate sample_env 5 sample_mutation s' = (Inr (c, True), s')"
proof -
  obtain c s' where m: "mutate sample_env 0 sample_mutation (sample_run [sample_creation]) = (Inr (c, False), s')"
    using sample_mutated by blast
  with repeated_mutation_is_replayed [OF m, of 5] show ?thesis by blast
qed

text \<open>
  The replay stops short of the commands: a cancellation of a pending channel that was accepted is refused when the
  identical command is repeated, whatever the provider answers, and the store stays as it is. The life cycle is checked on the
  channel as it is now, before the repository is asked whether the command is known.
\<close>

theorem repeated_cancellation_refused:
  assumes "cancelSetup env answers input s = (Inr result, s')"
    and "validateCommandId (vc_commandId input) = Inr commandId"
    and "find_event (vc_companyId input) commandId s = None"
  shows "cancelSetup env answers' input s' = (invalid ''only-pending-cancelled'', s') \<and>
    find_event (vc_companyId input) commandId s' \<noteq> None"
proof -
  from cancelled_once [OF assms] obtain row where
    row: "get_channel (vc_companyId input) (vc_channelId input) s' = Some row" "ch_organizationalStatus row = OS_cancelled"
    and v: "configuration_valid row" and e: "find_event (vc_companyId input) commandId s' \<noteq> None" by blast
  have "evolveChannelStatus (toManagedChannel row) CA_cancel_pending (vc_isAdministrator input) = invalid ''only-pending-cancelled''"
  proof -
    obtain c where c: "validateChannelConfiguration (toManagedChannel row) = Inr c"
      using v by (auto simp: configuration_valid_def)
    have "ch_organizationalStatus c = OS_cancelled" using validated_status [OF c] row(2) by simp
    then show ?thesis by (simp add: evolveChannelStatus_def c)
  qed
  then show ?thesis using row(1) e by (simp add: cancelSetup_def bind_op_def required_def return_op_def invalid_def)
qed

lemma sample_cancellation:
  "map_sum id (\<lambda>_. ()) (fst (cancelSetup sample_env sample_answers (sample_command ''k2'' 2) (sample_run [sample_creation]))) = Inr ()"
  "find_event ''c1'' ''k2'' (sample_run [sample_creation]) = None"
  "validateCommandId ''k2'' = Inr ''k2''"
  by code_simp+

theorem repeated_cancellation_refused_witness:
  "\<exists>result s'. cancelSetup sample_env sample_answers (sample_command ''k2'' 2) (sample_run [sample_creation]) = (Inr result, s') \<and>
     cancelSetup sample_env sample_answers (sample_command ''k2'' 2) s' = (invalid ''only-pending-cancelled'', s')"
proof -
  obtain result s' where c: "cancelSetup sample_env sample_answers (sample_command ''k2'' 2) (sample_run [sample_creation]) = (Inr result, s')"
    using sample_cancellation(1) by (cases "cancelSetup sample_env sample_answers (sample_command ''k2'' 2)
      (sample_run [sample_creation])"; cases "fst (cancelSetup sample_env sample_answers (sample_command ''k2'' 2)
      (sample_run [sample_creation]))") auto
  moreover have "validateCommandId (vc_commandId (sample_command ''k2'' 2)) = Inr ''k2''"
    "find_event (vc_companyId (sample_command ''k2'' 2)) ''k2'' (sample_run [sample_creation]) = None"
    using sample_cancellation(2,3) by (simp_all add: sample_command_def)
  ultimately show ?thesis using repeated_cancellation_refused [OF c] by blast
qed

text \<open>
  A disconnection with an old version reaches the provider: the command is answered with a conflict, as the
  versions ask, but the instance of the channel has been disconnected by then, and the log and the rows do not
  show it.
\<close>

theorem stale_disconnection_reaches_provider:
  assumes "get_channel (vc_companyId input) (vc_channelId input) s = Some row"
    and "mc_version row \<noteq> vc_expectedVersion input"
    and "validateChannelConfiguration (toManagedChannel row) = Inr snapshot"
    and "validateCommandId (vc_commandId input) = Inr commandId"
    and "find_event (vc_companyId input) commandId s = None"
    and "ga_disconnect answers = Inr ()"
  shows "disconnect env answers input s = (app_conflict ''channel-updated-elsewhere'',
    s\<lparr>cs_gateway := cs_gateway s @ [G_disconnect (ch_evolutionInstanceName row)]\<rparr>)"
proof -
  have d: "evolveChannelStatus (toManagedChannel row) CA_disconnected (vc_isAdministrator input) =
      Inr (snapshot\<lparr>ch_connectionStatus := CN_disconnected\<rparr>)"
    using assms(3) by (simp add: evolveChannelStatus_def)
  have f: "find_event c i (s\<lparr>cs_gateway := g\<rparr>) = find_event c i s" for c i g by (simp add: find_event_def)
  show ?thesis
    by (simp add: disconnect_def bind_op_def catch_op_def return_op_def required_def assms gateway_def d
        command_mutation_def mutate_def f recordProviderFailure_def providerIssue_def app_conflict_def)
qed


definition sample_row :: channel_row where
  "sample_row = hd (cs_rows (sample_run [sample_creation]))"

lemma sample_rows:
  "map (\<lambda>r. (mc_id r, mc_companyId r, mc_version r, ch_evolutionInstanceName r,
      map_sum id (\<lambda>_. ()) (validateChannelConfiguration (toManagedChannel r)))) (cs_rows (sample_run [sample_creation])) =
    [(''w1'', ''c1'', 2, ''lume-tur-production-vendas'', Inr ())]"
  by code_simp

lemma sample_row:
  "cs_rows (sample_run [sample_creation]) = [sample_row]"
  "mc_id sample_row = ''w1''" "mc_companyId sample_row = ''c1''" "mc_version sample_row = 2"
  "ch_evolutionInstanceName sample_row = ''lume-tur-production-vendas''"
  "map_sum id (\<lambda>_. ()) (validateChannelConfiguration (toManagedChannel sample_row)) = Inr ()"
  using sample_rows by (auto simp: sample_row_def map_eq_Cons_conv)

lemma sample_unused:
  "find_event ''c1'' ''k7'' (sample_run [sample_creation]) = None" "validateCommandId ''k7'' = Inr ''k7''"
  by code_simp+

theorem stale_disconnection_reaches_provider_witness:
  "disconnect sample_env sample_answers (sample_command ''k7'' 1) (sample_run [sample_creation]) =
     (app_conflict ''channel-updated-elsewhere'', (sample_run [sample_creation])\<lparr>cs_gateway :=
        cs_gateway (sample_run [sample_creation]) @ [G_disconnect ''lume-tur-production-vendas'']\<rparr>)"
proof -
  obtain c where c: "validateChannelConfiguration (toManagedChannel sample_row) = Inr c"
    using sample_row(6) by (cases "validateChannelConfiguration (toManagedChannel sample_row)") auto
  have "get_channel ''c1'' ''w1'' (sample_run [sample_creation]) = Some sample_row"
    using sample_row(1-3) by (simp add: get_channel_def)
  then show ?thesis
    using stale_disconnection_reaches_provider [of "sample_command ''k7'' 1" "sample_run [sample_creation]" sample_row c "''k7''"
        sample_answers sample_env] sample_row(4,5) sample_unused c
    by (simp add: sample_command_def sample_answers_def Let_def)
qed

end
