(* ===== verification/Service_Hours.thy ===== *)
theory Service_Hours
  imports Agent_Tools JS_Time
begin

text \<open>
  The hours of human attendance (\<open>domain/whatsapp/human-service-hours.ts\<close>): the parser of the stored
  configuration with its normal form, the decision whether the service is open, and the handoff. The zones of \<open>Intl\<close>
  are a parameter; the date test is the round trip through the calendar of \<open>JS_Time\<close>.
\<close>

section \<open>Values\<close>

record service_interval =
  iv_start :: string
  iv_end :: string

datatype exception_hours = EH_closed | EH_intervals "service_interval list"

text \<open>
  The weekly hours by the day of the week (0 is Sunday) and the exceptions by date; the keys of an
  object are distinct, so each assignment of the loops adds a field.
\<close>

record service_hours =
  sh_timeZone :: string
  sh_weekly :: "(int \<times> service_interval list) list"
  sh_holidays :: "string list"
  sh_exceptions :: "(string \<times> exception_hours) list"

text \<open>
  A time zone of \<open>Intl.DateTimeFormat\<close>: the parts an instant is formatted to (\<open>en-CA\<close>, \<open>h23\<close>), or nothing
  for a zone it does not know.
\<close>

record format_parts =
  fp_year :: string
  fp_month :: string
  fp_day :: string
  fp_weekday :: string
  fp_hour :: string
  fp_minute :: string

type_synonym time_zones = "string \<Rightarrow> int \<Rightarrow> format_parts option"

record local_parts =
  lp_date :: string
  lp_weekday :: "int option"
  lp_minutes :: int

section \<open>Parsing\<close>

text \<open>
  Of a stored value \<open>JUnsupported\<close> is \<open>undefined\<close>; objects of other prototypes have none of the fields.
\<close>

definition objectValue :: "json \<Rightarrow> (string \<times> json) list result" where
  "objectValue v = (case v of JObject members \<Rightarrow> Inr members | JInstance \<Rightarrow> Inr []
     | _ \<Rightarrow> Inl (validationError ''must-be-object''))"

text \<open>\<open>Date.UTC\<close> takes the years 0 to 99 for those of the twentieth century.\<close>

definition utc_day :: "int \<Rightarrow> int \<Rightarrow> int \<Rightarrow> int" where
  "utc_day y m d = make_day (if 0 \<le> y \<and> y \<le> 99 then 1900 + y else y) m d"

definition calendarDate :: "json \<Rightarrow> string result" where
  "calendarDate v = (case v of
       JString s \<Rightarrow> (case match_date_only s of
           None \<Rightarrow> Inl (validationError ''date-format'')
         | Some (year, month, day) \<Rightarrow>
             if civil_of_days (utc_day year month day) \<noteq> (year, month, day)
             then Inl (validationError ''invalid-date'') else Inr s)
     | _ \<Rightarrow> Inl (validationError ''date-format''))"

text \<open>A name that is not in the map gives \<open>undefined\<close>; hours and minutes are texts of digits.\<close>

definition weekdayMap :: "string \<Rightarrow> int option" where
  "weekdayMap = map_of [(''Sun'', 0), (''Mon'', 1), (''Tue'', 2), (''Wed'', 3), (''Thu'', 4), (''Fri'', 5), (''Sat'', 6)]"

definition local_of :: "format_parts \<Rightarrow> local_parts" where
  "local_of parts = \<lparr>lp_date = fp_year parts @ ''-'' @ fp_month parts @ ''-'' @ fp_day parts,
     lp_weekday = weekdayMap (fp_weekday parts),
     lp_minutes = number_of_digits (fp_hour parts) * 60 + number_of_digits (fp_minute parts)\<rparr>"

definition localParts :: "time_zones \<Rightarrow> int \<Rightarrow> string \<Rightarrow> local_parts result" where
  "localParts zones instant timeZone = (case zones timeZone instant of
       None \<Rightarrow> Inl (validationError ''invalid-time-zone'') | Some parts \<Rightarrow> Inr (local_of parts))"

fun match_time :: "string \<Rightarrow> (int \<times> int) option" where
  "match_time [a, b, c, d, e] =
     (if list_all is_digit [a, b, d, e] \<and> c = CHR '':'' then Some (number_of_digits [a, b], number_of_digits [d, e])
      else None)"
| "match_time _ = None"

definition timeToMinutes :: "string \<Rightarrow> int result" where
  "timeToMinutes v = (case match_time v of
       None \<Rightarrow> Inl (validationError ''time-format'')
     | Some (hours, minutes) \<Rightarrow>
         if hours > 23 \<or> minutes > 59 then Inl (validationError ''time-out-of-range'')
         else Inr (hours * 60 + minutes))"

definition interval_row :: "json \<Rightarrow> (service_interval \<times> int \<times> int) result" where
  "interval_row candidate =
     rbind (objectValue candidate) (\<lambda>row.
     case (field row ''start'', field row ''end'') of
       (JString s, JString e) \<Rightarrow>
         (let start = trim s; finish = trim e in
          rbind (timeToMinutes start) (\<lambda>startMinutes.
          rbind (timeToMinutes finish) (\<lambda>endMinutes.
          rbind (throw_if (startMinutes \<ge> endMinutes) (validationError ''interval-ends-after-start'')) (\<lambda>_.
          Inr (\<lparr>iv_start = start, iv_end = finish\<rparr>, startMinutes, endMinutes)))))
     | _ \<Rightarrow> Inl (validationError ''interval-needs-start-end''))"

definition by_start_minutes ::
  "service_interval \<times> int \<times> int \<Rightarrow> service_interval \<times> int \<times> int \<Rightarrow> int" where
  "by_start_minutes left right = fst (snd left) - fst (snd right)"

fun overlapping :: "(service_interval \<times> int \<times> int) list \<Rightarrow> bool" where
  "overlapping (a # b # rest) = (fst (snd b) < snd (snd a) \<or> overlapping (b # rest))"
| "overlapping _ = False"

definition intervals :: "json \<Rightarrow> service_interval list result" where
  "intervals v = (case v of
       JArray values \<Rightarrow>
         if length values > 12 then Inl (validationError ''at-most-12-intervals'')
         else rbind (map_result interval_row values) (\<lambda>rows.
           let normalized = js_sort by_start_minutes rows in
           if overlapping normalized then Inl (validationError ''overlapping-intervals'')
           else Inr (map fst normalized))
     | _ \<Rightarrow> Inl (validationError ''at-most-12-intervals''))"

text \<open>\<open>Object.entries\<close>: the names that are array indices first, by their number, then the others.\<close>

definition is_index :: "string \<Rightarrow> bool" where
  "is_index s \<longleftrightarrow> s = ''0'' \<or> (s \<noteq> [] \<and> list_all is_digit s \<and> hd s \<noteq> CHR ''0'' \<and> number_of_digits s < 4294967295)"

definition own_entries :: "(string \<times> json) list \<Rightarrow> (string \<times> json) list" where
  "own_entries members =
     sort_key (\<lambda>m. number_of_digits (fst m)) (filter (\<lambda>m. is_index (fst m)) members) @
     filter (\<lambda>m. \<not> is_index (fst m)) members"

fun weekday_of :: "string \<Rightarrow> int option" where
  "weekday_of [c] = (if is_digit c \<and> digit_val c \<le> 6 then Some (digit_val c) else None)"
| "weekday_of _ = None"

definition weekly_entry :: "string \<times> json \<Rightarrow> (int \<times> service_interval list) result" where
  "weekly_entry entry = (case weekday_of (fst entry) of
       None \<Rightarrow> Inl (validationError ''invalid-weekday'')
     | Some weekday \<Rightarrow> rbind (intervals (snd entry)) (\<lambda>hours. Inr (weekday, hours)))"

definition exception_entry :: "string \<times> json \<Rightarrow> (string \<times> exception_hours) result" where
  "exception_entry entry =
     rbind (calendarDate (JString (fst entry))) (\<lambda>date.
     if snd entry = JString ''closed'' then Inr (date, EH_closed)
     else rbind (intervals (snd entry)) (\<lambda>hours. Inr (date, EH_intervals hours)))"

text \<open>The instant of \<open>2026-01-05T12:00:00.000Z\<close>, at which the zone is tried.\<close>

definition trial_instant :: int where
  "trial_instant = make_day 2026 1 5 * ms_per_day + 12 * 3600000"

definition parseHumanServiceHours :: "time_zones \<Rightarrow> json \<Rightarrow> service_hours option result" where
  "parseHumanServiceHours zones v =
     (if v = JNull \<or> v = JUnsupported then Inr None
      else
        rbind (objectValue v) (\<lambda>row.
        let timeZone = (case field row ''timeZone'' of JString s \<Rightarrow> trim s | _ \<Rightarrow> []) in
        rbind (throw_if (timeZone = [] \<or> length timeZone > 100) (validationError ''time-zone-required'')) (\<lambda>_.
        rbind (localParts zones trial_instant timeZone) (\<lambda>_.
        rbind (objectValue (field row ''weekly'')) (\<lambda>weeklyValue.
        rbind (map_result weekly_entry (own_entries weeklyValue)) (\<lambda>weekly.
        case field row ''holidays'' of
          JArray dates \<Rightarrow>
            rbind (throw_if (length dates > 366) (validationError ''holidays-list'')) (\<lambda>_.
            rbind (map_result calendarDate dates) (\<lambda>holidays.
            rbind (objectValue (field row ''exceptions'')) (\<lambda>exceptionsValue.
            rbind (throw_if (length exceptionsValue > 366) (validationError ''too-many-exceptions'')) (\<lambda>_.
            rbind (map_result exception_entry (own_entries exceptionsValue)) (\<lambda>exceptions.
            Inr (Some \<lparr>sh_timeZone = timeZone, sh_weekly = weekly, sh_holidays = js_uniq holidays,
              sh_exceptions = exceptions\<rparr>))))))
        | _ \<Rightarrow> Inl (validationError ''holidays-list'')))))))"

section \<open>Opening\<close>

definition includesMinute :: "service_interval \<Rightarrow> int \<Rightarrow> bool result" where
  "includesMinute interval minute =
     rbind (timeToMinutes (iv_start interval)) (\<lambda>start.
     rbind (timeToMinutes (iv_end interval)) (\<lambda>finish.
     rbind (throw_if (start \<ge> finish) (validationError ''interval-ends-after-start'')) (\<lambda>_.
     Inr (minute \<ge> start \<and> minute < finish))))"

text \<open>\<open>Array.prototype.some\<close> with a callback that may throw.\<close>

fun some_result :: "('a \<Rightarrow> bool result) \<Rightarrow> 'a list \<Rightarrow> bool result" where
  "some_result f [] = Inr False"
| "some_result f (x # xs) = rbind (f x) (\<lambda>b. if b then Inr True else some_result f xs)"

definition weekly_hours :: "service_hours \<Rightarrow> int option \<Rightarrow> service_interval list" where
  "weekly_hours schedule weekday = (case weekday of None \<Rightarrow> []
     | Some w \<Rightarrow> (case map_of (sh_weekly schedule) w of Some hours \<Rightarrow> hours | None \<Rightarrow> []))"

text \<open>An override that is \<open>null\<close> or \<open>undefined\<close> is \<open>None\<close>.\<close>

definition isHumanServiceOpen ::
  "time_zones \<Rightarrow> int \<Rightarrow> service_hours option \<Rightarrow> service_hours option \<Rightarrow> bool result" where
  "isHumanServiceOpen zones instant tenantDefault departmentOverride =
     (case (case departmentOverride of Some h \<Rightarrow> Some h | None \<Rightarrow> tenantDefault) of
        None \<Rightarrow> Inr True
      | Some schedule \<Rightarrow>
          rbind (localParts zones instant (sh_timeZone schedule)) (\<lambda>local.
          case map_of (sh_exceptions schedule) (lp_date local) of
            Some EH_closed \<Rightarrow> Inr False
          | Some (EH_intervals hours) \<Rightarrow> some_result (\<lambda>interval. includesMinute interval (lp_minutes local)) hours
          | None \<Rightarrow>
              if lp_date local \<in> set (sh_holidays schedule) then Inr False
              else some_result (\<lambda>interval. includesMinute interval (lp_minutes local))
                (weekly_hours schedule (lp_weekday local))))"

datatype handoff_decision = Continue_ai | Queue_human "string option"

definition decideHumanHandoff :: "bool \<Rightarrow> bool \<Rightarrow> bool \<Rightarrow> string \<Rightarrow> handoff_decision result" where
  "decideHumanHandoff aiCanResolve humanServiceOpen offHoursMessageAlreadySent tenantOffHoursMessage =
     (if aiCanResolve then Inr Continue_ai
      else if humanServiceOpen \<or> offHoursMessageAlreadySent then Inr (Queue_human None)
      else (let message = trim tenantOffHoursMessage in
        if message = [] then Inl (validationError ''configure-off-hours-message'')
        else Inr (Queue_human (Some message))))"

text \<open>\<open>sendAutomaticMessage\<close>, \<open>changeControlMode\<close>, \<open>activateAi\<close>\<close>

definition openingHoursSideEffects :: "bool \<times> bool \<times> bool" where
  "openingHoursSideEffects = (False, False, False)"


section \<open>Normal form\<close>

definition minutes_of :: "string \<Rightarrow> int" where
  "minutes_of s = (case timeToMinutes s of Inr m \<Rightarrow> m | Inl _ \<Rightarrow> 0)"

definition interval_ok :: "service_interval \<Rightarrow> bool" where
  "interval_ok i \<longleftrightarrow> trim (iv_start i) = iv_start i \<and> trim (iv_end i) = iv_end i \<and>
     timeToMinutes (iv_start i) = Inr (minutes_of (iv_start i)) \<and> timeToMinutes (iv_end i) = Inr (minutes_of (iv_end i)) \<and>
     minutes_of (iv_start i) < minutes_of (iv_end i)"

text \<open>The intervals of a day do not overlap and are in the order of the day.\<close>

definition day_ok :: "service_interval list \<Rightarrow> bool" where
  "day_ok hours \<longleftrightarrow> length hours \<le> 12 \<and> list_all interval_ok hours \<and>
     sorted_wrt (\<lambda>a b. minutes_of (iv_end a) \<le> minutes_of (iv_start b)) hours"

lemma timeToMinutes_range:
  assumes "timeToMinutes s = Inr m"
  shows "0 \<le> m \<and> m < 1440 \<and> minutes_of s = m"
proof -
  from assms obtain h n where mt: "match_time s = Some (h, n)" and b: "h \<le> 23" "n \<le> 59" and m: "m = h * 60 + n"
    by (auto simp: timeToMinutes_def split: option.splits if_splits)
  from mt obtain a b c d e where "h = number_of_digits [a, b]" "n = number_of_digits [d, e]"
    "list_all is_digit [a, b]" "list_all is_digit [d, e]"
    by (cases s rule: match_time.cases) (auto split: if_splits)
  with number_of_digits_range [of "[a, b]"] number_of_digits_range [of "[d, e]"] have "0 \<le> h" "0 \<le> n" by simp_all
  with b m assms show ?thesis by (simp add: minutes_of_def)
qed

definition checked_row :: "service_interval \<times> int \<times> int \<Rightarrow> bool" where
  "checked_row r \<longleftrightarrow> interval_ok (fst r) \<and> snd r = (minutes_of (iv_start (fst r)), minutes_of (iv_end (fst r)))"

lemma interval_row_Inr:
  assumes "interval_row v = Inr r"
  obtains row a b m n where "objectValue v = Inr row" and "field row ''start'' = JString a" and "field row ''end'' = JString b"
    and "timeToMinutes (trim a) = Inr m" and "timeToMinutes (trim b) = Inr n" and "m < n"
    and "r = (\<lparr>iv_start = trim a, iv_end = trim b\<rparr>, m, n)"
proof -
  from assms obtain row where row: "objectValue v = Inr row" by (auto simp: interval_row_def result_simps)
  show thesis
  proof (cases "\<exists>a b. field row ''start'' = JString a \<and> field row ''end'' = JString b")
    case True
    then show ?thesis using assms that row by (auto simp: interval_row_def rbind_Inr_iff throw_if_Inr Let_def not_le)
  next
    case False
    then show ?thesis using assms row
      by (cases "field row ''start''"; cases "field row ''end''") (auto simp: interval_row_def)
  qed
qed

lemma interval_row_ok: "interval_row v = Inr r \<Longrightarrow> checked_row r"
  by (erule interval_row_Inr) (auto simp: checked_row_def interval_ok_def dest: timeToMinutes_range)

lemma overlapping_sorted:
  assumes "list_all checked_row rows" and "\<not> overlapping rows"
  shows "sorted_wrt (\<lambda>a b. minutes_of (iv_end a) \<le> minutes_of (iv_start b)) (map fst rows)"
proof -
  have "successively (\<lambda>a b. snd (snd a) \<le> fst (snd b)) rows"
    using assms(2) by (induction rows rule: overlapping.induct) auto
  moreover have "sorted_wrt (\<lambda>a b. minutes_of (iv_end a) \<le> minutes_of (iv_start b)) (map fst rows)"
    if "successively (\<lambda>a b. snd (snd a) \<le> fst (snd b)) rows"
    using assms(1) that
  proof (induction rows)
    case (Cons r rows)
    then have s: "sorted_wrt (\<lambda>a b. minutes_of (iv_end a) \<le> minutes_of (iv_start b)) (map fst rows)"
      by (cases rows) auto
    show ?case
    proof (cases rows)
      case (Cons q qs)
      then have "minutes_of (iv_end (fst r)) \<le> minutes_of (iv_start (fst q))"
        using Cons.prems by (auto simp: checked_row_def)
      moreover have "minutes_of (iv_start (fst q)) < minutes_of (iv_end (fst q))"
        using Cons.prems Cons by (auto simp: checked_row_def interval_ok_def)
      ultimately show ?thesis using s Cons by fastforce
    qed simp
  qed simp
  ultimately show ?thesis by blast
qed

lemma intervals_ok:
  assumes "intervals v = Inr hours"
  shows "day_ok hours"
proof -
  from assms obtain vs where v: "v = JArray vs" by (cases v) (auto simp: intervals_def)
  with assms have l: "length vs \<le> 12" by (auto simp: intervals_def split: if_splits)
  with assms v obtain rows where rows: "map_result interval_row vs = Inr rows"
    and o: "\<not> overlapping (js_sort by_start_minutes rows)" and h: "hours = map fst (js_sort by_start_minutes rows)"
    by (auto simp: intervals_def rbind_Inr_iff Let_def split: if_splits)
  have "list_all checked_row (js_sort by_start_minutes rows)"
    using map_result_in [OF rows] interval_row_ok unfolding list_all_iff set_js_sort by blast
  with overlapping_sorted [OF this o] map_result_length [OF rows] l show ?thesis
    by (auto simp: day_ok_def h list_all_iff checked_row_def)
qed

definition interval_json :: "service_interval \<Rightarrow> json" where
  "interval_json i = JObject [(''start'', JString (iv_start i)), (''end'', JString (iv_end i))]"

lemma interval_row_json:
  "interval_ok i \<Longrightarrow> interval_row (interval_json i) = Inr (i, minutes_of (iv_start i), minutes_of (iv_end i))"
  by (simp add: interval_row_def interval_json_def objectValue_def field_def interval_ok_def Let_def)

lemma intervals_json:
  assumes "day_ok hours"
  shows "intervals (JArray (map interval_json hours)) = Inr hours"
proof -
  let ?row = "\<lambda>i. (i, minutes_of (iv_start i), minutes_of (iv_end i))"
  have "map_result interval_row (map interval_json hours) = Inr (map ?row hours)"
    using assms unfolding map_result_map_arg
    by (intro map_result_total) (simp add: interval_row_json day_ok_def list_all_iff)
  moreover have s: "sorted_wrt (\<lambda>a b. minutes_of (iv_end a) \<le> minutes_of (iv_start b)) hours" "list_all interval_ok hours"
    using assms by (simp_all add: day_ok_def)
  have "sorted_wrt (\<lambda>a b. by_start_minutes (?row a) (?row b) \<le> 0) hours"
    by (rule sorted_wrt_mono_rel [OF _ s(1)]) (use s(2) in \<open>fastforce simp: by_start_minutes_def interval_ok_def list_all_iff\<close>)
  then have "sorted_wrt (\<lambda>x y. by_start_minutes x y \<le> 0) (map ?row hours)"
    by (simp add: sorted_wrt_map)
  moreover have "\<not> overlapping (map ?row hours)" using s
  proof (induction hours)
    case (Cons i hours)
    then show ?case by (cases hours) auto
  qed simp
  ultimately show ?thesis
    using assms by (simp add: intervals_def js_sort_id day_ok_def comp_def)
qed


section \<open>Dates\<close>

lemma century_shift: "day_from_year y + 693500 \<le> day_from_year (1900 + y)"
  using day_from_year_mono [of y "1900 + y"] by simp

lemma month_start_leap: "month_start y m \<le> month_start z m + 1"
  by (simp add: month_start_def)

lemma utc_day_exact: "civil_of_days (utc_day y m d) = (y, m, d) \<longleftrightarrow> valid_civil y m d \<and> \<not> (0 \<le> y \<and> y \<le> 99)"
proof (cases "0 \<le> y \<and> y \<le> 99")
  case False
  then show ?thesis by (auto simp: utc_day_def calendar_round_trip)
next
  case True
  have "False" if c: "civil_of_days (make_day (1900 + y) m d) = (y, m, d)"
  proof -
    from civil_of_days_valid [OF c] have v: "valid_civil y m d" and n: "make_day y m d = make_day (1900 + y) m d" by simp_all
    then have "1 \<le> m" "m \<le> 12" by (simp_all add: valid_civil_def)
    with n century_shift [of y] month_start_leap [of y m "1900 + y"] show False by (simp add: make_day_valid)
  qed
  with True show ?thesis by (auto simp: utc_day_def)
qed

lemma calendarDate_Inr:
  "calendarDate v = Inr s \<longleftrightarrow> v = JString s \<and>
     (\<exists>y m d. match_date_only s = Some (y, m, d) \<and> valid_civil y m d \<and> \<not> (0 \<le> y \<and> y \<le> 99))"
  by (cases v) (auto simp: calendarDate_def utc_day_exact split: option.splits)

section \<open>What parsing gives\<close>

definition hours_ok :: "time_zones \<Rightarrow> service_hours \<Rightarrow> bool" where
  "hours_ok zones h \<longleftrightarrow>
     trim (sh_timeZone h) = sh_timeZone h \<and> sh_timeZone h \<noteq> [] \<and> length (sh_timeZone h) \<le> 100 \<and>
     zones (sh_timeZone h) trial_instant \<noteq> None \<and>
     sorted (map fst (sh_weekly h)) \<and> (\<forall>(weekday, hours)\<in>set (sh_weekly h). 0 \<le> weekday \<and> weekday \<le> 6 \<and> day_ok hours) \<and>
     distinct (sh_holidays h) \<and> length (sh_holidays h) \<le> 366 \<and>
     (\<forall>s\<in>set (sh_holidays h). calendarDate (JString s) = Inr s) \<and>
     length (sh_exceptions h) \<le> 366 \<and>
     (\<forall>(date, e)\<in>set (sh_exceptions h). calendarDate (JString date) = Inr date \<and>
        (case e of EH_closed \<Rightarrow> True | EH_intervals hours \<Rightarrow> day_ok hours))"

lemma weekday_of_range: "weekday_of s = Some w \<Longrightarrow> 0 \<le> w \<and> w \<le> 6 \<and> is_index s \<and> number_of_digits s = w"
  by (cases s rule: weekday_of.cases)
    (auto simp: is_index_def number_of_digits_def dest: digit_val_range split: if_splits)

lemma own_entries_indices:
  "list_all (\<lambda>m. is_index (fst m)) ms \<Longrightarrow> own_entries ms = sort_key (\<lambda>m. number_of_digits (fst m)) ms"
  by (simp add: own_entries_def list_all_iff filter_True filter_False)

lemma own_entries_names: "list_all (\<lambda>m. \<not> is_index (fst m)) ms \<Longrightarrow> own_entries ms = ms"
  by (simp add: own_entries_def list_all_iff filter_True filter_False)

lemma set_own_entries [simp]: "set (own_entries ms) = set ms"
  by (auto simp: own_entries_def)

lemma length_own_entries [simp]: "length (own_entries ms) = length ms"
  by (simp add: own_entries_def sum_length_filter_compl)

lemma weekly_entry_Inr:
  "weekly_entry e = Inr (w, hours) \<longleftrightarrow> weekday_of (fst e) = Some w \<and> intervals (snd e) = Inr hours"
  by (auto simp: weekly_entry_def rbind_Inr_iff split: option.splits)

lemma weekly_sorted:
  assumes "map_result weekly_entry (own_entries ms) = Inr weekly"
  shows "sorted (map fst weekly)"
proof -
  have "list_all2 (\<lambda>e w. weekly_entry e = Inr w) (own_entries ms) weekly" using assms by (simp add: map_result_Inr_iff)
  then have m: "map fst weekly = map (\<lambda>e. number_of_digits (fst e)) (own_entries ms)" and i: "list_all (\<lambda>m. is_index (fst m)) (own_entries ms)"
    by (induction rule: list_all2_induct) (auto simp: weekly_entry_Inr dest: weekday_of_range)
  from i have "list_all (\<lambda>m. is_index (fst m)) ms" by (simp add: list_all_iff)
  then show ?thesis unfolding m by (simp add: own_entries_indices)
qed

lemma parse_Inr:
  assumes "parseHumanServiceHours zones v = Inr (Some h)"
  obtains row weeklyValue dates holidays exceptionsValue where "objectValue v = Inr row"
    and "sh_timeZone h \<noteq> []" and "trim (sh_timeZone h) = sh_timeZone h" and "length (sh_timeZone h) \<le> 100" and "zones (sh_timeZone h) trial_instant \<noteq> None"
    and "map_result weekly_entry (own_entries weeklyValue) = Inr (sh_weekly h)" and "length dates \<le> 366"
    and "map_result calendarDate dates = Inr holidays" and "sh_holidays h = js_uniq holidays"
    and "length exceptionsValue \<le> 366"
    and "map_result exception_entry (own_entries exceptionsValue) = Inr (sh_exceptions h)"
proof -
  define tz where "tz row = (case field row ''timeZone'' of JString s \<Rightarrow> trim s | _ \<Rightarrow> [])" for row
  have tz: "trim (tz row) = tz row" for row by (cases "field row ''timeZone''") (simp_all add: tz_def trim_Nil)
  from assms obtain row where row: "objectValue v = Inr row"
    by (auto simp: parseHumanServiceHours_def rbind_Inr_iff split: if_splits)
  have "\<exists>dates. field row ''holidays'' = JArray dates"
    using assms row by (cases "field row ''holidays''") (auto simp: parseHumanServiceHours_def rbind_Inr_iff Let_def split: if_splits)
  then show thesis using assms row that [OF row] tz [of row, unfolded tz_def]
    by (auto simp: parseHumanServiceHours_def rbind_Inr_iff throw_if_Inr Let_def localParts_def not_less split: if_splits option.splits)
qed


lemma exception_entry_Inr:
  "exception_entry e = Inr (date, x) \<longleftrightarrow> date = fst e \<and> calendarDate (JString date) = Inr date \<and>
     (if snd e = JString ''closed'' then x = EH_closed else \<exists>hours. intervals (snd e) = Inr hours \<and> x = EH_intervals hours)"
  by (auto simp: exception_entry_def rbind_Inr_iff calendarDate_Inr)

lemma parsed_hours_ok:
  assumes "parseHumanServiceHours zones v = Inr (Some h)"
  shows "hours_ok zones h"
proof (rule parse_Inr [OF assms])
  fix row weeklyValue dates holidays exceptionsValue
  assume w: "map_result weekly_entry (own_entries weeklyValue) = Inr (sh_weekly h)"
    and d: "map_result calendarDate dates = Inr holidays" "length dates \<le> 366" "sh_holidays h = js_uniq holidays"
    and e: "map_result exception_entry (own_entries exceptionsValue) = Inr (sh_exceptions h)" "length exceptionsValue \<le> 366"
    and t: "sh_timeZone h \<noteq> []" "trim (sh_timeZone h) = sh_timeZone h" "length (sh_timeZone h) \<le> 100"
      "zones (sh_timeZone h) trial_instant \<noteq> None"
  have "0 \<le> a \<and> a \<le> 6 \<and> day_ok hours" if "(a, hours) \<in> set (sh_weekly h)" for a hours
    using map_result_in [OF w that] by (auto simp: weekly_entry_Inr intervals_ok dest: weekday_of_range)
  moreover have "calendarDate (JString s) = Inr s" if "s \<in> set (sh_holidays h)" for s
  proof -
    have "s \<in> set holidays" using that d(3) by simp
    from map_result_in [OF d(1) this] show ?thesis by (auto simp: calendarDate_Inr)
  qed
  moreover have "calendarDate (JString date) = Inr date \<and> (case x of EH_closed \<Rightarrow> True | EH_intervals hours \<Rightarrow> day_ok hours)"
    if "(date, x) \<in> set (sh_exceptions h)" for date x
    using map_result_in [OF e(1) that] by (auto simp: exception_entry_Inr intervals_ok split: if_splits)
  moreover have "length (sh_holidays h) \<le> 366"
    using d map_result_length [OF d(1)] by (metis js_uniq_def length_remdups_leq length_rev order_trans)
  moreover have "length (sh_exceptions h) \<le> 366" using e map_result_length [OF e(1)] by simp
  ultimately show ?thesis using t weekly_sorted [OF w] d(3) by (fastforce simp: hours_ok_def)
qed

definition weekday_name :: "int \<Rightarrow> string" where
  "weekday_name w = nat_text (nat w)"

text \<open>The parsed hours as the value they are stored as.\<close>

definition exception_json :: "exception_hours \<Rightarrow> json" where
  "exception_json e = (case e of EH_closed \<Rightarrow> JString ''closed'' | EH_intervals hours \<Rightarrow> JArray (map interval_json hours))"

definition hours_json :: "service_hours \<Rightarrow> json" where
  "hours_json h = JObject [(''timeZone'', JString (sh_timeZone h)),
     (''weekly'', JObject (map (\<lambda>(w, hours). (weekday_name w, JArray (map interval_json hours))) (sh_weekly h))),
     (''holidays'', JArray (map JString (sh_holidays h))),
     (''exceptions'', JObject (map (\<lambda>(date, e). (date, exception_json e)) (sh_exceptions h)))]"

lemma weekday_of_name: "0 \<le> w \<Longrightarrow> w \<le> 6 \<Longrightarrow> weekday_of (weekday_name w) = Some w"
proof -
  assume "0 \<le> w" "w \<le> 6"
  then have "w = 0 \<or> w = 1 \<or> w = 2 \<or> w = 3 \<or> w = 4 \<or> w = 5 \<or> w = 6" by arith
  then show ?thesis by (elim disjE; simp only:; code_simp)
qed

lemma date_not_index: "calendarDate (JString s) = Inr s \<Longrightarrow> \<not> is_index s"
  by (cases s rule: match_date_only.cases) (auto simp: calendarDate_Inr is_index_def is_digit_def split: if_splits)

lemma weekly_json:
  assumes "sorted (map fst weekly)" and "\<forall>(w, hours)\<in>set weekly. 0 \<le> w \<and> w \<le> 6 \<and> day_ok hours"
  defines "ms \<equiv> map (\<lambda>(w, hours). (weekday_name w, JArray (map interval_json hours))) weekly"
  shows "map_result weekly_entry (own_entries ms) = Inr weekly"
proof -
  have "list_all (\<lambda>m. is_index (fst m)) ms"
    using assms(2) by (fastforce simp: ms_def list_all_iff dest: weekday_of_range [OF weekday_of_name])
  moreover have "map (\<lambda>m. number_of_digits (fst m)) ms = map fst weekly"
    using assms(2) by (fastforce simp: ms_def dest: weekday_of_range [OF weekday_of_name])
  ultimately have o: "own_entries ms = ms"
    using assms(1) by (simp add: own_entries_indices sort_key_id_if_sorted)
  show ?thesis using assms(2)
    unfolding o unfolding ms_def map_result_map_arg
    by (subst map_result_total [where g = id]) (auto simp: weekly_entry_Inr weekday_of_name intervals_json)
qed

lemma exceptions_json:
  assumes "\<forall>(date, e)\<in>set exceptions. calendarDate (JString date) = Inr date \<and>
    (case e of EH_closed \<Rightarrow> True | EH_intervals hours \<Rightarrow> day_ok hours)"
  defines "ms \<equiv> map (\<lambda>(date, e). (date, exception_json e)) exceptions"
  shows "map_result exception_entry (own_entries ms) = Inr exceptions"
proof -
  have o: "own_entries ms = ms"
    using assms(1) by (intro own_entries_names) (fastforce simp: ms_def list_all_iff dest: date_not_index)
  have e: "exception_entry (date, exception_json e) = Inr (date, e)" if "(date, e) \<in> set exceptions" for date e
    using assms(1) that by (cases e) (fastforce simp: exception_entry_Inr exception_json_def intervals_json)+
  show ?thesis
    unfolding o unfolding ms_def map_result_map_arg by (subst map_result_total [where g = id]) (auto simp: e)
qed

lemma parse_hours_json:
  assumes "hours_ok zones h"
  shows "parseHumanServiceHours zones (hours_json h) = Inr (Some h)"
proof -
  have "map_result calendarDate (map JString (sh_holidays h)) = Inr (sh_holidays h)"
    using assms unfolding map_result_map_arg
    by (subst map_result_total [where g = id]) (auto simp: hours_ok_def)
  with assms weekly_json [of "sh_weekly h"] exceptions_json [of "sh_exceptions h"] show ?thesis
    by (auto simp: parseHumanServiceHours_def hours_json_def objectValue_def field_def hours_ok_def localParts_def throw_if_def)
qed

section \<open>What the hours mean\<close>

definition hours_on :: "service_hours \<Rightarrow> local_parts \<Rightarrow> service_interval list" where
  "hours_on h local = (case map_of (sh_exceptions h) (lp_date local) of
       Some EH_closed \<Rightarrow> []
     | Some (EH_intervals hours) \<Rightarrow> hours
     | None \<Rightarrow> if lp_date local \<in> set (sh_holidays h) then []
         else weekly_hours h (lp_weekday local))"

definition open_at :: "service_interval list \<Rightarrow> int \<Rightarrow> bool" where
  "open_at hours minute \<longleftrightarrow> list_ex (\<lambda>i. minutes_of (iv_start i) \<le> minute \<and> minute < minutes_of (iv_end i)) hours"

lemma some_result_total: "(\<And>x. x \<in> set xs \<Longrightarrow> f x = Inr (P x)) \<Longrightarrow> some_result f xs = Inr (list_ex P xs)"
  by (induction xs) auto

lemma includes_open:
  "list_all interval_ok hours \<Longrightarrow> some_result (\<lambda>i. includesMinute i minute) hours = Inr (open_at hours minute)"
  unfolding open_at_def
  by (rule some_result_total) (auto simp: includesMinute_def list_all_iff interval_ok_def throw_if_def)

lemma hours_on_ok: "hours_ok zones h \<Longrightarrow> day_ok (hours_on h local)"
proof -
  assume h: "hours_ok zones h"
  have "day_ok []" by (simp add: day_ok_def)
  moreover have "day_ok hours" if "map_of (sh_exceptions h) d = Some (EH_intervals hours)" for d hours
    using h map_of_SomeD [OF that] by (fastforce simp: hours_ok_def)
  moreover have "day_ok hours" if "map_of (sh_weekly h) d = Some hours" for d hours
    using h map_of_SomeD [OF that] by (fastforce simp: hours_ok_def)
  ultimately show ?thesis by (auto simp: hours_on_def weekly_hours_def split: option.split exception_hours.split)
qed

lemma open_decided:
  assumes "hours_ok zones h" and "zones (sh_timeZone h) instant = Some parts" and "local = local_of parts"
  shows "isHumanServiceOpen zones instant (Some h) None = Inr (open_at (hours_on h local) (lp_minutes local))"
    and "isHumanServiceOpen zones instant d (Some h) = Inr (open_at (hours_on h local) (lp_minutes local))"
proof -
  have "list_all interval_ok (hours_on h local)" using hours_on_ok [OF assms(1)] by (simp add: day_ok_def)
  note i = includes_open [OF this, of "lp_minutes local"]
  show "isHumanServiceOpen zones instant (Some h) None = Inr (open_at (hours_on h local) (lp_minutes local))"
    "isHumanServiceOpen zones instant d (Some h) = Inr (open_at (hours_on h local) (lp_minutes local))"
    using assms(2,3) i unfolding hours_on_def
    by (auto simp: isHumanServiceOpen_def localParts_def open_at_def split: option.splits exception_hours.splits if_splits)
qed


lemma disjoint_intervals:
  "list_all interval_ok hours \<Longrightarrow> sorted_wrt (\<lambda>a b. minutes_of (iv_end a) \<le> minutes_of (iv_start b)) hours \<Longrightarrow>
     length (filter (\<lambda>i. minutes_of (iv_start i) \<le> m \<and> m < minutes_of (iv_end i)) hours) \<le> 1"
proof (induction hours)
  case (Cons i hours)
  show ?case
  proof (cases "minutes_of (iv_start i) \<le> m \<and> m < minutes_of (iv_end i)")
    case True
    then have "filter (\<lambda>i. minutes_of (iv_start i) \<le> m \<and> m < minutes_of (iv_end i)) hours = []"
      using Cons.prems(2) by (auto simp: filter_empty_conv)
    then show ?thesis by simp
  next
    case False
    then show ?thesis using Cons by auto
  qed
qed simp

lemma match_date_year: "match_date_only s = Some (y, m, d) \<Longrightarrow> 0 \<le> y"
proof -
  assume *: "match_date_only s = Some (y, m, d)"
  then obtain a b c e where "y = number_of_digits [a, b, c, e]" "list_all is_digit [a, b, c, e]"
    by (cases s rule: match_date_only.cases) (auto split: if_splits)
  then show ?thesis using number_of_digits_range [of "[a, b, c, e]"] by simp
qed

section \<open>Properties\<close>

text \<open>
  C26. What the parser returns is a normal form: stored as it is and parsed again, it is accepted unchanged. Its
  zone is known and trimmed, the intervals of every day are times of one day that end after they start, follow
  each other without overlap and are at most twelve, and its holidays and exceptions are dates.
\<close>

theorem parsed_hours_normal_form:
  assumes "parseHumanServiceHours zones v = Inr (Some h)"
  shows "parseHumanServiceHours zones (hours_json h) = Inr (Some h) \<and>
    (\<forall>(weekday, hours)\<in>set (sh_weekly h). 0 \<le> weekday \<and> weekday \<le> 6 \<and> day_ok hours) \<and>
    (\<forall>date e. (date, e) \<in> set (sh_exceptions h) \<longrightarrow> civil_date_text date \<and> (\<forall>hours. e = EH_intervals hours \<longrightarrow> day_ok hours)) \<and>
    list_all civil_date_text (sh_holidays h) \<and> distinct (sh_holidays h)"
proof -
  have ok: "hours_ok zones h" by (rule parsed_hours_ok [OF assms])
  have c: "civil_date_text s" if "calendarDate (JString s) = Inr s" for s
    using that by (auto simp: calendarDate_Inr civil_date_text_def)
  have w: "\<forall>(weekday, hours)\<in>set (sh_weekly h). 0 \<le> weekday \<and> weekday \<le> 6 \<and> day_ok hours"
    using ok unfolding hours_ok_def by blast
  have "civil_date_text date \<and> (\<forall>hours. e = EH_intervals hours \<longrightarrow> day_ok hours)" if "(date, e) \<in> set (sh_exceptions h)" for date e
  proof -
    have "calendarDate (JString date) = Inr date \<and> (case e of EH_closed \<Rightarrow> True | EH_intervals hours \<Rightarrow> day_ok hours)"
      using ok that unfolding hours_ok_def by blast
    then show ?thesis using c by (cases e) simp_all
  qed
  then have e: "\<forall>date e. (date, e) \<in> set (sh_exceptions h) \<longrightarrow>
      civil_date_text date \<and> (\<forall>hours. e = EH_intervals hours \<longrightarrow> day_ok hours)" by simp
  have d: "list_all civil_date_text (sh_holidays h)" "distinct (sh_holidays h)"
    using ok c by (simp_all add: hours_ok_def list_all_iff)
  from parse_hours_json [OF ok] w e d show ?thesis by (intro conjI)
qed

text \<open>A library that knows the zone UTC.\<close>

definition sample_zones :: time_zones where
  "sample_zones timeZone t = (if timeZone = ''UTC'' then
     (let (y, m, d) = civil_of_days (t div ms_per_day); r = t mod ms_per_day in
      Some \<lparr>fp_year = nat_text (nat y), fp_month = pad 2 (nat m), fp_day = pad 2 (nat d),
        fp_weekday = [''Sun'', ''Mon'', ''Tue'', ''Wed'', ''Thu'', ''Fri'', ''Sat''] ! nat ((t div ms_per_day + 4) mod 7),
        fp_hour = pad 2 (nat (r div 3600000)), fp_minute = pad 2 (nat (r div 60000 mod 60))\<rparr>) else None)"

definition sample_hours :: service_hours where
  "sample_hours = \<lparr>sh_timeZone = ''UTC'',
     sh_weekly = [(1, [\<lparr>iv_start = ''08:00'', iv_end = ''12:00''\<rparr>, \<lparr>iv_start = ''13:30'', iv_end = ''18:00''\<rparr>])],
     sh_holidays = [''2026-09-07''],
     sh_exceptions = [(''2026-08-29'', EH_intervals [\<lparr>iv_start = ''09:00'', iv_end = ''12:00''\<rparr>]), (''2026-12-24'', EH_closed)]\<rparr>"

definition sample_value :: json where
  "sample_value = JObject [(''timeZone'', JString '' UTC ''),
     (''weekly'', JObject [(''1'', JArray [JObject [(''start'', JString ''13:30''), (''end'', JString ''18:00'')],
        JObject [(''end'', JString '' 12:00''), (''start'', JString ''08:00'')]])]),
     (''holidays'', JArray [JString ''2026-09-07'', JString ''2026-09-07'']),
     (''exceptions'', JObject [(''2026-08-29'', JArray [JObject [(''start'', JString ''09:00''), (''end'', JString ''12:00'')]]),
        (''2026-12-24'', JString ''closed'')])]"

lemma sample_dates:
  "calendarDate (JString ''2026-08-29'') = Inr ''2026-08-29''" "calendarDate (JString ''2026-12-24'') = Inr ''2026-12-24''"
  "calendarDate (JString ''2026-09-07'') = Inr ''2026-09-07''"
  by (simp_all add: calendarDate_Inr number_of_digits_def is_digit_def digit_val_def code_def valid_civil_def
      days_in_month_def leap_year_def)

lemma sample_intervals:
  "intervals (JArray [JObject [(''start'', JString ''13:30''), (''end'', JString ''18:00'')],
      JObject [(''end'', JString '' 12:00''), (''start'', JString ''08:00'')]]) =
    Inr [\<lparr>iv_start = ''08:00'', iv_end = ''12:00''\<rparr>, \<lparr>iv_start = ''13:30'', iv_end = ''18:00''\<rparr>]"
  "intervals (JArray [JObject [(''start'', JString ''09:00''), (''end'', JString ''12:00'')]]) =
    Inr [\<lparr>iv_start = ''09:00'', iv_end = ''12:00''\<rparr>]"
  "weekday_of ''1'' = Some 1" "trim '' UTC '' = ''UTC''"
  by code_simp+

lemma sample_parsed: "parseHumanServiceHours sample_zones sample_value = Inr (Some sample_hours)"
proof -
  have "\<not> is_index ''2026-08-29''" "\<not> is_index ''2026-12-24''"
    using date_not_index sample_dates(1,2) by blast+
  moreover have "is_index ''1''" using weekday_of_range [OF sample_intervals(3)] by simp
  moreover have "is_digit (CHR ''1'')" "digit_val (CHR ''1'') = 1" by code_simp+
  ultimately show ?thesis
    by (simp add: parseHumanServiceHours_def sample_value_def objectValue_def field_def own_entries_def localParts_def
        sample_zones_def weekly_entry_def case_prod_beta Let_def exception_entry_def sample_dates sample_intervals js_uniq_def sample_hours_def)
qed

theorem parsed_hours_normal_form_witness:
  "parseHumanServiceHours sample_zones (hours_json sample_hours) = Inr (Some sample_hours) \<and> distinct (sh_holidays sample_hours)"
  using parsed_hours_normal_form [OF sample_parsed] by blast

text \<open>
  C27. The hours of attendance of a parsed configuration are decided at every instant, without an error, for a
  library that knows a time zone at every instant or at none: an exception of the local date replaces the hours of the day, a
  holiday closes it, otherwise the hours of the day of the week count; the service is open within one
  of the intervals, its end excluded, and no instant is within two of them.
\<close>

theorem service_hours_decided:
  assumes "parseHumanServiceHours zones v = Inr (Some h)"
    and "\<And>t. zones (sh_timeZone h) t = None \<Longrightarrow> zones (sh_timeZone h) trial_instant = None"
  shows "\<exists>parts local hours. zones (sh_timeZone h) instant = Some parts \<and> local = local_of parts \<and>
    hours = (case map_of (sh_exceptions h) (lp_date local) of
        Some EH_closed \<Rightarrow> []
      | Some (EH_intervals hours) \<Rightarrow> hours
      | None \<Rightarrow> if lp_date local \<in> set (sh_holidays h) then []
          else weekly_hours h (lp_weekday local)) \<and>
    isHumanServiceOpen zones instant tenantDefault (Some h) =
      Inr (\<exists>i\<in>set hours. minutes_of (iv_start i) \<le> lp_minutes local \<and> lp_minutes local < minutes_of (iv_end i)) \<and>
    length (filter (\<lambda>i. minutes_of (iv_start i) \<le> lp_minutes local \<and> lp_minutes local < minutes_of (iv_end i)) hours) \<le> 1"
proof -
  have ok: "hours_ok zones h" by (rule parsed_hours_ok [OF assms(1)])
  with assms(2) obtain parts where l: "zones (sh_timeZone h) instant = Some parts"
    by (cases "zones (sh_timeZone h) instant") (auto simp: hours_ok_def)
  have "length (filter (\<lambda>i. minutes_of (iv_start i) \<le> m \<and> m < minutes_of (iv_end i)) hours) \<le> 1"
    if "day_ok hours" for hours m
    using that disjoint_intervals [of hours] by (simp add: day_ok_def)
  then show ?thesis
    using open_decided(2) [OF ok l refl] hours_on_ok [OF ok, of "local_of parts"] l
    unfolding hours_on_def open_at_def list_ex_iff by blast
qed

lemma sample_local:
  "map_option local_of (sample_zones ''UTC'' (make_day 2026 8 31 * ms_per_day + 14 * 3600000)) =
     Some \<lparr>lp_date = ''2026-08-31'', lp_weekday = Some 1, lp_minutes = 840\<rparr>"
  by code_simp

lemma sample_minutes:
  "minutes_of ''08:00'' = 480" "minutes_of ''12:00'' = 720" "minutes_of ''13:30'' = 810" "minutes_of ''18:00'' = 1080"
  by code_simp+

theorem service_hours_decided_witness:
  "isHumanServiceOpen sample_zones (make_day 2026 8 31 * ms_per_day + 14 * 3600000) None (Some sample_hours) = Inr True"
proof -
  have s: "sh_timeZone sample_hours = ''UTC''" by (simp add: sample_hours_def)
  have "sample_zones (sh_timeZone sample_hours) t = None \<Longrightarrow> sample_zones (sh_timeZone sample_hours) trial_instant = None" for t
    by (simp add: sample_zones_def s Let_def case_prod_beta)
  from service_hours_decided [OF sample_parsed this, where instant = "make_day 2026 8 31 * ms_per_day + 14 * 3600000" and tenantDefault = None]
  show ?thesis using sample_local unfolding s
    by (auto simp: sample_hours_def sample_minutes weekly_hours_def)
qed

text \<open>
  C28. The date test of the configuration, which writes a date down and reads it back through the calendar of the
  language, accepts exactly the texts of the form \<open>AAAA-MM-DD\<close> of days of the Gregorian calendar from the year
  100 on.
\<close>

theorem calendar_date_exact:
  "calendarDate v = Inr s \<longleftrightarrow> v = JString s \<and>
     (\<exists>y m d. match_date_only s = Some (y, m, d) \<and> 1 \<le> m \<and> m \<le> 12 \<and> 1 \<le> d \<and> d \<le> days_in_month y m \<and> 100 \<le> y)"
proof -
  have "\<not> (0 \<le> y \<and> y \<le> 99) \<longleftrightarrow> 100 \<le> y" if "match_date_only s = Some (y, m, d)" for y m d
    using match_date_year [OF that] by auto
  then show ?thesis unfolding calendarDate_Inr valid_civil_def by blast
qed

end
