(* ===== verification/Consolidation.thy ===== *)
theory Consolidation
  imports App_Error JS_Time
begin

text \<open>
  The consolidation of duplicate registrations (\<open>domain/registrations/registration-consolidation.ts\<close>): the preview with its
  blockers, the prepared application with its reversal recipe, and the prepared reversal. \<open>Date.parse\<close> is a
  parameter. What a transfer means for the references of a store is stated here; the code only prepares it.
\<close>

section \<open>Values\<close>

datatype registration_type = RG_pf | RG_pj

text \<open>A type that arrives from outside may be none of the two.\<close>

record 'ty consolidation_candidate =
  cc_id :: string
  cc_companyId :: string
  cc_type :: 'ty
  cc_version :: js_number
  cc_duplicateOfRegistrationId :: "string option"

record validated_candidate =
  vd_id :: string
  vd_companyId :: string
  vd_type :: registration_type
  vd_version :: int

record transfer_candidate =
  tc_resourceType :: string
  tc_resourceId :: string
  tc_referenceField :: string
  tc_companyId :: string
  tc_fromRegistrationId :: string
  tc_toRegistrationId :: string
  tc_reversible :: bool
  tc_collisionWithResourceId :: "string option"

record preview_input =
  pi_companyId :: string
  pi_principal :: "registration_type option consolidation_candidate"
  pi_duplicate :: "registration_type option consolidation_candidate"
  pi_transfers :: "transfer_candidate list"
  pi_applicationAvailable :: bool

record transfer =
  tf_resourceType :: string
  tf_resourceId :: string
  tf_referenceField :: string
  tf_companyId :: string
  tf_from :: string
  tf_to :: string

datatype blocker =
    Application_not_available
  | Target_collision string string string string
  | Duplicate_transfer string string string
  | Non_reversible_transfer string string string

record preview =
  pw_companyId :: string
  pw_type :: registration_type
  pw_principalId :: string
  pw_duplicateId :: string
  pw_principalVersion :: int
  pw_duplicateVersion :: int
  pw_transfers :: "transfer list"
  pw_blockers :: "blocker list"
  pw_canApply :: bool

text \<open>A time stamp given as a text or as a \<open>Date\<close>.\<close>

datatype instant_input = Instant_text string | Instant_date js_date

record consolidation_evidence =
  ce_commandId :: string
  ce_actorUserId :: string
  ce_reason :: string
  ce_confirmedAt :: instant_input
  ce_explicitlyConfirmed :: bool

record confirmation = consolidation_evidence +
  cf_companyId :: string
  cf_type :: "registration_type option"
  cf_principalId :: string
  cf_duplicateId :: string

record normalized_evidence =
  ne_commandId :: string
  ne_actorUserId :: string
  ne_reason :: string
  ne_confirmedAt :: string

text \<open>The marker of the duplicate: the registration and what it is a duplicate of.\<close>

record application =
  ap_companyId :: string
  ap_type :: registration_type
  ap_principalId :: string
  ap_duplicateId :: string
  ap_principalVersion :: int
  ap_duplicateVersion :: int
  ap_evidence :: normalized_evidence
  ap_transfers :: "transfer list"
  ap_duplicateMarker :: "string \<times> string option"
  ap_reversalTransfers :: "transfer list"
  ap_reversalMarker :: "string \<times> string option"

record reversal_input =
  ri_companyId :: string
  ri_principalId :: string
  ri_duplicateId :: string
  ri_principalVersion :: js_number
  ri_duplicateVersion :: js_number
  ri_evidence :: consolidation_evidence
  ri_collisionResourceKeys :: "string list"

record reversal =
  rv_reversesCommandId :: string
  rv_companyId :: string
  rv_type :: registration_type
  rv_principalId :: string
  rv_duplicateId :: string
  rv_principalVersion :: int
  rv_duplicateVersion :: int
  rv_evidence :: normalized_evidence
  rv_transfers :: "transfer list"
  rv_duplicateMarker :: "string \<times> string option"

section \<open>Checked texts\<close>

definition is_hex :: "char \<Rightarrow> bool" where
  "is_hex c \<longleftrightarrow> is_digit c \<or> c \<in> set ''abcdefABCDEF''"

text \<open>\<open>UUID_PATTERN\<close>\<close>

definition uuid_pattern :: "string \<Rightarrow> bool" where
  "uuid_pattern s \<longleftrightarrow> length s = 36 \<and>
     list_all (\<lambda>i. if i \<in> set [8, 13, 18, 23] then s ! i = CHR ''-'' else is_hex (s ! i)) [0..<36]"

text \<open>A UUID of version 4, in any case, as the patterns of opaque tokens ask for.\<close>

definition uuid_v4 :: "string \<Rightarrow> bool" where
  "uuid_v4 s \<longleftrightarrow> uuid_pattern s \<and> s ! 14 = CHR ''4'' \<and> s ! 19 \<in> set ''89abAB''"

definition uuid :: "string \<Rightarrow> string \<Rightarrow> string result" where
  "uuid v label =
     (let normalized = trim v in
      if \<not> uuid_pattern normalized then Inl (validationError label) else Inr (to_lower normalized))"

definition checked_text :: "string \<Rightarrow> string \<Rightarrow> nat \<Rightarrow> string result" where
  "checked_text v label maxLength =
     (let normalized = trim (collapse_ws v) in
      if normalized = [] then Inl (validationError label)
      else if length normalized > maxLength then Inl (validationError (label @ ''-length'')) else Inr normalized)"

definition version :: "js_number \<Rightarrow> string \<Rightarrow> int result" where
  "version v label = (case positive_integer v of None \<Rightarrow> Inl (validationError label) | Some n \<Rightarrow> Inr n)"

text \<open>\<open>parse\<close> is \<open>Date.parse\<close>; the range of a date ends within the years \<open>toISOString\<close> writes.\<close>

definition date_of :: "(string \<Rightarrow> js_date) \<Rightarrow> instant_input \<Rightarrow> js_date" where
  "date_of parse v = (case v of Instant_text s \<Rightarrow> parse s | Instant_date d \<Rightarrow> d)"

definition evidence :: "(string \<Rightarrow> js_date) \<Rightarrow> 'a consolidation_evidence_scheme \<Rightarrow> normalized_evidence result" where
  "evidence parse v =
     rbind (uuid (ce_commandId v) ''command-id'') (\<lambda>commandId.
     rbind (uuid (ce_actorUserId v) ''actor-id'') (\<lambda>actorUserId.
     rbind (checked_text (ce_reason v) ''consolidation-reason'' 1000) (\<lambda>reason.
     case date_of parse (ce_confirmedAt v) of
       None \<Rightarrow> Inl (validationError ''confirmed-at'')
     | Some confirmedAt \<Rightarrow>
         if \<not> ce_explicitlyConfirmed v then Inl (validationError ''explicit-confirmation'')
         else Inr \<lparr>ne_commandId = commandId, ne_actorUserId = actorUserId, ne_reason = reason,
           ne_confirmedAt = iso_string confirmedAt\<rparr>)))"

definition validatedCandidate ::
  "registration_type option consolidation_candidate \<Rightarrow> string \<Rightarrow> string \<Rightarrow> validated_candidate result" where
  "validatedCandidate v label companyId =
     rbind (uuid (cc_id v) (''id-'' @ label)) (\<lambda>i.
     rbind (uuid (cc_companyId v) (''tenant-'' @ label)) (\<lambda>candidateCompanyId.
     if candidateCompanyId \<noteq> companyId then Inl (validationError ''same-tenant'')
     else case cc_type v of None \<Rightarrow> Inl (validationError ''registration-type'')
     | Some ty \<Rightarrow>
         rbind (case cc_duplicateOfRegistrationId v of
             Some d \<Rightarrow> if d \<noteq> [] then rbind (uuid d (''duplicate-of-'' @ label)) (\<lambda>_. Inl (validationError ''already-duplicate''))
               else Inr ()
           | None \<Rightarrow> Inr ()) (\<lambda>_.
         rbind (version (cc_version v) (''version-'' @ label)) (\<lambda>n.
         Inr \<lparr>vd_id = i, vd_companyId = candidateCompanyId, vd_type = ty, vd_version = n\<rparr>))))"

section \<open>Preview\<close>

definition transferKey :: "transfer \<Rightarrow> string" where
  "transferKey t = tf_resourceType t @ CHR 0x00 # tf_resourceId t @ CHR 0x00 # tf_referenceField t"

text \<open>The loop body: the transfer, and the blockers with the keys seen so far.\<close>

definition transfer_of :: "string \<Rightarrow> string \<Rightarrow> string \<Rightarrow> transfer_candidate \<Rightarrow> transfer result" where
  "transfer_of companyId principalId duplicateId candidate =
     rbind (uuid (tc_companyId candidate) ''transfer-tenant'') (\<lambda>transferCompanyId.
     rbind (uuid (tc_fromRegistrationId candidate) ''transfer-from'') (\<lambda>fromId.
     rbind (uuid (tc_toRegistrationId candidate) ''transfer-to'') (\<lambda>toId.
     rbind (throw_if (transferCompanyId \<noteq> companyId) (validationError ''transfer-other-tenant'')) (\<lambda>_.
     rbind (throw_if (fromId \<noteq> duplicateId \<or> toId \<noteq> principalId) (validationError ''transfer-direction'')) (\<lambda>_.
     rbind (checked_text (tc_resourceType candidate) ''transfer-type'' 100) (\<lambda>resourceType.
     rbind (checked_text (tc_resourceId candidate) ''resource-id'' 200) (\<lambda>resourceId.
     rbind (checked_text (tc_referenceField candidate) ''reference-field'' 100) (\<lambda>referenceField.
     Inr \<lparr>tf_resourceType = resourceType, tf_resourceId = resourceId, tf_referenceField = referenceField,
       tf_companyId = transferCompanyId, tf_from = fromId, tf_to = toId\<rparr>))))))))"

definition transfer_blockers :: "string set \<Rightarrow> transfer_candidate \<Rightarrow> transfer \<Rightarrow> blocker list result" where
  "transfer_blockers seen candidate t =
     (let ty = tf_resourceType t; i = tf_resourceId t; field = tf_referenceField t;
          repeated = (if transferKey t \<in> seen then [Duplicate_transfer ty i field] else []);
          lasting = (if \<not> tc_reversible candidate then [Non_reversible_transfer ty i field] else [])
      in case tc_collisionWithResourceId candidate of
           None \<Rightarrow> Inr (repeated @ lasting)
         | Some c \<Rightarrow> rbind (checked_text c ''collision-id'' 200) (\<lambda>collision.
             Inr (repeated @ lasting @ [Target_collision ty i field collision])))"

fun preview_transfers ::
  "string \<Rightarrow> string \<Rightarrow> string \<Rightarrow> string set \<Rightarrow> transfer_candidate list \<Rightarrow> (transfer list \<times> blocker list) result" where
  "preview_transfers companyId principalId duplicateId seen [] = Inr ([], [])"
| "preview_transfers companyId principalId duplicateId seen (candidate # rest) =
     rbind (transfer_of companyId principalId duplicateId candidate) (\<lambda>t.
     rbind (transfer_blockers seen candidate t) (\<lambda>bs.
     rbind (preview_transfers companyId principalId duplicateId (insert (transferKey t) seen) rest) (\<lambda>(ts, bs').
     Inr (t # ts, bs @ bs'))))"

definition createRegistrationConsolidationPreview :: "preview_input \<Rightarrow> preview result" where
  "createRegistrationConsolidationPreview input =
     rbind (uuid (pi_companyId input) ''consolidation-tenant'') (\<lambda>companyId.
     rbind (validatedCandidate (pi_principal input) ''principal'' companyId) (\<lambda>principal.
     rbind (validatedCandidate (pi_duplicate input) ''duplicado'' companyId) (\<lambda>duplicate.
     rbind (throw_if (vd_id principal = vd_id duplicate) (validationError ''different-ids'')) (\<lambda>_.
     rbind (throw_if (vd_type principal \<noteq> vd_type duplicate) (validationError ''same-type'')) (\<lambda>_.
     rbind (preview_transfers companyId (vd_id principal) (vd_id duplicate) {} (pi_transfers input)) (\<lambda>(ts, bs).
     let blockers = (if \<not> pi_applicationAvailable input then [Application_not_available] else []) @ bs in
     Inr \<lparr>pw_companyId = companyId, pw_type = vd_type principal, pw_principalId = vd_id principal,
       pw_duplicateId = vd_id duplicate, pw_principalVersion = vd_version principal,
       pw_duplicateVersion = vd_version duplicate, pw_transfers = ts, pw_blockers = blockers,
       pw_canApply = (blockers = [])\<rparr>))))))"

section \<open>Application and reversal\<close>

definition inverse_transfer :: "transfer \<Rightarrow> transfer" where
  "inverse_transfer t = t\<lparr>tf_from := tf_to t, tf_to := tf_from t\<rparr>"

definition inverseTransfers :: "transfer list \<Rightarrow> transfer list" where
  "inverseTransfers ts = map inverse_transfer ts"

definition prepareRegistrationConsolidationApplication ::
  "(string \<Rightarrow> js_date) \<Rightarrow> preview \<Rightarrow> confirmation \<Rightarrow> application result" where
  "prepareRegistrationConsolidationApplication parse preview confirmation =
     (if \<not> pw_canApply preview \<or> pw_blockers preview \<noteq> [] then Inl (conflict ''consolidation-blocked'' None)
      else
        rbind (uuid (cf_companyId confirmation) ''confirmed-tenant'') (\<lambda>companyId.
        rbind (uuid (cf_principalId confirmation) ''confirmed-principal'') (\<lambda>principalId.
        rbind (uuid (cf_duplicateId confirmation) ''confirmed-duplicate'') (\<lambda>duplicateId.
        rbind (throw_if (companyId \<noteq> pw_companyId preview \<or> cf_type confirmation \<noteq> Some (pw_type preview) \<or>
            principalId \<noteq> pw_principalId preview \<or> duplicateId \<noteq> pw_duplicateId preview)
          (validationError ''confirmation-repeats-preview'')) (\<lambda>_.
        rbind (evidence parse confirmation) (\<lambda>ev.
        Inr \<lparr>ap_companyId = pw_companyId preview, ap_type = pw_type preview, ap_principalId = pw_principalId preview,
          ap_duplicateId = pw_duplicateId preview, ap_principalVersion = pw_principalVersion preview,
          ap_duplicateVersion = pw_duplicateVersion preview, ap_evidence = ev, ap_transfers = pw_transfers preview,
          ap_duplicateMarker = (pw_duplicateId preview, Some (pw_principalId preview)),
          ap_reversalTransfers = inverseTransfers (pw_transfers preview),
          ap_reversalMarker = (pw_duplicateId preview, None)\<rparr>))))))"

definition prepareRegistrationConsolidationReversal ::
  "(string \<Rightarrow> js_date) \<Rightarrow> application \<Rightarrow> reversal_input \<Rightarrow> reversal result" where
  "prepareRegistrationConsolidationReversal parse application input =
     rbind (uuid (ri_companyId input) ''reversal-tenant'') (\<lambda>companyId.
     rbind (uuid (ri_principalId input) ''reversal-principal'') (\<lambda>principalId.
     rbind (uuid (ri_duplicateId input) ''reversal-duplicate'') (\<lambda>duplicateId.
     rbind (throw_if (companyId \<noteq> ap_companyId application \<or> principalId \<noteq> ap_principalId application \<or>
         duplicateId \<noteq> ap_duplicateId application) (validationError ''reversal-same-registrations'')) (\<lambda>_.
     rbind (throw_if (ri_collisionResourceKeys input \<noteq> []) (conflict ''reversal-collisions'' None)) (\<lambda>_.
     rbind (evidence parse (ri_evidence input)) (\<lambda>ev.
     rbind (throw_if (ne_commandId ev = ne_commandId (ap_evidence application)) (validationError ''reversal-new-command'')) (\<lambda>_.
     rbind (version (ri_principalVersion input) ''principal-version'') (\<lambda>principalVersion.
     rbind (version (ri_duplicateVersion input) ''duplicate-version'') (\<lambda>duplicateVersion.
     Inr \<lparr>rv_reversesCommandId = ne_commandId (ap_evidence application), rv_companyId = companyId,
       rv_type = ap_type application, rv_principalId = principalId, rv_duplicateId = duplicateId,
       rv_principalVersion = principalVersion, rv_duplicateVersion = duplicateVersion, rv_evidence = ev,
       rv_transfers = ap_reversalTransfers application,
       rv_duplicateMarker = ap_reversalMarker application\<rparr>)))))))))"


section \<open>What a preview promises\<close>

lemma transfer_of_Inr:
  assumes "transfer_of companyId principalId duplicateId c = Inr t"
  shows "tf_companyId t = companyId \<and> tf_from t = duplicateId \<and> tf_to t = principalId \<and>
    tf_resourceType t \<noteq> [] \<and> tf_resourceId t \<noteq> [] \<and> tf_referenceField t \<noteq> []"
  using assms by (auto simp: transfer_of_def result_simps checked_text_def Let_def split: if_splits)

lemma transfer_blockers_Nil:
  "transfer_blockers seen c t = Inr bs \<Longrightarrow>
     bs = [] \<longleftrightarrow> transferKey t \<notin> seen \<and> tc_reversible c \<and> tc_collisionWithResourceId c = None"
  by (auto simp: transfer_blockers_def Let_def rbind_Inr_iff split: option.splits if_splits)

lemma preview_transfers_Inr:
  "preview_transfers companyId principalId duplicateId seen cs = Inr (ts, bs) \<Longrightarrow>
     list_all (\<lambda>t. tf_companyId t = companyId \<and> tf_from t = duplicateId \<and> tf_to t = principalId) ts \<and>
     length ts = length cs \<and>
     (bs = [] \<longleftrightarrow> distinct (map transferKey ts) \<and> set (map transferKey ts) \<inter> seen = {} \<and>
       list_all (\<lambda>c. tc_reversible c \<and> tc_collisionWithResourceId c = None) cs)"
proof (induction cs arbitrary: seen ts bs)
  case Nil
  then show ?case by simp
next
  case (Cons c cs)
  from Cons.prems obtain t us b b' where t: "transfer_of companyId principalId duplicateId c = Inr t"
    and b: "transfer_blockers seen c t = Inr b"
    and r: "preview_transfers companyId principalId duplicateId (insert (transferKey t) seen) cs = Inr (us, b')"
    and eq: "ts = t # us" "bs = b @ b'"
    by (auto simp: rbind_Inr_iff)
  from Cons.IH [OF r] transfer_of_Inr [OF t] transfer_blockers_Nil [OF b] show ?case
    unfolding eq by auto
qed

lemma preview_Inr:
  assumes "createRegistrationConsolidationPreview input = Inr p"
  obtains bs where "preview_transfers (pw_companyId p) (pw_principalId p) (pw_duplicateId p) {} (pi_transfers input) = Inr (pw_transfers p, bs)"
    and "pw_blockers p = (if \<not> pi_applicationAvailable input then [Application_not_available] else []) @ bs"
    and "pw_canApply p \<longleftrightarrow> pw_blockers p = []" and "pw_principalId p \<noteq> pw_duplicateId p"
    and "1 \<le> pw_principalVersion p" and "1 \<le> pw_duplicateVersion p"
  using assms
  by (auto simp: createRegistrationConsolidationPreview_def validatedCandidate_def result_simps Let_def version_def
      positive_integer_Some split: if_splits option.splits)

text \<open>
  What a transfer means: the references of the resources to registrations, each reference named by
  the type and id of the resource and the field; a transfer sets its reference.
\<close>

type_synonym references = "string \<times> string \<times> string \<Rightarrow> string option"

definition reference_of :: "transfer \<Rightarrow> string \<times> string \<times> string" where
  "reference_of t = (tf_resourceType t, tf_resourceId t, tf_referenceField t)"

definition move_reference :: "transfer \<Rightarrow> references \<Rightarrow> references" where
  "move_reference t refs = refs(reference_of t := Some (tf_to t))"

definition move_references :: "transfer list \<Rightarrow> references \<Rightarrow> references" where
  "move_references ts refs = fold move_reference ts refs"

lemma reference_inverse [simp]: "reference_of (inverse_transfer t) = reference_of t" "tf_to (inverse_transfer t) = tf_from t"
  by (simp_all add: reference_of_def inverse_transfer_def)

lemma move_references_outside:
  "k \<notin> reference_of ` set ts \<Longrightarrow> move_references ts refs k = refs k"
  unfolding move_references_def by (induction ts arbitrary: refs) (auto simp: move_reference_def)

lemma move_references_inside:
  "k \<in> reference_of ` set ts \<Longrightarrow> list_all (\<lambda>t. tf_to t = r) ts \<Longrightarrow> move_references ts refs k = Some r"
proof (induction ts arbitrary: refs)
  case (Cons t ts)
  show ?case
  proof (cases "k \<in> reference_of ` set ts")
    case True
    then show ?thesis using Cons by (simp add: move_references_def)
  next
    case False
    then show ?thesis
      using Cons.prems move_references_outside [OF False] by (simp add: move_references_def move_reference_def)
  qed
qed simp

lemma inverse_restores:
  assumes "list_all (\<lambda>t. tf_from t = d) ts" and "list_all (\<lambda>t. refs (reference_of t) = Some d) ts"
  shows "move_references (inverseTransfers ts) (move_references ts refs) = refs"
proof
  fix k
  have i: "reference_of ` set (inverseTransfers ts) = reference_of ` set ts"
    by (simp add: inverseTransfers_def image_image)
  show "move_references (inverseTransfers ts) (move_references ts refs) k = refs k"
  proof (cases "k \<in> reference_of ` set ts")
    case True
    moreover have "list_all (\<lambda>t. tf_to t = d) (inverseTransfers ts)"
      using assms(1) by (simp add: inverseTransfers_def list_all_iff)
    ultimately have "move_references (inverseTransfers ts) (move_references ts refs) k = Some d"
      by (simp add: move_references_inside i)
    moreover have "refs k = Some d" using True assms(2) by (auto simp: list_all_iff)
    ultimately show ?thesis by simp
  next
    case False
    then show ?thesis by (simp add: move_references_outside i)
  qed
qed

lemma application_Inr:
  assumes "prepareRegistrationConsolidationApplication parse p c = Inr a"
  shows "pw_canApply p \<and> pw_blockers p = [] \<and> ap_transfers a = pw_transfers p \<and>
    ap_reversalTransfers a = inverseTransfers (pw_transfers p) \<and> ap_principalId a = pw_principalId p \<and>
    ap_duplicateId a = pw_duplicateId p \<and> ap_companyId a = pw_companyId p \<and>
    ap_duplicateMarker a = (pw_duplicateId p, Some (pw_principalId p)) \<and> ap_reversalMarker a = (pw_duplicateId p, None) \<and>
    ce_explicitlyConfirmed c \<and> ne_reason (ap_evidence a) \<noteq> [] \<and> uuid (ce_commandId c) ''command-id'' = Inr (ne_commandId (ap_evidence a))"
  using assms by (auto simp: prepareRegistrationConsolidationApplication_def evidence_def result_simps checked_text_def Let_def
      split: if_splits option.splits)

lemma reversal_Inr:
  assumes "prepareRegistrationConsolidationReversal parse a i = Inr v"
  shows "rv_transfers v = ap_reversalTransfers a \<and> rv_duplicateMarker v = ap_reversalMarker a \<and>
    rv_reversesCommandId v = ne_commandId (ap_evidence a) \<and> ne_commandId (rv_evidence v) \<noteq> rv_reversesCommandId v \<and>
    rv_principalId v = ap_principalId a \<and> rv_duplicateId v = ap_duplicateId a \<and> ri_collisionResourceKeys i = [] \<and>
    ce_explicitlyConfirmed (ri_evidence i) \<and> 1 \<le> rv_principalVersion v \<and> 1 \<le> rv_duplicateVersion v"
  using assms by (auto simp: prepareRegistrationConsolidationReversal_def evidence_def result_simps version_def positive_integer_Some
      split: if_splits option.splits)


lemma preview_directions:
  assumes "createRegistrationConsolidationPreview input = Inr p"
  shows "list_all (\<lambda>t. tf_companyId t = pw_companyId p \<and> tf_from t = pw_duplicateId p \<and> tf_to t = pw_principalId p) (pw_transfers p)"
  by (rule preview_Inr [OF assms]) (drule preview_transfers_Inr, blast)

section \<open>Properties\<close>


definition sample_id :: "char \<Rightarrow> string" where
  "sample_id c = replicate 8 c @ ''-1111-2222-3333-'' @ replicate 12 c"

definition sample_candidate :: "char \<Rightarrow> registration_type option consolidation_candidate" where
  "sample_candidate c = \<lparr>cc_id = sample_id c, cc_companyId = sample_id (CHR ''c''), cc_type = Some RG_pf, cc_version = JInt 3,
     cc_duplicateOfRegistrationId = None\<rparr>"

definition sample_transfer :: transfer_candidate where
  "sample_transfer = \<lparr>tc_resourceType = ''contract'', tc_resourceId = ''k1'', tc_referenceField = ''clientId'',
     tc_companyId = sample_id (CHR ''C''), tc_fromRegistrationId = sample_id (CHR ''b''),
     tc_toRegistrationId = sample_id (CHR ''A''), tc_reversible = True, tc_collisionWithResourceId = None\<rparr>"

definition sample_input :: preview_input where
  "sample_input = \<lparr>pi_companyId = sample_id (CHR ''c''), pi_principal = sample_candidate (CHR ''a''),
     pi_duplicate = sample_candidate (CHR ''b''), pi_transfers = [sample_transfer], pi_applicationAvailable = True\<rparr>"

definition sample_preview :: preview where
  "sample_preview = \<lparr>pw_companyId = sample_id (CHR ''c''), pw_type = RG_pf, pw_principalId = sample_id (CHR ''a''),
     pw_duplicateId = sample_id (CHR ''b''), pw_principalVersion = 3, pw_duplicateVersion = 3,
     pw_transfers = [\<lparr>tf_resourceType = ''contract'', tf_resourceId = ''k1'', tf_referenceField = ''clientId'',
       tf_companyId = sample_id (CHR ''c''), tf_from = sample_id (CHR ''b''), tf_to = sample_id (CHR ''a'')\<rparr>],
     pw_blockers = [], pw_canApply = True\<rparr>"

lemma sample_previewed: "createRegistrationConsolidationPreview sample_input = Inr sample_preview"
  by code_simp



definition sample_confirmation :: "char \<Rightarrow> confirmation" where
  "sample_confirmation c = \<lparr>ce_commandId = sample_id c, ce_actorUserId = sample_id (CHR ''e''), ce_reason = '' same  person '',
     ce_confirmedAt = Instant_date (Some 0), ce_explicitlyConfirmed = True, cf_companyId = sample_id (CHR ''C''),
     cf_type = Some RG_pf, cf_principalId = sample_id (CHR ''a''), cf_duplicateId = sample_id (CHR ''b'')\<rparr>"

definition sample_reversal :: reversal_input where
  "sample_reversal = \<lparr>ri_companyId = sample_id (CHR ''c''), ri_principalId = sample_id (CHR ''a''),
     ri_duplicateId = sample_id (CHR ''b''), ri_principalVersion = JInt 4, ri_duplicateVersion = JInt 4,
     ri_evidence = consolidation_evidence.truncate (sample_confirmation (CHR ''f'')), ri_collisionResourceKeys = []\<rparr>"

lemma sample_applied:
  "map_sum id ap_duplicateId (prepareRegistrationConsolidationApplication (\<lambda>_. None) sample_preview (sample_confirmation (CHR ''d''))) =
     Inr (sample_id (CHR ''b''))"
  "map_sum id rv_duplicateId (rbind (prepareRegistrationConsolidationApplication (\<lambda>_. None) sample_preview (sample_confirmation (CHR ''d'')))
     (\<lambda>a. prepareRegistrationConsolidationReversal (\<lambda>_. None) a sample_reversal)) = Inr (sample_id (CHR ''b''))"
  by code_simp+


end
