(* ===== verification/Registrations.thy ===== *)
theory Registrations
  imports Brazilian_Documents Agent_Tools Consolidation JS_Regex
begin

text \<open>
  Registrations of persons and companies (\<open>domain/registrations/registration.ts\<close>): the normalization of a registration with its
  names, codes, phones, e-mails, address, document profile and instructions, temporary registrations with their requirements,
  graphs of registrations and their promotion, and the redaction of secrets (\<open>domain/agents/agent-runtime.ts\<close>).
  \<open>Date.parse\<close>, the clock and the random ids are parameters.
\<close>

section \<open>Secrets in texts\<close>

text \<open>\<open>redactPotentialSecrets\<close> of \<open>domain/agents/agent-runtime.ts\<close>: three replacements, the last two keep their group.\<close>

definition openai_key :: regex where
  "openai_key = seq [Word_boundary, lit ''sk-'', Rep (Sat (\<lambda>c. is_word c \<or> c = CHR ''-'')) 8 None, Word_boundary]"

definition secret_end :: regex where
  "secret_end = plus (Sat (\<lambda>c. \<not> is_ws c \<and> c \<noteq> CHR '','' \<and> c \<noteq> CHR '';''))"

definition bearer_prefix :: regex where
  "bearer_prefix = seq [lit_ci ''authorization'', star space, one_of '':='', star space, lit_ci ''bearer'', plus space]"

definition api_key_prefix :: regex where
  "api_key_prefix = seq [lit_ci ''api'', opt (one_of ''_-''), lit_ci ''key'', star space, one_of '':='', star space]"

definition redactPotentialSecrets :: "string \<Rightarrow> string" where
  "redactPotentialSecrets v =
     (let a = replace_all openai_key ''[REDACTED_OPENAI_KEY]'' v;
          b = replace_keeping bearer_prefix secret_end ''[REDACTED]'' a
      in replace_keeping api_key_prefix (Seq (Not_ahead (lit_ci ''[redacted'')) secret_end) ''[REDACTED]'' b)"

text \<open>\<open>/\b(?:env|docker-secret|vault|secret):\/\//iu\<close>\<close>

definition secret_reference :: regex where
  "secret_reference = seq [Word_boundary, alts (map lit_ci [''env'', ''docker-secret'', ''vault'', ''secret'']), lit ''://'']"

section \<open>Codes and texts\<close>

definition REGISTRATION_PHONE_TYPES :: "string list" where
  "REGISTRATION_PHONE_TYPES = [''mobile'', ''commercial'', ''residential'', ''other'']"

definition REGISTRATION_EMAIL_TYPES :: "string list" where
  "REGISTRATION_EMAIL_TYPES = [''personal'', ''commercial'', ''financial'', ''other'']"

definition TEMPORARY_REGISTRATION_DEFAULT_DAYS :: int where
  "TEMPORARY_REGISTRATION_DEFAULT_DAYS = 7"

datatype requirement_code =
    RQ_cpf_before_regularization | RQ_cnpj_before_regularization | RQ_phone_before_regularization
  | RQ_driver_license_before_assignment | RQ_passenger_document_before_list_close
  | RQ_tax_id_before_commercial_commitment

definition compactText :: "string option \<Rightarrow> string option" where
  "compactText v = (case v of None \<Rightarrow> None
     | Some s \<Rightarrow> let t = trim (collapse_ws s) in if t = [] then None else Some t)"

text \<open>\<open>\p{L}\<close> below 256.\<close>

definition is_letter :: "char \<Rightarrow> bool" where
  "is_letter c = (let n = code c in (65 \<le> n \<and> n \<le> 90) \<or> (97 \<le> n \<and> n \<le> 122) \<or> n = 170 \<or> n = 181 \<or> n = 186 \<or>
     (192 \<le> n \<and> n \<noteq> 215 \<and> n \<noteq> 247))"

definition LOWERCASE_NAME_PARTICLES :: "string list" where
  "LOWERCASE_NAME_PARTICLES = [''da'', ''das'', ''de'', ''do'', ''dos'', ''e'']"

text \<open>A letter at the start or after a hyphen or an apostrophe; the curly apostrophe is outside the alphabet.\<close>

fun capitalize_from :: "bool \<Rightarrow> string \<Rightarrow> string" where
  "capitalize_from after [] = []"
| "capitalize_from after (c # cs) =
     (if after \<and> is_letter c then upper_char c else [c]) @ capitalize_from (c = CHR ''-'' \<or> c = CHR 0x27) cs"

definition capitalizeNameSegment :: "string \<Rightarrow> string" where
  "capitalizeNameSegment s = capitalize_from True s"

fun split_spaces :: "string \<Rightarrow> string \<Rightarrow> string list" where
  "split_spaces piece [] = [rev piece]"
| "split_spaces piece (c # cs) = (if c = CHR '' '' then rev piece # split_spaces [] cs else split_spaces (c # piece) cs)"

fun join_spaces :: "string list \<Rightarrow> string" where
  "join_spaces [] = []"
| "join_spaces [s] = s"
| "join_spaces (s # t # ts) = s @ CHR '' '' # join_spaces (t # ts)"

definition normalizePersonName :: "string option \<Rightarrow> string option" where
  "normalizePersonName v = (case compactText v of None \<Rightarrow> None
     | Some s \<Rightarrow> (case split_spaces [] (to_lower s) of [] \<Rightarrow> Some []
         | first # parts \<Rightarrow> Some (join_spaces (capitalizeNameSegment first #
             map (\<lambda>part. if part \<in> set LOWERCASE_NAME_PARTICLES then part else capitalizeNameSegment part) parts))))"

definition hasMeaningfulName :: "string option \<Rightarrow> bool" where
  "hasMeaningfulName v = (case v of None \<Rightarrow> False | Some s \<Rightarrow> s \<noteq> [] \<and> 2 \<le> length (filter is_letter s))"

text \<open>\<open>/^[a-z0-9]+(?:-[a-z0-9]+)*$/\<close>: letters and digits, in pieces that are not empty.\<close>

fun code_from :: "bool \<Rightarrow> string \<Rightarrow> bool" where
  "code_from in_piece [] = in_piece"
| "code_from in_piece (c # cs) =
     (if is_lower c \<or> is_digit c then code_from True cs else c = CHR ''-'' \<and> in_piece \<and> code_from False cs)"

definition code_pattern :: "string \<Rightarrow> bool" where
  "code_pattern s = code_from False s"

definition uniqueCodes :: "string list option \<Rightarrow> string \<Rightarrow> string list result" where
  "uniqueCodes vs what =
     (let codes = js_uniq (filter (\<lambda>c. c \<noteq> []) (map (\<lambda>v. to_lower (trim v)) (case vs of None \<Rightarrow> [] | Some xs \<Rightarrow> xs))) in
      if list_ex (\<lambda>c. \<not> code_pattern c) codes then Inl (validationError (''codes-'' @ what)) else Inr codes)"


section \<open>Addresses and instructions\<close>

record address =
  ad_street :: string
  ad_number :: string
  ad_complement :: "string option"
  ad_district :: string
  ad_postalCode :: string
  ad_city :: string
  ad_state :: string

definition address_length :: "string option \<Rightarrow> nat" where
  "address_length v = (case v of None \<Rightarrow> 0 | Some s \<Rightarrow> length s)"

definition normalized_address :: "address \<Rightarrow> address" where
  "normalized_address v = \<lparr>ad_street = trim (ad_street v), ad_number = trim (ad_number v),
     ad_complement = trim_or_null (ad_complement v), ad_district = trim (ad_district v),
     ad_postalCode = onlyDigits (ad_postalCode v), ad_city = trim (ad_city v),
     ad_state = to_upper (trim (ad_state v))\<rparr>"

definition address_ok :: "address \<Rightarrow> bool" where
  "address_ok a \<longleftrightarrow> \<not> (ad_street a = [] \<or> ad_number a = [] \<or> ad_district a = [] \<or> ad_city a = [] \<or>
     length (ad_street a) > 160 \<or> length (ad_number a) > 30 \<or> length (ad_district a) > 120 \<or> length (ad_city a) > 120 \<or>
     address_length (ad_complement a) > 120 \<or>
     \<not> (length (ad_postalCode a) = 8 \<and> list_all is_digit (ad_postalCode a)) \<or>
     \<not> (length (ad_state a) = 2 \<and> list_all is_upper (ad_state a)))"

definition normalizeRegistrationAddress :: "address option \<Rightarrow> address option result" where
  "normalizeRegistrationAddress v = (case v of None \<Rightarrow> Inr None
     | Some a \<Rightarrow> if address_ok (normalized_address a) then Inr (Some (normalized_address a))
         else Inl (validationError ''complete-address''))"

definition normalizeRegistrationInstructions :: "string option \<Rightarrow> string option result" where
  "normalizeRegistrationInstructions v = (case trim_or_null v of None \<Rightarrow> Inr None
     | Some t \<Rightarrow> if length t > 4000 \<or> redactPotentialSecrets t \<noteq> t \<or> regex_test secret_reference t
         then Inl (validationError ''instructions'') else Inr (Some t))"

section \<open>Phones and e-mails\<close>

record phone_input =
  pn_originalValue :: "string option"
  pn_number :: string
  pn_type :: "string option"
  pn_isPrimary :: bool
  pn_hasWhatsApp :: bool
  pn_whatsappContactId :: "string option"

record phone =
  ph_originalValue :: "string option"
  ph_normalizedValue :: string
  ph_countryCode :: string
  ph_areaCode :: "string option"
  ph_number :: string
  ph_type :: string
  ph_isPrimary :: bool
  ph_hasWhatsApp :: bool
  ph_whatsappContactId :: "string option"

record email_input =
  em_address :: string
  em_type :: "string option"
  em_isPrimary :: bool

record email =
  el_address :: string
  el_type :: string
  el_isPrimary :: bool

text \<open>The country code is always two digits: \<open>55\<close>, or the first two of the number.\<close>

definition phone_of :: "phone_input \<Rightarrow> string \<Rightarrow> string \<Rightarrow> phone" where
  "phone_of v normalizedValue ty =
     (let countryCode = (if take 2 normalizedValue = ''55'' then ''55'' else take 2 normalizedValue);
          local = drop (length countryCode) normalizedValue
      in \<lparr>ph_originalValue = compactText (case pn_originalValue v of Some s \<Rightarrow> Some s | None \<Rightarrow> Some (pn_number v)),
          ph_normalizedValue = normalizedValue, ph_countryCode = countryCode,
          ph_areaCode = (if length local \<ge> 10 then Some (take 2 local) else None),
          ph_number = (if length local \<ge> 10 then drop 2 local else local), ph_type = ty,
          ph_isPrimary = pn_isPrimary v, ph_hasWhatsApp = pn_hasWhatsApp v,
          ph_whatsappContactId = pn_whatsappContactId v\<rparr>)"

fun collect_phones :: "string set \<Rightarrow> phone_input list \<Rightarrow> phone list result" where
  "collect_phones seen [] = Inr []"
| "collect_phones seen (v # vs) = (case normalizeWhatsAppPhone (pn_number v) of
       None \<Rightarrow> Inl (validationError ''phones-with-area-code'')
     | Some normalizedValue \<Rightarrow>
         if normalizedValue \<in> seen then collect_phones seen vs
         else
           (let ty = (case pn_type v of Some t \<Rightarrow> t | None \<Rightarrow> ''mobile'') in
            if ty \<notin> set REGISTRATION_PHONE_TYPES then Inl (validationError ''phone-type'')
            else rbind (collect_phones (insert normalizedValue seen) vs) (\<lambda>ps. Inr (phone_of v normalizedValue ty # ps))))"

definition normalizedPhones :: "phone_input list option \<Rightarrow> phone list result" where
  "normalizedPhones vs =
     rbind (collect_phones {} (case vs of None \<Rightarrow> [] | Some xs \<Rightarrow> xs)) (\<lambda>collected.
     let phones = (case collected of [] \<Rightarrow> []
           | p # ps \<Rightarrow> if list_ex ph_isPrimary collected then collected else p\<lparr>ph_isPrimary := True\<rparr> # ps)
     in if length (filter ph_isPrimary phones) > 1 then Inl (validationError ''one-primary-phone'') else Inr phones)"

text \<open>\<open>/^[^\s@]+@[^\s@]+\.[^\s@]+$/\<close>: one at sign, something before it, and a dot inside what follows.\<close>

definition email_pattern :: "string \<Rightarrow> bool" where
  "email_pattern s \<longleftrightarrow> (let account = takeWhile (\<lambda>c. c \<noteq> CHR ''@'') s; domain = drop (Suc (length account)) s in
     list_all (\<lambda>c. \<not> is_ws c) s \<and> account \<noteq> [] \<and> length account < length s \<and> CHR ''@'' \<notin> set domain \<and>
     CHR ''.'' \<in> set (butlast (tl domain)))"

fun collect_emails :: "string set \<Rightarrow> email_input list \<Rightarrow> email list result" where
  "collect_emails seen [] = Inr []"
| "collect_emails seen (v # vs) =
     (let address = normalizeEmail (em_address v) in
      if address = [] then collect_emails seen vs
      else if \<not> email_pattern address then Inl (validationError ''email-addresses'')
      else if address \<in> seen then collect_emails seen vs
      else
        (let ty = (case em_type v of Some t \<Rightarrow> t | None \<Rightarrow> ''personal'') in
         if ty \<notin> set REGISTRATION_EMAIL_TYPES then Inl (validationError ''email-type'')
         else rbind (collect_emails (insert address seen) vs)
           (\<lambda>es. Inr (\<lparr>el_address = address, el_type = ty, el_isPrimary = em_isPrimary v\<rparr> # es))))"

definition normalizedEmails :: "email_input list option \<Rightarrow> email list result" where
  "normalizedEmails vs =
     rbind (collect_emails {} (case vs of None \<Rightarrow> [] | Some xs \<Rightarrow> xs)) (\<lambda>collected.
     let emails = (case collected of [] \<Rightarrow> []
           | e # es \<Rightarrow> if list_ex el_isPrimary collected then collected else e\<lparr>el_isPrimary := True\<rparr> # es)
     in if length (filter el_isPrimary emails) > 1 then Inl (validationError ''one-primary-email'') else Inr emails)"

section \<open>Document profile\<close>

record profile_dependent =
  dp_name :: string
  dp_birthDate :: string
  dp_relationship :: "string option"

record document_profile =
  df_jobTitle :: "string option"
  df_maritalStatus :: "string option"
  df_militaryDocumentStatus :: string
  df_dependents :: "profile_dependent list"

definition MILITARY_STATUSES :: "string list" where
  "MILITARY_STATUSES = [''applicable'', ''not-applicable'', ''pending-confirmation'']"

definition MARITAL_STATUSES :: "string list" where
  "MARITAL_STATUSES = [''single'', ''married'', ''stable-union'', ''divorced'', ''widowed'', ''not-informed'']"

definition missing :: "json \<Rightarrow> bool" where
  "missing v \<longleftrightarrow> v = JNull \<or> v = JUnsupported"

definition members_of :: "json \<Rightarrow> (string \<times> json) list" where
  "members_of v = (case v of JObject ms \<Rightarrow> ms | _ \<Rightarrow> [])"

text \<open>A text of at most \<open>k\<close> characters, or nothing.\<close>

definition text_up_to :: "nat \<Rightarrow> json \<Rightarrow> bool" where
  "text_up_to k v \<longleftrightarrow> missing v \<or> (case v of JString s \<Rightarrow> length s \<le> k | _ \<Rightarrow> False)"

text \<open>\<open>today\<close> is the date of the clock when the dependent is looked at.\<close>

definition dependent_of :: "string \<Rightarrow> json \<Rightarrow> profile_dependent result" where
  "dependent_of today v =
     (let ms = members_of v in case (field ms ''name'', field ms ''birthDate'') of
        (JString name, JString birthDate) \<Rightarrow>
          if length (trim name) < 2 \<or> length name > 120 \<or> \<not> civil_date_text birthDate \<or>
            code_unit_compare birthDate today > 0 \<or> \<not> text_up_to 60 (field ms ''relationship'')
          then Inl (validationError ''dependent'')
          else Inr \<lparr>dp_name = trim name, dp_birthDate = birthDate,
            dp_relationship = (case field ms ''relationship'' of
                JString r \<Rightarrow> if r = [] then None else Some (trim r) | _ \<Rightarrow> None)\<rparr>
      | _ \<Rightarrow> Inl (validationError ''dependent''))"

definition string_or_none :: "json \<Rightarrow> string option" where
  "string_or_none v = (case v of JString s \<Rightarrow> Some s | _ \<Rightarrow> None)"

definition normalizeRegistrationDocumentProfile ::
  "string \<Rightarrow> json \<Rightarrow> registration_type \<Rightarrow> document_profile option result" where
  "normalizeRegistrationDocumentProfile today v ty =
     (if missing v then Inr None
      else if ty \<noteq> RG_pf then Inl (validationError ''profile-of-person'')
      else
        (let ms = members_of v; marital = field ms ''maritalStatus'' in
         case (v, field ms ''militaryDocumentStatus'', field ms ''dependents'') of
           (JObject _, JString military, JArray dependents) \<Rightarrow>
             if military \<notin> set MILITARY_STATUSES \<or>
               \<not> (missing marital \<or> (case marital of JString s \<Rightarrow> s \<in> set MARITAL_STATUSES | _ \<Rightarrow> False)) \<or>
               \<not> text_up_to 120 (field ms ''jobTitle'') \<or> length dependents > 30
             then Inl (validationError ''document-profile'')
             else rbind (map_result (dependent_of today) dependents) (\<lambda>ds.
               Inr (Some \<lparr>df_jobTitle = trim_or_null (string_or_none (field ms ''jobTitle'')),
                 df_maritalStatus = string_or_none marital, df_militaryDocumentStatus = military, df_dependents = ds\<rparr>))
         | _ \<Rightarrow> Inl (validationError ''document-profile'')))"


section \<open>Registrations\<close>

text \<open>A type or status that arrives from outside may be none of the listed ones: \<open>Some None\<close>.\<close>

datatype registration_status = RS_active | RS_inactive

record registration_input =
  rg_address :: "address option"
  rg_documentProfile :: json
  rg_serviceInstructions :: "string option"
  rg_type :: "registration_type option"
  rg_status :: "registration_status option option"
  rg_avicExternalId :: "string option"
  rg_firstName :: "string option"
  rg_lastName :: "string option"
  rg_legalName :: "string option"
  rg_tradeName :: "string option"
  rg_cpf :: "string option"
  rg_cnpj :: "string option"
  rg_roleCodes :: "string list"
  rg_tagCodes :: "string list option"
  rg_phones :: "phone_input list option"
  rg_emails :: "email_input list option"
  rg_isTemporary :: bool
  rg_temporaryReason :: "string option"
  rg_regularizationDueAt :: "instant_input option"
  rg_temporaryResponsibleUserId :: "string option"

record temporary =
  tm_isTemporary :: bool
  tm_temporaryReason :: "string option"
  tm_regularizationDueAt :: "int option"
  tm_requirements :: "requirement_code list"
  tm_responsibleUserId :: "string option"

record registration =
  rn_type :: registration_type
  rn_status :: registration_status
  rn_address :: "address option"
  rn_documentProfile :: "document_profile option"
  rn_serviceInstructions :: "string option"
  rn_avicExternalId :: "string option"
  rn_firstName :: "string option"
  rn_lastName :: "string option"
  rn_individualName :: "string option"
  rn_legalName :: "string option"
  rn_tradeName :: "string option"
  rn_cpf :: "string option"
  rn_cnpj :: "string option"
  rn_taxId :: string
  rn_roleCodes :: "string list"
  rn_tagCodes :: "string list"
  rn_phones :: "phone list"
  rn_emails :: "email list"
  rn_individualEmail :: "string option"
  rn_individualWhatsapp :: "string option"
  rn_individualPhones :: "(string \<times> string) list"
  rn_legalEmail :: "string option"
  rn_legalWhatsapp :: "string option"
  rn_legalPhones :: "(string \<times> string) list"
  rn_temporary :: temporary

definition registrationOperationalRequirements :: "string list \<Rightarrow> string list \<Rightarrow> requirement_code list" where
  "registrationOperationalRequirements roleCodes tagCodes =
     (if ''driver'' \<in> set roleCodes \<or> ''driver'' \<in> set tagCodes \<or> ''motorista'' \<in> set tagCodes
      then [RQ_driver_license_before_assignment] else []) @
     (if ''passenger'' \<in> set roleCodes then [RQ_passenger_document_before_list_close] else [])"

definition addDays :: "int \<Rightarrow> int \<Rightarrow> int" where
  "addDays t days = t + days * ms_per_day"

definition temporary_requirements ::
  "registration_input \<Rightarrow> string option \<Rightarrow> string option \<Rightarrow> string list \<Rightarrow> phone list \<Rightarrow> requirement_code list" where
  "temporary_requirements input cpf cnpj roleCodes phones = js_uniq
     ((if rg_type input = Some RG_pf \<and> cpf = None then [RQ_cpf_before_regularization] else []) @
      (if rg_type input = Some RG_pj \<and> cnpj = None then [RQ_cnpj_before_regularization] else []) @
      (if rg_type input = Some RG_pf \<and> phones = [] then [RQ_phone_before_regularization] else []) @
      registrationOperationalRequirements roleCodes (case rg_tagCodes input of None \<Rightarrow> [] | Some ts \<Rightarrow> ts) @
      (if (''client'' \<in> set roleCodes \<or> ''supplier'' \<in> set roleCodes) \<and> cpf = None \<and> cnpj = None
       then [RQ_tax_id_before_commercial_commitment] else []))"

definition truthy_instant :: "instant_input option \<Rightarrow> bool" where
  "truthy_instant v = (case v of None \<Rightarrow> False | Some (Instant_text s) \<Rightarrow> s \<noteq> [] | Some (Instant_date _) \<Rightarrow> True)"

definition due_of :: "(string \<Rightarrow> js_date) \<Rightarrow> instant_input option \<Rightarrow> int \<Rightarrow> js_date" where
  "due_of parse v maximumDueAt = (case v of None \<Rightarrow> Some maximumDueAt
     | Some i \<Rightarrow> if truthy_instant v then date_of parse i else Some maximumDueAt)"

definition normalizeTemporaryRegistration ::
  "(string \<Rightarrow> js_date) \<Rightarrow> registration_input \<Rightarrow> int \<Rightarrow> bool \<Rightarrow> string option \<Rightarrow> string option \<Rightarrow> string list \<Rightarrow>
   phone list \<Rightarrow> email list \<Rightarrow> temporary result" where
  "normalizeTemporaryRegistration parse input now allowExpiredDeadline cpf cnpj roleCodes phones emails =
     (if \<not> rg_isTemporary input
      then Inr \<lparr>tm_isTemporary = False, tm_temporaryReason = None, tm_regularizationDueAt = None, tm_requirements = [],
        tm_responsibleUserId = None\<rparr>
      else case compactText (rg_temporaryReason input) of None \<Rightarrow> Inl (validationError ''temporary-reason'')
      | Some reason \<Rightarrow>
          if length reason > 500 then Inl (validationError ''temporary-reason'')
          else if phones = [] \<and> emails = [] then Inl (validationError ''temporary-contact'')
          else case compactText (rg_temporaryResponsibleUserId input) of None \<Rightarrow> Inl (validationError ''temporary-responsible'')
          | Some responsible \<Rightarrow>
              (let maximumDueAt = addDays now TEMPORARY_REGISTRATION_DEFAULT_DAYS in
               case due_of parse (rg_regularizationDueAt input) maximumDueAt of
                 None \<Rightarrow> Inl (validationError ''temporary-due-date'')
               | Some due \<Rightarrow>
                   if (\<not> allowExpiredDeadline \<and> due \<le> now) \<or> due > maximumDueAt
                   then Inl (validationError ''temporary-due-within-7-days'')
                   else Inr \<lparr>tm_isTemporary = True, tm_temporaryReason = Some reason, tm_regularizationDueAt = Some due,
                     tm_requirements = temporary_requirements input cpf cnpj roleCodes phones,
                     tm_responsibleUserId = Some responsible\<rparr>))"

definition tax_id_or_none :: "string option \<Rightarrow> string option" where
  "tax_id_or_none v = (let t = normalizeTaxId (case v of None \<Rightarrow> [] | Some s \<Rightarrow> s) in if t = [] then None else Some t)"

definition person_checks :: "string option \<Rightarrow> string option \<Rightarrow> temporary \<Rightarrow> phone list \<Rightarrow> unit result" where
  "person_checks firstName cpf tm phones =
     (if \<not> hasMeaningfulName firstName then Inl (validationError ''person-name'')
      else if (case cpf of None \<Rightarrow> False | Some c \<Rightarrow> \<not> isValidCpf c) then Inl (validationError ''invalid-cpf'')
      else throw_if (\<not> tm_isTemporary tm \<and> phones = []) (validationError ''person-phone''))"

definition company_checks :: "string option \<Rightarrow> string option \<Rightarrow> temporary \<Rightarrow> unit result" where
  "company_checks legalName cnpj tm =
     (if \<not> hasMeaningfulName legalName then Inl (validationError ''legal-name'')
      else throw_if ((\<not> tm_isTemporary tm \<or> cnpj \<noteq> None) \<and> (case cnpj of None \<Rightarrow> True | Some c \<Rightarrow> \<not> isValidCnpj c))
        (validationError ''valid-cnpj''))"

definition full_name :: "string option \<Rightarrow> string option \<Rightarrow> string option" where
  "full_name firstName lastName =
     (let s = join_spaces (filter (\<lambda>s. s \<noteq> []) (map (\<lambda>v. case v of None \<Rightarrow> [] | Some s \<Rightarrow> s) [firstName, lastName]))
      in if s = [] then None else Some s)"

definition short_id :: "string \<Rightarrow> string" where
  "short_id registrationId = take 12 (filter (\<lambda>c. c \<noteq> CHR ''-'') registrationId)"

definition for_type :: "registration_type \<Rightarrow> registration_type \<Rightarrow> 'a option \<Rightarrow> 'a option" where
  "for_type wanted ty v = (if ty = wanted then v else None)"

definition built_registration ::
  "registration_input \<Rightarrow> string \<Rightarrow> registration_type \<Rightarrow> registration_status \<Rightarrow> string list \<Rightarrow> string list \<Rightarrow> phone list \<Rightarrow>
   email list \<Rightarrow> temporary \<Rightarrow> address option \<Rightarrow> document_profile option \<Rightarrow> string option \<Rightarrow> registration" where
  "built_registration input registrationId ty status roleCodes tagCodes phones emails tm adr profile instructions =
     (let firstName = normalizePersonName (rg_firstName input); lastName = normalizePersonName (rg_lastName input);
          individualName = full_name firstName lastName; legalName = compactText (rg_legalName input);
          cpf = tax_id_or_none (rg_cpf input); cnpj = tax_id_or_none (rg_cnpj input);
          primaryPhone = find ph_isPrimary phones; primaryEmail = find el_isPrimary emails;
          additional = map (\<lambda>p. (ph_normalizedValue p, ph_type p)) (filter (\<lambda>p. Some p \<noteq> primaryPhone) phones)
      in \<lparr>rn_type = ty, rn_status = status, rn_address = adr, rn_documentProfile = profile,
          rn_serviceInstructions = instructions, rn_avicExternalId = compactText (rg_avicExternalId input),
          rn_firstName = firstName, rn_lastName = lastName, rn_individualName = individualName,
          rn_legalName = (if ty = RG_pf then individualName else legalName),
          rn_tradeName = compactText (rg_tradeName input),
          rn_cpf = for_type RG_pf ty cpf, rn_cnpj = for_type RG_pj ty cnpj,
          rn_taxId = (case ty of
              RG_pf \<Rightarrow> (case cpf of Some c \<Rightarrow> c | None \<Rightarrow> ''pf'' @ short_id registrationId)
            | RG_pj \<Rightarrow> (case cnpj of Some c \<Rightarrow> c | None \<Rightarrow> ''pj'' @ short_id registrationId)),
          rn_roleCodes = roleCodes, rn_tagCodes = tagCodes, rn_phones = phones, rn_emails = emails,
          rn_individualEmail = for_type RG_pf ty (map_option el_address primaryEmail),
          rn_individualWhatsapp = for_type RG_pf ty (map_option ph_normalizedValue primaryPhone),
          rn_individualPhones = (if ty = RG_pf then additional else []),
          rn_legalEmail = for_type RG_pj ty (map_option el_address primaryEmail),
          rn_legalWhatsapp = for_type RG_pj ty (map_option ph_normalizedValue primaryPhone),
          rn_legalPhones = (if ty = RG_pj then additional else []),
          rn_temporary = tm\<rparr>)"

text \<open>The clock: the instant of the default \<open>now\<close>, and the date of today.\<close>

definition normalizeRegistrationInput ::
  "(string \<Rightarrow> js_date) \<Rightarrow> string \<Rightarrow> registration_input \<Rightarrow> string \<Rightarrow> int \<Rightarrow> bool \<Rightarrow> registration result" where
  "normalizeRegistrationInput parse today input registrationId now allowExpired =
     (case rg_type input of None \<Rightarrow> Inl (validationError ''person-or-company'')
      | Some ty \<Rightarrow>
          case (case rg_status input of None \<Rightarrow> Some RS_active | Some s \<Rightarrow> s) of None \<Rightarrow> Inl (validationError ''status'')
          | Some status \<Rightarrow>
              rbind (uniqueCodes (Some (rg_roleCodes input)) ''roles'') (\<lambda>roleCodes.
              rbind (throw_if (roleCodes = []) (validationError ''one-role'')) (\<lambda>_.
              rbind (uniqueCodes (rg_tagCodes input) ''tags'') (\<lambda>tagCodes.
              rbind (normalizedPhones (rg_phones input)) (\<lambda>phones.
              rbind (normalizedEmails (rg_emails input)) (\<lambda>emails.
              let cpf = tax_id_or_none (rg_cpf input); cnpj = tax_id_or_none (rg_cnpj input) in
              rbind (normalizeTemporaryRegistration parse input now allowExpired cpf cnpj roleCodes phones emails) (\<lambda>tm.
              rbind (case ty of
                  RG_pf \<Rightarrow> person_checks (normalizePersonName (rg_firstName input)) cpf tm phones
                | RG_pj \<Rightarrow> company_checks (compactText (rg_legalName input)) cnpj tm) (\<lambda>_.
              rbind (normalizeRegistrationAddress (rg_address input)) (\<lambda>adr.
              rbind (normalizeRegistrationDocumentProfile today (rg_documentProfile input) ty) (\<lambda>profile.
              rbind (normalizeRegistrationInstructions (rg_serviceInstructions input)) (\<lambda>instructions.
              Inr (built_registration input registrationId ty status roleCodes tagCodes phones emails tm adr profile
                instructions))))))))))))"

section \<open>Graphs and promotion\<close>

record relationship =
  rl_sourceLocalId :: string
  rl_targetLocalId :: string
  rl_type :: string
  rl_jobTitle :: "string option"
  rl_department :: "string option"
  rl_isPrimary :: "bool option"
  rl_notes :: "string option"

record graph_entry =
  ge_localId :: string
  ge_id :: string
  ge_registration :: registration

text \<open>The ids of the entries are drawn at random: a parameter, one for each entry.\<close>

fun normalized_entries ::
  "(string \<Rightarrow> js_date) \<Rightarrow> string \<Rightarrow> int \<Rightarrow> string set \<Rightarrow> (string \<times> registration_input) list \<Rightarrow> string list \<Rightarrow>
   graph_entry list result" where
  "normalized_entries parse today now localIds [] ids = Inr []"
| "normalized_entries parse today now localIds ((l, input) # rest) ids =
     (let localId = trim l; i = (case ids of [] \<Rightarrow> [] | x # _ \<Rightarrow> x) in
      if localId = [] \<or> localId \<in> localIds then Inl (validationError ''unique-local-id'')
      else rbind (normalizeRegistrationInput parse today input i now False) (\<lambda>r.
        rbind (normalized_entries parse today now (insert localId localIds) rest (drop 1 ids)) (\<lambda>es.
        Inr (\<lparr>ge_localId = localId, ge_id = i, ge_registration = r\<rparr> # es))))"

definition normalized_relationship :: "string set \<Rightarrow> relationship \<Rightarrow> relationship result" where
  "normalized_relationship localIds r =
     (if rl_sourceLocalId r \<notin> localIds \<or> rl_targetLocalId r \<notin> localIds then Inl (validationError ''relationship-target'')
      else if rl_sourceLocalId r = rl_targetLocalId r then Inl (validationError ''relationship-self'')
      else case compactText (Some (rl_type r)) of None \<Rightarrow> Inl (validationError ''relationship-type'')
      | Some ty \<Rightarrow> Inr (r\<lparr>rl_type := ty, rl_jobTitle := compactText (rl_jobTitle r),
          rl_department := compactText (rl_department r), rl_notes := compactText (rl_notes r)\<rparr>))"

definition normalizeRegistrationGraph ::
  "(string \<Rightarrow> js_date) \<Rightarrow> string \<Rightarrow> int \<Rightarrow> string list \<Rightarrow> (string \<times> registration_input) list \<Rightarrow> relationship list \<Rightarrow>
   (graph_entry list \<times> relationship list) result" where
  "normalizeRegistrationGraph parse today now ids registrations relationships =
     (if registrations = [] then Inl (validationError ''one-registration'')
      else if length registrations > 10 then Inl (validationError ''at-most-10-registrations'')
      else if length relationships > 30 then Inl (validationError ''at-most-30-relationships'')
      else rbind (normalized_entries parse today now {} registrations ids) (\<lambda>entries.
        rbind (map_result (normalized_relationship (set (map (\<lambda>e. ge_localId e) entries))) relationships) (\<lambda>rels.
        Inr (entries, rels))))"

datatype promotion_payload =
    Single registration_input
  | Graph string "(string \<times> registration_input) list" "relationship list option"

definition normalizeRegistrationPromotionPayload ::
  "(string \<Rightarrow> js_date) \<Rightarrow> string \<Rightarrow> int \<Rightarrow> string list \<Rightarrow> promotion_payload \<Rightarrow>
   (string \<times> graph_entry list \<times> relationship list) result" where
  "normalizeRegistrationPromotionPayload parse today now ids payload =
     (let (primary, registrations, relationships) = (case payload of
          Single input \<Rightarrow> (''primary'', [(''primary'', input)], Some [])
        | Graph primary registrations relationships \<Rightarrow> (primary, registrations, relationships)) in
      case compactText (Some primary) of None \<Rightarrow> Inl (validationError ''primary-identity'')
      | Some primaryLocalId \<Rightarrow>
          rbind (normalizeRegistrationGraph parse today now ids registrations
              (case relationships of None \<Rightarrow> [] | Some rs \<Rightarrow> rs)) (\<lambda>(entries, rels).
          if \<not> list_ex (\<lambda>e. ge_localId e = primaryLocalId) entries then Inl (validationError ''primary-not-present'')
          else Inr (primaryLocalId, entries, rels)))"

section \<open>Guards\<close>

definition canAuthorizeTemporaryRegistration :: "bool \<Rightarrow> string list \<Rightarrow> string list \<Rightarrow> bool" where
  "canAuthorizeTemporaryRegistration isAdministrator departments permissions \<longleftrightarrow>
     isAdministrator \<or> ''management'' \<in> set departments \<or> ''clients:manage'' \<in> set permissions"

text \<open>On a stored registration an empty number counts as none.\<close>

definition assertRegistrationAllowsCommercialCommitment ::
  "bool \<Rightarrow> requirement_code list \<Rightarrow> string option \<Rightarrow> string option \<Rightarrow> unit result" where
  "assertRegistrationAllowsCommercialCommitment isTemporary requirements cpf cnpj =
     throw_if ((falsy cpf \<and> falsy cnpj) \<or>
         (isTemporary \<and> RQ_tax_id_before_commercial_commitment \<in> set requirements))
       (validationError ''regularize-tax-id'')"

definition assertTemporaryRegistrationCanBeRegularized ::
  "registration_type \<Rightarrow> string option \<Rightarrow> string option \<Rightarrow> 'a list \<Rightarrow> unit result" where
  "assertTemporaryRegistrationCanBeRegularized ty cpf cnpj phones =
     (if ty = RG_pf \<and> falsy cpf then Inl (validationError ''regularize-cpf'')
      else if ty = RG_pj \<and> falsy cnpj then Inl (validationError ''regularize-cnpj'')
      else throw_if (ty = RG_pf \<and> phones = []) (validationError ''regularize-phone''))"

definition normalizeRegistrationSearch :: "string option \<Rightarrow> string option" where
  "normalizeRegistrationSearch v = compactText v"


section \<open>What normalization gives\<close>

lemma uniqueCodes_Inr:
  "uniqueCodes vs what = Inr codes \<Longrightarrow> distinct codes \<and> list_all code_pattern codes"
proof -
  assume u: "uniqueCodes vs what = Inr codes"
  define cs where "cs = js_uniq (filter (\<lambda>c. c \<noteq> []) (map (\<lambda>v. to_lower (trim v)) (case vs of None \<Rightarrow> [] | Some xs \<Rightarrow> xs)))"
  have "codes = cs" "\<not> list_ex (\<lambda>c. \<not> code_pattern c) cs"
    using u unfolding uniqueCodes_def Let_def cs_def [symmetric] by (simp_all split: if_splits)
  then show ?thesis by (simp add: list_ex_iff list_all_iff) (simp add: cs_def)
qed

definition phone_ok :: "phone \<Rightarrow> bool" where
  "phone_ok p \<longleftrightarrow> list_all is_digit (ph_normalizedValue p) \<and> 12 \<le> length (ph_normalizedValue p) \<and>
     length (ph_normalizedValue p) \<le> 15 \<and> ph_type p \<in> set REGISTRATION_PHONE_TYPES \<and>
     ph_countryCode p @ (case ph_areaCode p of None \<Rightarrow> [] | Some a \<Rightarrow> a) @ ph_number p = ph_normalizedValue p"

definition email_ok :: "email \<Rightarrow> bool" where
  "email_ok e \<longleftrightarrow> email_pattern (el_address e) \<and> normalizeEmail (el_address e) = el_address e \<and>
     el_type e \<in> set REGISTRATION_EMAIL_TYPES"

lemma normalized_phone_range:
  assumes "normalizeWhatsAppPhone v = Some n"
  shows "list_all is_digit n \<and> 12 \<le> length n \<and> length n \<le> 15"
  using assms normalizeWhatsAppPhone_Some by blast

lemma phone_of_ok:
  assumes "normalizeWhatsAppPhone v = Some n" and "ty \<in> set REGISTRATION_PHONE_TYPES"
  shows "phone_ok (phone_of i n ty)" and "ph_normalizedValue (phone_of i n ty) = n"
proof -
  show "ph_normalizedValue (phone_of i n ty) = n" by (simp add: phone_of_def Let_def)
  have "take 2 (drop 2 n) @ drop 4 n = drop 2 n" using append_take_drop_id [of 2 "drop 2 n"] by simp
  moreover have "length (take 2 n) = 2" using normalized_phone_range [OF assms(1)] by simp
  ultimately show "phone_ok (phone_of i n ty)"
    using normalized_phone_range [OF assms(1)] assms(2) by (auto simp: phone_of_def phone_ok_def Let_def)
qed

lemma collect_phones_Inr:
  "collect_phones seen vs = Inr ps \<Longrightarrow>
     list_all phone_ok ps \<and> distinct (map ph_normalizedValue ps) \<and> set (map ph_normalizedValue ps) \<inter> seen = {}"
proof (induction seen vs arbitrary: ps rule: collect_phones.induct)
  case (2 seen v vs)
  from "2.prems" obtain n where n: "normalizeWhatsAppPhone (pn_number v) = Some n" by (auto split: option.splits)
  show ?case
  proof (cases "n \<in> seen")
    case True
    then show ?thesis using "2.IH"(1) [OF n] "2.prems" n by simp
  next
    case False
    define ty where "ty = (case pn_type v of Some t \<Rightarrow> t | None \<Rightarrow> ''mobile'')"
    from "2.prems" n False have ty: "ty \<in> set REGISTRATION_PHONE_TYPES" by (auto simp: Let_def ty_def split: if_splits)
    with "2.prems" n False obtain qs where q: "collect_phones (insert n seen) vs = Inr qs" and ps: "ps = phone_of v n ty # qs"
      by (auto simp: Let_def ty_def rbind_Inr_iff)
    from "2.IH"(2) [OF n False refl _ q] ty have
      "list_all phone_ok qs \<and> distinct (map ph_normalizedValue qs) \<and> set (map ph_normalizedValue qs) \<inter> insert n seen = {}"
      by (simp add: ty_def)
    then show ?thesis using phone_of_ok [OF n ty, of v] False by (auto simp: ps)
  qed
qed simp

lemma collect_emails_Inr:
  "collect_emails seen vs = Inr es \<Longrightarrow>
     list_all email_ok es \<and> distinct (map el_address es) \<and> set (map el_address es) \<inter> seen = {}"
proof (induction vs arbitrary: seen es)
  case (Cons v vs)
  define a where "a = normalizeEmail (em_address v)"
  have idem: "normalizeEmail a = a" by (simp add: a_def normalizeEmail_def trim_to_lower to_lower_idem)
  show ?case
  proof (cases "a = [] \<or> a \<in> seen")
    case True
    then show ?thesis using Cons by (auto simp: Let_def a_def split: if_splits)
  next
    case False
    define ty where "ty = (case em_type v of Some t \<Rightarrow> t | None \<Rightarrow> ''personal'')"
    from Cons.prems False obtain fs where p: "email_pattern a" "ty \<in> set REGISTRATION_EMAIL_TYPES"
      and f: "collect_emails (insert a seen) vs = Inr fs"
      and es: "es = \<lparr>el_address = a, el_type = ty, el_isPrimary = em_isPrimary v\<rparr> # fs"
      by (auto simp: Let_def a_def [symmetric] ty_def [symmetric] rbind_Inr_iff split: if_splits)
    from Cons.IH [OF f] p idem False show ?thesis by (auto simp: es email_ok_def)
  qed
qed simp

lemma one_primary:
  assumes "length (filter P xs) \<le> 1" and "list_ex P xs"
  shows "length (filter P xs) = 1"
  using assms by (metis filter_empty_conv le_neq_implies_less length_0_conv less_one list_ex_iff)

definition phones_ok :: "phone list \<Rightarrow> bool" where
  "phones_ok ps \<longleftrightarrow> list_all phone_ok ps \<and> distinct (map ph_normalizedValue ps) \<and>
     (ps \<noteq> [] \<longrightarrow> length (filter ph_isPrimary ps) = 1)"

definition emails_ok :: "email list \<Rightarrow> bool" where
  "emails_ok es \<longleftrightarrow> list_all email_ok es \<and> distinct (map el_address es) \<and>
     (es \<noteq> [] \<longrightarrow> length (filter el_isPrimary es) = 1)"

lemma normalizedPhones_ok: "normalizedPhones vs = Inr ps \<Longrightarrow> phones_ok ps"
proof -
  assume "normalizedPhones vs = Inr ps"
  then obtain qs where q: "collect_phones {} (case vs of None \<Rightarrow> [] | Some xs \<Rightarrow> xs) = Inr qs"
    and ps: "ps = (case qs of [] \<Rightarrow> [] | p # rest \<Rightarrow> if list_ex ph_isPrimary qs then qs else p\<lparr>ph_isPrimary := True\<rparr> # rest)"
    and l: "length (filter ph_isPrimary ps) \<le> 1"
    by (auto simp: normalizedPhones_def rbind_Inr_iff Let_def split: if_splits)
  show ?thesis
  proof (cases qs)
    case Nil
    then show ?thesis using ps by (simp add: phones_ok_def)
  next
    case (Cons p rest)
    have "list_ex ph_isPrimary ps" using ps Cons by auto
    moreover have "phone_ok (p\<lparr>ph_isPrimary := True\<rparr>) = phone_ok p" by (simp add: phone_ok_def)
    ultimately show ?thesis
      using collect_phones_Inr [OF q] ps Cons one_primary [OF l] by (auto simp: phones_ok_def split: if_splits)
  qed
qed

lemma normalizedEmails_ok: "normalizedEmails vs = Inr es \<Longrightarrow> emails_ok es"
proof -
  assume "normalizedEmails vs = Inr es"
  then obtain fs where f: "collect_emails {} (case vs of None \<Rightarrow> [] | Some xs \<Rightarrow> xs) = Inr fs"
    and es: "es = (case fs of [] \<Rightarrow> [] | e # rest \<Rightarrow> if list_ex el_isPrimary fs then fs else e\<lparr>el_isPrimary := True\<rparr> # rest)"
    and l: "length (filter el_isPrimary es) \<le> 1"
    by (auto simp: normalizedEmails_def rbind_Inr_iff Let_def split: if_splits)
  show ?thesis
  proof (cases fs)
    case Nil
    then show ?thesis using es by (simp add: emails_ok_def)
  next
    case (Cons e rest)
    have "list_ex el_isPrimary es" using es Cons by auto
    moreover have "email_ok (e\<lparr>el_isPrimary := True\<rparr>) = email_ok e" by (simp add: email_ok_def)
    ultimately show ?thesis
      using collect_emails_Inr [OF f] es Cons one_primary [OF l] by (auto simp: emails_ok_def split: if_splits)
  qed
qed


lemma normalizeRegistrationInput_Inr:
  assumes "normalizeRegistrationInput parse today input registrationId now allowExpired = Inr r"
  obtains ty status roleCodes tagCodes phones emails tm adr profile instructions where "rg_type input = Some ty"
    and "uniqueCodes (Some (rg_roleCodes input)) ''roles'' = Inr roleCodes" and "roleCodes \<noteq> []"
    and "uniqueCodes (rg_tagCodes input) ''tags'' = Inr tagCodes"
    and "normalizedPhones (rg_phones input) = Inr phones" and "normalizedEmails (rg_emails input) = Inr emails"
    and "normalizeTemporaryRegistration parse input now allowExpired (tax_id_or_none (rg_cpf input))
      (tax_id_or_none (rg_cnpj input)) roleCodes phones emails = Inr tm"
    and "(case ty of RG_pf \<Rightarrow> person_checks (normalizePersonName (rg_firstName input)) (tax_id_or_none (rg_cpf input)) tm phones
      | RG_pj \<Rightarrow> company_checks (compactText (rg_legalName input)) (tax_id_or_none (rg_cnpj input)) tm) = Inr ()"
    and "normalizeRegistrationAddress (rg_address input) = Inr adr"
    and "normalizeRegistrationDocumentProfile today (rg_documentProfile input) ty = Inr profile"
    and "normalizeRegistrationInstructions (rg_serviceInstructions input) = Inr instructions"
    and "r = built_registration input registrationId ty status roleCodes tagCodes phones emails tm adr profile instructions"
proof -
  from assms obtain ty where ty: "rg_type input = Some ty" by (auto simp: normalizeRegistrationInput_def split: option.splits)
  with assms obtain status where st: "(case rg_status input of None \<Rightarrow> Some RS_active | Some s \<Rightarrow> s) = Some status"
    by (cases "case rg_status input of None \<Rightarrow> Some RS_active | Some s \<Rightarrow> s") (auto simp: normalizeRegistrationInput_def)
  show thesis
    using assms unfolding normalizeRegistrationInput_def ty st option.case
    by (auto simp: rbind_Inr_iff throw_if_Inr Let_def intro!: that [OF ty])
qed

lemma built_fields [simp]:
  fixes input i ty st rc tc ps es tm ad pr ins
  defines "b \<equiv> built_registration input i ty st rc tc ps es tm ad pr ins"
  shows "rn_type b = ty" "rn_roleCodes b = rc" "rn_tagCodes b = tc" "rn_phones b = ps" "rn_emails b = es" "rn_temporary b = tm"
    "rn_cpf b = for_type RG_pf ty (tax_id_or_none (rg_cpf input))" "rn_cnpj b = for_type RG_pj ty (tax_id_or_none (rg_cnpj input))"
    "rn_firstName b = normalizePersonName (rg_firstName input)" "rn_serviceInstructions b = ins"
    "rn_address b = ad"
    "ty = RG_pj \<Longrightarrow> rn_legalName b = compactText (rg_legalName input)"
  by (simp_all add: b_def built_registration_def Let_def)

lemma temporary_Inr:
  assumes "normalizeTemporaryRegistration parse input now allowExpired cpf cnpj roleCodes phones emails = Inr tm"
  shows "tm_isTemporary tm = rg_isTemporary input"
    and "tm_isTemporary tm \<Longrightarrow> phones \<noteq> [] \<or> emails \<noteq> []"
    and "tm_isTemporary tm \<Longrightarrow> \<exists>due reason responsible. tm_regularizationDueAt tm = Some due \<and> due \<le> now + 7 * ms_per_day \<and>
      (\<not> allowExpired \<longrightarrow> now < due) \<and> tm_temporaryReason tm = Some reason \<and> reason \<noteq> [] \<and> length reason \<le> 500 \<and>
      tm_responsibleUserId tm = Some responsible \<and> responsible \<noteq> []"
    and "tm_isTemporary tm \<Longrightarrow> tm_requirements tm = temporary_requirements input cpf cnpj roleCodes phones"
    and "\<not> tm_isTemporary tm \<Longrightarrow> tm_requirements tm = [] \<and> tm_regularizationDueAt tm = None"
proof -
  have c: "compactText v = Some t \<Longrightarrow> t \<noteq> []" for v t by (auto simp: compactText_def Let_def split: option.splits if_splits)
  show "tm_isTemporary tm = rg_isTemporary input"
    "tm_isTemporary tm \<Longrightarrow> phones \<noteq> [] \<or> emails \<noteq> []"
    "tm_isTemporary tm \<Longrightarrow> \<exists>due reason responsible. tm_regularizationDueAt tm = Some due \<and> due \<le> now + 7 * ms_per_day \<and>
      (\<not> allowExpired \<longrightarrow> now < due) \<and> tm_temporaryReason tm = Some reason \<and> reason \<noteq> [] \<and> length reason \<le> 500 \<and>
      tm_responsibleUserId tm = Some responsible \<and> responsible \<noteq> []"
    "tm_isTemporary tm \<Longrightarrow> tm_requirements tm = temporary_requirements input cpf cnpj roleCodes phones"
    "\<not> tm_isTemporary tm \<Longrightarrow> tm_requirements tm = [] \<and> tm_regularizationDueAt tm = None"
    using assms by (auto simp: normalizeTemporaryRegistration_def Let_def addDays_def TEMPORARY_REGISTRATION_DEFAULT_DAYS_def
        dest!: c split: if_splits option.splits)
qed

lemma person_checks_Inr [result_simps]:
  "person_checks firstName cpf tm phones = Inr () \<longleftrightarrow> hasMeaningfulName firstName \<and>
     (\<forall>c. cpf = Some c \<longrightarrow> isValidCpf c) \<and> (tm_isTemporary tm \<or> phones \<noteq> [])"
  by (auto simp: person_checks_def throw_if_Inr split: option.splits)

lemma company_checks_Inr [result_simps]:
  "company_checks legalName cnpj tm = Inr () \<longleftrightarrow> hasMeaningfulName legalName \<and>
     (case cnpj of None \<Rightarrow> tm_isTemporary tm | Some c \<Rightarrow> isValidCnpj c)"
  by (auto simp: company_checks_def throw_if_Inr split: option.splits)

lemma instructions_Inr:
  "normalizeRegistrationInstructions v = Inr (Some t) \<Longrightarrow>
     redactPotentialSecrets t = t \<and> \<not> regex_test secret_reference t \<and> length t \<le> 4000 \<and> t \<noteq> [] \<and> trim t = t"
  by (auto simp: normalizeRegistrationInstructions_def dest: trim_or_null_Some split: option.splits if_splits)

lemma registration_type_of:
  assumes "normalizeRegistrationInput parse today input registrationId now allowExpired = Inr r"
  shows "rg_type input = Some (rn_type r)"
  by (rule normalizeRegistrationInput_Inr [OF assms]) simp

lemma registration_cpf_of:
  assumes "normalizeRegistrationInput parse today input registrationId now allowExpired = Inr r"
    and "rg_type input = Some RG_pf" and "tax_id_or_none (rg_cpf input) = Some c"
  shows "rn_cpf r = Some c \<and> rn_taxId r = c"
proof (rule normalizeRegistrationInput_Inr [OF assms(1)])
  fix ty status roleCodes tagCodes phones emails tm adr profile instructions
  assume "r = built_registration input registrationId ty status roleCodes tagCodes phones emails tm adr profile instructions"
    and "rg_type input = Some ty"
  then show ?thesis using assms(2,3) by (simp add: built_registration_def Let_def for_type_def)
qed

lemma letter_after_digits:
  assumes "list_all is_digit d" and "is_upper c"
  shows "normalizeTaxId d = d" and "normalizeTaxId (d @ [c]) = d @ [c]" and "isValidCpf (d @ [c]) = isValidCpf d"
proof -
  have "\<not> is_digit c" using assms(2) by (auto simp: is_upper_def is_digit_def)
  then have "onlyDigits (d @ [c]) = d" "onlyDigits d = d"
    using onlyDigits_id [OF assms(1)] by (simp_all add: onlyDigits_def)
  then show "isValidCpf (d @ [c]) = isValidCpf d" by (simp add: isValidCpf_def Let_def)
  show "normalizeTaxId d = d" "normalizeTaxId (d @ [c]) = d @ [c]"
    using assms by (auto intro!: normalizeTaxId_id simp: list_all_iff alnum_upper_def)
qed

section \<open>Properties\<close>



definition sample_registration :: "string \<Rightarrow> registration_input" where
  "sample_registration cpf = \<lparr>rg_address = None, rg_documentProfile = JNull, rg_serviceInstructions = None,
     rg_type = Some RG_pf, rg_status = None, rg_avicExternalId = None, rg_firstName = Some '' ana  maria'',
     rg_lastName = Some ''da SILVA'', rg_legalName = None, rg_tradeName = None, rg_cpf = Some cpf, rg_cnpj = None,
     rg_roleCodes = ['' Client'', ''client''], rg_tagCodes = Some [''driver''],
     rg_phones = Some [\<lparr>pn_originalValue = None, pn_number = ''(41) 8888-7777'', pn_type = None, pn_isPrimary = False,
       pn_hasWhatsApp = True, pn_whatsappContactId = None\<rparr>], rg_emails = None, rg_isTemporary = False,
     rg_temporaryReason = None, rg_regularizationDueAt = None, rg_temporaryResponsibleUserId = None\<rparr>"

lemma sample_registered:
  "map_sum id (\<lambda>r. (rn_roleCodes r, map ph_normalizedValue (rn_phones r), rn_individualName r, rn_cpf r))
     (normalizeRegistrationInput (\<lambda>_. None) ''2026-01-01'' (sample_registration ''529.982.247-25'') ''x'' 0 False) =
   Inr ([''client''], [''5541988887777''], Some ''Ana Maria Da Silva'', Some ''52998224725'')"
  by code_simp



section \<open>Further facts\<close>

text \<open>
  A letter after a CPF survives: where a person is accepted with a CPF given as digits, the same person with any
  letter appended is accepted too, and is stored with the letter in the CPF and in the tax id, which the
  check of the digits skips; the two registrations of one CPF differ in the tax id.
\<close>

theorem letter_after_cpf_is_stored:
  assumes "normalizeRegistrationInput parse today input registrationId now allowExpired = Inr r"
    and "rg_type input = Some RG_pf" and "rg_cpf input = Some d" and "list_all is_digit d" and "d \<noteq> []" and "is_upper c"
  shows "rn_taxId r = d \<and> (\<exists>r'. normalizeRegistrationInput parse today (input\<lparr>rg_cpf := Some (d @ [c])\<rparr>) registrationId now
      allowExpired = Inr r' \<and> rn_cpf r' = Some (d @ [c]) \<and> rn_taxId r' = d @ [c])"
proof -
  have d: "tax_id_or_none (Some d) = Some d" "tax_id_or_none (Some (d @ [c])) = Some (d @ [c])"
    "isValidCpf (d @ [c]) = isValidCpf d"
    using letter_after_digits [OF assms(4,6)] assms(5) by (simp_all add: tax_id_or_none_def Let_def)
  let ?input = "input\<lparr>rg_cpf := Some (d @ [c])\<rparr>"
  have q: "temporary_requirements ?input (Some (d @ [c])) n rc ps = temporary_requirements input (Some d) n rc ps" for n rc ps
    by (simp add: temporary_requirements_def)
  have u: "rg_isTemporary ?input = rg_isTemporary input" "rg_temporaryReason ?input = rg_temporaryReason input"
    "rg_temporaryResponsibleUserId ?input = rg_temporaryResponsibleUserId input"
    "rg_regularizationDueAt ?input = rg_regularizationDueAt input" by simp_all
  have t: "normalizeTemporaryRegistration parse ?input now allowExpired (Some (d @ [c])) n rc ps es =
      normalizeTemporaryRegistration parse input now allowExpired (Some d) n rc ps es" for n rc ps es
    unfolding normalizeTemporaryRegistration_def q u by simp
  have k: "person_checks f (Some (d @ [c])) x ps = person_checks f (Some d) x ps" for f x ps
    by (simp add: person_checks_def d(3))
  have "rn_taxId r = d" using registration_cpf_of [OF assms(1,2)] assms(3) d(1) by simp
  moreover have "\<exists>r'. normalizeRegistrationInput parse today ?input registrationId now allowExpired = Inr r'"
    using assms(1-3) d(1,2) unfolding normalizeRegistrationInput_def
    by (auto simp: rbind_Inr_iff Let_def t k split: option.splits)
  then obtain r' where r': "normalizeRegistrationInput parse today ?input registrationId now allowExpired = Inr r'" by blast
  moreover have "rn_cpf r' = Some (d @ [c]) \<and> rn_taxId r' = d @ [c]"
    using registration_cpf_of [OF r'] assms(2) d(2) by simp
  ultimately show ?thesis by blast
qed

lemma sample_registered_digits:
  "map_sum id rn_taxId (normalizeRegistrationInput (\<lambda>_. None) ''2026-01-01'' (sample_registration ''52998224725'') ''x'' 0 False) =
     Inr ''52998224725''"
  by code_simp

theorem letter_after_cpf_is_stored_witness:
  "\<exists>r. normalizeRegistrationInput (\<lambda>_. None) ''2026-01-01'' (sample_registration ''52998224725X'') ''x'' 0 False = Inr r \<and>
     rn_taxId r = ''52998224725X''"
proof -
  obtain r where r: "normalizeRegistrationInput (\<lambda>_. None) ''2026-01-01'' (sample_registration ''52998224725'') ''x'' 0 False = Inr r"
    using sample_registered_digits by (cases "normalizeRegistrationInput (\<lambda>_. None) ''2026-01-01'' (sample_registration ''52998224725'') ''x'' 0 False") auto
  have "list_all is_digit ''52998224725''" "is_upper (CHR ''X'')" by code_simp+
  moreover have "(sample_registration ''52998224725'')\<lparr>rg_cpf := Some (''52998224725'' @ ''X'')\<rparr> = sample_registration ''52998224725X''"
    "rg_type (sample_registration ''52998224725'') = Some RG_pf" "rg_cpf (sample_registration ''52998224725'') = Some ''52998224725''"
    by (simp_all add: sample_registration_def)
  ultimately show ?thesis using letter_after_cpf_is_stored [OF r, of "''52998224725''" "CHR ''X''"] by auto
qed

text \<open>
  The requirements recorded for a temporary registration name what is missing: it can be regularized exactly when
  none of the requirements of CPF, CNPJ and phone was recorded; and whatever was recorded, an accepted registration may
  enter a contract exactly when it has a CPF or a CNPJ.
\<close>

theorem requirements_name_what_is_missing:
  assumes "normalizeRegistrationInput parse today input registrationId now allowExpired = Inr r"
    and "tm_isTemporary (rn_temporary r)"
  shows "(assertTemporaryRegistrationCanBeRegularized (rn_type r) (rn_cpf r) (rn_cnpj r) (rn_phones r) = Inr () \<longleftrightarrow>
      set (tm_requirements (rn_temporary r)) \<inter> {RQ_cpf_before_regularization, RQ_cnpj_before_regularization,
        RQ_phone_before_regularization} = {}) \<and>
    (assertRegistrationAllowsCommercialCommitment True (tm_requirements (rn_temporary r)) (rn_cpf r) (rn_cnpj r) = Inr () \<longleftrightarrow>
      rn_cpf r \<noteq> None \<or> rn_cnpj r \<noteq> None)"
proof (rule normalizeRegistrationInput_Inr [OF assms(1)])
  fix ty status roleCodes tagCodes phones emails tm adr profile instructions
  assume ty: "rg_type input = Some ty"
    and t: "normalizeTemporaryRegistration parse input now allowExpired (tax_id_or_none (rg_cpf input))
      (tax_id_or_none (rg_cnpj input)) roleCodes phones emails = Inr tm"
    and r: "r = built_registration input registrationId ty status roleCodes tagCodes phones emails tm adr profile instructions"
  have tm: "tm_requirements tm = temporary_requirements input (tax_id_or_none (rg_cpf input)) (tax_id_or_none (rg_cnpj input)) roleCodes phones"
    using temporary_Inr(4) [OF t] assms(2) r by simp
  have f: "falsy (tax_id_or_none v) \<longleftrightarrow> tax_id_or_none v = None" "falsy None" for v
    by (auto simp: falsy_def tax_id_or_none_def Let_def)
  have o: "set (registrationOperationalRequirements rc tc) \<subseteq> {RQ_driver_license_before_assignment, RQ_passenger_document_before_list_close}" for rc tc
    by (auto simp: registrationOperationalRequirements_def)
  show ?thesis
    using o ty unfolding r built_fields tm
    by (cases ty; auto simp: assertTemporaryRegistrationCanBeRegularized_def assertRegistrationAllowsCommercialCommitment_def
        throw_if_def for_type_def f temporary_requirements_def split: if_splits)
qed

lemma sample_temporary:
  "map_sum id (\<lambda>r. (tm_isTemporary (rn_temporary r), tm_requirements (rn_temporary r)))
     (normalizeRegistrationInput (\<lambda>_. None) ''2026-01-01'' ((sample_registration [])\<lparr>rg_isTemporary := True,
        rg_temporaryReason := Some ''no papers'', rg_temporaryResponsibleUserId := Some ''u1''\<rparr>) ''x'' 0 False) =
   Inr (True, [RQ_cpf_before_regularization, RQ_driver_license_before_assignment, RQ_tax_id_before_commercial_commitment])"
  by code_simp

theorem requirements_name_what_is_missing_witness:
  "\<exists>r. normalizeRegistrationInput (\<lambda>_. None) ''2026-01-01'' ((sample_registration [])\<lparr>rg_isTemporary := True,
        rg_temporaryReason := Some ''no papers'', rg_temporaryResponsibleUserId := Some ''u1''\<rparr>) ''x'' 0 False = Inr r \<and>
     assertTemporaryRegistrationCanBeRegularized (rn_type r) (rn_cpf r) (rn_cnpj r) (rn_phones r) \<noteq> Inr ()"
proof -
  let ?input = "(sample_registration [])\<lparr>rg_isTemporary := True,
        rg_temporaryReason := Some ''no papers'', rg_temporaryResponsibleUserId := Some ''u1''\<rparr>"
  obtain r where r: "normalizeRegistrationInput (\<lambda>_. None) ''2026-01-01'' ?input ''x'' 0 False = Inr r"
    using sample_temporary by (cases "normalizeRegistrationInput (\<lambda>_. None) ''2026-01-01'' ?input ''x'' 0 False") auto
  then have "tm_isTemporary (rn_temporary r)" "RQ_cpf_before_regularization \<in> set (tm_requirements (rn_temporary r))"
    using sample_temporary by auto
  with requirements_name_what_is_missing [OF r] r show ?thesis by auto
qed

end
