(* ===== verification/Profile_Image.thy ===== *)
theory Profile_Image
  imports App_Error Effects "HOL-Library.Word"
begin

unbundle bit_operations_syntax

text \<open>
  Profile pictures: the inspection of the headers of PNG, JPEG and WebP files
  (\<open>domain/profile/profile-image.ts\<close>) and the use cases around it
  (\<open>application/use-cases/users/profile.use-cases.ts\<close>), from the data URL of the client over the
  stored bytes back to a data URL.

  A file is a list of words of 8 bits. A read of a \<open>DataView\<close> outside the buffer throws a
  \<open>RangeError\<close>; an element read outside the array is \<open>undefined\<close>, which is \<open>None\<close> in comparisons and
  the error \<open>Undefined_number\<close> where the code would calculate with it.
\<close>

section \<open>Reading bytes\<close>

type_synonym bytes = "8 word list"

datatype read_error = RangeError | Undefined_number

definition byte_at :: "bytes \<Rightarrow> nat \<Rightarrow> 8 word option" where
  "byte_at bs i = (if i < length bs then Some (bs ! i) else None)"

definition number_at :: "bytes \<Rightarrow> nat \<Rightarrow> read_error + nat" where
  "number_at bs i = (case byte_at bs i of None \<Rightarrow> Inl Undefined_number | Some b \<Rightarrow> Inr (unat b))"

definition big_endian :: "bytes \<Rightarrow> nat" where
  "big_endian bs = foldl (\<lambda>n b. 256 * n + unat b) 0 bs"

definition getUint :: "nat \<Rightarrow> bool \<Rightarrow> bytes \<Rightarrow> nat \<Rightarrow> read_error + nat" where
  "getUint n little bs i =
     (if length bs < i + n then Inl RangeError
      else let part = take n (drop i bs) in Inr (big_endian (if little then rev part else part)))"

definition getUint16 :: "bool \<Rightarrow> bytes \<Rightarrow> nat \<Rightarrow> read_error + nat" where
  "getUint16 = getUint 2"

definition getUint32 :: "bool \<Rightarrow> bytes \<Rightarrow> nat \<Rightarrow> read_error + nat" where
  "getUint32 = getUint 4"

text \<open>\<open>ascii\<close>: \<open>subarray\<close> stops at the end of the array.\<close>

definition ascii :: "bytes \<Rightarrow> nat \<Rightarrow> nat \<Rightarrow> string" where
  "ascii bs offset n = map (\<lambda>b. char_of (unat b)) (take n (drop offset bs))"

section \<open>Inspection of an image\<close>

datatype mime_type = Jpeg | Png | Webp

fun mime_text :: "mime_type \<Rightarrow> string" where
  "mime_text Jpeg = ''image/jpeg''"
| "mime_text Png = ''image/png''"
| "mime_text Webp = ''image/webp''"

record image_metadata =
  im_mimeType :: mime_type
  im_width :: nat
  im_height :: nat

definition JPEG_START_OF_FRAME_MARKERS :: "8 word list" where
  "JPEG_START_OF_FRAME_MARKERS =
     [0xc0, 0xc1, 0xc2, 0xc3, 0xc5, 0xc6, 0xc7, 0xc9, 0xca, 0xcb, 0xcd, 0xce, 0xcf]"

definition png_signature :: "8 word list" where
  "png_signature = [137, 80, 78, 71, 13, 10, 26, 10]"

definition inspectPng :: "bytes \<Rightarrow> read_error + image_metadata option" where
  "inspectPng bs =
     (if length bs < 24 \<or>
         \<not> list_all (\<lambda>i. byte_at bs i = Some (png_signature ! i)) [0..<8] \<or>
         byte_at bs 8 \<noteq> Some 0 \<or> byte_at bs 9 \<noteq> Some 0 \<or> byte_at bs 10 \<noteq> Some 0 \<or> byte_at bs 11 \<noteq> Some 13 \<or>
         ascii bs 12 4 \<noteq> ''IHDR''
      then Inr None
      else rbind (getUint32 False bs 16) (\<lambda>width.
        rbind (getUint32 False bs 20) (\<lambda>height.
        Inr (Some \<lparr>im_mimeType = Png, im_width = width, im_height = height\<rparr>))))"

text \<open>\<open>while (bytes[offset] === 0xff) offset += 1\<close>\<close>

function skip_fill :: "bytes \<Rightarrow> nat \<Rightarrow> nat" where
  "skip_fill bs offset = (if byte_at bs offset = Some 0xff then skip_fill bs (offset + 1) else offset)"
  by pat_completeness auto
termination
  by (relation "measure (\<lambda>(bs, offset). length bs - offset)") (auto simp: byte_at_def split: if_splits)

declare skip_fill.simps [simp del]

lemma skip_fill_ge: "offset \<le> skip_fill bs offset"
  by (induction bs offset rule: skip_fill.induct) (subst skip_fill.simps, auto)

lemma jpeg_progress:
  "offset + 3 < length bs \<Longrightarrow> offset < k \<Longrightarrow> length bs - k < length bs - (offset::nat)"
  by simp

lemma skip_fill_progress: "offset < Suc (skip_fill bs offset)" "offset < Suc (skip_fill bs offset + n)"
  using skip_fill_ge [of offset bs] by simp_all

function jpeg_scan :: "bytes \<Rightarrow> nat \<Rightarrow> read_error + image_metadata option" where
  "jpeg_scan bs offset =
     (if \<not> offset + 3 < length bs then Inr None
      else if byte_at bs offset \<noteq> Some 0xff then jpeg_scan bs (offset + 1)
      else
        let at = skip_fill bs offset; marker = byte_at bs at; start = at + 1 in
        if marker = Some 0xd8 \<or> marker = Some 0xd9 then jpeg_scan bs start
        else if marker = Some 0xda then Inr None
        else if start + 2 > length bs then Inr None
        else rbind (getUint16 False bs start) (\<lambda>segmentLength.
          if segmentLength < 2 \<or> start + segmentLength > length bs then Inr None
          else if marker \<in> Some ` set JPEG_START_OF_FRAME_MARKERS \<and> segmentLength \<ge> 7
          then rbind (getUint16 False bs (start + 3)) (\<lambda>height.
            rbind (getUint16 False bs (start + 5)) (\<lambda>width.
            Inr (Some \<lparr>im_mimeType = Jpeg, im_width = width, im_height = height\<rparr>)))
          else jpeg_scan bs (start + segmentLength)))"
  by pat_completeness auto
termination
  by (relation "measure (\<lambda>(bs, offset). length bs - offset)")
    (simp_all add: jpeg_progress skip_fill_progress)

declare jpeg_scan.simps [simp del]

definition inspectJpeg :: "bytes \<Rightarrow> read_error + image_metadata option" where
  "inspectJpeg bs =
     (if length bs < 10 \<or> byte_at bs 0 \<noteq> Some 0xff \<or> byte_at bs 1 \<noteq> Some 0xd8 then Inr None
      else jpeg_scan bs 2)"

text \<open>The operators \<open>&\<close>, \<open>>>\<close> and \<open><<\<close> work on the number as a signed word of 32 bits.\<close>

definition low_14_bits :: "nat \<Rightarrow> nat" where
  "low_14_bits n = unat ((word_of_nat n :: 32 word) AND 0x3fff)"

definition next_14_bits :: "nat \<Rightarrow> nat" where
  "next_14_bits n = unat (signed_drop_bit 14 (word_of_nat n :: 32 word) AND 0x3fff)"

definition shifted :: "nat \<Rightarrow> nat \<Rightarrow> nat" where
  "shifted n k = unat (push_bit k (word_of_nat n :: 32 word))"

definition three_bytes :: "bytes \<Rightarrow> nat \<Rightarrow> read_error + nat" where
  "three_bytes bs i = rbind (number_at bs i) (\<lambda>b0. rbind (number_at bs (i + 1)) (\<lambda>b1. rbind (number_at bs (i + 2)) (\<lambda>b2.
     Inr (1 + b0 + shifted b1 8 + shifted b2 16))))"

function webp_scan :: "bytes \<Rightarrow> nat \<Rightarrow> read_error + image_metadata option" where
  "webp_scan bs offset =
     (if \<not> offset + 8 \<le> length bs then Inr None
      else
        let chunkType = ascii bs offset 4 in
        rbind (getUint32 True bs (offset + 4)) (\<lambda>chunkLength.
        let dataOffset = offset + 8 in
        if dataOffset + chunkLength > length bs then Inr None
        else if chunkType = ''VP8X'' \<and> chunkLength \<ge> 10
        then rbind (three_bytes bs (dataOffset + 4)) (\<lambda>width. rbind (three_bytes bs (dataOffset + 7)) (\<lambda>height.
          Inr (Some \<lparr>im_mimeType = Webp, im_width = width, im_height = height\<rparr>)))
        else if chunkType = ''VP8 '' \<and> chunkLength \<ge> 10 \<and> byte_at bs (dataOffset + 3) = Some 0x9d \<and>
          byte_at bs (dataOffset + 4) = Some 0x01 \<and> byte_at bs (dataOffset + 5) = Some 0x2a
        then rbind (getUint16 True bs (dataOffset + 6)) (\<lambda>width. rbind (getUint16 True bs (dataOffset + 8)) (\<lambda>height.
          Inr (Some \<lparr>im_mimeType = Webp, im_width = low_14_bits width, im_height = low_14_bits height\<rparr>)))
        else if chunkType = ''VP8L'' \<and> chunkLength \<ge> 5 \<and> byte_at bs dataOffset = Some 0x2f
        then rbind (getUint32 True bs (dataOffset + 1)) (\<lambda>bits.
          Inr (Some \<lparr>im_mimeType = Webp, im_width = low_14_bits bits + 1, im_height = next_14_bits bits + 1\<rparr>))
        else webp_scan bs (dataOffset + chunkLength + chunkLength mod 2)))"
  by pat_completeness auto
termination
  by (relation "measure (\<lambda>(bs, offset). length bs - offset)") auto

declare webp_scan.simps [simp del]

definition inspectWebp :: "bytes \<Rightarrow> read_error + image_metadata option" where
  "inspectWebp bs =
     (if length bs < 30 \<or> ascii bs 0 4 \<noteq> ''RIFF'' \<or> ascii bs 8 4 \<noteq> ''WEBP'' then Inr None
      else webp_scan bs 12)"

definition or_else :: "('e + 'a option) \<Rightarrow> ('e + 'a option) \<Rightarrow> 'e + 'a option" where
  "or_else r r' = rbind r (\<lambda>v. case v of None \<Rightarrow> r' | Some x \<Rightarrow> Inr (Some x))"

definition inspectProfileImage :: "bytes \<Rightarrow> read_error + image_metadata option" where
  "inspectProfileImage bs = or_else (or_else (inspectPng bs) (inspectJpeg bs)) (inspectWebp bs)"

section \<open>Every inspection ends with an answer\<close>

lemma foldl_bound: "foldl (\<lambda>n b. 256 * n + unat (b :: 8 word)) a bs < (a + 1) * 256 ^ length bs"
proof (induction bs arbitrary: a)
  case Nil
  show ?case by simp
next
  case (Cons b bs)
  have "256 * a + unat b + 1 \<le> (a + 1) * 256"
    using unsigned_less [of b, where ?'a = nat] by simp
  then have "(256 * a + unat b + 1) * 256 ^ length bs \<le> (a + 1) * 256 * 256 ^ length bs"
    by (rule mult_right_mono) simp
  also have "(a + 1) * 256 * 256 ^ length bs = (a + 1) * 256 ^ length (b # bs)" by (simp add: algebra_simps)
  finally show ?case using Cons.IH [of "256 * a + unat b"] by simp
qed

lemma big_endian_bound: "big_endian bs < 256 ^ length bs"
  using foldl_bound [of 0 bs] by (simp add: big_endian_def)

lemma getUint_total: "i + n \<le> length bs \<Longrightarrow> \<exists>v < 256 ^ n. getUint n little bs i = Inr v"
  using big_endian_bound [of "take n (drop i bs)"] big_endian_bound [of "rev (take n (drop i bs))"]
  by (auto simp: getUint_def Let_def)

lemma getUint16_total:
  "i + 2 \<le> length bs \<Longrightarrow> \<exists>v < 65536. getUint16 little bs i = Inr v"
  using getUint_total [of i 2 bs little] by (simp add: getUint16_def)

lemma getUint32_total:
  "i + 4 \<le> length bs \<Longrightarrow> \<exists>v < 4294967296. getUint32 little bs i = Inr v"
  using getUint_total [of i 4 bs little] by (simp add: getUint32_def)

text \<open>An answer: the size of an image of the type whose bound is given.\<close>

definition answer_below :: "mime_type \<Rightarrow> nat \<Rightarrow> read_error + image_metadata option \<Rightarrow> bool" where
  "answer_below ty n r = (case r of Inl _ \<Rightarrow> False | Inr None \<Rightarrow> True
     | Inr (Some m) \<Rightarrow> im_mimeType m = ty \<and> im_width m < n \<and> im_height m < n)"

lemma answer_below_simps [simp]:
  "answer_below ty n (Inr None)"
  "answer_below ty n (Inr (Some m)) \<longleftrightarrow> im_mimeType m = ty \<and> im_width m < n \<and> im_height m < n"
  by (simp_all add: answer_below_def)

lemma answer_below_read:
  "\<exists>v < k. r = Inr v \<Longrightarrow> (\<And>v. v < k \<Longrightarrow> r = Inr v \<Longrightarrow> answer_below ty n (f v)) \<Longrightarrow> answer_below ty n (rbind r f)"
  by auto

lemma png_answer: "answer_below Png 4294967296 (inspectPng bs)"
  unfolding inspectPng_def
  by (auto intro!: answer_below_read [OF getUint32_total])

lemma jpeg_answer: "answer_below Jpeg 65536 (jpeg_scan bs offset)"
proof (induction bs offset rule: jpeg_scan.induct)
  case (1 bs offset)
  show ?case
    by (subst jpeg_scan.simps)
      (use 1 in \<open>auto simp: Let_def intro!: answer_below_read [OF getUint16_total]\<close>)
qed

lemma low_14_bits: "low_14_bits n < 16384" "next_14_bits n < 16384"
proof -
  have "unat (w AND 0x3fff :: 32 word) < 16384" for w
  proof -
    have "w AND 0x3fff \<le> (0x3fff :: 32 word)" by (rule word_and_le1)
    then show ?thesis by (simp add: word_le_nat_alt)
  qed
  then show "low_14_bits n < 16384" "next_14_bits n < 16384"
    by (simp_all add: low_14_bits_def next_14_bits_def)
qed

lemma shifted_value: "n < 256 \<Longrightarrow> k \<le> 16 \<Longrightarrow> shifted n k = n * 2 ^ k"
proof -
  assume n: "n < 256" and k: "k \<le> 16"
  have "(2 :: nat) ^ k \<le> 2 ^ 16" using k by (rule power_increasing) simp
  then have "n * 2 ^ k < 256 * (2 ^ 16 :: nat)"
    using n by (intro mult_less_le_imp_less) auto
  then have "n * 2 ^ k mod 4294967296 = n * 2 ^ k" by simp
  then show ?thesis
    unfolding shifted_def unsigned_push_bit_eq
    using n by (simp add: push_bit_eq_mult take_bit_eq_mod unsigned_of_nat)
qed

lemma number_at_total: "i < length bs \<Longrightarrow> \<exists>v < 256. number_at bs i = Inr v"
  using unsigned_less [of "bs ! i", where ?'a = nat] by (simp add: number_at_def byte_at_def)

lemma three_bytes_total: "i + 3 \<le> length bs \<Longrightarrow> \<exists>v < 16777217. three_bytes bs i = Inr v"
  using number_at_total [of i bs] number_at_total [of "i + 1" bs] number_at_total [of "i + 2" bs]
  by (auto simp: three_bytes_def shifted_value)

lemma webp_answer: "answer_below Webp 16777217 (webp_scan bs offset)"
proof (induction bs offset rule: webp_scan.induct)
  case (1 bs offset)
  have "n < 65536 \<Longrightarrow> low_14_bits n < 16777217" for n using low_14_bits(1) [of n] by simp
  moreover have "Suc (low_14_bits n) < 16777217" "Suc (next_14_bits n) < 16777217" for n
    using low_14_bits [of n] by simp_all
  ultimately show ?case
    by (subst webp_scan.simps)
      (use 1 in \<open>auto simp: Let_def intro!: answer_below_read [OF getUint32_total]
        answer_below_read [OF getUint16_total] answer_below_read [OF three_bytes_total]\<close>)
qed

lemma or_else_simps [simp]:
  "or_else (Inr None) r = r" "or_else (Inr (Some m)) r = Inr (Some m)" "or_else (Inl e) r = Inl e"
  by (simp_all add: or_else_def)

text \<open>Where an inspection finds an image, the file begins with the bytes of its type.\<close>

lemma png_Some: "inspectPng bs = Inr (Some m) \<Longrightarrow> take 8 bs = png_signature \<and> ascii bs 12 4 = ''IHDR''"
proof -
  assume a: "inspectPng bs = Inr (Some m)"
  then have l: "24 \<le> length bs" and e: "list_all (\<lambda>i. byte_at bs i = Some (png_signature ! i)) [0..<8]"
    and h: "ascii bs 12 4 = ''IHDR''"
    by (auto simp: inspectPng_def split: if_splits)
  have "take 8 bs = png_signature"
    by (rule nth_equalityI) (use l e in \<open>auto simp: png_signature_def list_all_iff byte_at_def\<close>)
  with h show ?thesis by simp
qed

lemma jpeg_Some: "inspectJpeg bs = Inr (Some m) \<Longrightarrow> take 2 bs = [0xff, 0xd8]"
  by (cases bs; cases "tl bs") (auto simp: inspectJpeg_def byte_at_def split: if_splits)

lemma webp_Some: "inspectWebp bs = Inr (Some m) \<Longrightarrow> ascii bs 0 4 = ''RIFF'' \<and> ascii bs 8 4 = ''WEBP''"
  by (auto simp: inspectWebp_def split: if_splits)

lemma inspect_answer:
  "\<exists>r. inspectProfileImage bs = Inr r \<and>
     (case r of None \<Rightarrow> True
      | Some m \<Rightarrow> (case im_mimeType m of
            Png \<Rightarrow> inspectPng bs = Inr (Some m) \<and> im_width m < 4294967296 \<and> im_height m < 4294967296
          | Jpeg \<Rightarrow> inspectJpeg bs = Inr (Some m) \<and> im_width m < 65536 \<and> im_height m < 65536
          | Webp \<Rightarrow> inspectWebp bs = Inr (Some m) \<and> im_width m < 16777217 \<and> im_height m < 16777217))"
proof -
  have "answer_below Jpeg 65536 (inspectJpeg bs)"
    by (simp add: inspectJpeg_def jpeg_answer)
  moreover have "answer_below Webp 16777217 (inspectWebp bs)"
    by (simp add: inspectWebp_def webp_answer)
  ultimately show ?thesis
    using png_answer [of bs]
    by (auto simp: inspectProfileImage_def answer_below_def split: sum.splits option.splits)
qed

section \<open>The segments of a JPEG file\<close>

definition two_bytes :: "nat \<Rightarrow> bytes" where
  "two_bytes n = [word_of_nat (n div 256), word_of_nat (n mod 256)]"

text \<open>A segment: the marker, the length of the rest with the two bytes of the length, the payload.\<close>

definition jpeg_segment :: "8 word \<times> bytes \<Rightarrow> bytes" where
  "jpeg_segment s = [0xff, fst s] @ two_bytes (length (snd s) + 2) @ snd s"

text \<open>A segment that the inspection passes over.\<close>

definition passed_segment :: "8 word \<times> bytes \<Rightarrow> bool" where
  "passed_segment s \<longleftrightarrow> fst s \<notin> {0xff, 0xd8, 0xd9, 0xda} \<and> length (snd s) + 2 < 65536 \<and>
     (if fst s \<in> set JPEG_START_OF_FRAME_MARKERS then length (snd s) < 5 else True)"

lemma byte_at_drop: "drop i bs = b # rest \<Longrightarrow> byte_at bs i = Some b"
  by (metis byte_at_def drop_all leI list.distinct(1) hd_drop_conv_nth list.sel(1))

lemma drop_further: "drop i bs = xs \<Longrightarrow> drop (i + k) bs = drop k xs"
  by (auto simp: add.commute)

lemma length_drop_eq: "drop i bs = xs \<Longrightarrow> xs \<noteq> [] \<Longrightarrow> length bs = i + length xs"
  by (metis le_add_diff_inverse length_drop drop_all leI nat_le_linear)

lemma two_bytes_value: "n < 65536 \<Longrightarrow> big_endian (two_bytes n) = n"
  by (simp add: two_bytes_def big_endian_def unsigned_of_nat take_bit_eq_mod)

lemma length_two_bytes [simp]: "length (two_bytes n) = 2"
  by (simp add: two_bytes_def)

lemma getUint16_drop:
  "drop i bs = two_bytes n @ rest \<Longrightarrow> n < 65536 \<Longrightarrow> getUint16 False bs i = Inr n"
proof -
  assume d: "drop i bs = two_bytes n @ rest" and n: "n < 65536"
  then have "length bs = i + (2 + length rest)"
    using length_drop_eq [OF d] by (simp add: two_bytes_def)
  then show ?thesis
    using d n by (simp add: getUint16_def getUint_def two_bytes_value)
qed

lemma skip_one_fill: "byte_at bs i = Some 0xff \<Longrightarrow> byte_at bs (i + 1) \<noteq> Some 0xff \<Longrightarrow> skip_fill bs i = i + 1"
  by (subst skip_fill.simps, subst skip_fill.simps) simp

text \<open>At the start of a segment the scan reads its length, and ends or goes on behind the segment.\<close>

lemma jpeg_scan_segment:
  assumes at: "drop i bs = jpeg_segment (marker, payload) @ rest"
    and marker: "marker \<notin> {0xff, 0xd8, 0xd9, 0xda}" and len: "length payload + 2 < 65536"
  shows "jpeg_scan bs i =
     (if marker \<in> set JPEG_START_OF_FRAME_MARKERS \<and> 5 \<le> length payload
      then rbind (getUint16 False bs (i + 5)) (\<lambda>height. rbind (getUint16 False bs (i + 7)) (\<lambda>width.
        Inr (Some \<lparr>im_mimeType = Jpeg, im_width = width, im_height = height\<rparr>)))
      else jpeg_scan bs (i + 4 + length payload))"
proof -
  have l: "length bs = i + (4 + length payload + length rest)"
    using length_drop_eq [OF at] by (simp add: jpeg_segment_def)
  have b: "byte_at bs i = Some 0xff" "byte_at bs (i + 1) = Some marker"
    using at drop_further [OF at, of 1] byte_at_drop by (simp_all add: jpeg_segment_def)
  have f: "skip_fill bs i = i + 1" using b marker by (simp add: skip_one_fill)
  have d: "drop (i + 2) bs = two_bytes (length payload + 2) @ payload @ rest"
    using drop_further [OF at, of 2] by (simp add: jpeg_segment_def)
  have g: "getUint16 False bs (i + 2) = Inr (length payload + 2)"
    using getUint16_drop [OF d len] .
  show ?thesis
    by (subst jpeg_scan.simps) (use l b f g marker in \<open>auto simp: Let_def numeral_eq_Suc\<close>)
qed

lemma length_jpeg_segment [simp]: "length (jpeg_segment s) = 4 + length (snd s)"
  by (simp add: jpeg_segment_def)

lemma jpeg_scan_passed:
  "drop i bs = concat (map jpeg_segment segs) @ rest \<Longrightarrow> list_all passed_segment segs \<Longrightarrow>
     jpeg_scan bs i = jpeg_scan bs (i + length (concat (map jpeg_segment segs)))"
proof (induction segs arbitrary: i)
  case Nil
  then show ?case by simp
next
  case (Cons s segs)
  let ?rest = "concat (map jpeg_segment segs) @ rest"
  have d: "drop i bs = jpeg_segment (fst s, snd s) @ ?rest" using Cons.prems by simp
  have p: "passed_segment s" using Cons.prems by simp
  then have "jpeg_scan bs i = jpeg_scan bs (i + 4 + length (snd s))"
    using jpeg_scan_segment [OF d] by (auto simp: passed_segment_def split: if_splits)
  also have "drop (i + (4 + length (snd s))) bs = ?rest"
    using drop_further [OF d, of "4 + length (snd s)"] by simp
  then have "jpeg_scan bs (i + 4 + length (snd s)) =
      jpeg_scan bs (i + (4 + length (snd s)) + length (concat (map jpeg_segment segs)))"
    using Cons.IH [of "i + (4 + length (snd s))"] Cons.prems by (simp add: add.assoc)
  finally show ?case by (simp add: ac_simps)
qed

text \<open>The header of a frame: the sample precision, height, width, and the components.\<close>

definition jpeg_frame :: "8 word \<Rightarrow> 8 word \<Rightarrow> nat \<Rightarrow> nat \<Rightarrow> bytes \<Rightarrow> bytes" where
  "jpeg_frame marker precision height width components =
     jpeg_segment (marker, precision # two_bytes height @ two_bytes width @ components)"

lemma jpeg_scan_frame:
  assumes d: "drop i bs = jpeg_frame marker precision height width components @ rest"
    and m: "marker \<in> set JPEG_START_OF_FRAME_MARKERS" and n: "length components < 65529"
    and h: "height < 65536" and w: "width < 65536"
  shows "jpeg_scan bs i = Inr (Some \<lparr>im_mimeType = Jpeg, im_width = width, im_height = height\<rparr>)"
proof -
  have "marker \<notin> {0xff, 0xd8, 0xd9, 0xda}" using m by (auto simp: JPEG_START_OF_FRAME_MARKERS_def)
  moreover have "drop (i + 5) bs = two_bytes height @ two_bytes width @ components @ rest"
    using drop_further [OF d, of 5] by (simp add: jpeg_frame_def jpeg_segment_def two_bytes_def)
  then have "getUint16 False bs (i + 5) = Inr height" by (rule getUint16_drop) (rule h)
  moreover have "drop (i + 7) bs = two_bytes width @ components @ rest"
    using drop_further [OF d, of 7] by (simp add: jpeg_frame_def jpeg_segment_def two_bytes_def)
  then have "getUint16 False bs (i + 7) = Inr width" by (rule getUint16_drop) (rule w)
  ultimately show ?thesis
    using d m n by (simp add: jpeg_frame_def jpeg_scan_segment)
qed

section \<open>Base64\<close>

text \<open>\<open>Buffer.from(text, 'base64')\<close> and \<open>toString('base64')\<close>: four letters for three bytes; the reader stops at
  the padding and drops the bits that do not fill a byte.\<close>

definition BASE64 :: string where
  "BASE64 = ''ABCDEFGHIJKLMNOPQRSTUVWXYZabcdefghijklmnopqrstuvwxyz0123456789+/''"

definition base64_letter :: "nat \<Rightarrow> char" where
  "base64_letter n = BASE64 ! n"

definition base64_value :: "char \<Rightarrow> nat" where
  "base64_value c = length (takeWhile (\<lambda>d. d \<noteq> c) BASE64)"

fun base64_encode :: "bytes \<Rightarrow> string" where
  "base64_encode (x # y # z # rest) = (let a = unat x; b = unat y; c = unat z in
     map base64_letter [a div 4, 16 * (a mod 4) + b div 16, 4 * (b mod 16) + c div 64, c mod 64] @ base64_encode rest)"
| "base64_encode [x, y] = (let a = unat x; b = unat y in
     map base64_letter [a div 4, 16 * (a mod 4) + b div 16, 4 * (b mod 16)] @ ''='')"
| "base64_encode [x] = (let a = unat x in map base64_letter [a div 4, 16 * (a mod 4)] @ ''=='')"
| "base64_encode [] = []"

fun base64_bytes :: "nat list \<Rightarrow> bytes" where
  "base64_bytes (p # q # r # s # rest) =
     word_of_nat (4 * p + q div 16) # word_of_nat (16 * (q mod 16) + r div 4) # word_of_nat (64 * (r mod 4) + s) #
     base64_bytes rest"
| "base64_bytes [p, q, r] = [word_of_nat (4 * p + q div 16), word_of_nat (16 * (q mod 16) + r div 4)]"
| "base64_bytes [p, q] = [word_of_nat (4 * p + q div 16)]"
| "base64_bytes _ = []"

definition base64_decode :: "string \<Rightarrow> bytes" where
  "base64_decode s = base64_bytes (map base64_value (takeWhile (\<lambda>c. c \<in> set BASE64) s))"

lemma base64_letters: "list_all (\<lambda>n. base64_letter n \<in> set BASE64 \<and> base64_value (base64_letter n) = n) [0..<64]"
  by code_simp

lemma base64_letter: "n < 64 \<Longrightarrow> base64_letter n \<in> set BASE64" "n < 64 \<Longrightarrow> base64_value (base64_letter n) = n"
  using base64_letters by (auto simp: list_all_iff)

lemma padding_not_letter: "CHR ''='' \<notin> set BASE64"
  by code_simp

lemma first_sextets: "b < 256 \<Longrightarrow> 4 * (a div 4) + (16 * (a mod 4) + b div 16) div 16 = (a::nat)"
  using div_less_iff_less_mult [of 16 b 16] by simp

lemma middle_sextets:
  "b < 256 \<Longrightarrow> c < 256 \<Longrightarrow> 16 * ((16 * (a mod 4) + b div 16) mod 16) + (4 * (b mod 16) + c div 64) div 4 = (b::nat)"
  using div_less_iff_less_mult [of 16 b 16] div_less_iff_less_mult [of 64 c 4] by (simp add: mod_mult_self1)

lemma last_sextets: "c < 256 \<Longrightarrow> 64 * ((4 * (b mod 16) + c div 64) mod 4) + c mod 64 = (c::nat)"
  using div_less_iff_less_mult [of 64 c 4] by simp

lemma byte_below: "unat (b :: 8 word) < 256"
  using unsigned_less [of b, where ?'a = nat] by simp

lemma sextets_below:
  "a < 256 \<Longrightarrow> a div 4 < (64::nat)" "b < 256 \<Longrightarrow> 16 * (a mod 4) + b div 16 < (64::nat)"
  "c < 256 \<Longrightarrow> 4 * (b mod 16) + c div 64 < (64::nat)" "c mod 64 < (64::nat)" "4 * (b mod 16) < (64::nat)"
  "16 * (a mod 4) < (64::nat)"
proof -
  show "a < 256 \<Longrightarrow> a div 4 < 64" by (simp add: div_less_iff_less_mult)
  have b: "b < 256 \<Longrightarrow> b div 16 < 16" and c: "c < 256 \<Longrightarrow> c div 64 < 4" by (simp_all add: div_less_iff_less_mult)
  have m: "a mod 4 < 4" "b mod 16 < 16" by simp_all
  show "b < 256 \<Longrightarrow> 16 * (a mod 4) + b div 16 < 64" using b m(1) by linarith
  show "c < 256 \<Longrightarrow> 4 * (b mod 16) + c div 64 < 64" using c m(2) by linarith
  show "4 * (b mod 16) < 64" "16 * (a mod 4) < 64" "c mod 64 < 64" using m by simp_all
qed

lemma of_nat_unat_id: "word_of_nat (unat (x :: 8 word)) = x"
  by simp

lemma sextets_read:
  "base64_bytes (unat x div 4 # (16 * (unat x mod 4) + unat y div 16) # (4 * (unat y mod 16) + unat z div 64) # (unat z mod 64) # ns) =
     x # y # z # base64_bytes ns"
  "base64_bytes [unat x div 4, 16 * (unat x mod 4) + unat y div 16, 4 * (unat y mod 16)] = [x, y]"
  "base64_bytes [unat x div 4, 16 * (unat x mod 4)] = [x]"
  using middle_sextets [of "unat y" 0 "unat x"] first_sextets [of 0 "unat x"]
  by (simp_all only: base64_bytes.simps first_sextets middle_sextets last_sextets byte_below of_nat_unat_id
      div_0 add_0_right zero_less_numeral)

lemma letters_read:
  "list_all (\<lambda>n. n < 64) ns \<Longrightarrow>
     map base64_value (takeWhile (\<lambda>c. c \<in> set BASE64) (map base64_letter ns @ s)) =
     ns @ map base64_value (takeWhile (\<lambda>c. c \<in> set BASE64) s)"
  by (induction ns) (simp_all add: base64_letter)

lemma base64_round_trip: "base64_decode (base64_encode bs) = bs"
  unfolding base64_decode_def
proof (induction bs rule: base64_encode.induct)
  case (1 x y z rest)
  then show ?case
    unfolding base64_encode.simps Let_def
    by (subst letters_read) (simp_all add: sextets_below byte_below sextets_read del: base64_bytes.simps)
next
  case (2 x y)
  show ?case
    unfolding base64_encode.simps Let_def
    by (subst letters_read) (simp_all add: sextets_below byte_below sextets_read padding_not_letter del: base64_bytes.simps)
next
  case (3 x)
  show ?case
    unfolding base64_encode.simps Let_def
    by (subst letters_read) (simp_all add: sextets_below byte_below sextets_read padding_not_letter del: base64_bytes.simps)
qed simp

section \<open>The profile and its picture\<close>

definition MAX_PROFILE_PICTURE_BYTES :: nat where
  "MAX_PROFILE_PICTURE_BYTES = 512 * 1024"

definition MIN_PROFILE_PICTURE_DIMENSION :: nat where
  "MIN_PROFILE_PICTURE_DIMENSION = 128"

definition MAX_PROFILE_PICTURE_DIMENSION :: nat where
  "MAX_PROFILE_PICTURE_DIMENSION = 2048"

definition ALLOWED_PROFILE_MIME_TYPES :: "string list" where
  "ALLOWED_PROFILE_MIME_TYPES = [''image/jpeg'', ''image/png'', ''image/webp'']"

text \<open>The rows of users by company and id, and the audit log.\<close>

record user_row =
  ur_name :: string
  ur_username :: string
  ur_email :: string
  ur_profilePicture :: "bytes option"
  ur_profilePictureMime :: "string option"
  ur_deleted :: bool

record picture_audit =
  pa_companyId :: string
  pa_userId :: string
  pa_action :: string
  pa_metadata :: "(string option \<times> nat) option"

record profile_store =
  ps_users :: "string \<times> string \<Rightarrow> user_row option"
  ps_audit :: "picture_audit list"

record profile_output =
  po_id :: string
  po_name :: string
  po_username :: string
  po_email :: string
  po_profilePictureDataUrl :: "string option"

text \<open>What a call may throw: an error of the application, an error of a read of the buffer, the missing row of an update.\<close>

datatype profile_failure = Application_error app_error | Read_error read_error | Missing_row

definition data_url :: "string \<Rightarrow> bytes \<Rightarrow> string" where
  "data_url mime picture = ''data:'' @ mime @ '';base64,'' @ base64_encode picture"

definition profileOutput :: "string \<Rightarrow> user_row option \<Rightarrow> profile_failure + profile_output" where
  "profileOutput userId row = (case row of
       None \<Rightarrow> Inl (Application_error (notFound ''user''))
     | Some r \<Rightarrow> Inr \<lparr>po_id = userId, po_name = ur_name r, po_username = ur_username r, po_email = ur_email r,
         po_profilePictureDataUrl = (case ur_profilePicture r of None \<Rightarrow> None
           | Some p \<Rightarrow> if falsy (ur_profilePictureMime r) then None
                       else Some (data_url (the (ur_profilePictureMime r)) p))\<rparr>)"

definition findProfileById :: "string \<Rightarrow> string \<Rightarrow> profile_store \<Rightarrow> user_row option" where
  "findProfileById companyId userId s = (case ps_users s (companyId, userId) of
     None \<Rightarrow> None | Some r \<Rightarrow> if ur_deleted r then None else Some r)"

definition GetProfileUseCase :: "string \<Rightarrow> string \<Rightarrow> profile_store \<Rightarrow> profile_failure + profile_output" where
  "GetProfileUseCase companyId userId s = profileOutput userId (findProfileById companyId userId s)"

definition updateProfilePicture ::
  "string \<Rightarrow> string \<Rightarrow> bytes option \<Rightarrow> string option \<Rightarrow> (profile_store, profile_failure, user_row) store_action" where
  "updateProfilePicture companyId userId picture mimeType s = (case ps_users s (companyId, userId) of
       None \<Rightarrow> (Inl Missing_row, s)
     | Some r \<Rightarrow> (let r' = r\<lparr>ur_profilePicture := picture, ur_profilePictureMime := mimeType\<rparr>
                  in (Inr r', s\<lparr>ps_users := (ps_users s)((companyId, userId) \<mapsto> r')\<rparr>)))"

text \<open>\<open>/^data:([^;,]+);base64,([A-Za-z0-9+/]+={0,2})$/\<close>: the media type and the text of the content.\<close>

definition match_data_url :: "string \<Rightarrow> (string \<times> string) option" where
  "match_data_url url =
     (let rest = drop 5 url; mime = takeWhile (\<lambda>c. c \<notin> set '';,'') rest;
          tail = drop (length mime) rest; body = drop 8 tail;
          padding = dropWhile (\<lambda>c. c \<in> set BASE64) body
      in if take 5 url = ''data:'' \<and> mime \<noteq> [] \<and> take 8 tail = '';base64,'' \<and>
           takeWhile (\<lambda>c. c \<in> set BASE64) body \<noteq> [] \<and> padding \<in> {'''', ''='', ''==''}
         then Some (mime, body) else None)"

definition accepted_picture :: "string \<Rightarrow> profile_failure + bytes \<times> string" where
  "accepted_picture url =
     (let refused = (\<lambda>key. Inl (Application_error (validationError key))) in
      case match_data_url url of
        None \<Rightarrow> refused ''valid-image''
      | Some (mime, body) \<Rightarrow>
          if mime \<notin> set ALLOWED_PROFILE_MIME_TYPES then refused ''valid-image''
          else
            let picture = base64_decode body in
            if length picture = 0 \<or> length picture > MAX_PROFILE_PICTURE_BYTES then refused ''at-most-512-kb''
            else case inspectProfileImage picture of
                Inl e \<Rightarrow> Inl (Read_error e)
              | Inr None \<Rightarrow> refused ''content-matches-type''
              | Inr (Some metadata) \<Rightarrow>
                  if mime_text (im_mimeType metadata) \<noteq> mime then refused ''content-matches-type''
                  else if im_width metadata < MIN_PROFILE_PICTURE_DIMENSION \<or>
                    im_height metadata < MIN_PROFILE_PICTURE_DIMENSION \<or>
                    im_width metadata > MAX_PROFILE_PICTURE_DIMENSION \<or>
                    im_height metadata > MAX_PROFILE_PICTURE_DIMENSION
                  then refused ''dimensions''
                  else Inr (picture, mime_text (im_mimeType metadata)))"

definition create_audit :: "picture_audit \<Rightarrow> (profile_store, profile_failure, unit) store_action" where
  "create_audit e s = (Inr (), s\<lparr>ps_audit := ps_audit s @ [e]\<rparr>)"

definition UpdateProfilePictureUseCase ::
  "bool \<Rightarrow> string \<Rightarrow> string \<Rightarrow> string option \<Rightarrow> (profile_store, profile_failure, profile_output) store_action" where
  "UpdateProfilePictureUseCase audited companyId userId dataUrl =
     bind_op (return_op (if falsy dataUrl then Inr None
       else rbind (accepted_picture (the dataUrl)) (\<lambda>p. Inr (Some p)))) (\<lambda>accepted.
     let picture = map_option fst accepted; mimeType = map_option snd accepted in
     bind_op (updateProfilePicture companyId userId picture mimeType) (\<lambda>updated.
     bind_op (if audited
       then create_audit \<lparr>pa_companyId = companyId, pa_userId = userId,
         pa_action = (if picture = None then ''PROFILE_PICTURE_REMOVED'' else ''PROFILE_PICTURE_UPDATED''),
         pa_metadata = (case picture of None \<Rightarrow> None | Some p \<Rightarrow> Some (mimeType, length p))\<rparr>
       else return_op (Inr ())) (\<lambda>_.
     return_op (profileOutput userId (Some updated)))))"

section \<open>What an accepted picture guarantees\<close>

lemma base64_encode_split:
  "takeWhile (\<lambda>c. c \<in> set BASE64) (base64_encode bs) = [] \<longleftrightarrow> bs = []"
  "dropWhile (\<lambda>c. c \<in> set BASE64) (base64_encode bs) \<in> {'''', ''='', ''==''}"
  by (induction bs rule: base64_encode.induct)
    (simp_all add: Let_def base64_letter sextets_below byte_below padding_not_letter)

lemma match_data_url_of:
  "mime \<noteq> [] \<Longrightarrow> CHR '';'' \<notin> set mime \<Longrightarrow> CHR '','' \<notin> set mime \<Longrightarrow> picture \<noteq> [] \<Longrightarrow>
     match_data_url (data_url mime picture) = Some (mime, base64_encode picture)"
proof -
  assume m: "mime \<noteq> []" "CHR '';'' \<notin> set mime" "CHR '','' \<notin> set mime" and p: "picture \<noteq> []"
  have "takeWhile (\<lambda>c. c \<notin> set '';,'') (mime @ '';base64,'' @ base64_encode picture) = mime"
    using m by (subst takeWhile_append2) auto
  with m p base64_encode_split [of picture] show ?thesis
    by (simp add: match_data_url_def data_url_def Let_def)
qed

lemma accepted_picture_Inr:
  "accepted_picture url = Inr (picture, mime) \<longleftrightarrow>
     (\<exists>body m. match_data_url url = Some (mime, body) \<and> picture = base64_decode body \<and>
       mime \<in> set ALLOWED_PROFILE_MIME_TYPES \<and> picture \<noteq> [] \<and> length picture \<le> MAX_PROFILE_PICTURE_BYTES \<and>
       inspectProfileImage picture = Inr (Some m) \<and> mime = mime_text (im_mimeType m) \<and>
       MIN_PROFILE_PICTURE_DIMENSION \<le> im_width m \<and> im_width m \<le> MAX_PROFILE_PICTURE_DIMENSION \<and>
       MIN_PROFILE_PICTURE_DIMENSION \<le> im_height m \<and> im_height m \<le> MAX_PROFILE_PICTURE_DIMENSION)"
  by (auto simp: accepted_picture_def Let_def not_less split: option.splits prod.splits sum.splits if_splits)

lemma accepted_picture_again:
  "accepted_picture url = Inr (picture, mime) \<Longrightarrow> accepted_picture (data_url mime picture) = Inr (picture, mime)"
proof -
  assume a: "accepted_picture url = Inr (picture, mime)"
  then have "mime \<in> set ALLOWED_PROFILE_MIME_TYPES" "picture \<noteq> []" by (auto simp: accepted_picture_Inr)
  then have "match_data_url (data_url mime picture) = Some (mime, base64_encode picture)"
    by (intro match_data_url_of) (auto simp: ALLOWED_PROFILE_MIME_TYPES_def)
  with a show ?thesis by (auto simp: accepted_picture_Inr base64_round_trip)
qed

lemma update_Inr:
  "UpdateProfilePictureUseCase audited companyId userId (Some url) s = (Inr out, s') \<Longrightarrow> url \<noteq> [] \<Longrightarrow>
     \<exists>picture mime r. accepted_picture url = Inr (picture, mime) \<and> ps_users s (companyId, userId) = Some r \<and>
       ps_users s' = (ps_users s)((companyId, userId) \<mapsto>
         r\<lparr>ur_profilePicture := Some picture, ur_profilePictureMime := Some mime\<rparr>) \<and>
       po_profilePictureDataUrl out = Some (data_url mime picture) \<and>
       profileOutput userId (ps_users s' (companyId, userId)) = Inr out"
  by (auto simp: UpdateProfilePictureUseCase_def bind_op_def return_op_def updateProfilePicture_def create_audit_def
      profileOutput_def falsy_def Let_def rbind_def accepted_picture_Inr ALLOWED_PROFILE_MIME_TYPES_def
      split: sum.splits prod.splits option.splits if_splits)

lemma update_of_accepted:
  "accepted_picture url = Inr (picture, mime) \<Longrightarrow> ps_users s (companyId, userId) = Some r \<Longrightarrow> mime \<noteq> [] \<Longrightarrow>
     url \<noteq> [] \<Longrightarrow>
     fst (UpdateProfilePictureUseCase audited companyId userId (Some url) s) =
       profileOutput userId (Some (r\<lparr>ur_profilePicture := Some picture, ur_profilePictureMime := Some mime\<rparr>)) \<and>
     ps_users (snd (UpdateProfilePictureUseCase audited companyId userId (Some url) s)) =
       (ps_users s)((companyId, userId) \<mapsto> r\<lparr>ur_profilePicture := Some picture, ur_profilePictureMime := Some mime\<rparr>)"
  by (simp add: UpdateProfilePictureUseCase_def bind_op_def return_op_def updateProfilePicture_def create_audit_def
      falsy_def Let_def profileOutput_def)

definition sample_png :: bytes where
  "sample_png = png_signature @ [0, 0, 0, 13, 73, 72, 68, 82, 0, 0, 0, 128, 0, 0, 1, 0]"

definition sample_users :: profile_store where
  "sample_users = \<lparr>ps_users = [(''c'', ''u'') \<mapsto> \<lparr>ur_name = ''Ana'', ur_username = ''ana'', ur_email = ''a@b.c'',
     ur_profilePicture = None, ur_profilePictureMime = None, ur_deleted = False\<rparr>], ps_audit = []\<rparr>"

section \<open>Properties\<close>



lemma sample_picture_accepted:
  "accepted_picture (data_url ''image/png'' sample_png) = Inr (sample_png, ''image/png'')"
proof -
  have "match_data_url (data_url ''image/png'' sample_png) = Some (''image/png'', base64_encode sample_png)"
    by (rule match_data_url_of) (simp_all add: sample_png_def)
  moreover have "inspectPng sample_png = Inr (Some \<lparr>im_mimeType = Png, im_width = 128, im_height = 256\<rparr>)"
    by code_simp
  ultimately show ?thesis
    by (simp add: accepted_picture_Inr base64_round_trip inspectProfileImage_def ALLOWED_PROFILE_MIME_TYPES_def
        MAX_PROFILE_PICTURE_BYTES_def MIN_PROFILE_PICTURE_DIMENSION_def MAX_PROFILE_PICTURE_DIMENSION_def)
      (simp add: sample_png_def png_signature_def)
qed


section \<open>Further facts\<close>

text \<open>
  The size of a JPEG file is read from its frame header, whatever segments come before it: a
  file that consists of the start of the image, segments with legal markers and lengths, and a frame
  header is recognised with exactly the width and height of the frame.
\<close>

theorem jpeg_size_read_from_frame:
  assumes "list_all passed_segment segs" and "marker \<in> set JPEG_START_OF_FRAME_MARKERS"
    and "length components < 65529" and "height < 65536" and "width < 65536"
  shows "inspectProfileImage ([0xff, 0xd8] @ concat (map jpeg_segment segs) @
      jpeg_frame marker precision height width components @ rest) =
    Inr (Some \<lparr>im_mimeType = Jpeg, im_width = width, im_height = height\<rparr>)"
proof -
  define frame where "frame = jpeg_frame marker precision height width components @ rest"
  define segments where "segments = concat (map jpeg_segment segs)"
  define bs where "bs = [0xff, 0xd8] @ segments @ frame"
  have "10 \<le> length bs" by (simp add: bs_def frame_def jpeg_frame_def)
  moreover have "byte_at bs 0 = Some 0xff" "byte_at bs 1 = Some 0xd8" by (simp_all add: byte_at_def bs_def)
  moreover have "drop 2 bs = segments @ frame" "drop (2 + length segments) bs = frame"
    by (simp_all add: bs_def)
  then have "jpeg_scan bs 2 = Inr (Some \<lparr>im_mimeType = Jpeg, im_width = width, im_height = height\<rparr>)"
    using jpeg_scan_passed [of 2 bs segs frame] assms
    unfolding segments_def frame_def by (simp add: jpeg_scan_frame)
  ultimately have "inspectJpeg bs = Inr (Some \<lparr>im_mimeType = Jpeg, im_width = width, im_height = height\<rparr>)"
    and "inspectPng bs = Inr None"
    by (simp_all add: inspectJpeg_def inspectPng_def png_signature_def upt_rec)
  then show ?thesis by (simp add: inspectProfileImage_def bs_def frame_def segments_def)
qed

theorem jpeg_size_read_from_frame_witness:
  "inspectProfileImage ([0xff, 0xd8] @ concat (map jpeg_segment [(0xe0, [74, 70])]) @
      jpeg_frame 0xc0 8 600 800 [3] @ [0]) =
    Inr (Some \<lparr>im_mimeType = Jpeg, im_width = 800, im_height = 600\<rparr>)"
  by (rule jpeg_size_read_from_frame)
    (simp_all add: passed_segment_def JPEG_START_OF_FRAME_MARKERS_def)

end
