(* ===== verification/Pre_Admission.thy ===== *)
theory Pre_Admission
  imports Access_Policy Consolidation Effects JSON_Text Exact_Decimal JS_Time
begin

text \<open>
  The access of a candidate before admission, a link that opens without an account: who may manage
  it (\<open>domain/identity/pre-admission-access.ts\<close>), its tokens
  (\<open>infra/security/hmac-pre-admission-token.service.ts\<close>), the rows and the history of an access
  (\<open>infra/database/repositories/prisma-pre-admission-access.repository.ts\<close>), and the service around
  them (\<open>application/use-cases/pre-admission/pre-admission-access.service.ts\<close>).

  The signature and the digest of \<open>node:crypto\<close> are parameters, and so are the other tables of the
  database as a command finds them: users, persons, document types, companies. Commands run one
  after the other; a write conflict that the database reports for an attempt is a parameter.
\<close>

section \<open>Management and status\<close>

definition PRE_ADMISSION_DEFAULT_VALIDITY_DAYS :: int where
  "PRE_ADMISSION_DEFAULT_VALIDITY_DAYS = 30"

datatype pre_admission_status = PS_active | PS_expired | PS_revoked

definition PRE_ADMISSION_MANAGEMENT_DEPARTMENTS :: "department list" where
  "PRE_ADMISSION_MANAGEMENT_DEPARTMENTS = [D_human_resources, D_personnel_department]"

definition canManagePreAdmission :: "authority \<Rightarrow> bool" where
  "canManagePreAdmission a \<longleftrightarrow>
     (let manages = canExercisePermission a (Perm R_documents A_manage) in
      if hasTenantWideAuthority a \<and> manages \<and>
         (au_isAdministrator a \<or> opt_includes (au_departments a) (dept_str D_directorate))
      then True
      else list_ex (\<lambda>d. opt_includes (au_departments a) (dept_str d)) PRE_ADMISSION_MANAGEMENT_DEPARTMENTS \<and> manages)"

definition assertCanManagePreAdmission :: "authority \<Rightarrow> unit result" where
  "assertCanManagePreAdmission a = throw_if (\<not> canManagePreAdmission a) (forbidden ''manage-pre-admission'')"

definition preAdmissionExpiresAt :: "int \<Rightarrow> int" where
  "preAdmissionExpiresAt now = now + PRE_ADMISSION_DEFAULT_VALIDITY_DAYS * 24 * 60 * 60 * 1000"

definition preAdmissionStatus :: "int option \<Rightarrow> int \<Rightarrow> int \<Rightarrow> pre_admission_status" where
  "preAdmissionStatus revokedAt expiresAt now =
     (if revokedAt \<noteq> None then PS_revoked else if expiresAt \<le> now then PS_expired else PS_active)"

section \<open>Tokens\<close>

text \<open>The signature of a text under the signing key, in base64url, and the hexadecimal digest of a text.\<close>

record token_env =
  te_sign :: "string \<Rightarrow> string"
  te_digest :: "string \<Rightarrow> string"

definition int_text :: "int \<Rightarrow> string" where
  "int_text n = (if n < 0 then ''-'' else '''') @ nat_text (nat \<bar>n\<bar>)"

record issued_token =
  it_plainText :: string
  it_hash :: string

definition token_text :: "token_env \<Rightarrow> string \<Rightarrow> string \<Rightarrow> int \<Rightarrow> string" where
  "token_text env accessId companyId generation =
     ''pa_'' @ accessId @ ''.'' @ int_text generation @ ''.'' @
     te_sign env (companyId @ '':'' @ accessId @ '':'' @ int_text generation)"

definition issue_token :: "token_env \<Rightarrow> string \<Rightarrow> string \<Rightarrow> int \<Rightarrow> issued_token" where
  "issue_token env accessId companyId generation =
     (let plainText = token_text env accessId companyId generation
      in \<lparr>it_plainText = plainText, it_hash = te_digest env plainText\<rparr>)"

text \<open>\<open>TOKEN_PATTERN\<close>: a UUID of version 4, a generation without leading zero, 43 characters; letters in any case.\<close>

definition is_base64url :: "char \<Rightarrow> bool" where
  "is_base64url c \<longleftrightarrow> is_digit c \<or> is_upper c \<or> is_lower c \<or> c \<in> set ''_-''"

definition match_token :: "string \<Rightarrow> (string \<times> string) option" where
  "match_token token =
     (let accessId = take 36 (drop 3 token); rest = drop 40 token;
          generation = takeWhile is_digit rest; signature = drop (Suc (length generation)) rest
      in if to_lower (take 3 token) = ''pa_'' \<and> uuid_v4 accessId \<and> take 1 (drop 39 token) = ''.'' \<and>
           generation \<noteq> [] \<and> hd generation \<noteq> CHR ''0'' \<and>
           take 1 (drop (length generation) rest) = ''.'' \<and>
           length signature = 43 \<and> list_all is_base64url signature
         then Some (accessId, generation) else None)"

record parsed_token =
  pt_accessId :: string
  pt_generation :: int
  pt_hash :: string

definition parse_token :: "token_env \<Rightarrow> string \<Rightarrow> parsed_token option" where
  "parse_token env token = (case match_token token of None \<Rightarrow> None
     | Some (accessId, digits) \<Rightarrow>
         let generation = number_of_digits digits in
         if generation > 9007199254740991 then None
         else Some \<lparr>pt_accessId = to_lower accessId, pt_generation = generation, pt_hash = te_digest env token\<rparr>)"

section \<open>Rows, history, and the other tables\<close>

record document_type =
  dt_code :: string
  dt_name :: string
  dt_acceptedMimeTypes :: "string list"
  dt_maxFileSizeBytes :: int
  dt_minFiles :: int
  dt_maxFiles :: int
  dt_requiresFrontBack :: bool

record requested_document =
  rd_documentTypeId :: string
  rd_configSnapshot :: document_type
  rd_instructions :: "string option"
  rd_position :: nat

record access_row =
  ax_id :: string
  ax_companyId :: string
  ax_personRegistrationId :: string
  ax_createdByUserId :: string
  ax_tokenHash :: string
  ax_tokenGeneration :: int
  ax_expiresAt :: int
  ax_revokedAt :: "int option"
  ax_version :: int
  ax_createdAt :: int
  ax_updatedAt :: int
  ax_items :: "requested_document list"

datatype access_action = AC_created | AC_renewed | AC_revoked

record access_history =
  ah_companyId :: string
  ah_accessId :: string
  ah_actorUserId :: string
  ah_commandId :: string
  ah_expectedVersion :: int
  ah_action :: access_action
  ah_requestFingerprint :: string
  ah_resultVersion :: int
  ah_resultTokenGeneration :: int
  ah_resultExpiresAt :: int
  ah_resultRevokedAt :: "int option"

datatype access_audit_metadata =
    Creation_audit (aa_person: string) (aa_documentTypeIds: "string list") (aa_expiresAt: int)
  | Change_audit (aa_expectedVersion: int) (aa_resultVersion: int) (aa_resultExpiresAt: int) (aa_revokedAt: "int option")

record access_audit =
  aa_companyId :: string
  aa_actorUserId :: string
  aa_action :: access_action
  aa_targetId :: string
  aa_metadata :: access_audit_metadata

record access_store =
  st_rows :: "access_row list"
  st_history :: "access_history list"
  st_audit :: "access_audit list"

text \<open>The account of an actor, the person of the registrations, and what a command finds in their tables.\<close>

record actor_row =
  at_isActive :: bool
  at_statusActive :: bool
  at_deleted :: bool
  at_isAdministrator :: bool
  at_documentAccessMode :: string
  at_departments :: "string list"
  at_permissionCodes :: "string list"

record person_row =
  pn_isPerson :: bool
  pn_isActive :: bool
  pn_individualName :: "string option"
  pn_legalName :: string

record directory =
  dr_actor :: "string \<Rightarrow> string \<Rightarrow> actor_row option"
  dr_person :: "string \<Rightarrow> string \<Rightarrow> person_row option"
  dr_documentType :: "string \<Rightarrow> string \<Rightarrow> document_type option"
  dr_companyActive :: "string \<Rightarrow> bool"

section \<open>The repository\<close>

text \<open>
  What a transaction may fail with: an error of the application, the conflict the repository throws
  for concurrent changes (an \<open>AppError\<close> of code \<open>CONFLICT\<close>), a violated unique index, a write
  conflict, a \<open>TypeError\<close>.
\<close>

datatype access_failure =
  Access_error app_error | Concurrent_conflict string | Unique_violation | Write_conflict | Type_error

definition isConcurrencyConflict :: "access_failure \<Rightarrow> bool" where
  "isConcurrencyConflict e \<longleftrightarrow> (case e of Access_error _ \<Rightarrow> False | Type_error \<Rightarrow> False | _ \<Rightarrow> True)"

record access_record =
  ar_id :: string
  ar_companyId :: string
  ar_personRegistrationId :: string
  ar_personName :: string
  ar_expiresAt :: int
  ar_revokedAt :: "int option"
  ar_version :: int
  ar_tokenGeneration :: int
  ar_requestedDocuments :: "requested_document list"
  ar_createdAt :: int
  ar_updatedAt :: int

record mutation_result =
  mr_access :: access_record
  mr_idempotent :: bool
  mr_resultVersion :: int
  mr_resultTokenGeneration :: int
  mr_resultExpiresAt :: int
  mr_resultRevokedAt :: "int option"

text \<open>Columns of type \<open>uuid\<close> hold the lower case spelling, and compare whatever the case of a parameter.\<close>

definition find_access :: "string \<Rightarrow> string \<Rightarrow> access_store \<Rightarrow> access_row option" where
  "find_access accessId companyId s =
     find (\<lambda>r. ax_id r = to_lower accessId \<and> ax_companyId r = companyId) (st_rows s)"

definition person_name :: "directory \<Rightarrow> access_row \<Rightarrow> string" where
  "person_name dir r = (case dr_person dir (ax_companyId r) (ax_personRegistrationId r) of
       None \<Rightarrow> []
     | Some p \<Rightarrow> (case pn_individualName p of None \<Rightarrow> pn_legalName p | Some n \<Rightarrow> n))"

definition mapAccess :: "directory \<Rightarrow> access_row \<Rightarrow> access_record" where
  "mapAccess dir r = \<lparr>ar_id = ax_id r, ar_companyId = ax_companyId r,
     ar_personRegistrationId = ax_personRegistrationId r, ar_personName = person_name dir r,
     ar_expiresAt = ax_expiresAt r, ar_revokedAt = ax_revokedAt r, ar_version = ax_version r,
     ar_tokenGeneration = ax_tokenGeneration r, ar_requestedDocuments = ax_items r,
     ar_createdAt = ax_createdAt r, ar_updatedAt = ax_updatedAt r\<rparr>"

definition mutationResult :: "directory \<Rightarrow> access_row \<Rightarrow> access_history \<Rightarrow> bool \<Rightarrow> mutation_result" where
  "mutationResult dir r h idempotent = \<lparr>mr_access = mapAccess dir r, mr_idempotent = idempotent,
     mr_resultVersion = ah_resultVersion h, mr_resultTokenGeneration = ah_resultTokenGeneration h,
     mr_resultExpiresAt = ah_resultExpiresAt h, mr_resultRevokedAt = ah_resultRevokedAt h\<rparr>"

definition actor_authority :: "actor_row \<Rightarrow> authority" where
  "actor_authority a = \<lparr>au_isAdministrator = at_isAdministrator a, au_departments = Some (at_departments a),
     au_permissionCodes = Some (at_permissionCodes a), au_permissions = Some (at_permissionCodes a),
     au_documentAccessMode = Some (at_documentAccessMode a)\<rparr>"

definition assertActorCanManage :: "directory \<Rightarrow> string \<Rightarrow> string \<Rightarrow> access_failure + unit" where
  "assertActorCanManage dir companyId actorUserId =
     throw_if (case dr_actor dir companyId actorUserId of None \<Rightarrow> True
       | Some a \<Rightarrow> \<not> at_isActive a \<or> \<not> at_statusActive a \<or> at_deleted a \<or> \<not> canManagePreAdmission (actor_authority a))
       (Access_error (forbidden ''administer-pre-admission''))"

record repeated_input =
  ri_companyId :: string
  ri_commandId :: string
  ri_actorUserId :: string
  ri_action :: access_action
  ri_requestFingerprint :: string
  ri_accessId :: "string option"

definition find_command :: "string \<Rightarrow> string \<Rightarrow> access_store \<Rightarrow> access_history option" where
  "find_command companyId commandId s =
     find (\<lambda>h. ah_companyId h = companyId \<and> ah_commandId h = to_lower commandId) (st_history s)"

definition repeatedCommand ::
  "directory \<Rightarrow> repeated_input \<Rightarrow> access_store \<Rightarrow> access_failure + mutation_result option" where
  "repeatedCommand dir input s =
     (case find_command (ri_companyId input) (ri_commandId input) s of
        None \<Rightarrow> Inr None
      | Some h \<Rightarrow>
          if ah_action h \<noteq> ri_action input \<or> ah_requestFingerprint h \<noteq> ri_requestFingerprint input \<or>
             ah_actorUserId h \<noteq> ri_actorUserId input \<or>
             (\<not> falsy (ri_accessId input) \<and> ah_accessId h \<noteq> the (ri_accessId input))
          then Inl (Access_error (conflict ''command-id-reused'' None))
          else (case find_access (ah_accessId h) (ri_companyId input) s of
              None \<Rightarrow> Inl (Access_error (notFound ''record''))
            | Some r \<Rightarrow> Inr (Some (mutationResult dir r h True))))"

text \<open>
  A transaction: its result with the store it commits, or a failure. The database may abort an attempt
  with a write conflict; after the last attempt the conflict is thrown.
\<close>

type_synonym transaction = "access_store \<Rightarrow> access_failure + mutation_result \<times> access_store"

definition SERIALIZABLE_TRANSACTION_MAX_ATTEMPTS :: nat where
  "SERIALIZABLE_TRANSACTION_MAX_ATTEMPTS = 3"

fun retrySerializable :: "nat \<Rightarrow> (nat \<Rightarrow> bool) \<Rightarrow> transaction \<Rightarrow> transaction" where
  "retrySerializable 0 aborted operation s = Inl Write_conflict"
| "retrySerializable (Suc n) aborted operation s =
     (if aborted (Suc n) then retrySerializable n aborted operation s else operation s)"

text \<open>
  Both mutations: the transaction with its attempts, and after a conflict the look for a command that
  was committed meanwhile. The three looks of the code see the same store here.
\<close>

definition committed ::
  "directory \<Rightarrow> repeated_input \<Rightarrow> string \<Rightarrow> (nat \<Rightarrow> bool) \<Rightarrow> transaction \<Rightarrow>
   (access_store, access_failure, mutation_result) store_action" where
  "committed dir repeated message aborted operation s =
     (case retrySerializable SERIALIZABLE_TRANSACTION_MAX_ATTEMPTS aborted operation s of
        Inr (r, s') \<Rightarrow> (Inr r, s')
      | Inl e \<Rightarrow>
          if \<not> isConcurrencyConflict e then (Inl e, s)
          else (case repeatedCommand dir repeated s of
              Inl e' \<Rightarrow> (Inl e', s)
            | Inr (Some r) \<Rightarrow> (Inr r, s)
            | Inr None \<Rightarrow> (case e of Concurrent_conflict m \<Rightarrow> (Inl (Concurrent_conflict m), s)
                | _ \<Rightarrow> (Inl (Access_error (conflict message None)), s))))"

section \<open>Creation, renewal, revocation\<close>

record new_access =
  na_id :: string
  na_companyId :: string
  na_actorUserId :: string
  na_personRegistrationId :: string
  na_documentTypeIds :: "string list"
  na_instructions :: "(string \<times> string) list option"
  na_commandId :: string
  na_requestFingerprint :: string
  na_tokenHash :: string
  na_expiresAt :: int
  na_now :: int

definition create_repeated :: "new_access \<Rightarrow> repeated_input" where
  "create_repeated input = \<lparr>ri_companyId = na_companyId input, ri_commandId = na_commandId input,
     ri_actorUserId = na_actorUserId input, ri_action = AC_created,
     ri_requestFingerprint = na_requestFingerprint input, ri_accessId = None\<rparr>"

text \<open>
  The items of a new access. The types are found whatever the case of their ids, but looked up in the
  map by the text of the request: another spelling gives \<open>undefined\<close>, whose members throw.
\<close>

definition requested_items ::
  "directory \<Rightarrow> string \<Rightarrow> (string \<times> string) list option \<Rightarrow> string list \<Rightarrow> access_failure + requested_document list" where
  "requested_items dir companyId instructions documentTypeIds =
     map_result (\<lambda>(position, i).
       case (if to_lower i = i then dr_documentType dir companyId i else None) of
         None \<Rightarrow> Inl Type_error
       | Some t \<Rightarrow> Inr \<lparr>rd_documentTypeId = i, rd_configSnapshot = t,
           rd_instructions = (case instructions of None \<Rightarrow> None | Some m \<Rightarrow> trim_or_null (map_of m i)),
           rd_position = position\<rparr>) (enumerate 1 documentTypeIds)"

definition found_types :: "directory \<Rightarrow> string \<Rightarrow> string list \<Rightarrow> string list" where
  "found_types dir companyId documentTypeIds =
     js_uniq (filter (\<lambda>i. dr_documentType dir companyId i \<noteq> None) (map to_lower documentTypeIds))"

definition created_access :: "new_access \<Rightarrow> requested_document list \<Rightarrow> access_row" where
  "created_access input items = \<lparr>ax_id = to_lower (na_id input), ax_companyId = na_companyId input,
     ax_personRegistrationId = to_lower (na_personRegistrationId input), ax_createdByUserId = na_actorUserId input,
     ax_tokenHash = na_tokenHash input, ax_tokenGeneration = 1, ax_expiresAt = na_expiresAt input,
     ax_revokedAt = None, ax_version = 1, ax_createdAt = na_now input, ax_updatedAt = na_now input,
     ax_items = items\<rparr>"

definition created_history :: "new_access \<Rightarrow> access_history" where
  "created_history input = \<lparr>ah_companyId = na_companyId input, ah_accessId = to_lower (na_id input),
     ah_actorUserId = na_actorUserId input, ah_commandId = to_lower (na_commandId input), ah_expectedVersion = 0,
     ah_action = AC_created, ah_requestFingerprint = na_requestFingerprint input, ah_resultVersion = 1,
     ah_resultTokenGeneration = 1, ah_resultExpiresAt = na_expiresAt input, ah_resultRevokedAt = None\<rparr>"

definition is_open_for :: "string \<Rightarrow> string \<Rightarrow> access_row \<Rightarrow> bool" where
  "is_open_for companyId personId r \<longleftrightarrow>
     ax_companyId r = companyId \<and> ax_personRegistrationId r = personId \<and> ax_revokedAt r = None"

definition create_transaction :: "directory \<Rightarrow> new_access \<Rightarrow> transaction" where
  "create_transaction dir input s =
     rbind (assertActorCanManage dir (na_companyId input) (na_actorUserId input)) (\<lambda>_.
     rbind (repeatedCommand dir (create_repeated input) s) (\<lambda>repeated.
     case repeated of Some r \<Rightarrow> Inr (r, s) | None \<Rightarrow>
     let documentTypeIds = js_uniq (na_documentTypeIds input);
         personId = to_lower (na_personRegistrationId input) in
     rbind (throw_if (documentTypeIds = [] \<or> length documentTypeIds \<noteq> length (na_documentTypeIds input))
       (Access_error (validationError ''document-types-without-duplicates''))) (\<lambda>_.
     rbind (throw_if (case dr_person dir (na_companyId input) personId of None \<Rightarrow> True
         | Some p \<Rightarrow> \<not> pn_isPerson p \<or> \<not> pn_isActive p)
       (Access_error (notFound ''active-person''))) (\<lambda>_.
     rbind (throw_if (length (found_types dir (na_companyId input) documentTypeIds) \<noteq> length documentTypeIds)
       (Access_error (validationError ''unknown-document-type''))) (\<lambda>_.
     rbind (throw_if (list_ex (is_open_for (na_companyId input) personId) (st_rows s))
       (Concurrent_conflict ''person-has-open-access'')) (\<lambda>_.
     rbind (requested_items dir (na_companyId input) (na_instructions input) documentTypeIds) (\<lambda>items.
     rbind (throw_if (list_ex (\<lambda>r. ax_id r = to_lower (na_id input) \<or> ax_tokenHash r = na_tokenHash input) (st_rows s))
       Unique_violation) (\<lambda>_.
     let row = created_access input items; h = created_history input in
     Inr (mutationResult dir row h False,
       s\<lparr>st_rows := st_rows s @ [row], st_history := st_history s @ [h],
         st_audit := st_audit s @ [\<lparr>aa_companyId = na_companyId input, aa_actorUserId = na_actorUserId input,
           aa_action = AC_created, aa_targetId = ax_id row,
           aa_metadata = Creation_audit (na_personRegistrationId input) documentTypeIds (na_expiresAt input)\<rparr>]\<rparr>)))))))))"

definition create_access ::
  "directory \<Rightarrow> (nat \<Rightarrow> bool) \<Rightarrow> new_access \<Rightarrow> (access_store, access_failure, mutation_result) store_action" where
  "create_access dir aborted input =
     committed dir (create_repeated input) ''person-has-open-access'' aborted (create_transaction dir input)"

text \<open>A change of an access; a renewal brings the digest of the new token and the new end.\<close>

record access_change =
  cg_companyId :: string
  cg_actorUserId :: string
  cg_accessId :: string
  cg_commandId :: string
  cg_expectedVersion :: int
  cg_requestFingerprint :: string
  cg_renewal :: "(string \<times> int) option"
  cg_now :: int

definition change_action :: "access_change \<Rightarrow> access_action" where
  "change_action input = (if cg_renewal input = None then AC_revoked else AC_renewed)"

definition change_repeated :: "access_change \<Rightarrow> repeated_input" where
  "change_repeated input = \<lparr>ri_companyId = cg_companyId input, ri_commandId = cg_commandId input,
     ri_actorUserId = cg_actorUserId input, ri_action = change_action input,
     ri_requestFingerprint = cg_requestFingerprint input, ri_accessId = Some (cg_accessId input)\<rparr>"

definition changed_access :: "access_change \<Rightarrow> access_row \<Rightarrow> access_row" where
  "changed_access input r =
     (let r' = r\<lparr>ax_version := cg_expectedVersion input + 1, ax_tokenGeneration := cg_expectedVersion input + 1,
        ax_updatedAt := cg_now input\<rparr>
      in case cg_renewal input of
           None \<Rightarrow> r'\<lparr>ax_revokedAt := Some (cg_now input)\<rparr>
         | Some (tokenHash, expiresAt) \<Rightarrow>
             r'\<lparr>ax_expiresAt := expiresAt, ax_revokedAt := None, ax_tokenHash := tokenHash\<rparr>)"

definition changed_history :: "access_change \<Rightarrow> access_row \<Rightarrow> access_history" where
  "changed_history input r = \<lparr>ah_companyId = cg_companyId input, ah_accessId = to_lower (cg_accessId input),
     ah_actorUserId = cg_actorUserId input, ah_commandId = to_lower (cg_commandId input),
     ah_expectedVersion = cg_expectedVersion input, ah_action = change_action input,
     ah_requestFingerprint = cg_requestFingerprint input, ah_resultVersion = ax_version r,
     ah_resultTokenGeneration = ax_tokenGeneration r, ah_resultExpiresAt = ax_expiresAt r,
     ah_resultRevokedAt = ax_revokedAt r\<rparr>"

definition change_transaction :: "directory \<Rightarrow> access_change \<Rightarrow> transaction" where
  "change_transaction dir input s =
     rbind (assertActorCanManage dir (cg_companyId input) (cg_actorUserId input)) (\<lambda>_.
     rbind (repeatedCommand dir (change_repeated input) s) (\<lambda>repeated.
     case repeated of Some r \<Rightarrow> Inr (r, s) | None \<Rightarrow>
     case find_access (cg_accessId input) (cg_companyId input) s of
       None \<Rightarrow> Inl (Access_error (notFound ''pre-admission-access''))
     | Some access \<Rightarrow>
     rbind (throw_if (ax_version access \<noteq> cg_expectedVersion input) (Concurrent_conflict ''access-changed'')) (\<lambda>_.
     rbind (throw_if (cg_renewal input \<noteq> None \<and>
         list_ex (\<lambda>r. is_open_for (cg_companyId input) (ax_personRegistrationId access) r \<and> ax_id r \<noteq> ax_id access) (st_rows s))
       (Access_error (conflict ''other-open-access'' None))) (\<lambda>_.
     rbind (throw_if (case cg_renewal input of None \<Rightarrow> False
         | Some (tokenHash, _) \<Rightarrow> list_ex (\<lambda>r. ax_tokenHash r = tokenHash \<and> ax_id r \<noteq> ax_id access) (st_rows s))
       Unique_violation) (\<lambda>_.
     let row = changed_access input access; h = changed_history input row in
     Inr (mutationResult dir row h False,
       s\<lparr>st_rows := map (\<lambda>r. if ax_id r = ax_id access \<and> ax_companyId r = cg_companyId input \<and>
             ax_version r = cg_expectedVersion input then changed_access input r else r) (st_rows s),
         st_history := st_history s @ [h],
         st_audit := st_audit s @ [\<lparr>aa_companyId = cg_companyId input, aa_actorUserId = cg_actorUserId input,
           aa_action = change_action input, aa_targetId = cg_accessId input,
           aa_metadata = Change_audit (cg_expectedVersion input) (ax_version row) (ax_expiresAt row) (ax_revokedAt row)\<rparr>]\<rparr>))))))"

definition changeAccess ::
  "directory \<Rightarrow> (nat \<Rightarrow> bool) \<Rightarrow> access_change \<Rightarrow> (access_store, access_failure, mutation_result) store_action" where
  "changeAccess dir aborted input =
     committed dir (change_repeated input) ''access-changed'' aborted (change_transaction dir input)"

definition resolve_row ::
  "directory \<Rightarrow> string \<Rightarrow> string \<Rightarrow> int \<Rightarrow> access_store \<Rightarrow> access_record option" where
  "resolve_row dir accessId tokenHash now s =
     map_option (mapAccess dir) (find (\<lambda>r. ax_id r = to_lower accessId \<and> ax_tokenHash r = tokenHash \<and>
       ax_revokedAt r = None \<and> ax_expiresAt r > now \<and> dr_companyActive dir (ax_companyId r) \<and>
       (case dr_person dir (ax_companyId r) (ax_personRegistrationId r) of None \<Rightarrow> False | Some p \<Rightarrow> pn_isActive p))
       (st_rows s))"

section \<open>The service\<close>

text \<open>\<open>JSON.stringify\<close> of an object, its values given as texts in the order of the members.\<close>

definition object_text :: "(string \<times> string) list \<Rightarrow> string" where
  "object_text members =
     CHR 0x7B # join_comma (map (\<lambda>(k, v). quote_json k @ CHR '':'' # v) members) @ [CHR 0x7D]"

definition array_text :: "string list \<Rightarrow> string" where
  "array_text values = CHR 0x5B # join_comma (map quote_json values) @ [CHR 0x5D]"

definition created_fingerprint :: "token_env \<Rightarrow> string \<Rightarrow> string list \<Rightarrow> (string \<times> string) list option \<Rightarrow> string" where
  "created_fingerprint env personRegistrationId documentTypeIds instructions = te_digest env (object_text
     [(''action'', quote_json ''created''), (''personRegistrationId'', quote_json personRegistrationId),
      (''documentTypeIds'', array_text documentTypeIds),
      (''instructions'', object_text (map (\<lambda>(k, v). (k, quote_json v)) (case instructions of None \<Rightarrow> [] | Some m \<Rightarrow> m))),
      (''expectedVersion'', ''0'')])"

definition changed_fingerprint :: "token_env \<Rightarrow> string \<Rightarrow> string \<Rightarrow> int \<Rightarrow> string" where
  "changed_fingerprint env action accessId expectedVersion = te_digest env (object_text
     [(''action'', quote_json action), (''accessId'', quote_json accessId),
      (''expectedVersion'', int_text expectedVersion)])"

record authenticated_principal =
  pp_id :: string
  pp_companyId :: string
  pp_authority :: authority

record create_request =
  cq_commandId :: string
  cq_expectedVersion :: int
  cq_personRegistrationId :: string
  cq_documentTypeIds :: "string list"
  cq_instructions :: "(string \<times> string) list option"

record versioned_request =
  vq_commandId :: string
  vq_expectedVersion :: int

record management_result =
  mg_id :: string
  mg_personRegistrationId :: string
  mg_personName :: string
  mg_purpose :: string
  mg_status :: pre_admission_status
  mg_expiresAt :: string
  mg_revokedAt :: "string option"
  mg_version :: int
  mg_requestedDocuments :: "requested_document list"
  mg_uploadAvailable :: bool
  mg_idempotent :: bool
  mg_token :: "string option"

definition managementResult :: "int \<Rightarrow> mutation_result \<Rightarrow> string option \<Rightarrow> management_result" where
  "managementResult now result token =
     (let access = mr_access result in
      \<lparr>mg_id = ar_id access, mg_personRegistrationId = ar_personRegistrationId access,
       mg_personName = ar_personName access, mg_purpose = ''admission-document-upload'',
       mg_status = preAdmissionStatus (mr_resultRevokedAt result) (mr_resultExpiresAt result) now,
       mg_expiresAt = iso_string (mr_resultExpiresAt result),
       mg_revokedAt = map_option iso_string (mr_resultRevokedAt result),
       mg_version = mr_resultVersion result, mg_requestedDocuments = ar_requestedDocuments access,
       mg_uploadAvailable = False, mg_idempotent = mr_idempotent result,
       mg_token = (if falsy token then None else token)\<rparr>)"

text \<open>What a call gets from outside: tokens and digests, the other tables, the attempts the database aborts, the clock, a new id.\<close>

record call_env =
  ce_tokens :: token_env
  ce_directory :: directory
  ce_aborted :: "nat \<Rightarrow> bool"
  ce_now :: int
  ce_later :: int
  ce_randomUUID :: string

definition managed_token :: "call_env \<Rightarrow> mutation_result \<Rightarrow> string" where
  "managed_token env result = it_plainText (issue_token (ce_tokens env) (ar_id (mr_access result))
     (ar_companyId (mr_access result)) (mr_resultTokenGeneration result))"

definition lifted :: "'a result \<Rightarrow> access_failure + 'a" where
  "lifted r = (case r of Inl e \<Rightarrow> Inl (Access_error e) | Inr x \<Rightarrow> Inr x)"

definition service_create ::
  "call_env \<Rightarrow> authenticated_principal \<Rightarrow> create_request \<Rightarrow> (access_store, access_failure, management_result) store_action" where
  "service_create env who input =
     bind_op (return_op (lifted (assertCanManagePreAdmission (pp_authority who)))) (\<lambda>_.
     bind_op (return_op (throw_if (cq_expectedVersion input \<noteq> 0) (Access_error (validationError ''expected-version-zero'')))) (\<lambda>_.
     let issued = issue_token (ce_tokens env) (ce_randomUUID env) (pp_companyId who) 1 in
     bind_op (create_access (ce_directory env) (ce_aborted env)
       \<lparr>na_id = ce_randomUUID env, na_companyId = pp_companyId who, na_actorUserId = pp_id who,
        na_personRegistrationId = cq_personRegistrationId input, na_documentTypeIds = cq_documentTypeIds input,
        na_instructions = cq_instructions input, na_commandId = cq_commandId input,
        na_requestFingerprint = created_fingerprint (ce_tokens env) (cq_personRegistrationId input)
          (cq_documentTypeIds input) (cq_instructions input),
        na_tokenHash = it_hash issued, na_expiresAt = preAdmissionExpiresAt (ce_now env), na_now = ce_now env\<rparr>) (\<lambda>result.
     return_op (Inr (managementResult (ce_later env) result (Some (managed_token env result)))))))"

definition service_renew ::
  "call_env \<Rightarrow> authenticated_principal \<Rightarrow> string \<Rightarrow> versioned_request \<Rightarrow> (access_store, access_failure, management_result) store_action" where
  "service_renew env who accessId input =
     bind_op (return_op (lifted (assertCanManagePreAdmission (pp_authority who)))) (\<lambda>_.
     bind_op (return_op (throw_if (vq_expectedVersion input < 1) (Access_error (validationError ''expected-version'')))) (\<lambda>_.
     let issued = issue_token (ce_tokens env) accessId (pp_companyId who) (vq_expectedVersion input + 1) in
     bind_op (changeAccess (ce_directory env) (ce_aborted env)
       \<lparr>cg_companyId = pp_companyId who, cg_actorUserId = pp_id who, cg_accessId = accessId,
        cg_commandId = vq_commandId input, cg_expectedVersion = vq_expectedVersion input,
        cg_requestFingerprint = changed_fingerprint (ce_tokens env) ''renewed'' accessId (vq_expectedVersion input),
        cg_renewal = Some (it_hash issued, preAdmissionExpiresAt (ce_now env)), cg_now = ce_now env\<rparr>) (\<lambda>result.
     return_op (Inr (managementResult (ce_later env) result (Some (managed_token env result)))))))"

definition service_revoke ::
  "call_env \<Rightarrow> authenticated_principal \<Rightarrow> string \<Rightarrow> versioned_request \<Rightarrow> (access_store, access_failure, management_result) store_action" where
  "service_revoke env who accessId input =
     bind_op (return_op (lifted (assertCanManagePreAdmission (pp_authority who)))) (\<lambda>_.
     bind_op (return_op (throw_if (vq_expectedVersion input < 1) (Access_error (validationError ''expected-version'')))) (\<lambda>_.
     bind_op (changeAccess (ce_directory env) (ce_aborted env)
       \<lparr>cg_companyId = pp_companyId who, cg_actorUserId = pp_id who, cg_accessId = accessId,
        cg_commandId = vq_commandId input, cg_expectedVersion = vq_expectedVersion input,
        cg_requestFingerprint = changed_fingerprint (ce_tokens env) ''revoked'' accessId (vq_expectedVersion input),
        cg_renewal = None, cg_now = ce_now env\<rparr>) (\<lambda>result.
     return_op (Inr (managementResult (ce_later env) result None)))))"

text \<open>What a token shows to the public: the documents without their internal ids.\<close>

record public_document =
  pd_document :: document_type
  pd_instructions :: "string option"
  pd_position :: nat

definition publicRequestedDocuments :: "access_record \<Rightarrow> public_document list" where
  "publicRequestedDocuments access = map (\<lambda>d. \<lparr>pd_document = rd_configSnapshot d,
     pd_instructions = rd_instructions d, pd_position = rd_position d\<rparr>) (ar_requestedDocuments access)"

record resolved_access =
  rv_personName :: string
  rv_purpose :: string
  rv_status :: pre_admission_status
  rv_expiresAt :: string
  rv_version :: int
  rv_requestedDocuments :: "public_document list"
  rv_uploadAvailable :: bool

definition resolve :: "token_env \<Rightarrow> directory \<Rightarrow> int \<Rightarrow> string \<Rightarrow> access_store \<Rightarrow> resolved_access result" where
  "resolve env dir now token s =
     (case parse_token env token of None \<Rightarrow> Inl invalidPreAdmissionToken
      | Some parsed \<Rightarrow>
          (case resolve_row dir (pt_accessId parsed) (pt_hash parsed) now s of None \<Rightarrow> Inl invalidPreAdmissionToken
           | Some access \<Rightarrow>
               if pt_generation parsed \<noteq> ar_tokenGeneration access \<or>
                  preAdmissionStatus (ar_revokedAt access) (ar_expiresAt access) now \<noteq> PS_active
               then Inl invalidPreAdmissionToken
               else Inr \<lparr>rv_personName = ar_personName access, rv_purpose = ''admission-document-upload'',
                 rv_status = PS_active, rv_expiresAt = iso_string (ar_expiresAt access),
                 rv_version = ar_version access, rv_requestedDocuments = publicRequestedDocuments access,
                 rv_uploadAvailable = False\<rparr>))"

section \<open>Runs\<close>

datatype access_call =
    Create call_env authenticated_principal create_request
  | Renew call_env authenticated_principal string versioned_request
  | Revoke call_env authenticated_principal string versioned_request

fun called :: "access_call \<Rightarrow> (access_store, access_failure, management_result) store_action" where
  "called (Create env p q) = service_create env p q"
| "called (Renew env p i q) = service_renew env p i q"
| "called (Revoke env p i q) = service_revoke env p i q"

text \<open>A run of calls, whether they succeed or not.\<close>

definition after_calls :: "access_call list \<Rightarrow> access_store \<Rightarrow> access_store" where
  "after_calls cs s = foldl (\<lambda>s c. store_after (called c) s) s cs"

definition empty_store :: access_store where
  "empty_store = \<lparr>st_rows = [], st_history = [], st_audit = []\<rparr>"

section \<open>What a call does to the store\<close>

lemma committed_cases:
  "committed dir repeated message aborted operation s = (res, s') \<Longrightarrow>
     (\<exists>r. operation s = Inr (r, s') \<and> res = Inr r) \<or>
     s' = s \<and> (case res of Inl _ \<Rightarrow> True | Inr r \<Rightarrow> repeatedCommand dir repeated s = Inr (Some r))"
proof -
  have r: "retrySerializable n aborted operation s = Inr x \<Longrightarrow> operation s = Inr x" for n x
    by (induction n) (auto split: if_splits)
  assume "committed dir repeated message aborted operation s = (res, s')"
  then show ?thesis
    by (auto simp: committed_def split: sum.splits prod.splits if_splits option.splits access_failure.splits dest: r)
qed

text \<open>What the transactions commit, as a relation between stores.\<close>

inductive access_step :: "token_env \<Rightarrow> access_store \<Rightarrow> access_store \<Rightarrow> bool" for env where
  stay: "access_step env s s"
| create: "find_command (na_companyId i) (na_commandId i) s = None \<Longrightarrow>
    \<not> list_ex (is_open_for (na_companyId i) (to_lower (na_personRegistrationId i))) (st_rows s) \<Longrightarrow>
    to_lower (na_id i) \<notin> ax_id ` set (st_rows s) \<Longrightarrow>
    na_tokenHash i = te_digest env (token_text env (na_id i) (na_companyId i) 1) \<Longrightarrow>
    st_rows s' = st_rows s @ [created_access i items] \<Longrightarrow>
    st_history s' = st_history s @ [created_history i] \<Longrightarrow> access_step env s s'"
| change: "find_command (cg_companyId i) (cg_commandId i) s = None \<Longrightarrow>
    find_access (cg_accessId i) (cg_companyId i) s = Some access \<Longrightarrow> ax_version access = cg_expectedVersion i \<Longrightarrow>
    (if cg_renewal i = None then True
     else \<not> list_ex (\<lambda>r. is_open_for (cg_companyId i) (ax_personRegistrationId access) r \<and> ax_id r \<noteq> ax_id access) (st_rows s)) \<Longrightarrow>
    (case cg_renewal i of None \<Rightarrow> True
     | Some (h, _) \<Rightarrow> h = te_digest env (token_text env (cg_accessId i) (cg_companyId i) (cg_expectedVersion i + 1))) \<Longrightarrow>
    st_rows s' = map (\<lambda>r. if ax_id r = ax_id access \<and> ax_companyId r = cg_companyId i \<and>
      ax_version r = cg_expectedVersion i then changed_access i r else r) (st_rows s) \<Longrightarrow>
    st_history s' = st_history s @ [changed_history i (changed_access i access)] \<Longrightarrow> access_step env s s'"

lemma create_transaction_Inr:
  "create_transaction dir i s = Inr (r, s') \<longleftrightarrow>
     assertActorCanManage dir (na_companyId i) (na_actorUserId i) = Inr () \<and>
     (repeatedCommand dir (create_repeated i) s = Inr (Some r) \<and> s' = s \<or>
      repeatedCommand dir (create_repeated i) s = Inr None \<and>
      na_documentTypeIds i \<noteq> [] \<and> length (js_uniq (na_documentTypeIds i)) = length (na_documentTypeIds i) \<and>
      (\<exists>p. dr_person dir (na_companyId i) (to_lower (na_personRegistrationId i)) = Some p \<and> pn_isPerson p \<and> pn_isActive p) \<and>
      length (found_types dir (na_companyId i) (js_uniq (na_documentTypeIds i))) = length (js_uniq (na_documentTypeIds i)) \<and>
      \<not> list_ex (is_open_for (na_companyId i) (to_lower (na_personRegistrationId i))) (st_rows s) \<and>
      (\<exists>items. requested_items dir (na_companyId i) (na_instructions i) (js_uniq (na_documentTypeIds i)) = Inr items \<and>
        \<not> list_ex (\<lambda>r. ax_id r = to_lower (na_id i) \<or> ax_tokenHash r = na_tokenHash i) (st_rows s) \<and>
        r = mutationResult dir (created_access i items) (created_history i) False \<and>
        s' = s\<lparr>st_rows := st_rows s @ [created_access i items], st_history := st_history s @ [created_history i],
         st_audit := st_audit s @ [\<lparr>aa_companyId = na_companyId i, aa_actorUserId = na_actorUserId i,
           aa_action = AC_created, aa_targetId = to_lower (na_id i),
           aa_metadata = Creation_audit (na_personRegistrationId i) (js_uniq (na_documentTypeIds i)) (na_expiresAt i)\<rparr>]\<rparr>))"
  by (auto simp: create_transaction_def Let_def rbind_Inr_iff throw_if_Inr created_access_def
      split: option.splits)

lemma change_transaction_Inr:
  "change_transaction dir i s = Inr (r, s') \<longleftrightarrow>
     assertActorCanManage dir (cg_companyId i) (cg_actorUserId i) = Inr () \<and>
     (repeatedCommand dir (change_repeated i) s = Inr (Some r) \<and> s' = s \<or>
      repeatedCommand dir (change_repeated i) s = Inr None \<and>
      (\<exists>access. find_access (cg_accessId i) (cg_companyId i) s = Some access \<and>
        ax_version access = cg_expectedVersion i \<and>
        (if cg_renewal i = None then True
         else \<not> list_ex (\<lambda>r. is_open_for (cg_companyId i) (ax_personRegistrationId access) r \<and> ax_id r \<noteq> ax_id access) (st_rows s)) \<and>
        (case cg_renewal i of None \<Rightarrow> True
         | Some (h, _) \<Rightarrow> \<not> list_ex (\<lambda>r. ax_tokenHash r = h \<and> ax_id r \<noteq> ax_id access) (st_rows s)) \<and>
        (let row = changed_access i access; h = changed_history i row in
         r = mutationResult dir row h False \<and>
         s' = s\<lparr>st_rows := map (\<lambda>r. if ax_id r = ax_id access \<and> ax_companyId r = cg_companyId i \<and>
             ax_version r = cg_expectedVersion i then changed_access i r else r) (st_rows s),
           st_history := st_history s @ [h],
           st_audit := st_audit s @ [\<lparr>aa_companyId = cg_companyId i, aa_actorUserId = cg_actorUserId i,
             aa_action = change_action i, aa_targetId = cg_accessId i,
             aa_metadata = Change_audit (cg_expectedVersion i) (ax_version row) (ax_expiresAt row) (ax_revokedAt row)\<rparr>]\<rparr>)))"
  by (auto simp: change_transaction_def Let_def rbind_Inr_iff throw_if_Inr split: option.splits prod.splits if_splits)

lemma repeated_None: "repeatedCommand dir i s = Inr None \<longleftrightarrow> find_command (ri_companyId i) (ri_commandId i) s = None"
  by (auto simp: repeatedCommand_def split: option.splits)

primrec call_tokens :: "access_call \<Rightarrow> token_env" where
  "call_tokens (Create env who q) = ce_tokens env"
| "call_tokens (Renew env who i q) = ce_tokens env"
| "call_tokens (Revoke env who i q) = ce_tokens env"

lemma issue_token_fields [simp]:
  "it_hash (issue_token env a c g) = te_digest env (token_text env a c g)"
  "it_plainText (issue_token env a c g) = token_text env a c g"
  by (simp_all add: issue_token_def Let_def)

lemma create_step:
  assumes "create_access dir aborted i s = (res, s')"
    and "na_tokenHash i = te_digest env (token_text env (na_id i) (na_companyId i) 1)"
  shows "access_step env s s'"
proof -
  consider "s' = s" | r where "create_transaction dir i s = Inr (r, s')"
    using committed_cases [OF assms(1) [unfolded create_access_def]] by blast
  then show ?thesis
  proof cases
    case 1
    then show ?thesis by (simp add: access_step.stay)
  next
    case 2
    show ?thesis
    proof (cases "s' = s")
      case True
      then show ?thesis by (simp add: access_step.stay)
    next
      case False
      with 2 obtain items where "find_command (na_companyId i) (na_commandId i) s = None"
        "\<not> list_ex (is_open_for (na_companyId i) (to_lower (na_personRegistrationId i))) (st_rows s)"
        "\<not> list_ex (\<lambda>r. ax_id r = to_lower (na_id i) \<or> ax_tokenHash r = na_tokenHash i) (st_rows s)"
        "st_rows s' = st_rows s @ [created_access i items]" "st_history s' = st_history s @ [created_history i]"
        unfolding create_transaction_Inr repeated_None by (auto simp: create_repeated_def)
      then show ?thesis using assms(2) by (intro access_step.create [of i s _ s' items]) (auto simp: list_ex_iff)
    qed
  qed
qed

lemma change_step:
  assumes "changeAccess dir aborted i s = (res, s')"
    and "case cg_renewal i of None \<Rightarrow> True
     | Some (h, _) \<Rightarrow> h = te_digest env (token_text env (cg_accessId i) (cg_companyId i) (cg_expectedVersion i + 1))"
  shows "access_step env s s'"
proof -
  consider "s' = s" | r where "change_transaction dir i s = Inr (r, s')"
    using committed_cases [OF assms(1) [unfolded changeAccess_def]] by blast
  then show ?thesis
  proof cases
    case 1
    then show ?thesis by (simp add: access_step.stay)
  next
    case 2
    show ?thesis
    proof (cases "s' = s")
      case True
      then show ?thesis by (simp add: access_step.stay)
    next
      case False
      with 2 obtain access where "find_command (cg_companyId i) (cg_commandId i) s = None"
        "find_access (cg_accessId i) (cg_companyId i) s = Some access" "ax_version access = cg_expectedVersion i"
        "if cg_renewal i = None then True
         else \<not> list_ex (\<lambda>r. is_open_for (cg_companyId i) (ax_personRegistrationId access) r \<and> ax_id r \<noteq> ax_id access) (st_rows s)"
        "st_rows s' = map (\<lambda>r. if ax_id r = ax_id access \<and> ax_companyId r = cg_companyId i \<and>
          ax_version r = cg_expectedVersion i then changed_access i r else r) (st_rows s)"
        "st_history s' = st_history s @ [changed_history i (changed_access i access)]"
        unfolding change_transaction_Inr repeated_None Let_def by (auto simp: change_repeated_def)
      then show ?thesis using assms(2) by (intro access_step.change [of i s access])
    qed
  qed
qed

lemma store_after_steps:
  "store_after (bind_op (return_op r) f) s = (case r of Inl _ \<Rightarrow> s | Inr x \<Rightarrow> store_after (f x) s)"
  "store_after (bind_op m (\<lambda>x. return_op (g x))) s = store_after m s"
  by (auto simp: store_after_def bind_op_def return_op_def split: sum.splits prod.splits)

lemma called_step: "access_step (call_tokens c) s (store_after (called c) s)"
proof -
  have "access_step env s (store_after (create_access dir aborted i) s)"
    if "na_tokenHash i = te_digest env (token_text env (na_id i) (na_companyId i) 1)" for env dir aborted i
    using create_step [of dir aborted i s] that by (metis store_after_def surj_pair snd_conv)
  moreover have "access_step env s (store_after (changeAccess dir aborted i) s)"
    if "case cg_renewal i of None \<Rightarrow> True
     | Some (h, _) \<Rightarrow> h = te_digest env (token_text env (cg_accessId i) (cg_companyId i) (cg_expectedVersion i + 1))"
    for env dir aborted i
    using change_step [of dir aborted i s] that by (metis store_after_def surj_pair snd_conv)
  ultimately show ?thesis
    by (cases c)
      (simp_all add: service_create_def service_renew_def service_revoke_def store_after_steps Let_def
        access_step.stay split: sum.splits)
qed

lemma after_calls_simps [simp]:
  "after_calls [] s = s" "after_calls (c # cs) s = after_calls cs (store_after (called c) s)"
  "after_calls (cs @ ds) s = after_calls ds (after_calls cs s)"
  by (simp_all add: after_calls_def)

text \<open>A predicate kept by every step holds after every run.\<close>

lemma after_calls_keep:
  assumes "\<And>env s s'. access_step env s s' \<Longrightarrow> P s \<Longrightarrow> P s'" and "P s"
  shows "P (after_calls cs s)"
  using assms(2) by (induction cs arbitrary: s) (auto intro: assms(1) called_step)

section \<open>The invariant of the accesses\<close>

definition versions_of :: "string \<Rightarrow> access_store \<Rightarrow> int list" where
  "versions_of i s = map ah_resultVersion (filter (\<lambda>h. ah_accessId h = i) (st_history s))"

definition one_open_per_person :: "access_row list \<Rightarrow> bool" where
  "one_open_per_person rows \<longleftrightarrow> (\<forall>r\<in>set rows. \<forall>r'\<in>set rows.
     is_open_for (ax_companyId r) (ax_personRegistrationId r) r' \<and> ax_revokedAt r = None \<longrightarrow> r = r')"

definition row_logged :: "access_store \<Rightarrow> access_row \<Rightarrow> bool" where
  "row_logged s r \<longleftrightarrow> to_lower (ax_id r) = ax_id r \<and> ax_tokenGeneration r = ax_version r \<and> 1 \<le> ax_version r \<and>
     versions_of (ax_id r) s = [1..ax_version r]"

definition access_store_ok :: "access_store \<Rightarrow> bool" where
  "access_store_ok s \<longleftrightarrow> distinct (map ax_id (st_rows s)) \<and> list_all (row_logged s) (st_rows s) \<and>
     one_open_per_person (st_rows s) \<and>
     ah_accessId ` set (st_history s) \<subseteq> ax_id ` set (st_rows s) \<and>
     distinct (map (\<lambda>h. (ah_companyId h, ah_commandId h)) (st_history s))"

lemma find_access_Some:
  "find_access i c s = Some r \<Longrightarrow> r \<in> set (st_rows s) \<and> ax_id r = to_lower i \<and> ax_companyId r = c"
  by (auto simp: find_access_def find_Some_iff)

lemma find_command_None:
  "find_command c k s = None \<longleftrightarrow> (c, to_lower k) \<notin> (\<lambda>h. (ah_companyId h, ah_commandId h)) ` set (st_history s)"
  by (auto simp: find_command_def find_None_iff image_iff)

lemma changed_rows:
  assumes "distinct (map ax_id (st_rows s))" and "find_access (cg_accessId i) (cg_companyId i) s = Some access"
    and "ax_version access = cg_expectedVersion i"
  shows "map (\<lambda>r. if ax_id r = ax_id access \<and> ax_companyId r = cg_companyId i \<and>
      ax_version r = cg_expectedVersion i then changed_access i r else r) (st_rows s) =
    map (\<lambda>r. if r = access then changed_access i access else r) (st_rows s)"
proof (rule map_cong [OF refl])
  fix r
  assume r: "r \<in> set (st_rows s)"
  have a: "access \<in> set (st_rows s)" "ax_companyId access = cg_companyId i"
    using find_access_Some [OF assms(2)] by auto
  then have "ax_id r = ax_id access \<longleftrightarrow> r = access"
    using assms(1) r by (auto simp: distinct_map inj_on_def)
  with a assms(3) show "(if ax_id r = ax_id access \<and> ax_companyId r = cg_companyId i \<and>
      ax_version r = cg_expectedVersion i then changed_access i r else r) =
    (if r = access then changed_access i access else r)" by auto
qed

lemma changed_access_fields [simp]:
  "ax_id (changed_access i r) = ax_id r" "ax_companyId (changed_access i r) = ax_companyId r"
  "ax_personRegistrationId (changed_access i r) = ax_personRegistrationId r"
  "ax_version (changed_access i r) = cg_expectedVersion i + 1"
  "ax_tokenGeneration (changed_access i r) = cg_expectedVersion i + 1"
  "ax_revokedAt (changed_access i r) = None \<longleftrightarrow> cg_renewal i \<noteq> None"
  by (auto simp: changed_access_def Let_def split: option.splits)

lemma versions_snoc:
  "st_history s' = st_history s @ [h] \<Longrightarrow>
     versions_of i s' = versions_of i s @ (if ah_accessId h = i then [ah_resultVersion h] else [])"
  by (simp add: versions_of_def)

lemma versions_absent:
  "access_store_ok s \<Longrightarrow> i \<notin> ax_id ` set (st_rows s) \<Longrightarrow> versions_of i s = []"
  by (auto simp: access_store_ok_def versions_of_def filter_empty_conv)

lemma upto_snoc: "1 \<le> n \<Longrightarrow> [1..n] @ [n + 1] = [1..n + 1]"
  by (simp add: upto_rec2)

lemma access_step_ok: "access_step env s s' \<Longrightarrow> access_store_ok s \<Longrightarrow> access_store_ok s'"
proof (induction rule: access_step.induct)
  case (stay s)
  then show ?case .
next
  case (create i s s' items)
  let ?row = "created_access i items"
  have new: "ax_id ?row \<notin> ax_id ` set (st_rows s)" using create.hyps by (simp add: created_access_def)
  have old: "row_logged s' r" if "r \<in> set (st_rows s)" for r
    using that create.prems new create.hyps(6)
    by (auto simp: access_store_ok_def list_all_iff row_logged_def versions_snoc created_history_def created_access_def)
  have own: "row_logged s' ?row"
    using versions_absent [OF create.prems new] versions_snoc [OF create.hyps(6)]
    by (simp add: row_logged_def created_access_def created_history_def)
  have "one_open_per_person (st_rows s @ [?row])"
    using create.prems create.hyps(2)
    by (auto simp: access_store_ok_def one_open_per_person_def list_ex_iff is_open_for_def created_access_def)
  with old own new show ?case
    using create.prems create.hyps
    by (auto simp: access_store_ok_def list_all_iff find_command_None created_history_def created_access_def)
next
  case (change i s access s')
  note ok = change.prems
  have dist: "distinct (map ax_id (st_rows s))" using ok by (simp add: access_store_ok_def)
  have a: "access \<in> set (st_rows s)" "ax_id access = to_lower (cg_accessId i)" "ax_companyId access = cg_companyId i"
    using find_access_Some [OF change.hyps(2)] by auto
  let ?upd = "\<lambda>r. if r = access then changed_access i access else r"
  have rows: "st_rows s' = map ?upd (st_rows s)"
    unfolding change.hyps(6) by (rule changed_rows [OF dist change.hyps(2,3)])
  have ids: "map ax_id (st_rows s') = map ax_id (st_rows s)" by (simp add: rows)
  have h: "ah_accessId (changed_history i r) = ax_id access" "ah_resultVersion (changed_history i r) = ax_version r" for r
    by (simp_all add: changed_history_def a)
  have logged: "row_logged s' (?upd r)" if r: "r \<in> set (st_rows s)" for r
  proof (cases "r = access")
    case True
    with ok a(1) show ?thesis
      by (auto simp: access_store_ok_def list_all_iff row_logged_def versions_snoc [OF change.hyps(7)] h
          change.hyps(3) [symmetric] upto_snoc)
  next
    case False
    with r a(1) dist have "ax_id r \<noteq> ax_id access" by (auto simp: distinct_map inj_on_def)
    with False r ok show ?thesis
      by (auto simp: access_store_ok_def list_all_iff row_logged_def versions_snoc [OF change.hyps(7)] h)
  qed
  have alone: "r = access"
    if "cg_renewal i \<noteq> None" "r \<in> set (st_rows s)" "is_open_for (ax_companyId access) (ax_personRegistrationId access) r" for r
  proof -
    have "ax_id r = ax_id access" using change.hyps(4) that a(3) by (auto simp: list_ex_iff)
    then show ?thesis using dist a(1) that(2) by (auto simp: distinct_map inj_on_def)
  qed
  have "one_open_per_person (st_rows s')"
    unfolding one_open_per_person_def
  proof (intro ballI impI)
    fix q q'
    assume q: "q \<in> set (st_rows s')" "q' \<in> set (st_rows s')"
      and o: "is_open_for (ax_companyId q) (ax_personRegistrationId q) q' \<and> ax_revokedAt q = None"
    obtain r r' where r: "r \<in> set (st_rows s)" "q = ?upd r" and r': "r' \<in> set (st_rows s)" "q' = ?upd r'"
      using q unfolding rows by auto
    show "q = q'"
    proof (cases "r = access \<or> r' = access")
      case True
      then have "cg_renewal i \<noteq> None" using o r r' by (auto simp: is_open_for_def)
      then have "r = access \<and> r' = access"
        using True alone [OF _ r(1)] alone [OF _ r'(1)] o r(2) r'(2)
        by (auto simp: is_open_for_def split: if_splits)
      with r r' show ?thesis by simp
    next
      case False
      with o r r' ok show ?thesis by (simp add: access_store_ok_def one_open_per_person_def)
    qed
  qed
  moreover have "list_all (row_logged s') (st_rows s')"
    using logged unfolding rows list_all_iff set_map by blast
  moreover have "ax_id ` set (st_rows s') = ax_id ` set (st_rows s)"
    using ids by (metis set_map)
  moreover have "distinct (map (\<lambda>h. (ah_companyId h, ah_commandId h)) (st_history s'))"
    using ok change.hyps(1)
    by (simp add: access_store_ok_def change.hyps(7) find_command_None changed_history_def)
  moreover have "ah_accessId ` set (st_history s') \<subseteq> ax_id ` set (st_rows s)"
    using ok a(1) h(1) by (auto simp: access_store_ok_def change.hyps(7))
  ultimately show ?case
    using dist ids by (simp add: access_store_ok_def)
qed

lemma access_run_ok: "access_store_ok s \<Longrightarrow> access_store_ok (after_calls cs s)"
  by (rule after_calls_keep) (auto intro: access_step_ok)

lemma empty_store_ok: "access_store_ok empty_store"
  by (simp add: access_store_ok_def one_open_per_person_def empty_store_def)

section \<open>Tokens that were issued\<close>

text \<open>What is documented of an HMAC-SHA-256 in base64url: 43 letters of the alphabet, whatever the text.\<close>

definition signatures_ok :: "token_env \<Rightarrow> bool" where
  "signatures_ok env \<longleftrightarrow> (\<forall>text. length (te_sign env text) = 43 \<and> list_all is_base64url (te_sign env text))"

lemma nat_text_hd: "0 < n \<Longrightarrow> hd (nat_text n) \<noteq> CHR ''0''"
proof (induction n rule: nat_text.induct)
  case (1 n)
  have "char_of (48 + n) \<noteq> CHR ''0''" if "n < 10"
  proof
    assume "char_of (48 + n) = CHR ''0''"
    then have "code (char_of (48 + n)) = code CHR ''0''" by simp
    moreover have "code CHR ''0'' = 48" by code_simp
    ultimately show False using that 1(2) by simp
  qed
  with 1 show ?case by (subst nat_text.simps) simp
qed

lemma int_text_pos: "1 \<le> g \<Longrightarrow> int_text g = nat_text (nat g)"
  by (simp add: int_text_def)

lemma int_text_facts:
  "1 \<le> g \<Longrightarrow> list_all is_digit (int_text g)" "1 \<le> g \<Longrightarrow> int_text g \<noteq> []"
  "1 \<le> g \<Longrightarrow> hd (int_text g) \<noteq> CHR ''0''" "1 \<le> g \<Longrightarrow> number_of_digits (int_text g) = g"
  by (simp_all add: int_text_pos nat_text_digits nat_text_hd number_of_nat_text)

lemma takeWhile_digits: "list_all is_digit ds \<Longrightarrow> takeWhile is_digit (ds @ CHR ''.'' # s) = ds"
proof -
  have "\<not> is_digit CHR ''.''" by code_simp
  then show "list_all is_digit ds \<Longrightarrow> takeWhile is_digit (ds @ CHR ''.'' # s) = ds"
    by (induction ds) auto
qed

lemma match_issued:
  assumes "uuid_v4 i" and "1 \<le> g" and "signatures_ok env"
  shows "match_token (token_text env i c g) = Some (i, int_text g)"
proof -
  have l: "length i = 36" using assms(1) by (simp add: uuid_v4_def uuid_pattern_def)
  have p: "to_lower ''pa_'' = ''pa_''" by code_simp
  show ?thesis
    using assms l p int_text_facts [OF assms(2)]
    by (simp add: match_token_def token_text_def Let_def takeWhile_digits signatures_ok_def)
qed

lemma parse_issued:
  assumes "uuid_v4 i" and "1 \<le> g" and "g \<le> 9007199254740991" and "signatures_ok env"
  shows "parse_token env (token_text env i c g) =
    Some \<lparr>pt_accessId = to_lower i, pt_generation = g, pt_hash = te_digest env (token_text env i c g)\<rparr>"
  using match_issued [OF assms(1,2,4)] int_text_facts(4) [OF assms(2)] assms(3)
  by (simp add: parse_token_def Let_def)

lemma find_SomeD: "find P xs = Some x \<Longrightarrow> x \<in> set xs \<and> P x"
  by (auto simp: find_Some_iff)

lemma resolve_Inr:
  "resolve env dir now token s = Inr a \<longleftrightarrow>
    (\<exists>p r. parse_token env token = Some p \<and>
      find (\<lambda>r. ax_id r = to_lower (pt_accessId p) \<and> ax_tokenHash r = pt_hash p \<and>
        ax_revokedAt r = None \<and> ax_expiresAt r > now \<and> dr_companyActive dir (ax_companyId r) \<and>
        (case dr_person dir (ax_companyId r) (ax_personRegistrationId r) of None \<Rightarrow> False | Some p \<Rightarrow> pn_isActive p))
        (st_rows s) = Some r \<and> pt_generation p = ax_tokenGeneration r \<and>
      a = \<lparr>rv_personName = person_name dir r, rv_purpose = ''admission-document-upload'',
           rv_status = PS_active, rv_expiresAt = iso_string (ax_expiresAt r), rv_version = ax_version r,
           rv_requestedDocuments = publicRequestedDocuments (mapAccess dir r), rv_uploadAvailable = False\<rparr>)"
proof (cases "parse_token env token")
  case None
  then show ?thesis by (simp add: resolve_def)
next
  case (Some p)
  let ?P = "\<lambda>r. ax_id r = to_lower (pt_accessId p) \<and> ax_tokenHash r = pt_hash p \<and>
    ax_revokedAt r = None \<and> ax_expiresAt r > now \<and> dr_companyActive dir (ax_companyId r) \<and>
    (case dr_person dir (ax_companyId r) (ax_personRegistrationId r) of None \<Rightarrow> False | Some p \<Rightarrow> pn_isActive p)"
  show ?thesis
  proof (cases "find ?P (st_rows s)")
    case None
    with Some show ?thesis by (simp add: resolve_def resolve_row_def)
  next
    case (Some r)
    then have "preAdmissionStatus (ax_revokedAt r) (ax_expiresAt r) now = PS_active"
      using find_SomeD [OF Some] by (simp add: preAdmissionStatus_def)
    with Some \<open>parse_token env token = Some p\<close> show ?thesis
      by (auto simp: resolve_def resolve_row_def mapAccess_def)
  qed
qed

lemma find_unique:
  assumes "distinct (map f xs)" and "x \<in> set xs" and "P x" and "\<And>y. P y \<Longrightarrow> f y = f x"
  shows "find P xs = Some x"
proof (cases "find P xs")
  case None
  with assms(2,3) show ?thesis by (simp add: find_None_iff)
next
  case (Some y)
  then have "y \<in> set xs" "P y" by (auto simp: find_Some_iff)
  with assms show ?thesis using Some by (metis distinct_map inj_onD)
qed

text \<open>The row an opening token stands for.\<close>

lemma resolve_opened:
  assumes "resolve env dir now token s = Inr a"
  shows "\<exists>p r. parse_token env token = Some p \<and> r \<in> set (st_rows s) \<and> ax_id r = to_lower (pt_accessId p) \<and>
    ax_tokenGeneration r = pt_generation p \<and> ax_tokenHash r = pt_hash p \<and> ax_revokedAt r = None \<and>
    now < ax_expiresAt r \<and> rv_version a = ax_version r \<and> dr_companyActive dir (ax_companyId r)"
  using assms unfolding resolve_Inr by (fastforce dest!: find_SomeD)

lemma resolve_of_row:
  assumes "distinct (map ax_id (st_rows s))" and "r \<in> set (st_rows s)" and "ax_revokedAt r = None"
    and "now < ax_expiresAt r" and "dr_companyActive dir (ax_companyId r)"
    and "\<exists>p. dr_person dir (ax_companyId r) (ax_personRegistrationId r) = Some p \<and> pn_isActive p"
    and "parse_token env token = Some p" and "to_lower (pt_accessId p) = ax_id r"
    and "pt_hash p = ax_tokenHash r" and "pt_generation p = ax_tokenGeneration r"
  shows "\<exists>a. resolve env dir now token s = Inr a \<and> rv_version a = ax_version r \<and> rv_expiresAt a = iso_string (ax_expiresAt r)"
proof -
  have "find (\<lambda>r. ax_id r = to_lower (pt_accessId p) \<and> ax_tokenHash r = pt_hash p \<and>
        ax_revokedAt r = None \<and> ax_expiresAt r > now \<and> dr_companyActive dir (ax_companyId r) \<and>
        (case dr_person dir (ax_companyId r) (ax_personRegistrationId r) of None \<Rightarrow> False | Some p \<Rightarrow> pn_isActive p))
        (st_rows s) = Some r"
    by (rule find_unique [OF assms(1,2)]) (use assms in auto)
  with assms(7,10) show ?thesis unfolding resolve_Inr by auto
qed

section \<open>Rows along a run\<close>

definition row_follows :: "access_row \<Rightarrow> access_row \<Rightarrow> bool" where
  "row_follows r r' \<longleftrightarrow> ax_id r' = ax_id r \<and> ax_version r \<le> ax_version r' \<and> (if ax_version r' = ax_version r then r' = r else True)"

lemma row_follows_refl [simp]: "row_follows r r"
  by (simp add: row_follows_def)

lemma row_follows_trans: "row_follows r r' \<Longrightarrow> row_follows r' r'' \<Longrightarrow> row_follows r r''"
  by (auto simp: row_follows_def split: if_splits)

lemma access_step_follows:
  "access_step env s s' \<Longrightarrow> r \<in> set (st_rows s) \<Longrightarrow> \<exists>r'\<in>set (st_rows s'). row_follows r r'"
proof (induction rule: access_step.induct)
  case (stay s)
  then show ?case by (auto intro: bexI [of _ r])
next
  case (create i s s' items)
  then show ?case by (auto intro: bexI [of _ r])
next
  case (change i s access s')
  let ?r = "if ax_id r = ax_id access \<and> ax_companyId r = cg_companyId i \<and>
      ax_version r = cg_expectedVersion i then changed_access i r else r"
  have "?r \<in> set (st_rows s')" unfolding change.hyps(6) set_map using change.prems by (rule imageI)
  moreover have "row_follows r ?r" by (auto simp: row_follows_def)
  ultimately show ?case by blast
qed

lemma run_follows:
  "r \<in> set (st_rows s) \<Longrightarrow> \<exists>r'\<in>set (st_rows (after_calls cs s)). row_follows r r'"
proof (induction cs arbitrary: s r)
  case Nil
  then show ?case by (intro bexI [of _ r]) simp_all
next
  case (Cons c cs)
  obtain r' where "r' \<in> set (st_rows (store_after (called c) s))" "row_follows r r'"
    using access_step_follows [OF called_step Cons.prems] by blast
  with Cons.IH [of r'] show ?case by (auto intro: row_follows_trans)
qed

lemma log_follows: "\<exists>hs. st_history (after_calls cs s) = st_history s @ hs"
proof (induction cs arbitrary: s)
  case Nil
  show ?case by simp
next
  case (Cons c cs)
  have "\<exists>hs. st_history (store_after (called c) s) = st_history s @ hs"
    using called_step [of c s] by cases auto
  with Cons.IH [of "store_after (called c) s"] show ?case by auto
qed

text \<open>Every open row keeps the digest of the token issued for its version.\<close>

definition token_of_row :: "token_env \<Rightarrow> access_row \<Rightarrow> bool" where
  "token_of_row env r \<longleftrightarrow> ax_tokenGeneration r = ax_version r \<and>
     (if ax_revokedAt r = None
      then \<exists>i. to_lower i = ax_id r \<and> ax_tokenHash r = te_digest env (token_text env i (ax_companyId r) (ax_version r))
      else True)"

lemma access_step_tokens:
  "access_step env s s' \<Longrightarrow> list_all (token_of_row env) (st_rows s) \<Longrightarrow> list_all (token_of_row env) (st_rows s')"
proof (induction rule: access_step.induct)
  case (stay s)
  then show ?case .
next
  case (create i s s' items)
  then show ?case by (auto simp: token_of_row_def created_access_def)
next
  case (change i s access s')
  have a: "ax_id access = to_lower (cg_accessId i)" using find_access_Some [OF change.hyps(2)] by simp
  have "token_of_row env (changed_access i r)"
    if "ax_id r = ax_id access" "ax_companyId r = cg_companyId i" for r
  proof (cases "cg_renewal i")
    case None
    then show ?thesis by (simp add: token_of_row_def)
  next
    case (Some x)
    with change.hyps(5) have "ax_tokenHash (changed_access i r) =
        te_digest env (token_text env (cg_accessId i) (cg_companyId i) (cg_expectedVersion i + 1))"
      by (cases x) (simp add: changed_access_def Let_def)
    with that a show ?thesis by (auto simp: token_of_row_def)
  qed
  with change show ?case by (auto simp: list_all_iff)
qed

lemma run_tokens:
  "list_all (\<lambda>c. call_tokens c = env) cs \<Longrightarrow> list_all (token_of_row env) (st_rows s) \<Longrightarrow>
     list_all (token_of_row env) (st_rows (after_calls cs s))"
proof (induction cs arbitrary: s)
  case Nil
  then show ?case by simp
next
  case (Cons c cs)
  then show ?case using access_step_tokens called_step [of c s] by simp
qed

section \<open>Accepted calls\<close>

lemma service_Inr:
  "service_create env who q s = (Inr result, s') \<longleftrightarrow>
     canManagePreAdmission (pp_authority who) \<and> cq_expectedVersion q = 0 \<and>
     (\<exists>r. create_access (ce_directory env) (ce_aborted env)
       \<lparr>na_id = ce_randomUUID env, na_companyId = pp_companyId who, na_actorUserId = pp_id who,
        na_personRegistrationId = cq_personRegistrationId q, na_documentTypeIds = cq_documentTypeIds q,
        na_instructions = cq_instructions q, na_commandId = cq_commandId q,
        na_requestFingerprint = created_fingerprint (ce_tokens env) (cq_personRegistrationId q)
          (cq_documentTypeIds q) (cq_instructions q),
        na_tokenHash = te_digest (ce_tokens env) (token_text (ce_tokens env) (ce_randomUUID env) (pp_companyId who) 1),
        na_expiresAt = preAdmissionExpiresAt (ce_now env), na_now = ce_now env\<rparr> s = (Inr r, s') \<and>
      result = managementResult (ce_later env) r (Some (managed_token env r)))"
  "service_renew env who i v s = (Inr result, s') \<longleftrightarrow>
     canManagePreAdmission (pp_authority who) \<and> 1 \<le> vq_expectedVersion v \<and>
     (\<exists>r. changeAccess (ce_directory env) (ce_aborted env)
       \<lparr>cg_companyId = pp_companyId who, cg_actorUserId = pp_id who, cg_accessId = i,
        cg_commandId = vq_commandId v, cg_expectedVersion = vq_expectedVersion v,
        cg_requestFingerprint = changed_fingerprint (ce_tokens env) ''renewed'' i (vq_expectedVersion v),
        cg_renewal = Some (te_digest (ce_tokens env) (token_text (ce_tokens env) i (pp_companyId who) (vq_expectedVersion v + 1)),
          preAdmissionExpiresAt (ce_now env)), cg_now = ce_now env\<rparr> s = (Inr r, s') \<and>
      result = managementResult (ce_later env) r (Some (managed_token env r)))"
  "service_revoke env who i v s = (Inr result, s') \<longleftrightarrow>
     canManagePreAdmission (pp_authority who) \<and> 1 \<le> vq_expectedVersion v \<and>
     (\<exists>r. changeAccess (ce_directory env) (ce_aborted env)
       \<lparr>cg_companyId = pp_companyId who, cg_actorUserId = pp_id who, cg_accessId = i,
        cg_commandId = vq_commandId v, cg_expectedVersion = vq_expectedVersion v,
        cg_requestFingerprint = changed_fingerprint (ce_tokens env) ''revoked'' i (vq_expectedVersion v),
        cg_renewal = None, cg_now = ce_now env\<rparr> s = (Inr r, s') \<and>
      result = managementResult (ce_later env) r None)"
  by (auto simp: service_create_def service_renew_def service_revoke_def bind_op_def return_op_def lifted_def
      assertCanManagePreAdmission_def throw_if_def Let_def split: sum.splits prod.splits if_splits)

lemma repeated_idempotent: "repeatedCommand dir i s = Inr (Some r) \<Longrightarrow> mr_idempotent r"
  by (auto simp: repeatedCommand_def mutationResult_def split: option.splits if_splits)

lemma managed_idempotent [simp]: "mg_idempotent (managementResult now r t) = mr_idempotent r"
  by (simp add: managementResult_def Let_def)

lemma create_new:
  "create_access dir aborted i s = (Inr r, s') \<Longrightarrow> \<not> mr_idempotent r \<Longrightarrow>
     create_transaction dir i s = Inr (r, s') \<and> repeatedCommand dir (create_repeated i) s = Inr None"
  unfolding create_access_def
  by (drule committed_cases) (auto dest: repeated_idempotent simp: create_transaction_Inr)

lemma change_new:
  "changeAccess dir aborted i s = (Inr r, s') \<Longrightarrow> \<not> mr_idempotent r \<Longrightarrow>
     change_transaction dir i s = Inr (r, s') \<and> repeatedCommand dir (change_repeated i) s = Inr None"
  unfolding changeAccess_def
  by (drule committed_cases) (auto dest: repeated_idempotent simp: change_transaction_Inr)

lemma retry_some: "\<not> (aborted 1 \<and> aborted 2 \<and> aborted 3) \<Longrightarrow>
    retrySerializable SERIALIZABLE_TRANSACTION_MAX_ATTEMPTS aborted operation s = operation s"
  by (auto simp: SERIALIZABLE_TRANSACTION_MAX_ATTEMPTS_def numeral_eq_Suc)

lemma retry_cases:
  "retrySerializable n aborted operation s = operation s \<or> retrySerializable n aborted operation s = Inl Write_conflict"
  by (induction n) auto

text \<open>A command that was committed is answered again, whatever attempts the database aborts.\<close>

lemma committed_again:
  assumes "repeatedCommand dir repeated s = Inr (Some r)" and "operation s = Inr (r, s)"
  shows "committed dir repeated message aborted operation s = (Inr r, s)"
  using retry_cases [of SERIALIZABLE_TRANSACTION_MAX_ATTEMPTS aborted operation s] assms
  by (auto simp: committed_def isConcurrencyConflict_def)

lemma find_link_append: "find P (xs @ ys) = (case find P xs of None \<Rightarrow> find P ys | Some x \<Rightarrow> Some x)"
  by (induction xs) auto

lemma find_access_unique:
  "distinct (map ax_id (st_rows s)) \<Longrightarrow> r \<in> set (st_rows s) \<Longrightarrow> ax_companyId r = c \<Longrightarrow> to_lower i = ax_id r \<Longrightarrow>
     find_access i c s = Some r"
  unfolding find_access_def by (rule find_unique [of ax_id]) auto

lemma create_answered_again:
  assumes ok: "access_store_ok s" and c: "create_access dir aborted i s = (Inr r, s')" and n: "\<not> mr_idempotent r"
    and same: "create_repeated j = create_repeated i"
  shows "create_access dir aborted' j s' = (Inr (r\<lparr>mr_idempotent := True\<rparr>), s')"
proof -
  have ok': "access_store_ok s'"
    using access_step_ok [OF create_step [OF c, of "\<lparr>te_sign = \<lambda>_. [], te_digest = \<lambda>_. na_tokenHash i\<rparr>"] ok] by simp
  obtain items where t: "assertActorCanManage dir (na_companyId i) (na_actorUserId i) = Inr ()"
    and f: "find_command (na_companyId i) (na_commandId i) s = None"
    and r: "r = mutationResult dir (created_access i items) (created_history i) False"
    and rows: "st_rows s' = st_rows s @ [created_access i items]"
    and hist: "st_history s' = st_history s @ [created_history i]"
    using create_new [OF c n] n unfolding create_transaction_Inr repeated_None
    by (auto simp: create_repeated_def dest: repeated_idempotent)
  have "find_command (na_companyId i) (na_commandId i) s' = Some (created_history i)"
    using f by (simp add: find_command_def hist find_link_append created_history_def)
  moreover have "find_access (ah_accessId (created_history i)) (na_companyId i) s' = Some (created_access i items)"
    using ok' by (intro find_access_unique) (auto simp: access_store_ok_def rows created_access_def created_history_def)
  ultimately have "repeatedCommand dir (create_repeated i) s' = Inr (Some (r\<lparr>mr_idempotent := True\<rparr>))"
    by (simp add: repeatedCommand_def create_repeated_def created_history_def r mutationResult_def falsy_def)
  moreover have "assertActorCanManage dir (na_companyId j) (na_actorUserId j) = Inr ()"
    using t same by (simp add: create_repeated_def)
  ultimately show ?thesis
    unfolding create_access_def using same by (intro committed_again) (simp_all add: create_transaction_Inr)
qed

lemma change_answered_again:
  assumes ok: "access_store_ok s" and c: "changeAccess dir aborted i s = (Inr r, s')" and n: "\<not> mr_idempotent r"
    and canonical: "to_lower (cg_accessId i) = cg_accessId i" and same: "change_repeated j = change_repeated i"
  shows "changeAccess dir aborted' j s' = (Inr (r\<lparr>mr_idempotent := True\<rparr>), s')"
proof -
  obtain access where t: "assertActorCanManage dir (cg_companyId i) (cg_actorUserId i) = Inr ()"
    and f: "find_command (cg_companyId i) (cg_commandId i) s = None"
    and fa: "find_access (cg_accessId i) (cg_companyId i) s = Some access"
    and v: "ax_version access = cg_expectedVersion i"
    and r: "r = mutationResult dir (changed_access i access) (changed_history i (changed_access i access)) False"
    and rows: "st_rows s' = map (\<lambda>r. if ax_id r = ax_id access \<and> ax_companyId r = cg_companyId i \<and>
          ax_version r = cg_expectedVersion i then changed_access i r else r) (st_rows s)"
    and hist: "st_history s' = st_history s @ [changed_history i (changed_access i access)]"
    using change_new [OF c n] n unfolding change_transaction_Inr repeated_None Let_def
    by (auto simp: change_repeated_def dest: repeated_idempotent)
  have a: "access \<in> set (st_rows s)" "ax_id access = to_lower (cg_accessId i)" "ax_companyId access = cg_companyId i"
    using find_access_Some [OF fa] by auto
  have ids: "distinct (map ax_id (st_rows s))" using ok by (simp add: access_store_ok_def)
  have "map ax_id (st_rows s') = map ax_id (st_rows s)"
    unfolding rows changed_rows [OF ids fa v] by simp
  then have "distinct (map ax_id (st_rows s'))" using ids by simp
  moreover have "changed_access i access \<in> set (st_rows s')"
    unfolding rows changed_rows [OF ids fa v] using a(1) by (auto simp: image_iff intro!: bexI [of _ access])
  ultimately have "find_access (cg_accessId i) (cg_companyId i) s' = Some (changed_access i access)"
    by (rule find_access_unique) (simp_all add: a)
  moreover have "find_command (cg_companyId i) (cg_commandId i) s' = Some (changed_history i (changed_access i access))"
    using f by (simp add: find_command_def hist find_link_append changed_history_def)
  ultimately have "repeatedCommand dir (change_repeated i) s' = Inr (Some (r\<lparr>mr_idempotent := True\<rparr>))"
    using canonical
    by (simp add: repeatedCommand_def change_repeated_def changed_history_def r mutationResult_def)
  moreover have "assertActorCanManage dir (cg_companyId j) (cg_actorUserId j) = Inr ()"
    using t same by (simp add: change_repeated_def)
  ultimately show ?thesis
    unfolding changeAccess_def using same by (intro committed_again) (simp_all add: change_transaction_Inr)
qed

primrec call_env_of :: "access_call \<Rightarrow> call_env" where
  "call_env_of (Create env who q) = env"
| "call_env_of (Renew env who i v) = env"
| "call_env_of (Revoke env who i v) = env"

text \<open>The same request, sent at another time.\<close>

primrec again :: "call_env \<Rightarrow> access_call \<Rightarrow> access_call" where
  "again env' (Create env who q) = Create env' who q"
| "again env' (Renew env who i v) = Renew env' who i v"
| "again env' (Revoke env who i v) = Revoke env' who i v"

primrec canonical_call :: "access_call \<Rightarrow> bool" where
  "canonical_call (Create env who q) = True"
| "canonical_call (Renew env who i v) = (to_lower i = i)"
| "canonical_call (Revoke env who i v) = (to_lower i = i)"

lemma managed_again:
  "ce_tokens env' = ce_tokens env \<Longrightarrow> managed_token env' (r\<lparr>mr_idempotent := b\<rparr>) = managed_token env r"
  "managementResult later' (r\<lparr>mr_idempotent := True\<rparr>) t =
     (managementResult later r t)\<lparr>mg_idempotent := True, mg_status := mg_status (managementResult later' r t)\<rparr>"
  by (simp_all add: managed_token_def managementResult_def Let_def)

lemma call_answered_again:
  assumes ok: "access_store_ok s" and c: "called c s = (Inr result, s')" and n: "\<not> mg_idempotent result"
    and "canonical_call c" and "ce_tokens env' = ce_tokens (call_env_of c)" and "ce_directory env' = ce_directory (call_env_of c)"
  shows "\<exists>status. called (again env' c) s' = (Inr (result\<lparr>mg_idempotent := True, mg_status := status\<rparr>), s')"
proof (cases c)
  case (Create env who q)
  with c n obtain r where r: "create_access (ce_directory env) (ce_aborted env)
       \<lparr>na_id = ce_randomUUID env, na_companyId = pp_companyId who, na_actorUserId = pp_id who,
        na_personRegistrationId = cq_personRegistrationId q, na_documentTypeIds = cq_documentTypeIds q,
        na_instructions = cq_instructions q, na_commandId = cq_commandId q,
        na_requestFingerprint = created_fingerprint (ce_tokens env) (cq_personRegistrationId q)
          (cq_documentTypeIds q) (cq_instructions q),
        na_tokenHash = te_digest (ce_tokens env) (token_text (ce_tokens env) (ce_randomUUID env) (pp_companyId who) 1),
        na_expiresAt = preAdmissionExpiresAt (ce_now env), na_now = ce_now env\<rparr> s = (Inr r, s')"
    and n': "\<not> mr_idempotent r" and m: "canManagePreAdmission (pp_authority who)" "cq_expectedVersion q = 0"
    and res: "result = managementResult (ce_later env) r (Some (managed_token env r))"
    by (auto simp: service_Inr)
  show ?thesis
    using create_answered_again [OF ok r n', of _ "ce_aborted env'"] assms(5,6) m Create
    by (simp add: service_Inr create_repeated_def res managed_again(1) [of env' env] managed_again(2) [of "ce_later env'" r _ "ce_later env"])
      blast
next
  case (Renew env who i v)
  with c n obtain r where r: "changeAccess (ce_directory env) (ce_aborted env)
       \<lparr>cg_companyId = pp_companyId who, cg_actorUserId = pp_id who, cg_accessId = i,
        cg_commandId = vq_commandId v, cg_expectedVersion = vq_expectedVersion v,
        cg_requestFingerprint = changed_fingerprint (ce_tokens env) ''renewed'' i (vq_expectedVersion v),
        cg_renewal = Some (te_digest (ce_tokens env) (token_text (ce_tokens env) i (pp_companyId who) (vq_expectedVersion v + 1)),
          preAdmissionExpiresAt (ce_now env)), cg_now = ce_now env\<rparr> s = (Inr r, s')"
    and n': "\<not> mr_idempotent r" and m: "canManagePreAdmission (pp_authority who)" "1 \<le> vq_expectedVersion v"
    and res: "result = managementResult (ce_later env) r (Some (managed_token env r))"
    by (auto simp: service_Inr)
  show ?thesis
    using change_answered_again [OF ok r n', of _ "ce_aborted env'"] assms(4,5,6) m Renew
    by (simp add: service_Inr change_repeated_def change_action_def res managed_again(1) [of env' env]
        managed_again(2) [of "ce_later env'" r _ "ce_later env"]) blast
next
  case (Revoke env who i v)
  with c n obtain r where r: "changeAccess (ce_directory env) (ce_aborted env)
       \<lparr>cg_companyId = pp_companyId who, cg_actorUserId = pp_id who, cg_accessId = i,
        cg_commandId = vq_commandId v, cg_expectedVersion = vq_expectedVersion v,
        cg_requestFingerprint = changed_fingerprint (ce_tokens env) ''revoked'' i (vq_expectedVersion v),
        cg_renewal = None, cg_now = ce_now env\<rparr> s = (Inr r, s')"
    and n': "\<not> mr_idempotent r" and m: "canManagePreAdmission (pp_authority who)" "1 \<le> vq_expectedVersion v"
    and res: "result = managementResult (ce_later env) r None"
    by (auto simp: service_Inr)
  show ?thesis
    using change_answered_again [OF ok r n', of _ "ce_aborted env'"] assms(4,5,6) m Revoke
    by (simp add: service_Inr change_repeated_def change_action_def res
        managed_again(2) [of "ce_later env'" r _ "ce_later env"]) blast
qed

lemma changed_row_in:
  assumes "access_store_ok s" and "changeAccess dir aborted i s = (Inr r, s')" and "\<not> mr_idempotent r"
  shows "\<exists>access. access \<in> set (st_rows s) \<and> ax_id access = to_lower (cg_accessId i) \<and> ax_companyId access = cg_companyId i \<and>
    ax_version access = cg_expectedVersion i \<and> changed_access i access \<in> set (st_rows s') \<and>
    distinct (map ax_id (st_rows s')) \<and>
    r = mutationResult dir (changed_access i access) (changed_history i (changed_access i access)) False"
proof -
  obtain access where
    fa: "find_access (cg_accessId i) (cg_companyId i) s = Some access"
    and v: "ax_version access = cg_expectedVersion i"
    and r: "r = mutationResult dir (changed_access i access) (changed_history i (changed_access i access)) False"
    and rows: "st_rows s' = map (\<lambda>r. if ax_id r = ax_id access \<and> ax_companyId r = cg_companyId i \<and>
          ax_version r = cg_expectedVersion i then changed_access i r else r) (st_rows s)"
    using change_new [OF assms(2,3)] assms(3) unfolding change_transaction_Inr repeated_None Let_def
    by (auto simp: change_repeated_def dest: repeated_idempotent)
  have ids: "distinct (map ax_id (st_rows s))" using assms(1) by (simp add: access_store_ok_def)
  have a: "access \<in> set (st_rows s)" "ax_id access = to_lower (cg_accessId i)" "ax_companyId access = cg_companyId i"
    using find_access_Some [OF fa] by auto
  have "changed_access i access \<in> set (st_rows s')"
    unfolding rows changed_rows [OF ids fa v] using a(1) by (auto simp: image_iff intro!: bexI [of _ access])
  moreover have "map ax_id (st_rows s') = map ax_id (st_rows s)"
    unfolding rows changed_rows [OF ids fa v] by simp
  then have "distinct (map ax_id (st_rows s'))" using ids by simp
  ultimately show ?thesis using a v r by blast
qed

lemma change_accepted:
  assumes ok: "access_store_ok s" and a: "access \<in> set (st_rows s)" "to_lower (cg_accessId i) = ax_id access"
      "ax_companyId access = cg_companyId i" "ax_version access = cg_expectedVersion i"
    and "assertActorCanManage dir (cg_companyId i) (cg_actorUserId i) = Inr ()"
    and "find_command (cg_companyId i) (cg_commandId i) s = None"
    and "\<not> list_ex (\<lambda>r. is_open_for (cg_companyId i) (ax_personRegistrationId access) r \<and> ax_id r \<noteq> ax_id access) (st_rows s)"
    and "case cg_renewal i of None \<Rightarrow> True | Some (h, _) \<Rightarrow> \<not> list_ex (\<lambda>r. ax_tokenHash r = h \<and> ax_id r \<noteq> ax_id access) (st_rows s)"
    and "\<not> (aborted 1 \<and> aborted 2 \<and> aborted 3)"
  shows "\<exists>s'. changeAccess dir aborted i s =
    (Inr (mutationResult dir (changed_access i access) (changed_history i (changed_access i access)) False), s')"
proof -
  have "find_access (cg_accessId i) (cg_companyId i) s = Some access"
    using ok a by (intro find_access_unique) (auto simp: access_store_ok_def)
  moreover have "repeatedCommand dir (change_repeated i) s = Inr None"
    using assms(7) by (simp add: repeated_None change_repeated_def)
  ultimately have "\<exists>s'. change_transaction dir i s =
      Inr (mutationResult dir (changed_access i access) (changed_history i (changed_access i access)) False, s')"
    using assms(4-9) unfolding change_transaction_Inr Let_def by auto
  then show ?thesis
    by (auto simp: changeAccess_def committed_def retry_some [OF assms(10)])
qed

text \<open>The token that an accepted renewal answers opens the access until the renewal ends.\<close>

lemma renewal_opens:
  assumes ok: "access_store_ok s" and c: "service_renew env who i v s = (Inr result, s')" and n: "\<not> mg_idempotent result"
    and i: "uuid_v4 i" "to_lower i = i" and g: "vq_expectedVersion v + 1 \<le> 9007199254740991"
    and sig: "signatures_ok (ce_tokens env)" and now: "now < preAdmissionExpiresAt (ce_now env)"
    and row: "row \<in> set (st_rows s)" "ax_id row = i"
    and active: "dr_companyActive dir (ax_companyId row)"
      "\<exists>p. dr_person dir (ax_companyId row) (ax_personRegistrationId row) = Some p \<and> pn_isActive p"
  shows "\<exists>token a. mg_token result = Some token \<and> resolve (ce_tokens env) dir now token s' = Inr a \<and>
    rv_version a = vq_expectedVersion v + 1 \<and> rv_expiresAt a = iso_string (preAdmissionExpiresAt (ce_now env))"
proof -
  define j where "j = \<lparr>cg_companyId = pp_companyId who, cg_actorUserId = pp_id who, cg_accessId = i,
        cg_commandId = vq_commandId v, cg_expectedVersion = vq_expectedVersion v,
        cg_requestFingerprint = changed_fingerprint (ce_tokens env) ''renewed'' i (vq_expectedVersion v),
        cg_renewal = Some (te_digest (ce_tokens env) (token_text (ce_tokens env) i (pp_companyId who) (vq_expectedVersion v + 1)),
          preAdmissionExpiresAt (ce_now env)), cg_now = ce_now env\<rparr>"
  obtain r where r: "changeAccess (ce_directory env) (ce_aborted env) j s = (Inr r, s')"
    and result: "result = managementResult (ce_later env) r (Some (managed_token env r))" and v: "1 \<le> vq_expectedVersion v"
    using c unfolding service_Inr j_def by blast
  have "\<not> mr_idempotent r" using n result by simp
  then obtain access where a: "access \<in> set (st_rows s)" "ax_id access = i" "ax_companyId access = pp_companyId who"
    and changed: "changed_access j access \<in> set (st_rows s')" "distinct (map ax_id (st_rows s'))"
    and rr: "r = mutationResult (ce_directory env) (changed_access j access) (changed_history j (changed_access j access)) False"
    using changed_row_in [OF ok r] i(2) by (auto simp: j_def)
  have "access = row"
    using ok a(1,2) row by (auto simp: access_store_ok_def distinct_map inj_on_def)
  define token where "token = token_text (ce_tokens env) i (pp_companyId who) (vq_expectedVersion v + 1)"
  have token: "mg_token result = Some token"
    using a by (simp add: result rr managementResult_def managed_token_def mutationResult_def mapAccess_def Let_def
        changed_history_def token_def falsy_def j_def token_text_def)
  have parsed: "parse_token (ce_tokens env) token =
      Some \<lparr>pt_accessId = i, pt_generation = vq_expectedVersion v + 1, pt_hash = te_digest (ce_tokens env) token\<rparr>"
    unfolding token_def using parse_issued [OF i(1) _ g sig] v i(2) by simp
  have "changed_access j access = access\<lparr>ax_version := vq_expectedVersion v + 1, ax_tokenGeneration := vq_expectedVersion v + 1,
      ax_updatedAt := ce_now env, ax_expiresAt := preAdmissionExpiresAt (ce_now env), ax_revokedAt := None,
      ax_tokenHash := te_digest (ce_tokens env) token\<rparr>"
    by (simp add: changed_access_def j_def token_def Let_def)
  then have "\<exists>a. resolve (ce_tokens env) dir now token s' = Inr a \<and> rv_version a = vq_expectedVersion v + 1 \<and>
      rv_expiresAt a = iso_string (preAdmissionExpiresAt (ce_now env))"
    using resolve_of_row [OF changed(2,1) _ _ _ _ parsed] now active a i(2) \<open>access = row\<close> by simp
  with token show ?thesis by blast
qed

section \<open>An example\<close>

definition sample_tokens :: token_env where
  "sample_tokens = \<lparr>te_sign = \<lambda>_. replicate 43 CHR ''A'', te_digest = \<lambda>text. text\<rparr>"

definition sample_directory :: directory where
  "sample_directory = \<lparr>
     dr_actor = \<lambda>_ _. Some \<lparr>at_isActive = True, at_statusActive = True, at_deleted = False, at_isAdministrator = True,
       at_documentAccessMode = ''STANDARD'', at_departments = [], at_permissionCodes = []\<rparr>,
     dr_person = \<lambda>_ _. Some \<lparr>pn_isPerson = True, pn_isActive = True, pn_individualName = Some ''Ana'', pn_legalName = []\<rparr>,
     dr_documentType = \<lambda>_ _. Some \<lparr>dt_code = ''rg'', dt_name = ''RG'', dt_acceptedMimeTypes = [], dt_maxFileSizeBytes = 1,
       dt_minFiles = 1, dt_maxFiles = 2, dt_requiresFrontBack = True\<rparr>,
     dr_companyActive = \<lambda>_. True\<rparr>"

definition sample_manager :: authenticated_principal where
  "sample_manager = \<lparr>pp_id = ''u'', pp_companyId = ''c'', pp_authority = \<lparr>au_isAdministrator = True,
     au_departments = None, au_permissionCodes = None, au_permissions = None, au_documentAccessMode = None\<rparr>\<rparr>"

definition sample_access_id :: string where
  "sample_access_id = ''a1111111-1111-4111-8111-111111111111''"

definition sample_env :: "int \<Rightarrow> call_env" where
  "sample_env now = \<lparr>ce_tokens = sample_tokens, ce_directory = sample_directory, ce_aborted = (\<lambda>_. False),
     ce_now = now, ce_later = now, ce_randomUUID = sample_access_id\<rparr>"

definition sample_creation :: access_call where
  "sample_creation = Create (sample_env 0) sample_manager \<lparr>cq_commandId = ''k1'', cq_expectedVersion = 0,
     cq_personRegistrationId = ''p'', cq_documentTypeIds = [''d''], cq_instructions = None\<rparr>"

lemma sample_admin: "canManagePreAdmission (pp_authority sample_manager)"
  "assertActorCanManage sample_directory c u = Inr ()"
  by (simp_all add: canManagePreAdmission_def sample_manager_def hasTenantWideAuthority_def canExercisePermission_def
      assertActorCanManage_def sample_directory_def actor_authority_def)

lemma sample_uuid: "uuid_v4 sample_access_id" "to_lower sample_access_id = sample_access_id"
  by code_simp+

lemma sample_signatures: "signatures_ok sample_tokens"
proof -
  have "is_base64url CHR ''A''" by code_simp
  then show ?thesis by (simp add: signatures_ok_def sample_tokens_def list_all_iff)
qed

definition sample_store :: access_store where
  "sample_store = store_after (called sample_creation) empty_store"

lemma sample_link_created:
  "\<exists>row result. called sample_creation empty_store = (Inr result, sample_store) \<and> \<not> mg_idempotent result \<and>
     st_rows sample_store = [row] \<and> ax_id row = sample_access_id \<and> ax_companyId row = ''c'' \<and> ax_version row = 1 \<and>
     ax_expiresAt row = 2592000000 \<and>
     ax_revokedAt row = None \<and> ax_personRegistrationId row = ''p'' \<and>
     ax_tokenHash row = token_text sample_tokens sample_access_id ''c'' 1 \<and>
     map ah_commandId (st_history sample_store) = [''k1'']"
proof -
  let ?i = "\<lparr>na_id = sample_access_id, na_companyId = ''c'', na_actorUserId = ''u'', na_personRegistrationId = ''p'',
    na_documentTypeIds = [''d''], na_instructions = None, na_commandId = ''k1'',
    na_requestFingerprint = created_fingerprint sample_tokens ''p'' [''d''] None,
    na_tokenHash = te_digest sample_tokens (token_text sample_tokens sample_access_id ''c'' 1),
    na_expiresAt = preAdmissionExpiresAt 0, na_now = 0\<rparr>"
  have low: "to_lower ''p'' = ''p''" "to_lower ''d'' = ''d''" "to_lower ''k1'' = ''k1''" by code_simp+
  obtain items where "requested_items sample_directory ''c'' None [''d''] = Inr items"
    by (simp add: requested_items_def low sample_directory_def)
  moreover have "found_types sample_directory ''c'' [''d''] = [''d'']"
    by (simp add: found_types_def low sample_directory_def)
  moreover have "repeatedCommand sample_directory (create_repeated ?i) empty_store = Inr None"
    by (simp add: repeated_None find_command_def empty_store_def)
  ultimately have "\<exists>r s'. create_transaction sample_directory ?i empty_store = Inr (r, s') \<and> \<not> mr_idempotent r \<and>
      st_rows s' = [created_access ?i items] \<and> st_history s' = [created_history ?i]"
    using sample_admin(2) [of "''c''" "''u''"]
    unfolding create_transaction_Inr by (auto simp: empty_store_def low sample_directory_def mutationResult_def)
  then obtain r s' where r: "create_access sample_directory (\<lambda>_. False) ?i empty_store = (Inr r, s')"
    "\<not> mr_idempotent r" "st_rows s' = [created_access ?i items]" "st_history s' = [created_history ?i]"
    by (auto simp: create_access_def committed_def retry_some)
  then have "called sample_creation empty_store =
      (Inr (managementResult 0 r (Some (managed_token (sample_env 0) r))), s')"
    using sample_admin(1)
    by (simp add: sample_creation_def service_Inr) (simp add: sample_env_def sample_manager_def)
  moreover from this have "s' = sample_store" by (simp add: sample_store_def store_after_def)
  ultimately show ?thesis
    using r(2,3,4) by (simp add: created_access_def created_history_def sample_uuid low preAdmissionExpiresAt_def
        PRE_ADMISSION_DEFAULT_VALIDITY_DAYS_def) (simp add: sample_tokens_def)
qed

lemma sample_reached: "after_calls [sample_creation] empty_store = sample_store" "access_store_ok sample_store"
  using access_run_ok [OF empty_store_ok, of "[sample_creation]"] by (simp_all add: sample_store_def)

lemma same_row: "distinct (map ax_id rows) \<Longrightarrow> r \<in> set rows \<Longrightarrow> r' \<in> set rows \<Longrightarrow> ax_id r = ax_id r' \<Longrightarrow> r = r'"
  by (metis distinct_map inj_onD)

lemma dead_token:
  "(\<And>p. parse_token env token = Some p \<Longrightarrow>
      \<not> list_ex (\<lambda>r. ax_id r = to_lower (pt_accessId p) \<and> ax_tokenHash r = pt_hash p) (st_rows s)) \<Longrightarrow>
    resolve env dir now token s = Inl invalidPreAdmissionToken"
  by (auto simp: resolve_def resolve_row_def list_ex_iff split: option.splits dest!: find_SomeD)

lemma sample_token_parsed:
  "parse_token sample_tokens (token_text sample_tokens sample_access_id ''c'' g) =
     Some \<lparr>pt_accessId = sample_access_id, pt_generation = g, pt_hash = token_text sample_tokens sample_access_id ''c'' g\<rparr>"
  if "1 \<le> g" "g \<le> 9007199254740991"
  using parse_issued [OF sample_uuid(1) that sample_signatures] by (simp add: sample_uuid) (simp add: sample_tokens_def)

lemma sample_active:
  "dr_companyActive sample_directory c" "\<exists>p. dr_person sample_directory c i = Some p \<and> pn_isActive p"
  by (simp_all add: sample_directory_def)

lemma sample_opens:
  "now < 2592000000 \<Longrightarrow>
     \<exists>a. resolve sample_tokens sample_directory now (token_text sample_tokens sample_access_id ''c'' 1) sample_store = Inr a"
proof -
  assume now: "now < 2592000000"
  obtain row where r: "st_rows sample_store = [row]" "ax_id row = sample_access_id" "ax_companyId row = ''c''"
    "ax_version row = 1" "ax_expiresAt row = 2592000000" "ax_revokedAt row = None"
    "ax_tokenHash row = token_text sample_tokens sample_access_id ''c'' 1"
    using sample_link_created by auto
  have g: "ax_tokenGeneration row = 1"
    using sample_reached(2) r by (auto simp: access_store_ok_def row_logged_def)
  show ?thesis
    using resolve_of_row [of sample_store row now sample_directory sample_tokens _, OF _ _ _ _ sample_active(1) sample_active(2)
        sample_token_parsed [of 1]] r g now sample_uuid by auto
qed

section \<open>Properties\<close>

text \<open>
  C37. Whatever calls are made, by whomever and whether they succeed: the ids of the accesses are
  unique, a person has at most one access that was not revoked, the history of each access numbers
  its versions from one without a gap up to the version in force, which is also the generation of
  its token, and no command id of a company is recorded twice.
\<close>

theorem access_log_complete: "access_store_ok (after_calls calls empty_store)"
  by (rule access_run_ok [OF empty_store_ok])

text \<open>
  C34. A token opens one generation of an access: where the same token opens at two moments of a
  run, the access was neither renewed nor revoked in between. Nothing is assumed of the digest and
  the signature.
\<close>

theorem token_opens_one_generation:
  assumes "resolve env dir now token (after_calls cs empty_store) = Inr a"
    and "resolve env dir' now' token (after_calls (cs @ ds) empty_store) = Inr b"
  shows "\<exists>row. row \<in> set (st_rows (after_calls cs empty_store)) \<and> row \<in> set (st_rows (after_calls (cs @ ds) empty_store)) \<and>
    ax_revokedAt row = None \<and> now' < ax_expiresAt row \<and> rv_version a = ax_version row \<and> rv_version b = ax_version row \<and>
    versions_of (ax_id row) (after_calls (cs @ ds) empty_store) = versions_of (ax_id row) (after_calls cs empty_store)"
proof -
  let ?s = "after_calls cs empty_store" and ?t = "after_calls (cs @ ds) empty_store"
  have ok: "access_store_ok ?s" "access_store_ok ?t"
    by (rule access_run_ok [OF empty_store_ok])+
  obtain p r where p: "parse_token env token = Some p" and r: "r \<in> set (st_rows ?s)" "ax_id r = to_lower (pt_accessId p)"
      "ax_tokenGeneration r = pt_generation p" "rv_version a = ax_version r"
    using resolve_opened [OF assms(1)] by blast
  obtain r' where r': "r' \<in> set (st_rows ?t)" "ax_id r' = to_lower (pt_accessId p)"
      "ax_tokenGeneration r' = pt_generation p" "ax_revokedAt r' = None" "now' < ax_expiresAt r'" "rv_version b = ax_version r'"
    using resolve_opened [OF assms(2)] p by auto
  obtain q where q: "q \<in> set (st_rows ?t)" "row_follows r q"
    using run_follows [OF r(1), of ds] by auto
  have "ax_id q = ax_id r'" using q(2) r(2) r'(2) by (simp add: row_follows_def)
  then have "q = r'"
    using ok(2) q(1) r'(1) by (auto simp: access_store_ok_def distinct_map dest: inj_onD)
  have g: "ax_tokenGeneration r = ax_version r" "ax_tokenGeneration r' = ax_version r'"
    and log: "versions_of (ax_id r) ?s = [1..ax_version r]" "versions_of (ax_id r') ?t = [1..ax_version r']"
    using ok r(1) r'(1) by (auto simp: access_store_ok_def list_all_iff row_logged_def)
  then have "ax_version r' = ax_version r" using r(3) r'(3) by simp
  then have "r' = r" using q(2) \<open>q = r'\<close> by (simp add: row_follows_def)
  with r r' log show ?thesis by auto
qed

theorem token_opens_one_generation_witness:
  "\<exists>row. row \<in> set (st_rows sample_store) \<and> ax_revokedAt row = None \<and> 2591999999 < ax_expiresAt row"
proof -
  obtain a b where "resolve sample_tokens sample_directory 0 (token_text sample_tokens sample_access_id ''c'' 1)
      (after_calls [sample_creation] empty_store) = Inr a"
    "resolve sample_tokens sample_directory 2591999999 (token_text sample_tokens sample_access_id ''c'' 1)
      (after_calls ([sample_creation] @ []) empty_store) = Inr b"
    using sample_opens [of 0] sample_opens [of 2591999999] unfolding append_Nil2 sample_reached(1) by auto
  from token_opens_one_generation [OF this] show ?thesis unfolding append_Nil2 sample_reached(1) by blast
qed





section \<open>Further facts\<close>

text \<open>
  An accepted call that is sent again, at another time and whatever the database aborts, is
  answered as before, token included, and changes nothing; the answer is marked as a repetition and
  shows the status of the moment.
\<close>

theorem repeated_call_is_answered_again:
  assumes "called c (after_calls calls empty_store) = (Inr result, s')" and "\<not> mg_idempotent result"
    and "canonical_call c" and "ce_tokens env' = ce_tokens (call_env_of c)"
    and "ce_directory env' = ce_directory (call_env_of c)"
  shows "\<exists>status. called (again env' c) s' = (Inr (result\<lparr>mg_idempotent := True, mg_status := status\<rparr>), s')"
  by (rule call_answered_again [OF access_run_ok [OF empty_store_ok] assms])

theorem repeated_call_is_answered_again_witness:
  "\<exists>result. called sample_creation empty_store = (Inr result, sample_store) \<and>
     (\<exists>status. called (again (sample_env 7000) sample_creation) sample_store =
       (Inr (result\<lparr>mg_idempotent := True, mg_status := status\<rparr>), sample_store))"
proof -
  obtain result where r: "called sample_creation (after_calls [] empty_store) = (Inr result, sample_store)"
    and n: "\<not> mg_idempotent result"
    using sample_link_created by auto
  have "\<exists>status. called (again (sample_env 7000) sample_creation) sample_store =
      (Inr (result\<lparr>mg_idempotent := True, mg_status := status\<rparr>), sample_store)"
    by (rule repeated_call_is_answered_again [OF r n]) (simp_all add: sample_creation_def sample_env_def)
  with r show ?thesis by simp
qed

text \<open>
  A defect: a renewal whose access id is spelled with a capital letter is accepted, but the token
  it answers never opens the access, since the digest is stored of the token for the spelling of the
  request and the answer is issued for the stored spelling.
\<close>

theorem capital_id_renewal_answers_dead_token:
  assumes "service_renew env who i v (after_calls calls empty_store) = (Inr result, s')" and "\<not> mg_idempotent result"
    and "uuid_v4 i"
    and "te_digest (ce_tokens env) (token_text (ce_tokens env) i (pp_companyId who) (vq_expectedVersion v + 1)) \<noteq>
      te_digest (ce_tokens env) (token_text (ce_tokens env) (to_lower i) (pp_companyId who) (vq_expectedVersion v + 1))"
  shows "\<exists>token. mg_token result = Some token \<and> resolve (ce_tokens env) dir now token s' = Inl invalidPreAdmissionToken"
proof -
  define j where "j = \<lparr>cg_companyId = pp_companyId who, cg_actorUserId = pp_id who, cg_accessId = i,
        cg_commandId = vq_commandId v, cg_expectedVersion = vq_expectedVersion v,
        cg_requestFingerprint = changed_fingerprint (ce_tokens env) ''renewed'' i (vq_expectedVersion v),
        cg_renewal = Some (te_digest (ce_tokens env) (token_text (ce_tokens env) i (pp_companyId who) (vq_expectedVersion v + 1)),
          preAdmissionExpiresAt (ce_now env)), cg_now = ce_now env\<rparr>"
  obtain r where r: "changeAccess (ce_directory env) (ce_aborted env) j (after_calls calls empty_store) = (Inr r, s')"
    and result: "result = managementResult (ce_later env) r (Some (managed_token env r))"
    using assms(1) unfolding service_Inr j_def by blast
  have "\<not> mr_idempotent r" using assms(2) result by simp
  then obtain access where a: "ax_id access = to_lower i" "ax_companyId access = pp_companyId who"
    and changed: "changed_access j access \<in> set (st_rows s')" "distinct (map ax_id (st_rows s'))"
    and rr: "r = mutationResult (ce_directory env) (changed_access j access) (changed_history j (changed_access j access)) False"
    using changed_row_in [OF access_run_ok [OF empty_store_ok] r] by (auto simp: j_def)
  define token where "token = token_text (ce_tokens env) (to_lower i) (pp_companyId who) (vq_expectedVersion v + 1)"
  have "mg_token result = Some token"
    using a by (simp add: result rr managementResult_def managed_token_def mutationResult_def mapAccess_def Let_def
        changed_history_def token_def falsy_def j_def token_text_def)
  moreover have "resolve (ce_tokens env) dir now token s' = Inl invalidPreAdmissionToken"
  proof (rule dead_token)
    fix p
    assume p: "parse_token (ce_tokens env) token = Some p"
    have "length i = 36" using assms(3) by (simp add: uuid_v4_def uuid_pattern_def)
    then have "pt_accessId p = to_lower i"
      using p by (auto simp: parse_token_def match_token_def token_def token_text_def Let_def to_lower_def
          split: option.splits if_splits)
    moreover have "pt_hash p = te_digest (ce_tokens env) token"
      using p by (auto simp: parse_token_def Let_def split: option.splits if_splits prod.splits)
    moreover have "ax_id (changed_access j access) = to_lower i"
      "ax_tokenHash (changed_access j access) \<noteq> te_digest (ce_tokens env) token"
      using a assms(4) by (simp_all add: changed_access_def j_def token_def Let_def)
    ultimately show "\<not> list_ex (\<lambda>r. ax_id r = to_lower (pt_accessId p) \<and> ax_tokenHash r = pt_hash p) (st_rows s')"
      using same_row [OF changed(2) _ changed(1)] by (auto simp: list_ex_iff)
  qed
  ultimately show ?thesis by blast
qed


theorem capital_id_renewal_answers_dead_token_witness:
  "\<exists>result s' token. service_renew (sample_env 9000) sample_manager ''A1111111-1111-4111-8111-111111111111''
      \<lparr>vq_commandId = ''k2'', vq_expectedVersion = 1\<rparr> sample_store = (Inr result, s') \<and>
    mg_token result = Some token \<and> resolve sample_tokens sample_directory 9001 token s' = Inl invalidPreAdmissionToken"
proof -
  let ?i = "''A1111111-1111-4111-8111-111111111111''"
  have i: "to_lower ?i = sample_access_id" "uuid_v4 ?i" "?i \<noteq> sample_access_id" by code_simp+
  obtain row where r: "st_rows sample_store = [row]" "ax_id row = sample_access_id" "ax_companyId row = ''c''"
    "ax_version row = 1" and k: "map ah_commandId (st_history sample_store) = [''k1'']"
    using sample_link_created by auto
  have "to_lower ''k2'' \<noteq> ''k1''" by code_simp
  with k have new: "find_command ''c'' ''k2'' sample_store = None" by (auto simp: find_command_None)
  define j where "j = \<lparr>cg_companyId = ''c'', cg_actorUserId = ''u'', cg_accessId = ?i,
    cg_commandId = ''k2'', cg_expectedVersion = 1,
    cg_requestFingerprint = changed_fingerprint sample_tokens ''renewed'' ?i 1,
    cg_renewal = Some (te_digest sample_tokens (token_text sample_tokens ?i ''c'' (1 + 1)), preAdmissionExpiresAt 9000),
    cg_now = 9000\<rparr>"
  have "\<exists>s'. changeAccess sample_directory (\<lambda>_. False) j sample_store =
      (Inr (mutationResult sample_directory (changed_access j row) (changed_history j (changed_access j row)) False), s')"
    by (rule change_accepted [OF sample_reached(2)])
      (use r i new in \<open>simp_all add: j_def sample_admin\<close>)
  then obtain m s' where "changeAccess sample_directory (\<lambda>_. False) j sample_store = (Inr m, s')" "\<not> mr_idempotent m"
    by (auto simp: mutationResult_def)
  then have c: "service_renew (sample_env 9000) sample_manager ?i \<lparr>vq_commandId = ''k2'', vq_expectedVersion = 1\<rparr>
      (after_calls [sample_creation] empty_store) =
      (Inr (managementResult 9000 m (Some (managed_token (sample_env 9000) m))), s')"
    and n: "\<not> mg_idempotent (managementResult 9000 m (Some (managed_token (sample_env 9000) m)))"
    unfolding sample_reached(1) service_Inr using sample_admin(1)
    by (simp_all add: sample_env_def sample_manager_def j_def)
  have "\<exists>token. mg_token (managementResult 9000 m (Some (managed_token (sample_env 9000) m))) = Some token \<and>
      resolve (ce_tokens (sample_env 9000)) sample_directory 9001 token s' = Inl invalidPreAdmissionToken"
    by (rule capital_id_renewal_answers_dead_token [OF c n i(2)])
      (use i in \<open>simp add: sample_env_def sample_tokens_def token_text_def\<close>)
  with c show ?thesis unfolding sample_reached(1) by (simp add: sample_env_def)
qed

end
