(* ===== verification/Accounts.thy ===== *)
theory Accounts
  imports Access_Policy Brazilian_Documents Effects JS_Time Consolidation
begin

text \<open>
  The accounts of the tenant with their sessions and their password links: the tables
  (\<open>domain/entities/user.ts\<close>, \<open>schema.prisma\<close>) and the repositories over them
  (\<open>prisma-users.repository.ts\<close>, \<open>prisma-refresh-tokens.repository.ts\<close>,
  \<open>prisma-password-change-challenges.repository.ts\<close>). A table is a list of rows in the order of
  insertion. Attempts that the database aborts leave no row and are not modelled; the calls run one
  after the other.
\<close>

section \<open>Accounts, sessions and challenges\<close>

datatype account_status = US_active | US_inactive | US_suspended

datatype client_category = CC_legal_entity | CC_individual

datatype military_document_status = MS_applicable | MS_not_applicable | MS_pending_confirmation

record user_dependent =
  dp_name :: string
  dp_birthDate :: string
  dp_relationship :: "string option"

text \<open>\<open>UserProps\<close> with the column \<open>deletedAt\<close>; the bytes of the picture stand in \<open>Profile_Image\<close>.\<close>

record account =
  us_id :: string
  us_companyId :: string
  us_routingCompanyId :: "string option"
  us_name :: string
  us_username :: string
  us_usernameNormalized :: string
  us_email :: string
  us_emailNormalized :: string
  us_cpfNormalized :: "string option"
  us_passwordHash :: string
  us_mustChangePassword :: bool
  us_profilePictureMime :: "string option"
  us_isAdministrator :: bool
  us_documentAccessMode :: document_access_mode
  us_clientCategory :: "client_category option"
  us_jobTitle :: "string option"
  us_maritalStatus :: "string option"
  us_militaryDocumentStatus :: military_document_status
  us_dependents :: "user_dependent list"
  us_departments :: "department list"
  us_permissionCodes :: "permission list"
  us_status :: account_status
  us_suspendedUntil :: "int option"
  us_suspensionReason :: "string option"
  us_isActive :: bool
  us_version :: int
  us_tokenVersion :: int
  us_lastLoginAt :: "int option"
  us_createdAt :: int
  us_updatedAt :: int
  us_deletedAt :: "int option"

record refresh_token =
  rt_id :: string
  rt_companyId :: string
  rt_userId :: string
  rt_tokenHash :: string
  rt_rememberDevice :: bool
  rt_expiresAt :: int
  rt_revokedAt :: "int option"
  rt_createdAt :: int

datatype change_reason = First_access | Admin_reset

record challenge =
  pc_id :: string
  pc_companyId :: string
  pc_userId :: string
  pc_tokenHash :: string
  pc_reason :: change_reason
  pc_expiresAt :: int
  pc_consumedAt :: "int option"
  pc_createdAt :: int

record password_entry =
  ph_companyId :: string
  ph_userId :: string
  ph_passwordHash :: string
  ph_createdAt :: int

datatype audit_metadata =
    Password_reason string
  | Delivery_ok
  | Delivery_failure string string
  | Status_change account_status account_status "int option" "string option"
  | Was_administrator bool
  | Created_as bool document_access_mode "client_category option" "string option" "string option"
      military_document_status nat "department list" "permission list" "string option"
  | Updated_by string int int "string list" "string list"

record audit_entry =
  al_companyId :: string
  al_actorUserId :: "string option"
  al_action :: string
  al_targetId :: string
  al_metadata :: audit_metadata

text \<open>A mail the notifier was asked to send.\<close>

record reset_mail =
  rm_recipientName :: string
  rm_recipientUsername :: string
  rm_recipientEmail :: string
  rm_idempotencyKey :: string
  rm_resetUrl :: string
  rm_expiresAt :: int

record account_store =
  as_users :: "account list"
  as_refreshTokens :: "refresh_token list"
  as_challenges :: "challenge list"
  as_passwordHistory :: "password_entry list"
  as_audit :: "audit_entry list"
  as_outbox :: "reset_mail list"
  as_activeCompanies :: "string list"

text \<open>
  What a call may throw: an error of the application, an error of the database (a unique column, a
  reference, the missing row of an update), the failure of the mail provider.
\<close>

datatype delivery_failure = Error_message string | Not_an_error

datatype account_failure =
  Refused app_error | Unique_constraint | Foreign_key | Record_not_found | Not_delivered delivery_failure

type_synonym 'a account_action = "(account_store, account_failure, 'a) store_action"

record user_record =
  uc_user :: account
  uc_companyIsActive :: bool

section \<open>Tables\<close>

definition is_user :: "string \<Rightarrow> string \<Rightarrow> account \<Rightarrow> bool" where
  "is_user companyId userId u \<longleftrightarrow> us_companyId u = companyId \<and> us_id u = userId"

definition user_row_of :: "string \<Rightarrow> string \<Rightarrow> account_store \<Rightarrow> account option" where
  "user_row_of companyId userId s = find (is_user companyId userId) (as_users s)"

text \<open>\<open>updateMany\<close> on a table: the rows that satisfy \<open>P\<close> are rewritten.\<close>

definition update_where :: "('a \<Rightarrow> bool) \<Rightarrow> ('a \<Rightarrow> 'a) \<Rightarrow> 'a list \<Rightarrow> 'a list" where
  "update_where P f rows = map (\<lambda>r. if P r then f r else r) rows"

definition count_where :: "('a \<Rightarrow> bool) \<Rightarrow> 'a list \<Rightarrow> nat" where
  "count_where P rows = length (filter P rows)"

definition set_users :: "(account \<Rightarrow> bool) \<Rightarrow> (account \<Rightarrow> account) \<Rightarrow> account_store \<Rightarrow> account_store" where
  "set_users P f s = s\<lparr>as_users := update_where P f (as_users s)\<rparr>"

definition set_tokens :: "(refresh_token \<Rightarrow> bool) \<Rightarrow> (refresh_token \<Rightarrow> refresh_token) \<Rightarrow> account_store \<Rightarrow> account_store" where
  "set_tokens P f s = s\<lparr>as_refreshTokens := update_where P f (as_refreshTokens s)\<rparr>"

definition set_challenges :: "(challenge \<Rightarrow> bool) \<Rightarrow> (challenge \<Rightarrow> challenge) \<Rightarrow> account_store \<Rightarrow> account_store" where
  "set_challenges P f s = s\<lparr>as_challenges := update_where P f (as_challenges s)\<rparr>"

definition mapUserRecord :: "account_store \<Rightarrow> account \<Rightarrow> user_record" where
  "mapUserRecord s u = \<lparr>uc_user = u, uc_companyIsActive = (us_companyId u \<in> set (as_activeCompanies s))\<rparr>"

text \<open>A \<open>uuid\<close> column compares values, not texts: letters in any case.\<close>

definition same_uuid :: "string \<Rightarrow> string \<Rightarrow> bool" where
  "same_uuid a b \<longleftrightarrow> to_lower a = to_lower b"

section \<open>Refresh tokens\<close>

definition is_token_of :: "string \<Rightarrow> string \<Rightarrow> refresh_token \<Rightarrow> bool" where
  "is_token_of companyId userId t \<longleftrightarrow>
     rt_companyId t = companyId \<and> rt_userId t = userId \<and> rt_revokedAt t = None"

definition insert_token :: "refresh_token \<Rightarrow> account_store \<Rightarrow> account_failure + account_store" where
  "insert_token t s =
     (if list_ex (\<lambda>r. same_uuid (rt_id r) (rt_id t) \<or> rt_tokenHash r = rt_tokenHash t) (as_refreshTokens s)
      then Inl Unique_constraint
      else if user_row_of (rt_companyId t) (rt_userId t) s = None then Inl Foreign_key
      else Inr (s\<lparr>as_refreshTokens := as_refreshTokens s @ [t]\<rparr>))"

text \<open>A transaction either commits the store it reached or leaves the store as it was.\<close>

definition transaction_op :: "(account_store \<Rightarrow> account_failure + 'a \<times> account_store) \<Rightarrow> 'a account_action" where
  "transaction_op body s = (case body s of Inl e \<Rightarrow> (Inl e, s) | Inr (x, s') \<Rightarrow> (Inr x, s'))"

definition create_token :: "refresh_token \<Rightarrow> unit account_action" where
  "create_token t = transaction_op (\<lambda>s. rbind (insert_token t s) (\<lambda>s'. Inr ((), s')))"

definition find_token :: "string \<Rightarrow> account_store \<Rightarrow> refresh_token option" where
  "find_token i s = find (\<lambda>t. same_uuid (rt_id t) i) (as_refreshTokens s)"

definition is_live_token :: "string \<Rightarrow> refresh_token \<Rightarrow> bool" where
  "is_live_token i t \<longleftrightarrow> same_uuid (rt_id t) i \<and> rt_revokedAt t = None"

definition invalidRefreshToken :: app_error where
  "invalidRefreshToken = AppError INVALID_REFRESH_TOKEN ''invalid-session'' None"

definition rotate_token :: "string \<Rightarrow> refresh_token \<Rightarrow> int \<Rightarrow> unit account_action" where
  "rotate_token currentId nextToken at = transaction_op (\<lambda>s.
     if count_where (is_live_token currentId) (as_refreshTokens s) \<noteq> 1 then Inl (Refused invalidRefreshToken)
     else rbind (insert_token nextToken
         (set_tokens (is_live_token currentId) (\<lambda>t. t\<lparr>rt_revokedAt := Some at\<rparr>) s)) (\<lambda>s'. Inr ((), s')))"

definition revoke_token :: "string \<Rightarrow> int \<Rightarrow> unit account_action" where
  "revoke_token i at s = (Inr (), set_tokens (is_live_token i) (\<lambda>t. t\<lparr>rt_revokedAt := Some at\<rparr>) s)"

definition revoke_tokens_of :: "string \<Rightarrow> string \<Rightarrow> int \<Rightarrow> account_store \<Rightarrow> account_store" where
  "revoke_tokens_of companyId userId at =
     set_tokens (is_token_of companyId userId) (\<lambda>t. t\<lparr>rt_revokedAt := Some at\<rparr>)"

section \<open>Challenges\<close>

definition is_open_challenge_of :: "string \<Rightarrow> string \<Rightarrow> challenge \<Rightarrow> bool" where
  "is_open_challenge_of companyId userId c \<longleftrightarrow>
     pc_companyId c = companyId \<and> pc_userId c = userId \<and> pc_consumedAt c = None"

definition consume :: "int \<Rightarrow> challenge \<Rightarrow> challenge" where
  "consume at c = c\<lparr>pc_consumedAt := Some at\<rparr>"

definition insert_challenge :: "challenge \<Rightarrow> account_store \<Rightarrow> account_failure + account_store" where
  "insert_challenge c s =
     (if list_ex (\<lambda>r. same_uuid (pc_id r) (pc_id c) \<or> pc_tokenHash r = pc_tokenHash c) (as_challenges s)
      then Inl Unique_constraint
      else if user_row_of (pc_companyId c) (pc_userId c) s = None then Inl Foreign_key
      else Inr (s\<lparr>as_challenges := as_challenges s @ [c]\<rparr>))"

definition create_challenge :: "challenge \<Rightarrow> unit account_action" where
  "create_challenge c = transaction_op (\<lambda>s. rbind (insert_challenge c s) (\<lambda>s'. Inr ((), s')))"

definition replaceForUser :: "challenge \<Rightarrow> unit account_action" where
  "replaceForUser c = transaction_op (\<lambda>s. rbind (insert_challenge c
     (set_challenges (is_open_challenge_of (pc_companyId c) (pc_userId c)) (consume (pc_createdAt c)) s))
     (\<lambda>s'. Inr ((), s')))"

definition delete_challenge :: "string \<Rightarrow> unit account_action" where
  "delete_challenge i s = (Inr (), s\<lparr>as_challenges := filter (\<lambda>c. \<not> same_uuid (pc_id c) i) (as_challenges s)\<rparr>)"

text \<open>\<open>orderBy: [{ createdAt: 'desc' }, { id: 'desc' }]\<close>\<close>

definition latest_first :: "challenge \<Rightarrow> challenge \<Rightarrow> int" where
  "latest_first a b = (if pc_createdAt a \<noteq> pc_createdAt b then sgn (pc_createdAt b - pc_createdAt a)
     else code_unit_compare (pc_id b) (pc_id a))"

record cancelled =
  cx_challengeId :: string
  cx_companyId :: string
  cx_userId :: string
  cx_replacedAt :: int

definition was_replaced :: "cancelled \<Rightarrow> int \<Rightarrow> challenge \<Rightarrow> bool" where
  "was_replaced x at c \<longleftrightarrow> pc_companyId c = cx_companyId x \<and> pc_userId c = cx_userId x \<and>
     pc_consumedAt c = Some (cx_replacedAt x) \<and> pc_expiresAt c > at"

definition is_cancelled :: "cancelled \<Rightarrow> challenge \<Rightarrow> bool" where
  "is_cancelled x c \<longleftrightarrow> same_uuid (pc_id c) (cx_challengeId x) \<and> pc_companyId c = cx_companyId x \<and> pc_userId c = cx_userId x"

definition cancelReplacement :: "cancelled \<Rightarrow> int \<Rightarrow> unit account_action" where
  "cancelReplacement x at s =
     (let active = list_ex (\<lambda>c. is_cancelled x c \<and> pc_consumedAt c = None) (as_challenges s);
          s1 = s\<lparr>as_challenges := filter (\<lambda>c. \<not> is_cancelled x c) (as_challenges s)\<rparr>
      in (Inr (), if \<not> active then s1
          else case js_first (js_sort latest_first (filter (was_replaced x at) (as_challenges s1))) of
              None \<Rightarrow> s1
            | Some previous \<Rightarrow> set_challenges (\<lambda>c. same_uuid (pc_id c) (pc_id previous)) (\<lambda>c. c\<lparr>pc_consumedAt := None\<rparr>) s1))"

definition find_challenge :: "string \<Rightarrow> account_store \<Rightarrow> challenge option" where
  "find_challenge i s = find (\<lambda>c. same_uuid (pc_id c) i) (as_challenges s)"

record completion =
  co_companyId :: string
  co_userId :: string
  co_challengeId :: string
  co_passwordHash :: string
  co_changedAt :: int

definition is_completed_by :: "completion \<Rightarrow> challenge \<Rightarrow> bool" where
  "is_completed_by x c \<longleftrightarrow> same_uuid (pc_id c) (co_challengeId x) \<and> pc_companyId c = co_companyId x \<and>
     pc_userId c = co_userId x \<and> pc_consumedAt c = None \<and> pc_expiresAt c > co_changedAt x"

text \<open>\<open>update\<close> and \<open>updateMany\<close> of a user also set the column \<open>updatedAt\<close>, to the clock of the call.\<close>

definition with_new_password :: "string \<Rightarrow> int \<Rightarrow> account \<Rightarrow> account" where
  "with_new_password hash at u = u\<lparr>us_passwordHash := hash, us_mustChangePassword := False,
     us_tokenVersion := us_tokenVersion u + 1, us_updatedAt := at\<rparr>"

definition add_history :: "account \<Rightarrow> int \<Rightarrow> account_store \<Rightarrow> account_store" where
  "add_history u at s = s\<lparr>as_passwordHistory := as_passwordHistory s @
     [\<lparr>ph_companyId = us_companyId u, ph_userId = us_id u, ph_passwordHash = us_passwordHash u, ph_createdAt = at\<rparr>]\<rparr>"

definition complete_challenge :: "completion \<Rightarrow> int \<Rightarrow> bool account_action" where
  "complete_challenge x at s =
     (let companyId = co_companyId x; userId = co_userId x; refused = (Inr False, s) in
      case (find (is_completed_by x) (as_challenges s), user_row_of companyId userId s) of
        (Some c, Some u) \<Rightarrow>
          let first_access = (pc_reason c = First_access);
              matches = (\<lambda>v. is_user companyId userId v \<and> (first_access \<longrightarrow> us_mustChangePassword v))
          in if first_access \<and> \<not> us_mustChangePassword u then refused
             else if count_where matches (as_users s) \<noteq> 1 then refused
             else if count_where (is_completed_by x) (as_challenges s) \<noteq> 1 then refused
             else (Inr True,
               set_challenges (\<lambda>d. is_open_challenge_of companyId userId d \<and> \<not> same_uuid (pc_id d) (co_challengeId x))
                 (consume (co_changedAt x))
               (revoke_tokens_of companyId userId (co_changedAt x)
               (add_history u (co_changedAt x)
               (set_challenges (is_completed_by x) (consume (co_changedAt x))
               (set_users matches (with_new_password (co_passwordHash x) at) s)))))
      | _ \<Rightarrow> refused)"

section \<open>The users repository\<close>

definition reactivated :: "int \<Rightarrow> account \<Rightarrow> account" where
  "reactivated at u = u\<lparr>us_status := US_active, us_isActive := True, us_suspendedUntil := None,
     us_suspensionReason := None, us_tokenVersion := us_tokenVersion u + 1, us_updatedAt := at\<rparr>"

definition expired_suspension :: "int \<Rightarrow> account \<Rightarrow> bool" where
  "expired_suspension at u \<longleftrightarrow> us_deletedAt u = None \<and> us_status u = US_suspended \<and>
     (case us_suspendedUntil u of None \<Rightarrow> False | Some t \<Rightarrow> t \<le> at)"

definition reactivateExpiredSuspensions :: "string \<Rightarrow> string \<Rightarrow> int \<Rightarrow> account_store \<Rightarrow> account_store" where
  "reactivateExpiredSuspensions companyId userId at =
     set_users (\<lambda>u. is_user companyId userId u \<and> expired_suspension at u) (reactivated at)"

definition is_present :: "string \<Rightarrow> string \<Rightarrow> account \<Rightarrow> bool" where
  "is_present companyId userId u \<longleftrightarrow> is_user companyId userId u \<and> us_deletedAt u = None"

definition present_user :: "string \<Rightarrow> string \<Rightarrow> account_store \<Rightarrow> user_record option" where
  "present_user companyId userId s =
     map_option (mapUserRecord s) (find (is_present companyId userId) (as_users s))"

text \<open>The clock a call of the repository reads is one instant \<open>at\<close>.\<close>

definition findById :: "string \<Rightarrow> string \<Rightarrow> int \<Rightarrow> user_record option account_action" where
  "findById companyId userId at s =
     (let s' = reactivateExpiredSuspensions companyId userId at s in (Inr (present_user companyId userId s'), s'))"

definition has_login :: "string \<Rightarrow> account \<Rightarrow> bool" where
  "has_login identifier u \<longleftrightarrow> us_deletedAt u = None \<and>
     (us_usernameNormalized u = identifier \<or> us_emailNormalized u = identifier)"

definition findByLoginIdentifier :: "string \<Rightarrow> int \<Rightarrow> user_record option account_action" where
  "findByLoginIdentifier identifier at s = (case find (has_login identifier) (as_users s) of
       None \<Rightarrow> (Inr None, s)
     | Some u \<Rightarrow>
         if us_status u = US_suspended \<and> (case us_suspendedUntil u of None \<Rightarrow> False | Some t \<Rightarrow> t \<le> at)
         then let s' = reactivateExpiredSuspensions (us_companyId u) (us_id u) at s
              in (Inr (present_user (us_companyId u) (us_id u) s'), s')
         else (Inr (Some (mapUserRecord s u)), s))"

text \<open>\<open>users.update\<close> by primary key throws where there is no row.\<close>

definition update_user :: "string \<Rightarrow> string \<Rightarrow> (account \<Rightarrow> account) \<Rightarrow> account_store \<Rightarrow> account_failure + account_store" where
  "update_user companyId userId f s =
     (if user_row_of companyId userId s = None then Inl Record_not_found
      else Inr (set_users (is_user companyId userId) f s))"

definition markLastLogin :: "string \<Rightarrow> string \<Rightarrow> int \<Rightarrow> unit account_action" where
  "markLastLogin companyId userId date = transaction_op (\<lambda>s. rbind
     (update_user companyId userId (\<lambda>u. u\<lparr>us_lastLoginAt := Some date, us_updatedAt := date\<rparr>) s) (\<lambda>s'. Inr ((), s')))"

definition is_active_administrator :: "string \<Rightarrow> account \<Rightarrow> bool" where
  "is_active_administrator companyId u \<longleftrightarrow> us_companyId u = companyId \<and> us_isAdministrator u \<and>
     us_isActive u \<and> us_status u = US_active"

definition countActiveAdministrators :: "string \<Rightarrow> account_store \<Rightarrow> nat" where
  "countActiveAdministrators companyId s =
     count_where (\<lambda>u. us_deletedAt u = None \<and> is_active_administrator companyId u) (as_users s)"

text \<open>Entries of equal date keep the order of the table; the database leaves it open.\<close>

definition history_of :: "string \<Rightarrow> string \<Rightarrow> account_store \<Rightarrow> password_entry list" where
  "history_of companyId userId s = js_sort (\<lambda>a b. sgn (ph_createdAt b - ph_createdAt a))
     (filter (\<lambda>e. ph_companyId e = companyId \<and> ph_userId e = userId) (as_passwordHistory s))"

definition listPasswordHashes :: "string \<Rightarrow> string \<Rightarrow> int \<Rightarrow> account_store \<Rightarrow> string list" where
  "listPasswordHashes companyId userId limit s = (case user_row_of companyId userId s of
       None \<Rightarrow> []
     | Some u \<Rightarrow> us_passwordHash u # map ph_passwordHash (take (nat (limit - 1)) (history_of companyId userId s)))"

definition changePassword :: "string \<Rightarrow> string \<Rightarrow> string \<Rightarrow> int \<Rightarrow> unit account_action" where
  "changePassword companyId userId passwordHash changedAt = transaction_op (\<lambda>s.
     case user_row_of companyId userId s of
       None \<Rightarrow> Inl Record_not_found
     | Some u \<Rightarrow> Inr ((), revoke_tokens_of companyId userId changedAt
         (set_users (is_user companyId userId) (with_new_password passwordHash changedAt)
           (add_history u changedAt s))))"

definition requirePasswordChange :: "string \<Rightarrow> string \<Rightarrow> int \<Rightarrow> unit account_action" where
  "requirePasswordChange companyId userId at = transaction_op (\<lambda>s. rbind
     (update_user companyId userId (\<lambda>u. u\<lparr>us_mustChangePassword := True,
        us_tokenVersion := us_tokenVersion u + 1, us_updatedAt := at\<rparr>) s)
     (\<lambda>s'. Inr ((), revoke_tokens_of companyId userId at s')))"

record status_change =
  sc_status :: account_status
  sc_suspendedUntil :: "int option"
  sc_suspensionReason :: "string option"
  sc_changedAt :: int

definition with_status :: "status_change \<Rightarrow> account \<Rightarrow> account" where
  "with_status x u = u\<lparr>us_status := sc_status x, us_isActive := (sc_status x = US_active),
     us_suspendedUntil := sc_suspendedUntil x, us_suspensionReason := sc_suspensionReason x,
     us_tokenVersion := us_tokenVersion u + 1, us_updatedAt := sc_changedAt x\<rparr>"

definition found_user :: "string \<Rightarrow> string \<Rightarrow> account_store \<Rightarrow> account_failure + user_record" where
  "found_user companyId userId s = (case user_row_of companyId userId s of
     None \<Rightarrow> Inl Record_not_found | Some u \<Rightarrow> Inr (mapUserRecord s u))"

definition updateStatus :: "string \<Rightarrow> string \<Rightarrow> status_change \<Rightarrow> user_record account_action" where
  "updateStatus companyId userId x = transaction_op (\<lambda>s.
     let allowed = (\<lambda>u. is_user companyId userId u \<and>
           (sc_status x = US_active \<or> \<not> (us_isAdministrator u \<and> us_isActive u \<and> us_status u = US_active)));
         s' = revoke_tokens_of companyId userId (sc_changedAt x) (set_users allowed (with_status x) s)
     in if count_where allowed (as_users s) \<noteq> 1 then Inl (Refused (conflict ''administrative-state-changed'' None))
        else rbind (found_user companyId userId s') (\<lambda>r. Inr (r, s')))"

definition updateStatusWithAdministratorInvariant ::
  "string \<Rightarrow> string \<Rightarrow> status_change \<Rightarrow> user_record option account_action" where
  "updateStatusWithAdministratorInvariant companyId userId x = transaction_op (\<lambda>s.
     let target = (\<lambda>u. is_user companyId userId u \<and> us_isAdministrator u \<and> us_isActive u \<and> us_status u = US_active);
         s' = revoke_tokens_of companyId userId (sc_changedAt x) (set_users target (with_status x) s)
     in if count_where (is_active_administrator companyId) (as_users s) \<le> 1 then Inr (None, s)
        else if count_where target (as_users s) \<noteq> 1 then Inr (None, s)
        else rbind (found_user companyId userId s') (\<lambda>r. Inr (Some r, s')))"

definition deleted_account :: "int \<Rightarrow> account \<Rightarrow> account" where
  "deleted_account at u =
     (let identifier = ''excluido-'' @ take 24 (us_id u);
          email = ''excluido+'' @ us_id u @ ''@invalid.local''
      in u\<lparr>us_name := ''deleted-user'', us_username := identifier, us_usernameNormalized := identifier,
           us_email := email, us_emailNormalized := email, us_cpfNormalized := None,
           us_profilePictureMime := None, us_isAdministrator := False, us_departments := [],
           us_permissionCodes := [], us_status := US_inactive, us_isActive := False,
           us_suspendedUntil := None, us_suspensionReason := None, us_deletedAt := Some at,
           us_tokenVersion := us_tokenVersion u + 1, us_updatedAt := at\<rparr>)"

text \<open>The unique columns \<open>usernameNormalized\<close> and \<open>emailNormalized\<close>.\<close>

definition same_login :: "account \<Rightarrow> account \<Rightarrow> bool" where
  "same_login u v \<longleftrightarrow> us_usernameNormalized u = us_usernameNormalized v \<or> us_emailNormalized u = us_emailNormalized v"

definition softDelete :: "string \<Rightarrow> string \<Rightarrow> int \<Rightarrow> bool account_action" where
  "softDelete companyId userId at s = (case find (is_present companyId userId) (as_users s) of
       None \<Rightarrow> (Inr False, s)
     | Some target \<Rightarrow>
         if us_isAdministrator target \<and> countActiveAdministrators companyId s \<le> 1 then (Inr False, s)
         else if count_where (is_present companyId userId) (as_users s) \<noteq> 1 then (Inr False, s)
         else if list_ex (\<lambda>v. \<not> is_user companyId userId v \<and> same_login v (deleted_account at target)) (as_users s)
         then (Inl Unique_constraint, s)
         else (Inr True, set_challenges (is_open_challenge_of companyId userId) (consume at)
           (revoke_tokens_of companyId userId at
           (set_users (is_present companyId userId) (deleted_account at) s))))"

section \<open>What every operation keeps\<close>

definition usable :: "account \<Rightarrow> bool" where
  "usable u \<longleftrightarrow> us_deletedAt u = None \<and> us_isActive u \<and> us_status u = US_active \<and> \<not> us_mustChangePassword u"

definition account_ok :: "account \<Rightarrow> bool" where
  "account_ok u \<longleftrightarrow> (us_isActive u \<longleftrightarrow> us_status u = US_active) \<and>
     (us_deletedAt u = None \<or> \<not> us_isAdministrator u \<and> \<not> us_isActive u)"

definition token_session_ok :: "account list \<Rightarrow> refresh_token \<Rightarrow> bool" where
  "token_session_ok users t \<longleftrightarrow> rt_revokedAt t \<noteq> None \<or>
     list_ex (\<lambda>u. is_user (rt_companyId t) (rt_userId t) u \<and> usable u) users"

definition accounts_ok :: "account_store \<Rightarrow> bool" where
  "accounts_ok s \<longleftrightarrow> distinct (map us_id (as_users s)) \<and> list_all account_ok (as_users s) \<and>
     distinct (map (\<lambda>t. to_lower (rt_id t)) (as_refreshTokens s)) \<and> list_all (token_session_ok (as_users s)) (as_refreshTokens s) \<and>
     distinct (map (\<lambda>c. to_lower (pc_id c)) (as_challenges s))"

definition administered :: "string \<Rightarrow> account_store \<Rightarrow> bool" where
  "administered companyId s \<longleftrightarrow> countActiveAdministrators companyId s \<ge> 1"

text \<open>What the accounts, the tokens and the invariant become from one store to a later one.\<close>

definition same_access :: "account \<Rightarrow> account \<Rightarrow> bool" where
  "same_access u v \<longleftrightarrow> us_isAdministrator v = us_isAdministrator u \<and> us_documentAccessMode v = us_documentAccessMode u \<and>
     us_departments v = us_departments u \<and> us_permissionCodes v = us_permissionCodes u \<and>
     us_clientCategory v = us_clientCategory u \<and> us_routingCompanyId v = us_routingCompanyId u"

definition account_follows :: "account \<Rightarrow> account \<Rightarrow> bool" where
  "account_follows u v \<longleftrightarrow> us_id v = us_id u \<and> us_companyId v = us_companyId u \<and> us_tokenVersion u \<le> us_tokenVersion v \<and>
     us_version v = us_version u \<and> (us_deletedAt u \<noteq> None \<longrightarrow> us_deletedAt v \<noteq> None) \<and>
     (us_deletedAt v \<noteq> None \<or> same_access u v)"

definition token_follows :: "refresh_token \<Rightarrow> refresh_token \<Rightarrow> bool" where
  "token_follows t r \<longleftrightarrow> to_lower (rt_id r) = to_lower (rt_id t) \<and> (rt_revokedAt t \<noteq> None \<longrightarrow> rt_revokedAt r \<noteq> None)"

definition accounts_step :: "account_store \<Rightarrow> account_store \<Rightarrow> bool" where
  "accounts_step s t \<longleftrightarrow>
     (accounts_ok s \<longrightarrow> accounts_ok t \<and> (\<forall>c. administered c s \<longrightarrow> administered c t)) \<and>
     (\<forall>u\<in>set (as_users s). \<exists>v\<in>set (as_users t). account_follows u v) \<and>
     (\<forall>v\<in>set (as_users t). \<exists>u\<in>set (as_users s). account_follows u v) \<and>
     (\<forall>r\<in>set (as_refreshTokens s). \<exists>q\<in>set (as_refreshTokens t). token_follows r q)"

lemma account_follows_refl [simp]: "account_follows u u" by (simp add: account_follows_def same_access_def)

lemma account_follows_trans: "account_follows u v \<Longrightarrow> account_follows v w \<Longrightarrow> account_follows u w"
  by (auto simp: account_follows_def same_access_def)

lemma token_follows_refl [simp]: "token_follows t t" by (simp add: token_follows_def)

lemma accounts_follow [simp]: "u \<in> U \<Longrightarrow> \<exists>v\<in>U. account_follows u v"
  by (rule bexI [of _ u]) simp_all

lemma accounts_come_from [simp]: "v \<in> U \<Longrightarrow> \<exists>u\<in>U. account_follows u v"
  by (rule bexI [of _ v]) simp_all

lemma tokens_follow [simp]: "t \<in> T \<Longrightarrow> \<exists>r\<in>T. token_follows t r"
  by (rule bexI [of _ t]) simp_all

interpretation steps: store_relation accounts_step
proof
  show "accounts_step s s" for s by (simp add: accounts_step_def)
next
  fix s t u assume st: "accounts_step s t" and tu: "accounts_step t u"
  show "accounts_step s u"
    unfolding accounts_step_def
  proof (intro conjI ballI)
    fix a assume "a \<in> set (as_users s)"
    then obtain b where b: "b \<in> set (as_users t)" "account_follows a b" using st by (auto simp: accounts_step_def)
    then obtain c where "c \<in> set (as_users u)" "account_follows b c" using tu by (auto simp: accounts_step_def)
    with b show "\<exists>v\<in>set (as_users u). account_follows a v" by (intro bexI [of _ c]) (auto intro: account_follows_trans)
  next
    fix a assume "a \<in> set (as_users u)"
    then obtain b where b: "b \<in> set (as_users t)" "account_follows b a" using tu by (auto simp: accounts_step_def)
    then obtain c where "c \<in> set (as_users s)" "account_follows c b" using st by (auto simp: accounts_step_def)
    with b show "\<exists>v\<in>set (as_users s). account_follows v a" by (intro bexI [of _ c]) (auto intro: account_follows_trans)
  next
    fix a assume "a \<in> set (as_refreshTokens s)"
    then obtain b where b: "b \<in> set (as_refreshTokens t)" "token_follows a b" using st by (auto simp: accounts_step_def)
    then obtain c where "c \<in> set (as_refreshTokens u)" "token_follows b c" using tu by (auto simp: accounts_step_def)
    with b show "\<exists>v\<in>set (as_refreshTokens u). token_follows a v" by (intro bexI [of _ c]) (auto simp: token_follows_def)
  qed (use st tu in \<open>auto simp: accounts_step_def\<close>)
qed

lemma administered_iff: "administered c s \<longleftrightarrow>
    (\<exists>u\<in>set (as_users s). us_deletedAt u = None \<and> is_active_administrator c u)"
  by (auto simp: administered_def countActiveAdministrators_def count_where_def Suc_le_eq filter_empty_conv)

lemma in_update_where: "x \<in> set rows \<Longrightarrow> (if P x then f x else x) \<in> set (update_where P f rows)"
  by (auto simp: update_where_def)

lemma set_update_where: "set (update_where P f rows) = (\<lambda>x. if P x then f x else x) ` set rows"
  by (simp add: update_where_def)

lemma map_update_where: "(\<And>x. P x \<Longrightarrow> g (f x) = g x) \<Longrightarrow> map g (update_where P f rows) = map g rows"
  by (simp add: update_where_def)

lemma set_users_simps [simp]:
  "as_users (set_users P f s) = update_where P f (as_users s)" "as_refreshTokens (set_users P f s) = as_refreshTokens s"
  "as_challenges (set_users P f s) = as_challenges s" "as_activeCompanies (set_users P f s) = as_activeCompanies s"
  "as_passwordHistory (set_users P f s) = as_passwordHistory s"
  by (simp_all add: set_users_def)

lemma set_tokens_simps [simp]:
  "as_users (set_tokens P g s) = as_users s" "as_refreshTokens (set_tokens P g s) = update_where P g (as_refreshTokens s)"
  "as_challenges (set_tokens P g s) = as_challenges s" "as_activeCompanies (set_tokens P g s) = as_activeCompanies s"
  "as_passwordHistory (set_tokens P g s) = as_passwordHistory s"
  by (simp_all add: set_tokens_def)

lemma set_challenges_simps [simp]:
  "as_users (set_challenges P h s) = as_users s" "as_refreshTokens (set_challenges P h s) = as_refreshTokens s"
  "as_challenges (set_challenges P h s) = update_where P h (as_challenges s)"
  "as_activeCompanies (set_challenges P h s) = as_activeCompanies s"
  "as_passwordHistory (set_challenges P h s) = as_passwordHistory s"
  by (simp_all add: set_challenges_def)

lemma add_history_simps [simp]:
  "as_users (add_history u at s) = as_users s" "as_refreshTokens (add_history u at s) = as_refreshTokens s"
  "as_challenges (add_history u at s) = as_challenges s" "as_activeCompanies (add_history u at s) = as_activeCompanies s"
  by (simp_all add: add_history_def)

text \<open>The invariant reads the accounts, the tokens and the ids of the challenges only.\<close>

lemma accounts_step_same:
  assumes "as_users t = as_users s" and "as_refreshTokens t = as_refreshTokens s"
    and "accounts_ok s \<Longrightarrow> distinct (map (\<lambda>c. to_lower (pc_id c)) (as_challenges t))"
  shows "accounts_step s t"
  using assms by (simp add: accounts_step_def accounts_ok_def administered_iff)

lemma accounts_step_tokens:
  assumes "\<And>r. P r \<Longrightarrow> token_follows r (g r) \<and> rt_revokedAt (g r) \<noteq> None"
  shows "accounts_step s (set_tokens P g s)"
proof -
  have m: "map (\<lambda>t. to_lower (rt_id t)) (update_where P g rows) = map (\<lambda>t. to_lower (rt_id t)) rows" for rows
    by (intro map_update_where) (use assms in \<open>auto simp: token_follows_def\<close>)
  have "list_all (token_session_ok us) (update_where P g rows)" if "list_all (token_session_ok us) rows" for us rows
    using that assms by (auto simp: list_all_iff set_update_where token_session_ok_def)
  moreover have "\<exists>q\<in>set (update_where P g rows). token_follows r q" if "r \<in> set rows" for r rows
    using in_update_where [OF that, of P g] assms [of r] by (intro bexI) (auto split: if_splits)
  ultimately show ?thesis
    using m by (simp add: accounts_step_def accounts_ok_def administered_iff)
qed

text \<open>
  An update of accounts: it keeps ids, raises versions, and an account that could hold a session
  still can, or has none. An active administrator stays one, or another one is there.
\<close>

lemma accounts_step_users:
  assumes f: "\<And>u. u \<in> set (as_users s) \<Longrightarrow> P u \<Longrightarrow> account_follows u (f u) \<and> (account_ok u \<longrightarrow> account_ok (f u))"
    and keeps: "\<And>u t. accounts_ok s \<Longrightarrow> u \<in> set (as_users s) \<Longrightarrow> P u \<Longrightarrow> usable u \<Longrightarrow> \<not> usable (f u) \<Longrightarrow>
      t \<in> set (as_refreshTokens s) \<Longrightarrow> is_user (rt_companyId t) (rt_userId t) u \<Longrightarrow> rt_revokedAt t \<noteq> None"
    and adm: "\<And>u c. accounts_ok s \<Longrightarrow> u \<in> set (as_users s) \<Longrightarrow> P u \<Longrightarrow> us_deletedAt u = None \<Longrightarrow> is_active_administrator c u \<Longrightarrow>
      us_deletedAt (f u) = None \<and> is_active_administrator c (f u) \<or>
      (\<exists>v\<in>set (as_users s). \<not> P v \<and> us_deletedAt v = None \<and> is_active_administrator c v)"
  shows "accounts_step s (set_users P f s)"
proof -
  let ?us = "update_where P f (as_users s)"
  have ids: "map us_id ?us = map us_id (as_users s)"
    using f by (auto simp: update_where_def account_follows_def)
  have in_us: "(if P u then f u else u) \<in> set ?us" if "u \<in> set (as_users s)" for u
    using that by (rule in_update_where)
  have follow: "\<exists>v\<in>set ?us. account_follows u v" if u: "u \<in> set (as_users s)" for u
    using in_us [OF u] f [OF u] by (intro bexI) (auto split: if_splits)
  have origin: "\<exists>u\<in>set (as_users s). account_follows u v" if "v \<in> set ?us" for v
    using that f by (auto simp: set_update_where)
  have sess: "token_session_ok ?us t" if ok: "accounts_ok s" and t: "t \<in> set (as_refreshTokens s)" for t
  proof (cases "rt_revokedAt t")
    case None
    then obtain u where u: "u \<in> set (as_users s)" "is_user (rt_companyId t) (rt_userId t) u" "usable u"
      using ok t by (auto simp: accounts_ok_def token_session_ok_def list_all_iff list_ex_iff)
    have "P u \<Longrightarrow> usable (f u) \<and> is_user (rt_companyId t) (rt_userId t) (f u)"
      using keeps [OF ok u(1) _ u(3) _ t u(2)] f [OF u(1)] None u(2) by (auto simp: account_follows_def is_user_def)
    then show ?thesis using in_us [OF u(1)] u by (auto simp: token_session_ok_def list_ex_iff split: if_splits)
  qed (simp add: token_session_ok_def)
  have adms: "administered c (set_users P f s)" if ok: "accounts_ok s" and a: "administered c s" for c
  proof -
    obtain u where u: "u \<in> set (as_users s)" "us_deletedAt u = None" "is_active_administrator c u"
      using a by (auto simp: administered_iff)
    show ?thesis
    proof (cases "P u \<and> \<not> (us_deletedAt (f u) = None \<and> is_active_administrator c (f u))")
      case True
      then obtain v where v: "v \<in> set (as_users s)" "\<not> P v" "us_deletedAt v = None" "is_active_administrator c v"
        using adm [OF ok u(1) _ u(2,3)] by blast
      with in_us [OF v(1)] show ?thesis by (auto simp: administered_iff)
    next
      case False
      with in_us [OF u(1)] u show ?thesis by (auto simp: administered_iff split: if_splits)
    qed
  qed
  have acc: "list_all account_ok ?us" if "accounts_ok s"
    using that f by (auto simp: accounts_ok_def list_all_iff set_update_where)
  show ?thesis
    using ids follow origin sess adms acc by (auto simp: accounts_step_def accounts_ok_def list_all_iff)
qed

section \<open>The operations of the repositories keep it\<close>

lemma ok_unique:
  "accounts_ok s \<Longrightarrow> u \<in> set (as_users s) \<Longrightarrow> v \<in> set (as_users s) \<Longrightarrow> us_id u = us_id v \<Longrightarrow> u = v"
  by (auto simp: accounts_ok_def distinct_map dest: inj_onD)

lemma ok_account: "accounts_ok s \<Longrightarrow> u \<in> set (as_users s) \<Longrightarrow> account_ok u"
  by (simp add: accounts_ok_def list_all_iff)

lemma user_row_of_Some:
  "user_row_of companyId userId s = Some u \<Longrightarrow> u \<in> set (as_users s) \<and> us_companyId u = companyId \<and> us_id u = userId"
  by (auto simp: user_row_of_def find_Some_iff is_user_def in_set_conv_nth)

lemma user_row_of_not_None: "u \<in> set (as_users s) \<Longrightarrow> is_user companyId userId u \<Longrightarrow> user_row_of companyId userId s \<noteq> None"
  by (auto simp: user_row_of_def find_None_iff)

lemma step_gentle:
  assumes "\<And>u. P u \<Longrightarrow> account_follows u (f u)"
    and "\<And>u. P u \<Longrightarrow> account_ok u \<Longrightarrow> account_ok (f u)"
    and "\<And>u. P u \<Longrightarrow> usable u \<Longrightarrow> usable (f u)"
    and "\<And>u c. P u \<Longrightarrow> us_deletedAt u = None \<Longrightarrow> is_active_administrator c u \<Longrightarrow>
      us_deletedAt (f u) = None \<and> is_active_administrator c (f u)"
  shows "accounts_step s (set_users P f s)"
proof (rule accounts_step_users)
  show "account_follows u (f u) \<and> (account_ok u \<longrightarrow> account_ok (f u))" if "P u" for u
    using assms(1,2) that by blast
  show "rt_revokedAt t \<noteq> None" if "P u" "usable u" "\<not> usable (f u)" for u t
    using assms(3) that by blast
  show "us_deletedAt (f u) = None \<and> is_active_administrator c (f u) \<or>
      (\<exists>v\<in>set (as_users s). \<not> P v \<and> us_deletedAt v = None \<and> is_active_administrator c v)"
    if "P u" "us_deletedAt u = None" "is_active_administrator c u" for u c
    using assms(4) that by blast
qed

lemma step_reactivate: "accounts_step s (reactivateExpiredSuspensions companyId userId at s)"
  unfolding reactivateExpiredSuspensions_def
  by (rule step_gentle)
    (simp_all add: account_follows_def same_access_def reactivated_def account_ok_def usable_def expired_suspension_def is_active_administrator_def)

lemma step_markLastLogin: "accounts_step s (set_users P (\<lambda>u. u\<lparr>us_lastLoginAt := a, us_updatedAt := b\<rparr>) s)"
  by (rule step_gentle) (auto simp add: account_follows_def same_access_def account_ok_def usable_def is_active_administrator_def)

lemma step_with_new_password: "accounts_step s (set_users P (with_new_password h a) s)"
  by (rule step_gentle)
    (auto simp: account_follows_def same_access_def account_ok_def usable_def is_active_administrator_def with_new_password_def)

lemma step_revoke_tokens_of: "accounts_step s (revoke_tokens_of companyId userId at s)"
  unfolding revoke_tokens_of_def by (rule accounts_step_tokens) (simp add: token_follows_def)

lemma step_add_history: "accounts_step s (add_history u at s)"
  by (rule accounts_step_same) (simp_all add: accounts_ok_def)

lemma step_set_challenges: "(\<And>c. pc_id (f c) = pc_id c) \<Longrightarrow> accounts_step s (set_challenges P f s)"
  by (rule accounts_step_same) (simp_all add: accounts_ok_def map_update_where)

text \<open>Revoking the tokens of a user and rewriting the accounts commute.\<close>

lemma revoke_set_users:
  "revoke_tokens_of companyId userId at (set_users P f s) = set_users P f (revoke_tokens_of companyId userId at s)"
  by (simp add: revoke_tokens_of_def set_users_def set_tokens_def)

lemma revoked_tokens:
  assumes "t \<in> set (as_refreshTokens (revoke_tokens_of companyId userId at s))"
    and "rt_companyId t = companyId" and "rt_userId t = userId"
  shows "rt_revokedAt t \<noteq> None"
proof -
  have "t \<in> (\<lambda>r. if is_token_of companyId userId r then r\<lparr>rt_revokedAt := Some at\<rparr> else r) ` set (as_refreshTokens s)"
    using assms(1) by (simp add: revoke_tokens_of_def set_update_where)
  then obtain r where t: "t = (if is_token_of companyId userId r then r\<lparr>rt_revokedAt := Some at\<rparr> else r)" by blast
  show ?thesis
  proof (cases "is_token_of companyId userId r")
    case False
    with t have "t = r" by simp
    with False assms(2,3) show ?thesis by (simp add: is_token_of_def)
  qed (use t in simp)
qed

text \<open>An update of one user that also revokes the tokens of that user.\<close>

lemma step_ending_sessions:
  assumes P: "\<And>u. P u \<Longrightarrow> is_user companyId userId u"
    and f: "\<And>u. P u \<Longrightarrow> account_follows u (f u) \<and> (account_ok u \<longrightarrow> account_ok (f u))"
    and adm: "\<And>u c. accounts_ok s \<Longrightarrow> u \<in> set (as_users s) \<Longrightarrow> P u \<Longrightarrow> us_deletedAt u = None \<Longrightarrow> is_active_administrator c u \<Longrightarrow>
      us_deletedAt (f u) = None \<and> is_active_administrator c (f u) \<or>
      (\<exists>v\<in>set (as_users s). \<not> P v \<and> us_deletedAt v = None \<and> is_active_administrator c v)"
  shows "accounts_step s (revoke_tokens_of companyId userId at (set_users P f s))"
proof -
  let ?s = "revoke_tokens_of companyId userId at s"
  have ok: "as_users ?s = as_users s" by (simp add: revoke_tokens_of_def)
  show ?thesis
  proof (cases "accounts_ok s")
    case True
    have "accounts_step ?s (set_users P f ?s)"
    proof (rule accounts_step_users)
      fix u assume "u \<in> set (as_users ?s)" "P u"
      then show "account_follows u (f u) \<and> (account_ok u \<longrightarrow> account_ok (f u))" using f by simp
    next
      fix u t assume "P u" "t \<in> set (as_refreshTokens ?s)" "is_user (rt_companyId t) (rt_userId t) u"
      with P [of u] show "rt_revokedAt t \<noteq> None"
        by (intro revoked_tokens [of t companyId userId at s]) (auto simp: is_user_def)
    next
      fix u c assume "u \<in> set (as_users ?s)" "P u" "us_deletedAt u = None" "is_active_administrator c u"
      then show "us_deletedAt (f u) = None \<and> is_active_administrator c (f u) \<or>
          (\<exists>v\<in>set (as_users ?s). \<not> P v \<and> us_deletedAt v = None \<and> is_active_administrator c v)"
        using adm [OF True] ok by simp
    qed
    with step_revoke_tokens_of show ?thesis unfolding revoke_set_users by (rule steps.transR)
  next
    case False
    have u: "\<exists>v\<in>set (as_users (set_users P f s)). account_follows u v" if "u \<in> set (as_users s)" for u
      using in_update_where [OF that, of P f] f [of u] by (intro bexI) (auto split: if_splits)
    have v: "\<exists>u\<in>set (as_users s). account_follows u v" if "v \<in> set (as_users (set_users P f s))" for v
      using that f by (auto simp: set_update_where)
    have "accounts_step (set_users P f s) (revoke_tokens_of companyId userId at (set_users P f s))"
      by (rule step_revoke_tokens_of)
    with False u v show ?thesis by (simp add: accounts_step_def revoke_tokens_of_def)
  qed
qed

lemma step_insert_token:
  assumes "insert_token t s = Inr s'" and "rt_revokedAt t = None \<Longrightarrow>
      \<exists>u\<in>set (as_users s). is_user (rt_companyId t) (rt_userId t) u \<and> usable u"
  shows "accounts_step s s'"
proof -
  have n: "\<not> list_ex (\<lambda>r. same_uuid (rt_id r) (rt_id t) \<or> rt_tokenHash r = rt_tokenHash t) (as_refreshTokens s)"
    and s': "s' = s\<lparr>as_refreshTokens := as_refreshTokens s @ [t]\<rparr>"
    using assms(1) by (auto simp: insert_token_def split: if_splits)
  have "token_session_ok (as_users s) t" using assms(2) by (auto simp: token_session_ok_def list_ex_iff)
  moreover have "to_lower (rt_id t) \<notin> (\<lambda>t. to_lower (rt_id t)) ` set (as_refreshTokens s)"
    using n by (auto simp: list_ex_iff same_uuid_def)
  ultimately show ?thesis
    by (simp add: s' accounts_step_def accounts_ok_def administered_iff)
qed

lemma step_revoke: "accounts_step s (set_tokens (is_live_token i) (\<lambda>t. t\<lparr>rt_revokedAt := Some at\<rparr>) s)"
  by (rule accounts_step_tokens) (simp add: token_follows_def)

lemma step_insert_challenge: "insert_challenge c s = Inr s' \<Longrightarrow> accounts_step s s'"
  by (rule accounts_step_same)
    (force simp: insert_challenge_def accounts_ok_def same_uuid_def list_ex_iff split: if_splits)+

lemma step_filter_challenges: "accounts_step s (s\<lparr>as_challenges := filter P (as_challenges s)\<rparr>)"
  by (rule accounts_step_same) (simp_all add: accounts_ok_def distinct_map_filter)

lemma step_cancelReplacement: "accounts_step s (snd (cancelReplacement x at s))"
proof -
  let ?s = "s\<lparr>as_challenges := filter (\<lambda>c. \<not> is_cancelled x c) (as_challenges s)\<rparr>"
  have "accounts_step ?s (set_challenges P (\<lambda>c. c\<lparr>pc_consumedAt := None\<rparr>) ?s)" for P
    by (rule step_set_challenges) simp
  from steps.transR [OF step_filter_challenges this] show ?thesis
    by (auto simp: cancelReplacement_def Let_def step_filter_challenges split: option.splits)
qed

lemma count_where_two:
  assumes "2 \<le> count_where Q xs" and "distinct (map g xs)"
  shows "\<exists>v\<in>set xs. Q v \<and> g v \<noteq> k"
proof (rule ccontr)
  assume "\<not> ?thesis"
  then have sub: "set (map g (filter Q xs)) \<subseteq> {k}" by auto
  have "length (map g (filter Q xs)) = card (set (map g (filter Q xs)))"
    using distinct_map_filter [OF assms(2), of Q] by (simp only: distinct_card)
  also have "\<dots> \<le> 1" using card_mono [OF _ sub] by simp
  finally show False using assms(1) by (simp add: count_where_def)
qed

text \<open>Two counted administrators: one of them is not the user at hand, and is not deleted.\<close>

lemma other_administrator:
  assumes ok: "accounts_ok s" and n: "2 \<le> count_where Q (as_users s)"
    and Q: "\<And>v. Q v \<Longrightarrow> is_active_administrator companyId v" and P: "\<And>u. P u \<Longrightarrow> is_user companyId userId u"
    and c: "is_user companyId userId u" "is_active_administrator c u"
  shows "\<exists>v\<in>set (as_users s). \<not> P v \<and> us_deletedAt v = None \<and> is_active_administrator c v"
proof -
  have "distinct (map us_id (as_users s))" using ok by (simp add: accounts_ok_def)
  from count_where_two [OF n this, of userId]
  obtain v where v: "v \<in> set (as_users s)" "Q v" "us_id v \<noteq> userId" by blast
  have a: "us_companyId v = companyId" "us_isAdministrator v" "us_isActive v" "us_status v = US_active"
    using Q [OF v(2)] by (simp_all add: is_active_administrator_def)
  have d: "us_deletedAt v = None" using ok_account [OF ok v(1)] a(2) by (simp add: account_ok_def)
  have nP: "\<not> P v" using P [of v] v(3) by (auto simp: is_user_def)
  have "c = companyId" using c unfolding is_user_def is_active_administrator_def by metis
  with a have "is_active_administrator c v" by (simp add: is_active_administrator_def)
  with v(1) d nP show ?thesis by blast
qed

lemma with_status_follows: "account_follows u (with_status x u)"
  by (simp add: account_follows_def same_access_def with_status_def)

lemma with_status_ok: "account_ok u \<Longrightarrow> us_deletedAt u = None \<or> sc_status x \<noteq> US_active \<Longrightarrow> account_ok (with_status x u)"
  by (auto simp: account_ok_def with_status_def)

abbreviation keeps :: "(account_store \<Rightarrow> bool) \<Rightarrow> 'a account_action \<Rightarrow> ('a \<Rightarrow> account_store \<Rightarrow> bool) \<Rightarrow> bool" where
  "keeps \<equiv> effect accounts_step"

lemma keepsI:
  assumes "\<And>s. P s \<Longrightarrow> accounts_step s (snd (m s))" and "\<And>s x. P s \<Longrightarrow> fst (m s) = Inr x \<Longrightarrow> Q x (snd (m s))"
  shows "effect accounts_step P m Q"
  using assms by (simp add: effect_def)

lemma keeps_transaction:
  assumes "\<And>s x t. P s \<Longrightarrow> body s = Inr (x, t) \<Longrightarrow> accounts_step s t \<and> Q x t"
  shows "keeps P (transaction_op body) Q"
proof (rule keepsI)
  fix s assume "P s"
  then show "accounts_step s (snd (transaction_op body s))"
    using assms [of s] steps.reflR by (auto simp: transaction_op_def split: sum.splits)
  show "fst (transaction_op body s) = Inr x \<Longrightarrow> Q x (snd (transaction_op body s))" for x
    using assms [OF \<open>P s\<close>] by (auto simp: transaction_op_def split: sum.splits)
qed

text \<open>The account a call read is still the account of the table.\<close>

definition holds_record :: "user_record \<Rightarrow> account_store \<Rightarrow> bool" where
  "holds_record r s \<longleftrightarrow> uc_user r \<in> set (as_users s) \<and> us_deletedAt (uc_user r) = None"

definition found_in :: "user_record option \<Rightarrow> account_store \<Rightarrow> bool" where
  "found_in found s \<longleftrightarrow> (case found of None \<Rightarrow> True | Some r \<Rightarrow> holds_record r s)"

lemma present_user_Some:
  "present_user companyId userId s = Some r \<Longrightarrow>
     holds_record r s \<and> us_companyId (uc_user r) = companyId \<and> us_id (uc_user r) = userId"
  by (auto simp: present_user_def find_Some_iff is_present_def is_user_def holds_record_def mapUserRecord_def in_set_conv_nth)

lemma keeps_findById:
  "keeps P (findById companyId userId at) (\<lambda>found s. found_in found s \<and>
     (case found of None \<Rightarrow> True | Some r \<Rightarrow> us_companyId (uc_user r) = companyId \<and> us_id (uc_user r) = userId))"
  by (rule keepsI)
    (auto simp: findById_def Let_def step_reactivate found_in_def split: option.splits dest: present_user_Some)

lemma keeps_findByLogin: "keeps P (findByLoginIdentifier identifier at) found_in"
proof (rule keepsI)
  fix s
  show "accounts_step s (snd (findByLoginIdentifier identifier at s))"
    by (simp add: findByLoginIdentifier_def Let_def step_reactivate steps.reflR split: option.split)
  fix found assume f: "fst (findByLoginIdentifier identifier at s) = Inr found"
  show "found_in found (snd (findByLoginIdentifier identifier at s))"
  proof (cases "find (has_login identifier) (as_users s)")
    case None
    with f show ?thesis by (auto simp: findByLoginIdentifier_def found_in_def)
  next
    case (Some u)
    then have u: "u \<in> set (as_users s)" "has_login identifier u" by (auto simp: find_Some_iff in_set_conv_nth)
    with Some f show ?thesis
      by (auto simp: findByLoginIdentifier_def found_in_def Let_def holds_record_def mapUserRecord_def has_login_def
          split: option.splits if_splits dest: present_user_Some)
  qed
qed

lemma keeps_create_token:
  "keeps (\<lambda>s. \<exists>u\<in>set (as_users s). is_user (rt_companyId t) (rt_userId t) u \<and> usable u) (create_token t) (\<lambda>_ _. True)"
  unfolding create_token_def
  by (rule keeps_transaction) (auto simp: rbind_Inr_iff intro: step_insert_token)

lemma keeps_rotate_token:
  "keeps (\<lambda>s. \<exists>u\<in>set (as_users s). is_user (rt_companyId t) (rt_userId t) u \<and> usable u) (rotate_token i t at) (\<lambda>_ _. True)"
  unfolding rotate_token_def
proof (rule keeps_transaction, goal_cases)
  case (1 s x t')
  let ?s = "set_tokens (is_live_token i) (\<lambda>t. t\<lparr>rt_revokedAt := Some at\<rparr>) s"
  have "insert_token t ?s = Inr t'" using 1(2) by (auto simp: rbind_Inr_iff split: if_splits)
  then have "accounts_step ?s t'" by (rule step_insert_token) (use 1(1) in simp)
  with step_revoke show ?case using steps.transR by blast
qed

lemma keeps_revoke_token: "keeps P (revoke_token i at) (\<lambda>_ _. True)"
  by (rule keepsI) (simp_all add: revoke_token_def step_revoke)

lemma keeps_markLastLogin: "keeps P (markLastLogin companyId userId date) (\<lambda>_ _. True)"
  unfolding markLastLogin_def
  by (rule keeps_transaction) (auto simp: rbind_Inr_iff update_user_def step_markLastLogin split: if_splits)

lemma keeps_create_challenge: "keeps P (create_challenge c) (\<lambda>_ _. True)"
  unfolding create_challenge_def by (rule keeps_transaction) (auto simp: rbind_Inr_iff step_insert_challenge)

lemma keeps_replaceForUser: "keeps P (replaceForUser c) (\<lambda>_ _. True)"
  unfolding replaceForUser_def
proof (rule keeps_transaction, goal_cases)
  case (1 s x t)
  let ?s = "set_challenges (is_open_challenge_of (pc_companyId c) (pc_userId c)) (consume (pc_createdAt c)) s"
  have "accounts_step s ?s" by (rule step_set_challenges) (simp add: consume_def)
  moreover have "accounts_step ?s t" by (rule step_insert_challenge [of c]) (use 1(2) in \<open>auto simp: rbind_Inr_iff\<close>)
  ultimately show ?case using steps.transR by blast
qed

lemma keeps_delete_challenge: "keeps P (delete_challenge i) (\<lambda>_ _. True)"
  by (rule keepsI) (simp_all add: delete_challenge_def step_filter_challenges)

lemma keeps_cancelReplacement: "keeps P (cancelReplacement x at) (\<lambda>_ _. True)"
  by (rule keepsI) (simp_all add: step_cancelReplacement)

lemma keeps_changePassword: "keeps P (changePassword companyId userId h at) (\<lambda>_ _. True)"
  unfolding changePassword_def
proof (rule keeps_transaction, goal_cases)
  case (1 s x t)
  then obtain u where t: "t = revoke_tokens_of companyId userId at
      (set_users (is_user companyId userId) (with_new_password h at) (add_history u at s))"
    by (auto split: option.splits)
  show ?case unfolding t
    using steps.transR [OF step_add_history steps.transR [OF step_with_new_password step_revoke_tokens_of]] by blast
qed

lemma keeps_complete_challenge: "keeps P (complete_challenge x at) (\<lambda>_ _. True)"
proof (rule keepsI)
  fix s
  let ?c = "co_companyId x" and ?i = "co_userId x" and ?at = "co_changedAt x"
  have cs: "accounts_step s (set_challenges Q (consume a) s)" for s Q a
    by (rule step_set_challenges) (simp add: consume_def)
  have chain: "accounts_step s (set_challenges Q (consume ?at) (revoke_tokens_of ?c ?i ?at (add_history u ?at
      (set_challenges R (consume ?at) (set_users P (with_new_password h at) s)))))" for Q R P h u
    by (rule steps.transR [OF step_with_new_password steps.transR [OF cs steps.transR [OF step_add_history
        steps.transR [OF step_revoke_tokens_of cs]]]])
  show "accounts_step s (snd (complete_challenge x at s))"
    using chain steps.reflR by (simp add: complete_challenge_def Let_def split: option.split)
qed simp

text \<open>The status of a user that is not deleted.\<close>

definition not_deleted :: "string \<Rightarrow> string \<Rightarrow> account_store \<Rightarrow> bool" where
  "not_deleted companyId userId s \<longleftrightarrow> \<not> list_ex (\<lambda>u. is_user companyId userId u \<and> us_deletedAt u \<noteq> None) (as_users s)"

lemma update_where_in: "update_where P f rows = update_where (\<lambda>u. P u \<and> u \<in> set rows) f rows"
  by (simp add: update_where_def)

lemma step_status:
  assumes P: "\<And>u. P u \<Longrightarrow> is_user companyId userId u" and d: "sc_status x = US_active \<Longrightarrow> not_deleted companyId userId s"
    and adm: "\<And>u c. accounts_ok s \<Longrightarrow> u \<in> set (as_users s) \<Longrightarrow> P u \<Longrightarrow> is_active_administrator c u \<Longrightarrow> sc_status x \<noteq> US_active \<Longrightarrow>
      (\<exists>v\<in>set (as_users s). \<not> P v \<and> us_deletedAt v = None \<and> is_active_administrator c v)"
  shows "accounts_step s (revoke_tokens_of companyId userId at (set_users P (with_status x) s))"
proof -
  have "revoke_tokens_of companyId userId at (set_users P (with_status x) s) =
      revoke_tokens_of companyId userId at (set_users (\<lambda>u. P u \<and> u \<in> set (as_users s)) (with_status x) s)"
    using update_where_in [of P "with_status x" "as_users s"] by (simp add: set_users_def)
  also have "accounts_step s \<dots>"
  proof (rule step_ending_sessions)
    fix u assume u: "P u \<and> u \<in> set (as_users s)"
    then show "is_user companyId userId u" using P by blast
    have "us_deletedAt u = None" if "sc_status x = US_active"
      using d [OF that] u P [of u] by (auto simp: not_deleted_def list_ex_iff)
    then show "account_follows u (with_status x u) \<and> (account_ok u \<longrightarrow> account_ok (with_status x u))"
      using with_status_follows with_status_ok by blast
  next
    fix u c assume ok: "accounts_ok s" and u: "u \<in> set (as_users s)" "P u \<and> u \<in> set (as_users s)"
      "us_deletedAt u = None" "is_active_administrator c u"
    show "us_deletedAt (with_status x u) = None \<and> is_active_administrator c (with_status x u) \<or>
        (\<exists>v\<in>set (as_users s). \<not> (P v \<and> v \<in> set (as_users s)) \<and> us_deletedAt v = None \<and> is_active_administrator c v)"
    proof (cases "sc_status x = US_active")
      case True
      with u show ?thesis by (simp add: with_status_def is_active_administrator_def)
    next
      case False
      with adm [OF ok u(1) _ u(4)] u show ?thesis by blast
    qed
  qed
  finally show ?thesis .
qed

lemma keeps_updateStatus: "keeps (not_deleted companyId userId) (updateStatus companyId userId x) (\<lambda>_ _. True)"
  unfolding updateStatus_def
proof (rule keeps_transaction, goal_cases)
  case (1 s y t)
  then have t: "t = revoke_tokens_of companyId userId (sc_changedAt x) (set_users (\<lambda>u. is_user companyId userId u \<and>
      (sc_status x = US_active \<or> \<not> (us_isAdministrator u \<and> us_isActive u \<and> us_status u = US_active))) (with_status x) s)"
    by (auto simp: Let_def rbind_Inr_iff split: if_splits)
  show ?case unfolding t
    by (intro conjI TrueI step_status) (use 1(1) in \<open>auto simp: is_active_administrator_def\<close>)
qed

lemma keeps_updateStatusWithAdministratorInvariant:
  assumes "sc_status x \<noteq> US_active"
  shows "keeps P (updateStatusWithAdministratorInvariant companyId userId x) (\<lambda>_ _. True)"
  unfolding updateStatusWithAdministratorInvariant_def
proof (rule keeps_transaction, goal_cases)
  case (1 s y t)
  let ?P = "\<lambda>u. is_user companyId userId u \<and> us_isAdministrator u \<and> us_isActive u \<and> us_status u = US_active"
  show ?case
  proof (cases "count_where (is_active_administrator companyId) (as_users s) \<le> 1")
    case True
    with 1 show ?thesis by (simp add: Let_def steps.reflR)
  next
    case False
    then have n: "2 \<le> count_where (is_active_administrator companyId) (as_users s)" by simp
    have t: "t = s \<or> t = revoke_tokens_of companyId userId (sc_changedAt x) (set_users ?P (with_status x) s)"
      using 1 False by (auto simp: Let_def rbind_Inr_iff split: if_splits)
    have "accounts_step s (revoke_tokens_of companyId userId (sc_changedAt x) (set_users ?P (with_status x) s))"
    proof (rule step_status)
      show "is_user companyId userId u" if "?P u" for u using that by simp
      show "not_deleted companyId userId s" if "sc_status x = US_active" using that assms by simp
      show "\<exists>v\<in>set (as_users s). \<not> ?P v \<and> us_deletedAt v = None \<and> is_active_administrator c v"
        if "accounts_ok s" "?P u" "is_active_administrator c u" for u c
        by (rule other_administrator [OF that(1) n, where u = u and userId = userId]) (use that in auto)
    qed
    with t steps.reflR show ?thesis by auto
  qed
qed

lemma keeps_softDelete: "keeps P (softDelete companyId userId at) (\<lambda>_ _. True)"
proof (rule keepsI)
  fix s
  let ?P = "is_present companyId userId"
  show "accounts_step s (snd (softDelete companyId userId at s))"
  proof (cases "find ?P (as_users s)")
    case None
    then show ?thesis by (simp add: softDelete_def steps.reflR)
  next
    case (Some target)
    then have tg: "target \<in> set (as_users s)" "?P target" by (auto simp: find_Some_iff in_set_conv_nth)
    have "accounts_step s (revoke_tokens_of companyId userId at (set_users ?P (deleted_account at) s))"
      if n: "\<not> (us_isAdministrator target \<and> countActiveAdministrators companyId s \<le> 1)"
    proof (rule step_ending_sessions)
      show "is_user companyId userId u" if "?P u" for u using that by (simp add: is_present_def)
      show "account_follows u (deleted_account at u) \<and> (account_ok u \<longrightarrow> account_ok (deleted_account at u))" for u
        by (simp add: account_follows_def same_access_def account_ok_def deleted_account_def Let_def)
      fix u c assume ok: "accounts_ok s" and u: "u \<in> set (as_users s)" "?P u" "us_deletedAt u = None" "is_active_administrator c u"
      have "u = target" using ok_unique [OF ok u(1) tg(1)] u(2) tg(2) by (simp add: is_present_def is_user_def)
      then have "2 \<le> countActiveAdministrators companyId s" using n u(4) by (simp add: is_active_administrator_def)
      then have "\<exists>v\<in>set (as_users s). \<not> ?P v \<and> us_deletedAt v = None \<and> is_active_administrator c v"
        unfolding countActiveAdministrators_def
        by (rule other_administrator [OF ok, where u = u and userId = userId and companyId = companyId])
          (use u in \<open>simp_all add: is_present_def\<close>)
      then show "us_deletedAt (deleted_account at u) = None \<and> is_active_administrator c (deleted_account at u) \<or>
        (\<exists>v\<in>set (as_users s). \<not> ?P v \<and> us_deletedAt v = None \<and> is_active_administrator c v)" by blast
    qed
    then have "accounts_step s (set_challenges R (consume at) (revoke_tokens_of companyId userId at
        (set_users ?P (deleted_account at) s)))"
      if "\<not> (us_isAdministrator target \<and> countActiveAdministrators companyId s \<le> 1)" for R
      by (rule steps.transR [OF _ step_set_challenges]) (use that in \<open>simp_all add: consume_def\<close>)
    then show ?thesis using Some steps.reflR by (simp add: softDelete_def Let_def)
  qed
qed simp

end
