(* ===== verification/Authentication.thy ===== *)
theory Authentication
  imports Accounts
begin

text \<open>
  Login, sessions and passwords over \<open>Accounts\<close>: the token services (\<open>infra/auth\<close>), the use cases of
  \<open>application/use-cases/auth\<close>, the state of an account (\<open>update-user-status.use-case.ts\<close>,
  \<open>delete-user.use-case.ts\<close>) and the guard of the HTTP layer (\<open>jwt-auth.guard.ts\<close>). A use case reads the
  clock once for its own decisions, the repositories once per call. The output of a session keeps the
  record \<open>presentUser\<close> prints.
\<close>

section \<open>Tokens\<close>

text \<open>
  The runtime: \<open>compare\<close> and \<open>hash\<close> of bcrypt (the hash with a salt), the hexadecimal SHA-256 digest, the
  signature of an access token at an instant and its verification, the reset address with the token
  set, the tenant of the installed license (\<open>None\<close>: no valid license), and the configuration.
\<close>

record token_claims =
  tc_type :: "string option"
  tc_sub :: "string option"
  tc_companyId :: "string option"
  tc_tokenVersion :: "int option"

record access_payload =
  ap_sub :: string
  ap_companyId :: string
  ap_tokenVersion :: int

record auth_env =
  ae_compare :: "string \<Rightarrow> string \<Rightarrow> bool"
  ae_hash :: "string \<Rightarrow> string \<Rightarrow> string"
  ae_sha256 :: "string \<Rightarrow> string"
  ae_sign :: "int \<Rightarrow> token_claims \<Rightarrow> string"
  ae_verify :: "int \<Rightarrow> string \<Rightarrow> token_claims option"
  ae_resetUrl :: "string \<Rightarrow> string"
  ae_license :: "string option"
  ae_expiresInSeconds :: int
  ae_refreshTtlDays :: int
  ae_rememberRefreshTtlDays :: int
  ae_passwordChangeTtlMinutes :: int
  ae_historyLimit :: int
  ae_notifierConfigured :: bool

text \<open>What one call draws: the id and the secret of a token, a salt, the instants it reads and the answer of the mail provider.\<close>

record call_draw =
  cd_id :: string
  cd_secret :: string
  cd_salt :: string
  cd_readAt :: int
  cd_now :: int
  cd_writeAt :: int
  cd_delivery :: "delivery_failure option"

record issued_opaque =
  io_id :: string
  io_plainText :: string
  io_hash :: string

definition issue_opaque :: "auth_env \<Rightarrow> call_draw \<Rightarrow> issued_opaque" where
  "issue_opaque env d = (let plainText = cd_id d @ ''.'' @ cd_secret d
     in \<lparr>io_id = cd_id d, io_plainText = plainText, io_hash = ae_sha256 env plainText\<rparr>)"

definition parse_opaque :: "auth_env \<Rightarrow> string \<Rightarrow> (string \<times> string) option" where
  "parse_opaque env token =
     (let i = takeWhile (\<lambda>c. c \<noteq> CHR ''.'') token
      in if i = token \<or> length i < 1 then None
         else if \<not> uuid_v4 i then None
         else Some (i, ae_sha256 env token))"

text \<open>\<open>Buffer.from(text, 'hex')\<close> reads pairs of digits up to the first that is not one.\<close>

definition nibble :: "char \<Rightarrow> nat" where
  "nibble c = (if is_digit c then code c - 48 else code (lower_char c) - 87)"

fun bytes_from_hex :: "string \<Rightarrow> nat list" where
  "bytes_from_hex (a # b # rest) = (if is_hex a \<and> is_hex b then (16 * nibble a + nibble b) # bytes_from_hex rest else [])"
| "bytes_from_hex _ = []"

definition matches_hash :: "string \<Rightarrow> string \<Rightarrow> bool" where
  "matches_hash firstHash secondHash \<longleftrightarrow> bytes_from_hex firstHash = bytes_from_hex secondHash"

definition sign_access :: "auth_env \<Rightarrow> int \<Rightarrow> access_payload \<Rightarrow> string" where
  "sign_access env at p = ae_sign env at \<lparr>tc_type = Some ''access'', tc_sub = Some (ap_sub p),
     tc_companyId = Some (ap_companyId p), tc_tokenVersion = Some (ap_tokenVersion p)\<rparr>"

definition verify_access :: "auth_env \<Rightarrow> int \<Rightarrow> string \<Rightarrow> access_payload option" where
  "verify_access env at token = (case ae_verify env at token of
       None \<Rightarrow> None
     | Some c \<Rightarrow> (case (tc_sub c, tc_companyId c, tc_tokenVersion c) of
           (Some i, Some k, Some v) \<Rightarrow> if tc_type c = Some ''access''
             then Some \<lparr>ap_sub = i, ap_companyId = k, ap_tokenVersion = v\<rparr> else None
         | _ \<Rightarrow> None))"

section \<open>Sessions\<close>

record session_output =
  so_accessToken :: string
  so_refreshToken :: string
  so_expiresIn :: int
  so_id :: string
  so_user :: user_record
  so_issuedAt :: int
  so_expiresAt :: int
  so_rememberDevice :: bool

record password_challenge =
  px_challengeToken :: string
  px_reason :: change_reason
  px_expiresAt :: int

definition payload_of :: "account \<Rightarrow> access_payload" where
  "payload_of u = \<lparr>ap_sub = us_id u, ap_companyId = us_companyId u, ap_tokenVersion = us_tokenVersion u\<rparr>"

definition session_of ::
  "auth_env \<Rightarrow> call_draw \<Rightarrow> issued_opaque \<Rightarrow> user_record \<Rightarrow> int \<Rightarrow> bool \<Rightarrow> session_output" where
  "session_of env d token record expiresAt remember =
     \<lparr>so_accessToken = sign_access env (cd_now d) (payload_of (uc_user record)),
      so_refreshToken = io_plainText token, so_expiresIn = ae_expiresInSeconds env, so_id = io_id token,
      so_user = record, so_issuedAt = cd_now d, so_expiresAt = expiresAt, so_rememberDevice = remember\<rparr>"

definition refresh_expiry :: "auth_env \<Rightarrow> int \<Rightarrow> bool \<Rightarrow> int" where
  "refresh_expiry env now remember =
     now + (if remember then ae_rememberRefreshTtlDays env else ae_refreshTtlDays env) * ms_per_day"

definition token_row :: "issued_opaque \<Rightarrow> string \<Rightarrow> string \<Rightarrow> bool \<Rightarrow> int \<Rightarrow> int \<Rightarrow> refresh_token" where
  "token_row token companyId userId remember expiresAt now =
     \<lparr>rt_id = io_id token, rt_companyId = companyId, rt_userId = userId, rt_tokenHash = io_hash token,
      rt_rememberDevice = remember, rt_expiresAt = expiresAt, rt_revokedAt = None, rt_createdAt = now\<rparr>"

definition challenge_row :: "issued_opaque \<Rightarrow> string \<Rightarrow> string \<Rightarrow> change_reason \<Rightarrow> int \<Rightarrow> int \<Rightarrow> challenge" where
  "challenge_row token companyId userId reason expiresAt now =
     \<lparr>pc_id = io_id token, pc_companyId = companyId, pc_userId = userId, pc_tokenHash = io_hash token,
      pc_reason = reason, pc_expiresAt = expiresAt, pc_consumedAt = None, pc_createdAt = now\<rparr>"

definition issuePasswordChangeChallenge ::
  "auth_env \<Rightarrow> call_draw \<Rightarrow> user_record \<Rightarrow> change_reason \<Rightarrow> int \<Rightarrow> password_challenge account_action" where
  "issuePasswordChangeChallenge env d record reason ttlMinutes =
     (let expiresAt = cd_now d + ttlMinutes * 60000; token = issue_opaque env d; u = uc_user record in
      bind_op (replaceForUser (challenge_row token (us_companyId u) (us_id u) reason expiresAt (cd_now d))) (\<lambda>_.
      return_op (Inr \<lparr>px_challengeToken = io_plainText token, px_reason = reason, px_expiresAt = expiresAt\<rparr>)))"

definition DUMMY_PASSWORD_HASH :: string where
  "DUMMY_PASSWORD_HASH = ''$2b$12$9Qn8FtK4RhsfBWD84a0b3e4VbYQj8MR0v2OBtNkibIaUbKZhxy2nK''"

definition INVALID_LOGIN :: app_error where
  "INVALID_LOGIN = AppError INVALID_CREDENTIALS ''invalid-user-or-password'' None"

definition suspended_error :: "account \<Rightarrow> app_error" where
  "suspended_error u = AppError ACCOUNT_SUSPENDED ''account-suspended'' (Some
     [(''suspendedUntil'', iso_string (the (us_suspendedUntil u))),
      (''suspensionReason'', case us_suspensionReason u of None \<Rightarrow> ''null'' | Some r \<Rightarrow> r)])"

fun reason_text :: "change_reason \<Rightarrow> string" where
  "reason_text First_access = ''first-access''"
| "reason_text Admin_reset = ''admin-reset''"

definition setup_required :: "password_challenge \<Rightarrow> app_error" where
  "setup_required c = AppError ACCOUNT_PASSWORD_SETUP_REQUIRED ''create-a-new-password'' (Some
     [(''challengeToken'', px_challengeToken c), (''expiresAt'', iso_string (px_expiresAt c)),
      (''reason'', reason_text (px_reason c))])"

text \<open>\<open>Promise.all\<close> of two writes: both are started, the first failure is the result.\<close>

definition both_op :: "unit account_action \<Rightarrow> unit account_action \<Rightarrow> unit account_action" where
  "both_op a b s = (let (r1, s1) = a s; (r2, s2) = b s1 in ((case r1 of Inl e \<Rightarrow> Inl e | Inr _ \<Rightarrow> r2), s2))"

record login_input =
  li_identifier :: string
  li_password :: string
  li_remember :: bool

definition AuthenticateUseCase :: "auth_env \<Rightarrow> call_draw \<Rightarrow> login_input \<Rightarrow> session_output account_action" where
  "AuthenticateUseCase env d input =
     bind_op (findByLoginIdentifier (normalizeLoginIdentifier (li_identifier input)) (cd_readAt d)) (\<lambda>found.
     let passwordMatches = ae_compare env (li_password input)
           (case found of None \<Rightarrow> DUMMY_PASSWORD_HASH | Some r \<Rightarrow> us_passwordHash (uc_user r)) in
     case found of
       None \<Rightarrow> return_op (Inl (Refused INVALID_LOGIN))
     | Some record \<Rightarrow>
         let u = uc_user record in
         if \<not> passwordMatches \<or> \<not> uc_companyIsActive record then return_op (Inl (Refused INVALID_LOGIN))
         else if us_status u = US_suspended \<and>
           (case us_suspendedUntil u of None \<Rightarrow> False | Some t \<Rightarrow> t > cd_now d)
         then return_op (Inl (Refused (suspended_error u)))
         else if us_status u = US_inactive \<or> \<not> us_isActive u
         then return_op (Inl (Refused (AppError ACCOUNT_INACTIVE ''account-inactive'' None)))
         else if us_mustChangePassword u
         then bind_op (issuePasswordChangeChallenge env d record First_access (ae_passwordChangeTtlMinutes env))
           (\<lambda>c. return_op (Inl (Refused (setup_required c))))
         else
           let token = issue_opaque env d; expiresAt = refresh_expiry env (cd_now d) (li_remember input) in
           bind_op (both_op
             (create_token (token_row token (us_companyId u) (us_id u) (li_remember input) expiresAt (cd_now d)))
             (markLastLogin (us_companyId u) (us_id u) (cd_now d))) (\<lambda>_.
           return_op (Inr (session_of env d token record expiresAt (li_remember input)))))"

definition may_hold_session :: "user_record \<Rightarrow> bool" where
  "may_hold_session record \<longleftrightarrow> us_isActive (uc_user record) \<and> us_status (uc_user record) = US_active \<and>
     \<not> us_mustChangePassword (uc_user record) \<and> uc_companyIsActive record"

definition accepted_token :: "auth_env \<Rightarrow> string \<Rightarrow> int \<Rightarrow> account_store \<Rightarrow> refresh_token option" where
  "accepted_token env rawToken now s = (case parse_opaque env rawToken of
       None \<Rightarrow> None
     | Some (i, hash) \<Rightarrow> (case find_token i s of
           None \<Rightarrow> None
         | Some stored \<Rightarrow> if matches_hash hash (rt_tokenHash stored) \<and> rt_revokedAt stored = None \<and>
             rt_expiresAt stored > now then Some stored else None))"

definition RefreshSessionUseCase :: "auth_env \<Rightarrow> call_draw \<Rightarrow> string \<Rightarrow> session_output account_action" where
  "RefreshSessionUseCase env d rawToken s = (case accepted_token env rawToken (cd_now d) s of
       None \<Rightarrow> (Inl (Refused invalidRefreshToken), s)
     | Some stored \<Rightarrow>
         bind_op (findById (rt_companyId stored) (rt_userId stored) (cd_readAt d)) (\<lambda>found.
         case found of
           None \<Rightarrow> return_op (Inl (Refused invalidRefreshToken))
         | Some record \<Rightarrow>
             if \<not> may_hold_session record then return_op (Inl (Refused invalidRefreshToken))
             else
               let token = issue_opaque env d; remember = rt_rememberDevice stored;
                   expiresAt = refresh_expiry env (cd_now d) remember in
               bind_op (rotate_token (rt_id stored)
                 (token_row token (rt_companyId stored) (rt_userId stored) remember expiresAt (cd_now d)) (cd_writeAt d)) (\<lambda>_.
               return_op (Inr (session_of env d token record expiresAt remember)))) s)"

definition LogoutUseCase :: "auth_env \<Rightarrow> call_draw \<Rightarrow> string \<Rightarrow> unit account_action" where
  "LogoutUseCase env d rawToken s = (case parse_opaque env rawToken of
       None \<Rightarrow> (Inr (), s)
     | Some (i, hash) \<Rightarrow> (case find_token i s of
           None \<Rightarrow> (Inr (), s)
         | Some stored \<Rightarrow> if matches_hash hash (rt_tokenHash stored)
             then revoke_token (rt_id stored) (cd_now d) s else (Inr (), s)))"

text \<open>The guard of the HTTP layer: the authorization header, a refusal is Nest's \<open>UnauthorizedException\<close>.\<close>

definition jwtAuthGuard ::
  "auth_env \<Rightarrow> int \<Rightarrow> bool \<Rightarrow> string option \<Rightarrow> (account_store, string, user_record option) store_action" where
  "jwtAuthGuard env at isPublic authorization s =
     (if isPublic then (Inr None, s)
      else case authorization of
          None \<Rightarrow> (Inl ''authentication-required'', s)
        | Some header \<Rightarrow>
            let refused = ''invalid-access-token'' in
            if take 7 header \<noteq> ''Bearer '' then (Inl ''authentication-required'', s)
            else case (ae_license env, verify_access env at (drop 7 header)) of
                (Some licensed, Some payload) \<Rightarrow>
                  if ap_companyId payload \<noteq> licensed then (Inl refused, s)
                  else (case findById (ap_companyId payload) (ap_sub payload) at s of
                      (Inr (Some record), s') \<Rightarrow>
                        if \<not> may_hold_session record \<or> us_tokenVersion (uc_user record) \<noteq> ap_tokenVersion payload
                        then (Inl refused, s') else (Inr (Some record), s')
                    | (_, s') \<Rightarrow> (Inl refused, s'))
              | _ \<Rightarrow> (Inl refused, s))"

section \<open>Password changes\<close>

definition PASSWORD_RESET_TTL_MINUTES :: int where
  "PASSWORD_RESET_TTL_MINUTES = 30"

definition rejectsPasswordReuse :: "auth_env \<Rightarrow> string \<Rightarrow> string list \<Rightarrow> bool" where
  "rejectsPasswordReuse env password hashes = list_ex (ae_compare env password) hashes"

definition invalidChangeToken :: app_error where
  "invalidChangeToken = AppError INVALID_PASSWORD_CHANGE_TOKEN ''invalid-link'' None"

definition create_audit_log :: "audit_entry \<Rightarrow> unit account_action" where
  "create_audit_log e s = (Inr (), s\<lparr>as_audit := as_audit s @ [e]\<rparr>)"

text \<open>\<open>/HTTP (\d{3})/.exec(message)\<close>: the first place where three digits follow.\<close>

fun http_status :: "string \<Rightarrow> string option" where
  "http_status [] = None"
| "http_status (c # cs) =
     (if take 5 (c # cs) = ''HTTP '' \<and> length (takeWhile is_digit (take 3 (drop 5 (c # cs)))) = 3
      then Some (take 3 (drop 5 (c # cs))) else http_status cs)"

fun passwordResetDeliveryFailureCode :: "delivery_failure \<Rightarrow> string" where
  "passwordResetDeliveryFailureCode Not_an_error = ''DELIVERY_FAILED''"
| "passwordResetDeliveryFailureCode (Error_message m) = (case http_status m of
     None \<Rightarrow> ''PROVIDER_UNAVAILABLE'' | Some status \<Rightarrow> ''HTTP_'' @ status)"

definition open_change_challenge :: "auth_env \<Rightarrow> string \<Rightarrow> int \<Rightarrow> account_store \<Rightarrow> challenge option" where
  "open_change_challenge env token now s = (case parse_opaque env token of
       None \<Rightarrow> None
     | Some (i, hash) \<Rightarrow> (case find_challenge i s of
           None \<Rightarrow> None
         | Some c \<Rightarrow> if pc_consumedAt c = None \<and> pc_expiresAt c > now \<and> matches_hash hash (pc_tokenHash c)
             then Some c else None))"

definition may_complete :: "challenge \<Rightarrow> user_record \<Rightarrow> bool" where
  "may_complete c r \<longleftrightarrow> us_isActive (uc_user r) \<and> us_status (uc_user r) = US_active \<and>
     (pc_reason c = First_access \<longrightarrow> us_mustChangePassword (uc_user r)) \<and> uc_companyIsActive r"

definition CompletePasswordChangeUseCase :: "auth_env \<Rightarrow> call_draw \<Rightarrow> string \<Rightarrow> string \<Rightarrow> bool account_action" where
  "CompletePasswordChangeUseCase env d token newPassword s =
     (case open_change_challenge env token (cd_now d) s of
       None \<Rightarrow> (Inl (Refused invalidChangeToken), s)
     | Some c \<Rightarrow>
         bind_op (findById (pc_companyId c) (pc_userId c) (cd_readAt d)) (\<lambda>found.
         case found of
           None \<Rightarrow> return_op (Inl (Refused invalidChangeToken))
         | Some r \<Rightarrow>
             if \<not> may_complete c r then return_op (Inl (Refused invalidChangeToken))
             else
               bind_op (\<lambda>t. (Inr (listPasswordHashes (pc_companyId c) (pc_userId c) (ae_historyLimit env) t), t)) (\<lambda>hashes.
               if rejectsPasswordReuse env newPassword hashes
               then return_op (Inl (Refused (validationError ''password-already-used'')))
               else
                 bind_op (complete_challenge \<lparr>co_companyId = pc_companyId c, co_userId = pc_userId c,
                   co_challengeId = pc_id c, co_passwordHash = ae_hash env (cd_salt d) newPassword,
                   co_changedAt = cd_now d\<rparr> (cd_writeAt d)) (\<lambda>completed.
                 if \<not> completed then return_op (Inl (Refused invalidChangeToken))
                 else bind_op (create_audit_log \<lparr>al_companyId = pc_companyId c, al_actorUserId = Some (pc_userId c),
                   al_action = ''PASSWORD_CHANGED'', al_targetId = pc_userId c,
                   al_metadata = Password_reason (reason_text (pc_reason c))\<rparr>) (\<lambda>_.
                 return_op (Inr True))))) s)"

record own_change =
  oc_companyId :: string
  oc_userId :: string
  oc_currentPassword :: string
  oc_newPassword :: string

definition ChangeOwnPasswordUseCase :: "auth_env \<Rightarrow> call_draw \<Rightarrow> own_change \<Rightarrow> bool account_action" where
  "ChangeOwnPasswordUseCase env d input =
     bind_op (findById (oc_companyId input) (oc_userId input) (cd_readAt d)) (\<lambda>found.
     case found of
       None \<Rightarrow> return_op (Inl (Refused (notFound ''user'')))
     | Some r \<Rightarrow>
         if \<not> ae_compare env (oc_currentPassword input) (us_passwordHash (uc_user r))
         then return_op (Inl (Refused (forbidden ''current-password'')))
         else
           bind_op (\<lambda>t. (Inr (listPasswordHashes (oc_companyId input) (oc_userId input) (ae_historyLimit env) t), t)) (\<lambda>hashes.
           if rejectsPasswordReuse env (oc_newPassword input) hashes
           then return_op (Inl (Refused (validationError ''password-already-used'')))
           else
             bind_op (changePassword (oc_companyId input) (oc_userId input)
               (ae_hash env (cd_salt d) (oc_newPassword input)) (cd_now d)) (\<lambda>_.
             bind_op (create_audit_log \<lparr>al_companyId = oc_companyId input, al_actorUserId = Some (oc_userId input),
               al_action = ''PASSWORD_CHANGED'', al_targetId = oc_userId input,
               al_metadata = Password_reason ''self-service''\<rparr>) (\<lambda>_.
             return_op (Inr True)))))"

text \<open>The notifier is asked to send the mail; it may answer with a failure.\<close>

definition send_reset_mail :: "call_draw \<Rightarrow> reset_mail \<Rightarrow> unit account_action" where
  "send_reset_mail d m s = ((case cd_delivery d of None \<Rightarrow> Inr () | Some e \<Rightarrow> Inl (Not_delivered e)),
     s\<lparr>as_outbox := as_outbox s @ [m]\<rparr>)"

definition reset_mail_for :: "auth_env \<Rightarrow> account \<Rightarrow> issued_opaque \<Rightarrow> int \<Rightarrow> reset_mail" where
  "reset_mail_for env u token expiresAt =
     \<lparr>rm_recipientName = us_name u, rm_recipientUsername = us_username u, rm_recipientEmail = us_email u,
      rm_idempotencyKey = io_id token, rm_resetUrl = ae_resetUrl env (io_plainText token), rm_expiresAt = expiresAt\<rparr>"

definition management_identity :: "account \<Rightarrow> user_management_identity" where
  "management_identity u = \<lparr>um_id = us_id u, um_isAdministrator = us_isAdministrator u,
     um_departments = map dept_str (us_departments u), um_permissionCodes = Some (map perm_str (us_permissionCodes u)),
     um_documentAccessMode = Some (access_mode_str (us_documentAccessMode u))\<rparr>"

fun failure_code :: "account_failure \<Rightarrow> string" where
  "failure_code (Not_delivered e) = passwordResetDeliveryFailureCode e"
| "failure_code _ = ''PROVIDER_UNAVAILABLE''"

record actor_request =
  aq_companyId :: string
  aq_actorUserId :: string
  aq_userId :: string

definition both_users ::
  "actor_request \<Rightarrow> int \<Rightarrow> (user_record \<Rightarrow> user_record \<Rightarrow> 'a account_action) \<Rightarrow> 'a account_action" where
  "both_users q at f =
     bind_op (findById (aq_companyId q) (aq_userId q) at) (\<lambda>target.
     case target of
       None \<Rightarrow> return_op (Inl (Refused (notFound ''user'')))
     | Some t \<Rightarrow>
         bind_op (findById (aq_companyId q) (aq_actorUserId q) at) (\<lambda>actor.
         case actor of
           None \<Rightarrow> return_op (Inl (Refused (notFound ''responsible-user'')))
         | Some a \<Rightarrow> (case assertCanManageUserTarget (management_identity (uc_user a)) (management_identity (uc_user t)) of
               Inl e \<Rightarrow> return_op (Inl (Refused e))
             | Inr _ \<Rightarrow> f a t)))"

definition reset_audit :: "string \<Rightarrow> string option \<Rightarrow> string \<Rightarrow> string \<Rightarrow> audit_metadata \<Rightarrow> audit_entry" where
  "reset_audit companyId actor action userId metadata = \<lparr>al_companyId = companyId, al_actorUserId = actor,
     al_action = action, al_targetId = userId, al_metadata = metadata\<rparr>"

definition RequestAdminPasswordResetUseCase ::
  "auth_env \<Rightarrow> call_draw \<Rightarrow> actor_request \<Rightarrow> (string \<times> int) account_action" where
  "RequestAdminPasswordResetUseCase env d q = both_users q (cd_readAt d) (\<lambda>a t.
     let u = uc_user t; companyId = aq_companyId q; userId = aq_userId q;
         token = issue_opaque env d; expiresAt = cd_now d + PASSWORD_RESET_TTL_MINUTES * 60000 in
     if \<not> ae_notifierConfigured env
     then return_op (Inl (Refused (validationError ''mail-not-configured'')))
     else if \<not> us_isActive u \<or> us_status u \<noteq> US_active
     then return_op (Inl (Refused (validationError ''activate-the-user'')))
     else
       bind_op (replaceForUser (challenge_row token companyId userId Admin_reset expiresAt (cd_now d))) (\<lambda>_.
       bind_op (catch_op (send_reset_mail d (reset_mail_for env u token expiresAt)) (\<lambda>e.
         bind_op (cancelReplacement \<lparr>cx_challengeId = io_id token, cx_companyId = companyId,
           cx_userId = userId, cx_replacedAt = cd_now d\<rparr> (cd_writeAt d)) (\<lambda>_.
         bind_op (create_audit_log (reset_audit companyId (Some (aq_actorUserId q)) ''PASSWORD_RESET_DELIVERY_FAILED''
           userId (Delivery_failure (failure_code e) (io_id token)))) (\<lambda>_.
         return_op (Inl e))))) (\<lambda>_.
       bind_op (create_audit_log (reset_audit companyId (Some (aq_actorUserId q)) ''PASSWORD_RESET_REQUESTED''
         userId Delivery_ok)) (\<lambda>_.
       return_op (Inr (us_email u, expiresAt))))))"

text \<open>The generic answer of the self-service request is the value \<open>()\<close>; the wait before it changes no state.\<close>

definition RequestPasswordResetUseCase :: "auth_env \<Rightarrow> call_draw \<Rightarrow> string \<Rightarrow> unit account_action" where
  "RequestPasswordResetUseCase env d identifier =
     (let generic = return_op (Inr ()) in
      if \<not> ae_notifierConfigured env
      then return_op (Inl (Refused (AppError EMAIL_DELIVERY_UNAVAILABLE ''mail-unavailable'' None)))
      else bind_op (findByLoginIdentifier (normalizeLoginIdentifier identifier) (cd_readAt d)) (\<lambda>found.
        case found of
          None \<Rightarrow> generic
        | Some r \<Rightarrow>
            let u = uc_user r; token = issue_opaque env d;
                expiresAt = cd_now d + PASSWORD_RESET_TTL_MINUTES * 60000 in
            if \<not> uc_companyIsActive r \<or> \<not> us_isActive u \<or> us_status u \<noteq> US_active then generic
            else catch_op
              (bind_op (create_challenge (challenge_row token (us_companyId u) (us_id u) Admin_reset expiresAt (cd_now d))) (\<lambda>_.
               catch_op
                 (bind_op (send_reset_mail d (reset_mail_for env u token expiresAt)) (\<lambda>_.
                  create_audit_log (reset_audit (us_companyId u) None ''PASSWORD_RESET_SELF_REQUESTED'' (us_id u) Delivery_ok)))
                 (\<lambda>e. bind_op (delete_challenge (io_id token)) (\<lambda>_.
                  create_audit_log (reset_audit (us_companyId u) None ''PASSWORD_RESET_DELIVERY_FAILED'' (us_id u)
                    (Delivery_failure (failure_code e) (io_id token)))))))
              (\<lambda>_. generic)))"

section \<open>The state of an account\<close>

record status_request =
  sq_actor :: actor_request
  sq_currentUserId :: string
  sq_status :: account_status
  sq_suspendedUntil :: "int option"
  sq_suspensionReason :: "string option"

definition UpdateUserStatusUseCase :: "call_draw \<Rightarrow> status_request \<Rightarrow> user_record account_action" where
  "UpdateUserStatusUseCase d q = both_users (sq_actor q) (cd_readAt d) (\<lambda>actor target.
     let companyId = aq_companyId (sq_actor q); userId = aq_userId (sq_actor q);
         reason = trim_or_null (sq_suspensionReason q); suspended = (sq_status q = US_suspended);
         change = \<lparr>sc_status = sq_status q, sc_suspendedUntil = (if suspended then sq_suspendedUntil q else None),
           sc_suspensionReason = (if suspended then reason else None), sc_changedAt = cd_now d\<rparr> in
     if userId = sq_currentUserId q \<and> sq_status q \<noteq> US_active
     then return_op (Inl (Refused (forbidden ''own-account'')))
     else if suspended \<and> (case (sq_suspendedUntil q, reason) of
         (Some t, Some r) \<Rightarrow> t \<le> cd_now d \<or> length r < 3 | _ \<Rightarrow> True)
     then return_op (Inl (Refused (validationError ''suspension-needs-date-and-reason'')))
     else
       bind_op (if sq_status q \<noteq> US_active \<and> us_status (uc_user target) = US_active \<and> us_isAdministrator (uc_user target)
         then updateStatusWithAdministratorInvariant companyId userId change
         else bind_op (updateStatus companyId userId change) (\<lambda>r. return_op (Inr (Some r)))) (\<lambda>updated.
       case updated of
         None \<Rightarrow> return_op (Inl (Refused (conflict ''keep-one-administrator'' None)))
       | Some r \<Rightarrow>
           bind_op (create_audit_log (reset_audit companyId (Some (aq_actorUserId (sq_actor q))) ''USER_STATUS_CHANGED'' userId
             (Status_change (us_status (uc_user target)) (sq_status q)
               (if suspended then sq_suspendedUntil q else None) (if suspended then reason else None)))) (\<lambda>_.
           return_op (Inr r))))"

definition DeleteUserUseCase :: "auth_env \<Rightarrow> call_draw \<Rightarrow> actor_request \<Rightarrow> string \<Rightarrow> bool account_action" where
  "DeleteUserUseCase env d q password =
     bind_op (findById (aq_companyId q) (aq_actorUserId q) (cd_readAt d)) (\<lambda>actor.
     case actor of
       None \<Rightarrow> return_op (Inl (Refused (forbidden ''only-administrators'')))
     | Some a \<Rightarrow>
         if \<not> us_isAdministrator (uc_user a) then return_op (Inl (Refused (forbidden ''only-administrators'')))
         else if \<not> ae_compare env password (us_passwordHash (uc_user a))
         then return_op (Inl (Refused (AppError INVALID_CREDENTIALS ''administrator-password'' None)))
         else if aq_actorUserId q = aq_userId q then return_op (Inl (Refused (forbidden ''own-account'')))
         else
           bind_op (findById (aq_companyId q) (aq_userId q) (cd_readAt d)) (\<lambda>target.
           case target of
             None \<Rightarrow> return_op (Inl (Refused (notFound ''user'')))
           | Some t \<Rightarrow>
               bind_op (softDelete (aq_companyId q) (aq_userId q) (cd_now d)) (\<lambda>deleted.
               if \<not> deleted then return_op (Inl (Refused (conflict ''keep-one-administrator'' None)))
               else
                 bind_op (create_audit_log (reset_audit (aq_companyId q) (Some (aq_actorUserId q)) ''USER_DELETED''
                   (aq_userId q) (Was_administrator (us_isAdministrator (uc_user t))))) (\<lambda>_.
                 return_op (Inr True)))))"

section \<open>Calls\<close>

datatype account_call =
    Log_in call_draw login_input
  | Refresh call_draw string
  | Log_out call_draw string
  | Request_checked int string
  | Use_link call_draw string string
  | Change_own call_draw own_change
  | Reset_by_administrator call_draw actor_request
  | Forgot call_draw string
  | Set_status call_draw status_request
  | Delete_user call_draw actor_request string

fun after_call :: "auth_env \<Rightarrow> account_call \<Rightarrow> account_store \<Rightarrow> account_store" where
  "after_call env (Log_in d input) s = snd (AuthenticateUseCase env d input s)"
| "after_call env (Refresh d raw) s = snd (RefreshSessionUseCase env d raw s)"
| "after_call env (Log_out d raw) s = snd (LogoutUseCase env d raw s)"
| "after_call env (Request_checked at header) s = snd (jwtAuthGuard env at False (Some header) s)"
| "after_call env (Use_link d token password) s = snd (CompletePasswordChangeUseCase env d token password s)"
| "after_call env (Change_own d input) s = snd (ChangeOwnPasswordUseCase env d input s)"
| "after_call env (Reset_by_administrator d q) s = snd (RequestAdminPasswordResetUseCase env d q s)"
| "after_call env (Forgot d identifier) s = snd (RequestPasswordResetUseCase env d identifier s)"
| "after_call env (Set_status d q) s = snd (UpdateUserStatusUseCase d q s)"
| "after_call env (Delete_user d q password) s = snd (DeleteUserUseCase env d q password s)"

definition after_account_calls :: "auth_env \<Rightarrow> account_call list \<Rightarrow> account_store \<Rightarrow> account_store" where
  "after_account_calls env = fold (after_call env)"

section \<open>Every use case keeps it\<close>

abbreviation anything :: "'a \<Rightarrow> account_store \<Rightarrow> bool" where
  "anything \<equiv> \<lambda>_ _. True"

lemmas keeps_bind = steps.effect_bind
lemmas keeps_catch = steps.effect_catch

lemma keeps_fail [simp]: "keeps P (return_op (Inl e)) Q"
  by (rule steps.effect_return) simp

lemma keeps_return [simp]: "keeps P (return_op r) anything"
  by (rule steps.effect_return) simp

lemma step_outside [simp]:
  "accounts_step s (s\<lparr>as_audit := a\<rparr>)" "accounts_step s (s\<lparr>as_outbox := o'\<rparr>)"
  by (rule accounts_step_same; simp add: accounts_ok_def)+

lemma keeps_audit [simp]: "keeps P (create_audit_log e) anything"
  by (rule keepsI) (simp_all add: create_audit_log_def)

lemma keeps_send [simp]: "keeps P (send_reset_mail d m) anything"
  by (rule keepsI) (simp_all add: send_reset_mail_def)

lemma keeps_read [simp]: "keeps P (\<lambda>t. (Inr (f t), t)) anything"
  by (rule keepsI) (simp_all add: steps.reflR)

lemma keeps_strengthen: "keeps P' m Q \<Longrightarrow> (\<And>s. P s \<Longrightarrow> P' s) \<Longrightarrow> keeps P m Q"
  by (auto simp: effect_def)

lemma keeps_with_ok: "keeps P m Q \<Longrightarrow> keeps (\<lambda>s. accounts_ok s \<and> P s) m (\<lambda>x s. accounts_ok s \<and> Q x s)"
  by (auto simp: effect_def accounts_step_def)

lemma keeps_then:
  assumes "keeps P m anything" and "\<And>x. keeps (\<lambda>_. True) (f x) Q"
  shows "keeps P (bind_op m f) Q"
  using assms by (rule keeps_bind)

lemma keeps_both:
  assumes "keeps P a anything" and "keeps (\<lambda>_. True) b anything"
  shows "keeps P (both_op a b) anything"
proof (rule keepsI)
  fix s assume "P s"
  then have 1: "accounts_step s (snd (a s))" using assms(1) by (simp add: effect_def)
  have 2: "accounts_step (snd (a s)) (snd (b (snd (a s))))" using assms(2) by (simp add: effect_def)
  show "accounts_step s (snd (both_op a b s))"
    using steps.transR [OF 1 2] by (simp add: both_op_def Let_def split_beta)
qed simp

lemma usable_record:
  assumes "holds_record r s" and "usable (uc_user r)" and "c = us_companyId (uc_user r)" and "i = us_id (uc_user r)"
  shows "\<exists>u\<in>set (as_users s). is_user c i u \<and> usable u"
  using assms by (auto simp: holds_record_def is_user_def)

text \<open>Past the checks of a login the account may hold a session; the invariant ties \<open>isActive\<close> to the status.\<close>

lemma keeps_Authenticate: "keeps accounts_ok (AuthenticateUseCase env d input) anything"
  unfolding AuthenticateUseCase_def Let_def
proof (rule keeps_bind)
  have f: "keeps (\<lambda>_. True) (findByLoginIdentifier (normalizeLoginIdentifier (li_identifier input)) (cd_readAt d)) found_in"
    by (rule keeps_findByLogin)
  show "keeps accounts_ok (findByLoginIdentifier (normalizeLoginIdentifier (li_identifier input)) (cd_readAt d))
      (\<lambda>found s. accounts_ok s \<and> found_in found s)"
    using keeps_with_ok [OF f] by simp
next
  fix found
  let ?tail = "\<lambda>record. bind_op (both_op
      (create_token (token_row (issue_opaque env d) (us_companyId (uc_user record)) (us_id (uc_user record)) (li_remember input)
        (refresh_expiry env (cd_now d) (li_remember input)) (cd_now d)))
      (markLastLogin (us_companyId (uc_user record)) (us_id (uc_user record)) (cd_now d)))
     (\<lambda>_. return_op (Inr (session_of env d (issue_opaque env d) record
        (refresh_expiry env (cd_now d) (li_remember input)) (li_remember input))))"
  have t: "keeps (\<lambda>s. holds_record r s \<and> usable (uc_user r)) (?tail r) anything" for r
    by (intro keeps_then keeps_both keeps_return keeps_markLastLogin keeps_strengthen [OF keeps_create_token])
      (auto simp: token_row_def intro: usable_record)
  have c: "keeps P (bind_op (issuePasswordChangeChallenge env d r First_access n) (\<lambda>c. return_op (Inl (g c)))) anything" for P r n g
    unfolding issuePasswordChangeChallenge_def Let_def by (intro keeps_then keeps_replaceForUser keeps_return)
  have u: "usable (uc_user r)" if "accounts_ok s" "found_in (Some r) s" "\<not> us_mustChangePassword (uc_user r)" "us_isActive (uc_user r)"
    for r s
    using that ok_account [of s "uc_user r"] by (auto simp: found_in_def holds_record_def usable_def account_ok_def)
  have t': "keeps (\<lambda>s. accounts_ok s \<and> found_in (Some r) s) (?tail r) anything"
    if "\<not> us_mustChangePassword (uc_user r)" "us_isActive (uc_user r)" for r
    by (rule keeps_strengthen [OF t]) (use u that in \<open>auto simp: found_in_def\<close>)
  show "keeps (\<lambda>s. accounts_ok s \<and> found_in found s) (case found of
       None \<Rightarrow> return_op (Inl (Refused INVALID_LOGIN))
     | Some record \<Rightarrow>
         if \<not> ae_compare env (li_password input) (case found of None \<Rightarrow> DUMMY_PASSWORD_HASH | Some r \<Rightarrow> us_passwordHash (uc_user r))
           \<or> \<not> uc_companyIsActive record then return_op (Inl (Refused INVALID_LOGIN))
         else if us_status (uc_user record) = US_suspended \<and>
           (case us_suspendedUntil (uc_user record) of None \<Rightarrow> False | Some t \<Rightarrow> t > cd_now d)
         then return_op (Inl (Refused (suspended_error (uc_user record))))
         else if us_status (uc_user record) = US_inactive \<or> \<not> us_isActive (uc_user record)
         then return_op (Inl (Refused (AppError ACCOUNT_INACTIVE ''account-inactive'' None)))
         else if us_mustChangePassword (uc_user record)
         then bind_op (issuePasswordChangeChallenge env d record First_access (ae_passwordChangeTtlMinutes env))
           (\<lambda>c. return_op (Inl (Refused (setup_required c))))
         else ?tail record) anything"
    by (cases found) (simp_all add: c t')
qed

lemma keeps_Refresh: "keeps accounts_ok (RefreshSessionUseCase env d raw) anything"
proof (rule keepsI)
  fix s assume "accounts_ok s"
  show "accounts_step s (snd (RefreshSessionUseCase env d raw s))"
  proof (cases "accepted_token env raw (cd_now d) s")
    case None
    then show ?thesis by (simp add: RefreshSessionUseCase_def steps.reflR)
  next
    case (Some stored)
    let ?rest = "\<lambda>found. case found of
           None \<Rightarrow> return_op (Inl (Refused invalidRefreshToken))
         | Some record \<Rightarrow>
             if \<not> may_hold_session record then return_op (Inl (Refused invalidRefreshToken))
             else bind_op (rotate_token (rt_id stored)
                 (token_row (issue_opaque env d) (rt_companyId stored) (rt_userId stored) (rt_rememberDevice stored)
                   (refresh_expiry env (cd_now d) (rt_rememberDevice stored)) (cd_now d)) (cd_writeAt d)) (\<lambda>_.
               return_op (Inr (session_of env d (issue_opaque env d) record
                 (refresh_expiry env (cd_now d) (rt_rememberDevice stored)) (rt_rememberDevice stored))))"
    have "keeps (\<lambda>_. True) (bind_op (findById (rt_companyId stored) (rt_userId stored) (cd_readAt d)) ?rest) anything"
    proof (rule keeps_bind [OF keeps_findById])
      fix found
      have "keeps (\<lambda>s. found_in (Some r) s \<and> us_companyId (uc_user r) = rt_companyId stored \<and> us_id (uc_user r) = rt_userId stored)
          (?rest (Some r)) anything" for r
        by (simp, intro impI keeps_then keeps_return keeps_strengthen [OF keeps_rotate_token])
          (force simp: token_row_def found_in_def may_hold_session_def usable_def holds_record_def is_user_def)
      then show "keeps (\<lambda>s. found_in found s \<and> (case found of None \<Rightarrow> True
          | Some r \<Rightarrow> us_companyId (uc_user r) = rt_companyId stored \<and> us_id (uc_user r) = rt_userId stored)) (?rest found) anything"
        by (cases found) simp_all
    qed
    then show ?thesis using Some unfolding RefreshSessionUseCase_def Let_def by (simp add: effect_def)
  qed
qed simp

lemma keeps_Logout: "keeps P (LogoutUseCase env d raw) anything"
proof (rule keepsI)
  fix s
  show "accounts_step s (snd (LogoutUseCase env d raw s))"
    by (simp add: LogoutUseCase_def revoke_token_def step_revoke steps.reflR split: option.split prod.split)
qed simp

lemma step_findById: "accounts_step s (snd (findById companyId userId at s))"
  by (simp add: findById_def Let_def step_reactivate)

lemma keeps_findById_any: "keeps P (findById companyId userId at) anything"
  by (rule keepsI) (simp_all add: step_findById)

lemma step_guard: "accounts_step s (snd (jwtAuthGuard env at public header s))"
  by (auto simp: jwtAuthGuard_def Let_def steps.reflR findById_def step_reactivate split: option.split)

lemma keeps_Complete: "keeps P (CompletePasswordChangeUseCase env d token password) anything"
proof (rule keepsI)
  fix s
  show "accounts_step s (snd (CompletePasswordChangeUseCase env d token password s))"
  proof (cases "open_change_challenge env token (cd_now d) s")
    case None
    then show ?thesis by (simp add: CompletePasswordChangeUseCase_def steps.reflR)
  next
    case (Some c)
    have r: "keeps (\<lambda>_. True) (case found of
           None \<Rightarrow> return_op (Inl (Refused invalidChangeToken))
         | Some r \<Rightarrow>
             if \<not> may_complete c r then return_op (Inl (Refused invalidChangeToken))
             else
               bind_op (\<lambda>t. (Inr (listPasswordHashes (pc_companyId c) (pc_userId c) (ae_historyLimit env) t), t)) (\<lambda>hashes.
               if rejectsPasswordReuse env password hashes
               then return_op (Inl (Refused (validationError ''password-already-used'')))
               else
                 bind_op (complete_challenge \<lparr>co_companyId = pc_companyId c, co_userId = pc_userId c,
                   co_challengeId = pc_id c, co_passwordHash = ae_hash env (cd_salt d) password,
                   co_changedAt = cd_now d\<rparr> (cd_writeAt d)) (\<lambda>completed.
                 if \<not> completed then return_op (Inl (Refused invalidChangeToken))
                 else bind_op (create_audit_log \<lparr>al_companyId = pc_companyId c, al_actorUserId = Some (pc_userId c),
                   al_action = ''PASSWORD_CHANGED'', al_targetId = pc_userId c,
                   al_metadata = Password_reason (reason_text (pc_reason c))\<rparr>) (\<lambda>_.
                 return_op (Inr True))))) anything" for found
      by (cases found) (auto intro!: keeps_then keeps_complete_challenge steps.effect_if)
    from keeps_then [OF keeps_findById_any r, of "\<lambda>_. True" "pc_companyId c" "pc_userId c" "cd_readAt d"]
    show ?thesis using Some by (simp add: CompletePasswordChangeUseCase_def effect_def)
  qed
qed simp

lemma keeps_Change_own: "keeps P (ChangeOwnPasswordUseCase env d input) anything"
  unfolding ChangeOwnPasswordUseCase_def
  by (rule keeps_then [OF keeps_findById_any])
    (auto intro!: keeps_then keeps_changePassword steps.effect_if split: option.split)

lemma not_deleted_record:
  "accounts_ok s \<Longrightarrow> holds_record r s \<Longrightarrow> us_id (uc_user r) = userId \<Longrightarrow> not_deleted companyId userId s"
  by (auto simp: not_deleted_def list_ex_iff holds_record_def is_user_def dest: ok_unique)

lemma not_deleted_reactivate:
  "not_deleted companyId userId s \<Longrightarrow> not_deleted companyId userId (reactivateExpiredSuspensions c i at s)"
  by (auto simp: not_deleted_def list_ex_iff reactivateExpiredSuspensions_def set_update_where reactivated_def
      is_user_def expired_suspension_def)

lemma keeps_both_users:
  assumes "\<And>a t. keeps (\<lambda>s. accounts_ok s \<and> not_deleted (aq_companyId q) (aq_userId q) s) (f a t) anything"
  shows "keeps accounts_ok (both_users q at f) anything"
  unfolding both_users_def
proof (rule keeps_bind)
  show "keeps accounts_ok (findById (aq_companyId q) (aq_userId q) at)
      (\<lambda>found s. accounts_ok s \<and> (found = None \<or> not_deleted (aq_companyId q) (aq_userId q) s))"
  proof (rule keepsI)
    fix s found assume s: "accounts_ok s" and f: "fst (findById (aq_companyId q) (aq_userId q) at s) = Inr found"
    have ok: "accounts_ok (snd (findById (aq_companyId q) (aq_userId q) at s))"
      using s step_findById by (auto simp: accounts_step_def)
    with f show "accounts_ok (snd (findById (aq_companyId q) (aq_userId q) at s)) \<and>
        (found = None \<or> not_deleted (aq_companyId q) (aq_userId q) (snd (findById (aq_companyId q) (aq_userId q) at s)))"
      by (cases found) (auto simp: findById_def Let_def intro: not_deleted_record dest!: present_user_Some)
  qed (rule step_findById)
next
  fix found
  have a: "keeps (\<lambda>s. accounts_ok s \<and> not_deleted (aq_companyId q) (aq_userId q) s)
      (findById (aq_companyId q) (aq_actorUserId q) at) (\<lambda>_ s. accounts_ok s \<and> not_deleted (aq_companyId q) (aq_userId q) s)"
  proof (rule keepsI)
    fix s x assume s: "accounts_ok s \<and> not_deleted (aq_companyId q) (aq_userId q) s"
    then have "accounts_ok (snd (findById (aq_companyId q) (aq_actorUserId q) at s))"
      using step_findById by (auto simp: accounts_step_def)
    with s show "accounts_ok (snd (findById (aq_companyId q) (aq_actorUserId q) at s)) \<and>
        not_deleted (aq_companyId q) (aq_userId q) (snd (findById (aq_companyId q) (aq_actorUserId q) at s))"
      by (simp add: findById_def Let_def not_deleted_reactivate)
  qed (rule step_findById)
  have "keeps (\<lambda>s. accounts_ok s \<and> not_deleted (aq_companyId q) (aq_userId q) s)
     (bind_op (findById (aq_companyId q) (aq_actorUserId q) at) (\<lambda>actor.
         case actor of
           None \<Rightarrow> return_op (Inl (Refused (notFound ''responsible-user'')))
         | Some a \<Rightarrow> (case assertCanManageUserTarget (management_identity (uc_user a)) (management_identity (uc_user t)) of
               Inl e \<Rightarrow> return_op (Inl (Refused e))
             | Inr _ \<Rightarrow> f a t))) anything" for t
    by (rule keeps_bind [OF a]) (auto intro: assms split: option.split sum.split)
  then show "keeps (\<lambda>s. accounts_ok s \<and> (found = None \<or> not_deleted (aq_companyId q) (aq_userId q) s))
     (case found of
       None \<Rightarrow> return_op (Inl (Refused (notFound ''user'')))
     | Some t \<Rightarrow>
         bind_op (findById (aq_companyId q) (aq_actorUserId q) at) (\<lambda>actor.
         case actor of
           None \<Rightarrow> return_op (Inl (Refused (notFound ''responsible-user'')))
         | Some a \<Rightarrow> (case assertCanManageUserTarget (management_identity (uc_user a)) (management_identity (uc_user t)) of
               Inl e \<Rightarrow> return_op (Inl (Refused e))
             | Inr _ \<Rightarrow> f a t))) anything"
    by (cases found) simp_all
qed

lemma keeps_Reset_by_administrator: "keeps accounts_ok (RequestAdminPasswordResetUseCase env d q) anything"
  unfolding RequestAdminPasswordResetUseCase_def Let_def
  by (rule keeps_both_users)
    (intro steps.effect_if keeps_fail keeps_then keeps_catch keeps_return keeps_replaceForUser keeps_send keeps_audit
      keeps_cancelReplacement)

lemma keeps_Forgot: "keeps P (RequestPasswordResetUseCase env d identifier) anything"
proof -
  have a: "keeps (\<lambda>_. True) (case found of None \<Rightarrow> return_op (Inr ()) | Some r \<Rightarrow>
      if \<not> uc_companyIsActive r \<or> \<not> us_isActive (uc_user r) \<or> us_status (uc_user r) \<noteq> US_active then return_op (Inr ())
      else catch_op
        (bind_op (create_challenge (c r)) (\<lambda>_. catch_op
           (bind_op (send_reset_mail d (m r)) (\<lambda>_. create_audit_log (x r)))
           (\<lambda>e. bind_op (delete_challenge i) (\<lambda>_. create_audit_log (y r e)))))
        (\<lambda>_. return_op (Inr ()))) anything" for found c m x y i
    by (cases found) (auto intro!: keeps_then keeps_catch keeps_create_challenge keeps_delete_challenge)
  have b: "keeps P (findByLoginIdentifier i at) anything" for P i at
    using keeps_findByLogin by (rule steps.effect_weaken) auto
  show ?thesis
    unfolding RequestPasswordResetUseCase_def Let_def by (intro steps.effect_if keeps_fail keeps_then b a)
qed

lemma keeps_Set_status: "keeps accounts_ok (UpdateUserStatusUseCase d q) anything"
  unfolding UpdateUserStatusUseCase_def Let_def
proof (rule keeps_both_users, goal_cases)
  case (1 a t)
  show ?case
    by (intro steps.effect_if keeps_fail keeps_then keeps_return)
      (auto intro!: keeps_then keeps_audit keeps_return keeps_strengthen [OF keeps_updateStatus]
        keeps_updateStatusWithAdministratorInvariant split: option.split)
qed

lemma keeps_Delete_user: "keeps P (DeleteUserUseCase env d q password) anything"
  unfolding DeleteUserUseCase_def
  by (rule keeps_then [OF keeps_findById_any])
    (auto intro!: keeps_then keeps_findById_any keeps_softDelete steps.effect_if split: option.split)

lemma step_after_call: "accounts_ok s \<Longrightarrow> accounts_step s (after_call env c s)"
  using keeps_Authenticate keeps_Refresh keeps_Logout [of "\<lambda>_. True"] step_guard keeps_Complete [of "\<lambda>_. True"]
    keeps_Change_own [of "\<lambda>_. True"] keeps_Reset_by_administrator keeps_Forgot [of "\<lambda>_. True"] keeps_Set_status
    keeps_Delete_user [of "\<lambda>_. True"]
  by (cases c) (simp_all add: effect_def)

lemma step_after_account_calls:
  "accounts_ok s \<Longrightarrow> accounts_step s (after_account_calls env cs s)"
proof (induction cs arbitrary: s)
  case Nil
  then show ?case by (simp add: after_account_calls_def steps.reflR)
next
  case (Cons c cs)
  have 1: "accounts_step s (after_call env c s)" using Cons.prems by (rule step_after_call)
  then have "accounts_ok (after_call env c s)" using Cons.prems by (simp add: accounts_step_def)
  from steps.transR [OF 1 Cons.IH [OF this]] show ?case by (simp add: after_account_calls_def)
qed

section \<open>Tokens that were used up\<close>

lemma find_token_Some: "find_token i s = Some t \<Longrightarrow> t \<in> set (as_refreshTokens s) \<and> to_lower (rt_id t) = to_lower i"
  by (auto simp: find_token_def find_Some_iff same_uuid_def in_set_conv_nth)

lemma ok_unique_token:
  "accounts_ok s \<Longrightarrow> t \<in> set (as_refreshTokens s) \<Longrightarrow> r \<in> set (as_refreshTokens s) \<Longrightarrow>
     to_lower (rt_id t) = to_lower (rt_id r) \<Longrightarrow> t = r"
  by (auto simp: accounts_ok_def distinct_map dest: inj_onD)

text \<open>A token with a revoked row is refused, in the store and in every later one.\<close>

definition dead_token :: "string \<Rightarrow> account_store \<Rightarrow> bool" where
  "dead_token i s \<longleftrightarrow> list_ex (\<lambda>t. same_uuid (rt_id t) i \<and> rt_revokedAt t \<noteq> None) (as_refreshTokens s)"

lemma dead_token_later:
  assumes "accounts_step s t" and "dead_token i s"
  shows "dead_token i t"
proof -
  obtain r where r: "r \<in> set (as_refreshTokens s)" "same_uuid (rt_id r) i" "rt_revokedAt r \<noteq> None"
    using assms(2) by (auto simp: dead_token_def list_ex_iff)
  then obtain q where "q \<in> set (as_refreshTokens t)" "token_follows r q" using assms(1) by (auto simp: accounts_step_def)
  with r show ?thesis by (auto simp: dead_token_def list_ex_iff token_follows_def same_uuid_def)
qed

lemma dead_token_refused:
  assumes "accounts_ok s" and "dead_token i s" and "parse_opaque env raw = Some (i, h)"
  shows "RefreshSessionUseCase env d raw s = (Inl (Refused invalidRefreshToken), s)"
proof -
  obtain t where t: "t \<in> set (as_refreshTokens s)" "to_lower (rt_id t) = to_lower i" "rt_revokedAt t \<noteq> None"
    using assms(2) by (auto simp: dead_token_def list_ex_iff same_uuid_def)
  have "r = t" if "find_token i s = Some r" for r
    using ok_unique_token [OF assms(1) _ t(1), of r] find_token_Some [OF that] t(2) by simp
  then have "accepted_token env raw (cd_now d) s = None"
    using assms(3) t(3) by (auto simp: accepted_token_def split: option.split)
  then show ?thesis by (simp add: RefreshSessionUseCase_def)
qed

lemma accepted_token_Some:
  assumes "accepted_token env raw now s = Some t"
  shows "\<exists>i h. parse_opaque env raw = Some (i, h) \<and> find_token i s = Some t \<and> matches_hash h (rt_tokenHash t) \<and>
    rt_revokedAt t = None \<and> rt_expiresAt t > now"
  using assms by (auto simp: accepted_token_def split: option.splits if_splits)

lemma insert_token_rows: "insert_token t s = Inr s' \<Longrightarrow> as_refreshTokens s' = as_refreshTokens s @ [t]"
  by (auto simp: insert_token_def split: if_splits)

lemma revoked_live:
  assumes "r \<in> set (as_refreshTokens s)" and "same_uuid (rt_id r) i"
  shows "dead_token i (set_tokens (is_live_token (rt_id r)) (\<lambda>t. t\<lparr>rt_revokedAt := Some at\<rparr>) s)"
proof -
  let ?q = "if is_live_token (rt_id r) r then r\<lparr>rt_revokedAt := Some at\<rparr> else r"
  have "?q \<in> set (as_refreshTokens (set_tokens (is_live_token (rt_id r)) (\<lambda>t. t\<lparr>rt_revokedAt := Some at\<rparr>) s))"
    using in_update_where [OF assms(1), of "is_live_token (rt_id r)"] by simp
  moreover have "same_uuid (rt_id ?q) i" "rt_revokedAt ?q \<noteq> None"
    using assms(2) by (simp_all add: is_live_token_def same_uuid_def)
  ultimately show ?thesis unfolding dead_token_def list_ex_iff by blast
qed

lemma refresh_kills:
  assumes "RefreshSessionUseCase env d raw s = (Inr out, s')"
  obtains i h t where "parse_opaque env raw = Some (i, h)" and "accepted_token env raw (cd_now d) s = Some t"
    and "dead_token i s'"
proof -
  obtain t where t: "accepted_token env raw (cd_now d) s = Some t"
    using assms by (cases "accepted_token env raw (cd_now d) s") (auto simp: RefreshSessionUseCase_def)
  then obtain i h where ih: "parse_opaque env raw = Some (i, h)" "find_token i s = Some t"
    using accepted_token_Some by blast
  let ?s = "snd (findById (rt_companyId t) (rt_userId t) (cd_readAt d) s)"
  obtain u where s': "rotate_token (rt_id t) u (cd_writeAt d) ?s = (Inr (), s')"
    using assms t
    by (auto simp: RefreshSessionUseCase_def bind_op_done findById_def return_op_def Let_def split: option.splits if_splits)
  have mem: "t \<in> set (as_refreshTokens ?s)" and l: "same_uuid (rt_id t) i"
    using find_token_Some [OF ih(2)]
    by (auto simp: findById_def Let_def reactivateExpiredSuspensions_def same_uuid_def)
  have "insert_token u (set_tokens (is_live_token (rt_id t)) (\<lambda>t. t\<lparr>rt_revokedAt := Some (cd_writeAt d)\<rparr>) ?s) = Inr s'"
    using s' by (auto simp: rotate_token_def transaction_op_def rbind_Inr_iff split: sum.splits if_splits)
  from insert_token_rows [OF this] revoked_live [OF mem l, of "cd_writeAt d"] have "dead_token i s'"
    by (auto simp: dead_token_def)
  with ih(1) t show thesis by (rule that)
qed

lemma logout_kills:
  assumes "accepted_token env raw now s = Some t"
  obtains i h where "parse_opaque env raw = Some (i, h)" and "dead_token i (snd (LogoutUseCase env d raw s))"
proof -
  obtain i h where ih: "parse_opaque env raw = Some (i, h)" "find_token i s = Some t" "matches_hash h (rt_tokenHash t)"
    using accepted_token_Some [OF assms] by blast
  have mem: "t \<in> set (as_refreshTokens s)" "same_uuid (rt_id t) i"
    using find_token_Some [OF ih(2)] by (simp_all add: same_uuid_def)
  have "dead_token i (snd (LogoutUseCase env d raw s))"
    using ih revoked_live [OF mem, of "cd_now d"] by (simp add: LogoutUseCase_def revoke_token_def)
  with ih(1) show thesis by (rule that)
qed

section \<open>Calls that end the sessions of a user\<close>

definition ends_sessions :: "string \<Rightarrow> string \<Rightarrow> account_store \<Rightarrow> account_store \<Rightarrow> bool" where
  "ends_sessions companyId userId s t \<longleftrightarrow>
     (\<forall>r\<in>set (as_refreshTokens s). rt_companyId r = companyId \<and> rt_userId r = userId \<longrightarrow> dead_token (rt_id r) t) \<and>
     (\<forall>u\<in>set (as_users s). is_user companyId userId u \<longrightarrow>
       (\<exists>v\<in>set (as_users t). account_follows u v \<and> us_tokenVersion u < us_tokenVersion v))"

lemma ends_sessions_later:
  assumes "ends_sessions c i s t" and "accounts_step t u"
  shows "ends_sessions c i s u"
  unfolding ends_sessions_def
proof (intro conjI ballI impI)
  fix r assume "r \<in> set (as_refreshTokens s)" "rt_companyId r = c \<and> rt_userId r = i"
  with assms show "dead_token (rt_id r) u" using dead_token_later by (auto simp: ends_sessions_def)
next
  fix a assume "a \<in> set (as_users s)" "is_user c i a"
  with assms(1) obtain v where v: "v \<in> set (as_users t)" "account_follows a v" "us_tokenVersion a < us_tokenVersion v"
    by (auto simp: ends_sessions_def)
  with assms(2) obtain w where "w \<in> set (as_users u)" "account_follows v w" by (auto simp: accounts_step_def)
  with v show "\<exists>v\<in>set (as_users u). account_follows a v \<and> us_tokenVersion a < us_tokenVersion v"
    using account_follows_trans [of a v w] by (intro bexI [of _ w]) (auto simp: account_follows_def)
qed


lemma ends_sessions_earlier:
  assumes "accounts_step s t" and "as_refreshTokens t = as_refreshTokens s" and "ends_sessions c i t u"
  shows "ends_sessions c i s u"
  unfolding ends_sessions_def
proof (intro conjI ballI impI)
  fix r assume "r \<in> set (as_refreshTokens s)" "rt_companyId r = c \<and> rt_userId r = i"
  with assms show "dead_token (rt_id r) u" by (auto simp: ends_sessions_def)
next
  fix a assume a: "a \<in> set (as_users s)" "is_user c i a"
  with assms(1) obtain b where b: "b \<in> set (as_users t)" "account_follows a b" by (auto simp: accounts_step_def)
  moreover have "is_user c i b" using a(2) b(2) by (simp add: is_user_def account_follows_def)
  ultimately obtain v where "v \<in> set (as_users u)" "account_follows b v" "us_tokenVersion b < us_tokenVersion v"
    using assms(3) by (auto simp: ends_sessions_def)
  with b show "\<exists>v\<in>set (as_users u). account_follows a v \<and> us_tokenVersion a < us_tokenVersion v"
    using account_follows_trans [of a b v] by (intro bexI [of _ v]) (auto simp: account_follows_def)
qed

lemma revoked_all:
  assumes "r \<in> set (as_refreshTokens s)" and "rt_companyId r = c" and "rt_userId r = i"
  shows "dead_token (rt_id r) (revoke_tokens_of c i at s)"
proof -
  have "(if is_token_of c i r then r\<lparr>rt_revokedAt := Some at\<rparr> else r) \<in> set (as_refreshTokens (revoke_tokens_of c i at s))"
    using in_update_where [OF assms(1), of "is_token_of c i"] by (simp add: revoke_tokens_of_def)
  moreover have "rt_id (if is_token_of c i r then r\<lparr>rt_revokedAt := Some at\<rparr> else r) = rt_id r" by simp
  moreover have "rt_revokedAt (if is_token_of c i r then r\<lparr>rt_revokedAt := Some at\<rparr> else r) \<noteq> None"
    using assms(2,3) by (simp add: is_token_of_def)
  ultimately show ?thesis unfolding dead_token_def list_ex_iff same_uuid_def by metis
qed

lemma ends_sessions_update:
  assumes t: "as_users t = update_where P f (as_users s)" "as_refreshTokens t = as_refreshTokens (revoke_tokens_of c i at s)"
    and P: "\<And>u. u \<in> set (as_users s) \<Longrightarrow> is_user c i u \<Longrightarrow> P u"
    and f: "\<And>u. account_follows u (f u)" "\<And>u. us_tokenVersion (f u) = us_tokenVersion u + 1"
  shows "ends_sessions c i s t"
  unfolding ends_sessions_def
proof (intro conjI ballI impI)
  fix r assume "r \<in> set (as_refreshTokens s)" "rt_companyId r = c \<and> rt_userId r = i"
  then show "dead_token (rt_id r) t" using revoked_all [of r s c i at] t(2) by (simp add: dead_token_def)
next
  fix u assume u: "u \<in> set (as_users s)" "is_user c i u"
  then have "f u \<in> set (as_users t)" using in_update_where [OF u(1), of P f] P t(1) by simp
  then show "\<exists>v\<in>set (as_users t). account_follows u v \<and> us_tokenVersion u < us_tokenVersion v"
    using f [of u] by (intro bexI [of _ "f u"]) simp_all
qed

lemma new_password_follows: "account_follows u (with_new_password h at u)"
    "us_tokenVersion (with_new_password h at u) = us_tokenVersion u + 1"
  by (simp_all add: account_follows_def same_access_def with_new_password_def)

lemma changePassword_ends:
  assumes "changePassword c i h at s = (Inr x, t)"
  shows "ends_sessions c i s t"
proof (rule ends_sessions_update)
  show "as_users t = update_where (is_user c i) (with_new_password h at) (as_users s)"
    "as_refreshTokens t = as_refreshTokens (revoke_tokens_of c i at s)"
    using assms by (auto simp: changePassword_def transaction_op_def revoke_tokens_of_def split: option.splits)
qed (simp_all add: new_password_follows)

lemma complete_ends:
  assumes ok: "accounts_ok s" and c: "complete_challenge x at s = (Inr True, t)"
  shows "ends_sessions (co_companyId x) (co_userId x) s t"
proof -
  obtain ch u where ch: "find (is_completed_by x) (as_challenges s) = Some ch"
    and u: "user_row_of (co_companyId x) (co_userId x) s = Some u"
    using c by (auto simp: complete_challenge_def Let_def split: option.splits)
  let ?P = "\<lambda>v. is_user (co_companyId x) (co_userId x) v \<and> (pc_reason ch = First_access \<longrightarrow> us_mustChangePassword v)"
  have must: "pc_reason ch = First_access \<longrightarrow> us_mustChangePassword u"
    and t: "as_users t = update_where ?P (with_new_password (co_passwordHash x) at) (as_users s)"
      "as_refreshTokens t = as_refreshTokens (revoke_tokens_of (co_companyId x) (co_userId x) (co_changedAt x) s)"
    using c ch u by (auto simp: complete_challenge_def Let_def revoke_tokens_of_def split: if_splits)
  show ?thesis
  proof (rule ends_sessions_update [OF t])
    fix v assume v: "v \<in> set (as_users s)" "is_user (co_companyId x) (co_userId x) v"
    then have "v = u" using user_row_of_Some [OF u] ok_unique [OF ok v(1), of u] by (simp add: is_user_def)
    with must v(2) show "?P v" by simp
  qed (simp_all add: new_password_follows)
qed

text \<open>What the end of the sessions means for the two kinds of tokens.\<close>

lemma ended_refresh_refused:
  assumes "ends_sessions c i s t" and "accounts_ok t" and "parse_opaque env raw = Some (j, h)"
    and "find_token j s = Some r" and "rt_companyId r = c" and "rt_userId r = i"
  shows "RefreshSessionUseCase env d raw t = (Inl (Refused invalidRefreshToken), t)"
proof -
  have "r \<in> set (as_refreshTokens s)" "to_lower (rt_id r) = to_lower j" using find_token_Some [OF assms(4)] by simp_all
  moreover have "dead_token (rt_id r) t" using assms(1,5,6) calculation(1) by (simp add: ends_sessions_def)
  ultimately have "dead_token j t" by (simp add: dead_token_def same_uuid_def)
  with assms(2,3) show ?thesis by (intro dead_token_refused)
qed

lemma findById_version:
  assumes "findById c i at s = (Inr (Some r), s')" and "accounts_ok s" and "u \<in> set (as_users s)" and "is_user c i u"
  shows "us_tokenVersion u \<le> us_tokenVersion (uc_user r)"
proof -
  have p: "present_user c i s' = Some r" and s': "s' = snd (findById c i at s)" using assms(1) by (auto simp: findById_def Let_def)
  have st: "accounts_step s s'" unfolding s' by (rule step_findById)
  then obtain v where v: "v \<in> set (as_users s')" "account_follows u v" using assms(3) by (auto simp: accounts_step_def)
  have ok: "accounts_ok s'" using st assms(2) by (simp add: accounts_step_def)
  have "uc_user r = v"
    using present_user_Some [OF p] v assms(4) ok_unique [OF ok _ v(1), of "uc_user r"]
    by (auto simp: holds_record_def account_follows_def is_user_def)
  with v(2) show ?thesis by (simp add: account_follows_def)
qed

lemma ended_access_refused:
  assumes e: "ends_sessions c i s t" and ok: "accounts_ok t" and u: "u \<in> set (as_users s)" "is_user c i u"
    and p: "verify_access env at token = Some p" "ap_companyId p = c" "ap_sub p = i" "ap_tokenVersion p \<le> us_tokenVersion u"
  shows "fst (jwtAuthGuard env at False (Some (''Bearer '' @ token)) t) = Inl ''invalid-access-token''"
proof -
  obtain v where v: "v \<in> set (as_users t)" "account_follows u v" "us_tokenVersion u < us_tokenVersion v"
    using e u by (auto simp: ends_sessions_def)
  have "is_user c i v" using v(2) u(2) by (simp add: account_follows_def is_user_def)
  then have "us_tokenVersion (uc_user r) \<noteq> ap_tokenVersion p" if "findById c i at t = (Inr (Some r), t')" for r t'
    using findById_version [OF that ok v(1)] v(3) p(4) by simp
  then show ?thesis
    using p by (auto simp: jwtAuthGuard_def findById_def Let_def split: option.splits)
qed

lemma ends_sessions_audit: "ends_sessions c i s t \<Longrightarrow> ends_sessions c i s (t\<lparr>as_audit := a\<rparr>)"
  by (simp add: ends_sessions_def dead_token_def)

lemma Change_own_ends:
  assumes "ChangeOwnPasswordUseCase env d input s = (Inr x, t)"
  shows "ends_sessions (oc_companyId input) (oc_userId input) s t"
proof -
  let ?s = "snd (findById (oc_companyId input) (oc_userId input) (cd_readAt d) s)"
  obtain h t' a where t': "changePassword (oc_companyId input) (oc_userId input) h (cd_now d) ?s = (Inr (), t')"
    and t: "t = t'\<lparr>as_audit := a\<rparr>"
    using assms by (auto simp: ChangeOwnPasswordUseCase_def bind_op_done findById_def return_op_def create_audit_log_def Let_def
        split: option.splits if_splits)
  have "ends_sessions (oc_companyId input) (oc_userId input) ?s t" unfolding t
    using changePassword_ends [OF t'] by (rule ends_sessions_audit)
  then show ?thesis
    by (rule ends_sessions_earlier [OF step_findById, rotated]) (simp add: findById_def Let_def reactivateExpiredSuspensions_def)
qed

lemma Complete_ends:
  assumes ok: "accounts_ok s" and "CompletePasswordChangeUseCase env d token password s = (Inr x, t)"
    and c: "open_change_challenge env token (cd_now d) s = Some c"
  shows "ends_sessions (pc_companyId c) (pc_userId c) s t"
proof -
  let ?s = "snd (findById (pc_companyId c) (pc_userId c) (cd_readAt d) s)"
  obtain h t' a where t': "complete_challenge \<lparr>co_companyId = pc_companyId c, co_userId = pc_userId c,
      co_challengeId = pc_id c, co_passwordHash = h, co_changedAt = cd_now d\<rparr> (cd_writeAt d) ?s = (Inr True, t')"
    and t: "t = t'\<lparr>as_audit := a\<rparr>"
    using assms by (auto simp: CompletePasswordChangeUseCase_def bind_op_done findById_def return_op_def create_audit_log_def Let_def
        split: option.splits if_splits)
  have "accounts_ok ?s" using ok step_findById by (auto simp: accounts_step_def)
  from ends_sessions_audit [OF complete_ends [OF this t']] have "ends_sessions (pc_companyId c) (pc_userId c) ?s t"
    by (simp add: t)
  then show ?thesis
    by (rule ends_sessions_earlier [OF step_findById, rotated]) (simp add: findById_def Let_def reactivateExpiredSuspensions_def)
qed

lemma Complete_open: "CompletePasswordChangeUseCase env d token password s = (Inr x, t) \<Longrightarrow>
    \<exists>c. open_change_challenge env token (cd_now d) s = Some c"
  by (cases "open_change_challenge env token (cd_now d) s") (auto simp: CompletePasswordChangeUseCase_def)

text \<open>The user whose password a call changed, when it did.\<close>

definition password_changed_for :: "auth_env \<Rightarrow> account_call \<Rightarrow> account_store \<Rightarrow> (string \<times> string) option" where
  "password_changed_for env call s = (case call of
       Use_link d token password \<Rightarrow>
         (case (open_change_challenge env token (cd_now d) s, fst (CompletePasswordChangeUseCase env d token password s)) of
           (Some c, Inr _) \<Rightarrow> Some (pc_companyId c, pc_userId c) | _ \<Rightarrow> None)
     | Change_own d input \<Rightarrow>
         (case fst (ChangeOwnPasswordUseCase env d input s) of Inl _ \<Rightarrow> None
           | Inr _ \<Rightarrow> Some (oc_companyId input, oc_userId input))
     | _ \<Rightarrow> None)"

lemma password_changed_ends:
  assumes "accounts_ok s" and "password_changed_for env call s = Some (c, i)"
  shows "ends_sessions c i s (after_call env call s)"
proof (cases call)
  case (Use_link d token password)
  then obtain ch x where "open_change_challenge env token (cd_now d) s = Some ch" "c = pc_companyId ch" "i = pc_userId ch"
    "fst (CompletePasswordChangeUseCase env d token password s) = Inr x"
    using assms(2) by (auto simp: password_changed_for_def split: option.splits sum.splits)
  then show ?thesis using Complete_ends [OF assms(1), of env d token password x] Use_link by (cases "CompletePasswordChangeUseCase env d token password s") auto
next
  case (Change_own d input)
  then obtain x where "c = oc_companyId input" "i = oc_userId input" "fst (ChangeOwnPasswordUseCase env d input s) = Inr x"
    using assms(2) by (auto simp: password_changed_for_def split: sum.splits)
  then show ?thesis using Change_own_ends [of env d input s x] Change_own by (cases "ChangeOwnPasswordUseCase env d input s") auto
qed (use assms(2) in \<open>simp_all add: password_changed_for_def\<close>)

lemma accounts_ok_later: "accounts_ok s \<Longrightarrow> accounts_ok (after_account_calls env cs s)"
  using step_after_account_calls [of s env cs] by (simp add: accounts_step_def)

section \<open>Password links that were used\<close>

definition link_used :: "string \<Rightarrow> int \<Rightarrow> account_store \<Rightarrow> bool" where
  "link_used i a s \<longleftrightarrow> list_ex (\<lambda>c. same_uuid (pc_id c) i) (as_challenges s) \<and>
     list_all (\<lambda>c. same_uuid (pc_id c) i \<longrightarrow> pc_consumedAt c = Some a) (as_challenges s)"

definition link_stays :: "string \<Rightarrow> int \<Rightarrow> account_store \<Rightarrow> account_store \<Rightarrow> bool" where
  "link_stays i a s t \<longleftrightarrow> (link_used i a s \<longrightarrow> link_used i a t)"

interpretation links: store_relation "link_stays i a" for i a
  by unfold_locales (auto simp: link_stays_def)

lemma links_same: "as_challenges t = as_challenges s \<Longrightarrow> link_stays i a s t"
  by (simp add: link_stays_def link_used_def)

lemma links_update:
  assumes "\<And>c. c \<in> set (as_challenges s) \<Longrightarrow> P c \<Longrightarrow> pc_id (f c) = pc_id c"
    and "\<And>c. c \<in> set (as_challenges s) \<Longrightarrow> P c \<Longrightarrow> same_uuid (pc_id c) i \<Longrightarrow> pc_consumedAt c \<noteq> Some a"
  shows "link_stays i a s (set_challenges P f s)"
  unfolding link_stays_def
proof
  assume u: "link_used i a s"
  then have n: "\<not> P c" if "c \<in> set (as_challenges s)" "same_uuid (pc_id c) i" for c
    using assms(2) that by (auto simp: link_used_def list_all_iff)
  obtain c where c: "c \<in> set (as_challenges s)" "same_uuid (pc_id c) i" using u by (auto simp: link_used_def list_ex_iff)
  have "c \<in> set (update_where P f (as_challenges s))" using in_update_where [OF c(1), of P f] n [OF c] by simp
  moreover have "pc_consumedAt d = Some a" if d: "d \<in> set (update_where P f (as_challenges s))" "same_uuid (pc_id d) i" for d
  proof -
    from d(1) obtain e where e: "e \<in> set (as_challenges s)" "d = (if P e then f e else e)" by (auto simp: set_update_where)
    have "\<not> P e" using assms(1) [OF e(1)] n [OF e(1)] e(2) d(2) by (cases "P e") auto
    with e d(2) u show ?thesis by (auto simp: link_used_def list_all_iff)
  qed
  ultimately show "link_used i a (set_challenges P f s)"
    using c by (auto simp: link_used_def list_ex_iff list_all_iff)
qed

lemma links_consume: "(\<And>c. P c \<Longrightarrow> pc_consumedAt c = None) \<Longrightarrow> link_stays i a s (set_challenges P (consume at) s)"
  by (rule links_update) (auto simp: consume_def)

text \<open>A new link has an id of its own.\<close>

lemma links_insert:
  assumes "insert_challenge c s = Inr t"
  shows "link_stays i a s t \<and> (link_used i a s \<longrightarrow> \<not> same_uuid (pc_id c) i)"
proof -
  have n: "\<not> list_ex (\<lambda>r. same_uuid (pc_id r) (pc_id c)) (as_challenges s)" and t: "as_challenges t = as_challenges s @ [c]"
    using assms by (auto simp: insert_challenge_def list_ex_iff split: if_splits)
  then have "\<not> same_uuid (pc_id c) i" if "link_used i a s"
    using that by (auto simp: link_used_def list_ex_iff same_uuid_def)
  then show ?thesis by (auto simp: link_stays_def link_used_def t)
qed

lemma links_filter:
  assumes "\<And>c. \<not> P c \<Longrightarrow> \<not> same_uuid (pc_id c) i"
  shows "link_stays i a s (s\<lparr>as_challenges := filter P (as_challenges s)\<rparr>)"
  using assms by (auto simp: link_stays_def link_used_def list_ex_iff list_all_iff)

lemma links_cancel:
  assumes "\<not> same_uuid (cx_challengeId x) i" and "cx_replacedAt x \<noteq> a"
  shows "link_stays i a s (snd (cancelReplacement x at s))"
proof -
  let ?s = "s\<lparr>as_challenges := filter (\<lambda>c. \<not> is_cancelled x c) (as_challenges s)\<rparr>"
  have 1: "link_stays i a s ?s"
    by (rule links_filter) (use assms(1) in \<open>auto simp: is_cancelled_def same_uuid_def\<close>)
  have 2: "link_stays i a ?s (set_challenges (\<lambda>c. same_uuid (pc_id c) (pc_id p)) (\<lambda>c. c\<lparr>pc_consumedAt := None\<rparr>) ?s)"
    if p: "js_first (js_sort latest_first (filter (was_replaced x at) (as_challenges ?s))) = Some p" for p
  proof -
    let ?l = "js_sort latest_first (filter (was_replaced x at) (as_challenges ?s))"
    have "?l \<noteq> [] \<and> p = hd ?l" using p by (rule js_first_Some_hd)
    then have "p \<in> set ?l" by (metis hd_in_set)
    then have "p \<in> set (filter (was_replaced x at) (as_challenges ?s))" by (simp only: set_js_sort)
    then have p': "p \<in> set (as_challenges ?s)" "pc_consumedAt p = Some (cx_replacedAt x)"
      by (auto simp: was_replaced_def)
    show ?thesis
    proof (cases "same_uuid (pc_id p) i")
      case True
      then have "\<not> link_used i a ?s" using p' assms(2) by (auto simp: link_used_def list_all_iff)
      then show ?thesis by (simp add: link_stays_def)
    next
      case False
      then show ?thesis by (intro links_update) (auto simp: same_uuid_def)
    qed
  qed
  from 1 links.transR [OF 1 2] show ?thesis
    by (auto simp: cancelReplacement_def Let_def split: option.split)
qed

abbreviation spares :: "string \<Rightarrow> int \<Rightarrow> 'a account_action \<Rightarrow> bool" where
  "spares i a m \<equiv> effect (link_stays i a) (\<lambda>_. True) m (\<lambda>_ _. True)"

lemma sparesI: "(\<And>s. link_stays i a s (snd (m s))) \<Longrightarrow> spares i a m"
  by (simp add: effect_def)

lemma spares_same: "(\<And>s. as_challenges (snd (m s)) = as_challenges s) \<Longrightarrow> spares i a m"
  by (rule sparesI) (simp add: links_same)

lemma as_challenges_transaction:
  "(\<And>x t. body s = Inr (x, t) \<Longrightarrow> as_challenges t = as_challenges s) \<Longrightarrow>
     as_challenges (snd (transaction_op body s)) = as_challenges s"
  by (auto simp: transaction_op_def split: sum.split)

lemma spares_bind: "spares i a m \<Longrightarrow> (\<And>x. spares i a (f x)) \<Longrightarrow> spares i a (bind_op m f)"
  by (rule links.effect_bind)

lemma spares_catch: "spares i a m \<Longrightarrow> (\<And>e. spares i a (h e)) \<Longrightarrow> spares i a (catch_op m h)"
  by (rule links.effect_catch)

lemma spares_case: "spares i a m \<Longrightarrow> (\<And>r. spares i a (f r)) \<Longrightarrow> spares i a (case found of None \<Rightarrow> m | Some r \<Rightarrow> f r)"
  by (cases found) simp_all

lemma as_challenges_reactivate [simp]:
  "as_challenges (reactivateExpiredSuspensions c i at s) = as_challenges s" "as_challenges (revoke_tokens_of c i at s) = as_challenges s"
  by (simp_all add: reactivateExpiredSuspensions_def revoke_tokens_of_def)

lemma spares_accounts:
  "spares i a (findById c u at)" "spares i a (findByLoginIdentifier n at)" "spares i a (create_token t)"
  "spares i a (rotate_token j t at)" "spares i a (markLastLogin c u at)" "spares i a (changePassword c u p at)"
  "spares i a (updateStatus c u x)" "spares i a (updateStatusWithAdministratorInvariant c u x)"
  "spares i a (create_audit_log e)" "spares i a (send_reset_mail d m)" "spares i a (return_op r)" "spares i a (\<lambda>t. (Inr (g t), t))"
  by (rule spares_same;
      auto simp: findById_def findByLoginIdentifier_def create_token_def insert_token_def rotate_token_def markLastLogin_def
        update_user_def changePassword_def updateStatus_def updateStatusWithAdministratorInvariant_def create_audit_log_def
        send_reset_mail_def return_op_def Let_def rbind_Inr_iff intro!: as_challenges_transaction
        split: option.splits if_splits)+

lemma spares_both: "spares i a m \<Longrightarrow> spares i a n \<Longrightarrow> spares i a (both_op m n)"
  using links.transR by (fastforce simp: effect_def both_op_def Let_def split_beta)

lemma spares_insert:
  assumes "\<not> same_uuid (pc_id c) i \<Longrightarrow> spares i a (f ())"
  shows "spares i a (bind_op (create_challenge c) f)"
proof (rule sparesI)
  fix s
  show "link_stays i a s (snd (bind_op (create_challenge c) f s))"
  proof (cases "insert_challenge c s")
    case (Inl e)
    then show ?thesis by (simp add: create_challenge_def bind_op_def transaction_op_def links.reflR)
  next
    case (Inr t)
    have "link_stays i a t (snd (f () t))" if "link_used i a s"
      using assms links_insert [OF Inr, of i a] that by (auto simp: effect_def)
    then show ?thesis using links_insert [OF Inr, of i a] Inr
      by (auto simp: create_challenge_def bind_op_def transaction_op_def link_stays_def)
  qed
qed

lemma spares_replace:
  assumes "\<not> same_uuid (pc_id c) i \<Longrightarrow> spares i a (f ())"
  shows "spares i a (bind_op (replaceForUser c) f)"
proof (rule sparesI)
  fix s
  let ?s = "set_challenges (is_open_challenge_of (pc_companyId c) (pc_userId c)) (consume (pc_createdAt c)) s"
  have s: "link_stays i a s ?s" by (rule links_consume) (simp add: is_open_challenge_of_def)
  show "link_stays i a s (snd (bind_op (replaceForUser c) f s))"
  proof (cases "insert_challenge c ?s")
    case (Inl e)
    then show ?thesis by (simp add: replaceForUser_def bind_op_def transaction_op_def links.reflR)
  next
    case (Inr t)
    have "link_stays i a t (snd (f () t))" if "link_used i a ?s"
      using assms links_insert [OF Inr, of i a] that by (auto simp: effect_def)
    then show ?thesis using s links_insert [OF Inr, of i a] Inr
      by (auto simp: replaceForUser_def bind_op_def transaction_op_def link_stays_def)
  qed
qed

lemma spares_complete: "spares i a (complete_challenge x at)"
proof (rule sparesI)
  fix s
  have chain: "link_stays i a s (set_challenges P (consume b) (revoke_tokens_of c u b (add_history v b
      (set_challenges (is_completed_by x) (consume b) (set_users M g s)))))"
    if "\<And>d. P d \<Longrightarrow> pc_consumedAt d = None" for P b c u v M g
  proof -
    let ?s1 = "set_users M g s"
    let ?s2 = "set_challenges (is_completed_by x) (consume b) ?s1"
    let ?s3 = "revoke_tokens_of c u b (add_history v b ?s2)"
    have 1: "link_stays i a s ?s1" by (rule links_same) simp
    have 2: "link_stays i a ?s1 ?s2" by (rule links_consume) (simp add: is_completed_by_def)
    have 3: "link_stays i a ?s2 ?s3" by (rule links_same) simp
    have 4: "link_stays i a ?s3 (set_challenges P (consume b) ?s3)" using that by (rule links_consume)
    from 1 2 3 4 show ?thesis using links.transR by blast
  qed
  show "link_stays i a s (snd (complete_challenge x at s))"
    by (auto simp: complete_challenge_def Let_def links.reflR is_open_challenge_of_def intro!: chain split: option.split)
qed

lemma spares_softDelete: "spares i a (softDelete c u at)"
proof (rule sparesI)
  fix s
  have "link_stays i a s (set_challenges (is_open_challenge_of c u) (consume at) (revoke_tokens_of c u at (set_users P g s)))" for P g
    by (rule links.transR [of _ _ _ "revoke_tokens_of c u at (set_users P g s)"])
      (auto intro!: links_same links_consume simp: is_open_challenge_of_def)
  then show "link_stays i a s (snd (softDelete c u at s))"
    by (auto simp: softDelete_def Let_def links.reflR split: option.split)
qed

lemma sparesD: "spares i a m \<Longrightarrow> link_stays i a s (snd (m s))"
  by (simp add: effect_def)

lemmas spares_intros = spares_accounts spares_bind spares_catch spares_case spares_both spares_complete spares_softDelete
  links.effect_if

lemma spares_Authenticate: "spares i a (AuthenticateUseCase env d input)"
  unfolding AuthenticateUseCase_def issuePasswordChangeChallenge_def Let_def
  by (intro spares_intros spares_replace)

lemma spares_Refresh: "spares i a (RefreshSessionUseCase env d raw)"
proof (rule sparesI)
  fix s
  show "link_stays i a s (snd (RefreshSessionUseCase env d raw s))"
  proof (cases "accepted_token env raw (cd_now d) s")
    case (Some stored)
    have "spares i a (bind_op (findById (rt_companyId stored) (rt_userId stored) (cd_readAt d)) (\<lambda>found. case found of
           None \<Rightarrow> return_op (Inl (Refused invalidRefreshToken))
         | Some record \<Rightarrow>
             if \<not> may_hold_session record then return_op (Inl (Refused invalidRefreshToken))
             else bind_op (rotate_token j (t record) at) (\<lambda>_. return_op (Inr (o' record)))))" for j t at o'
      by (intro spares_intros)
    then show ?thesis unfolding RefreshSessionUseCase_def Let_def Some option.case by (rule sparesD)
  qed (simp add: RefreshSessionUseCase_def links.reflR)
qed

lemma spares_Logout: "spares i a (LogoutUseCase env d raw)"
  by (rule spares_same) (simp add: LogoutUseCase_def revoke_token_def split: option.split prod.split)

lemma spares_guard: "link_stays i a s (snd (jwtAuthGuard env at public header s))"
  by (rule links_same) (auto simp: jwtAuthGuard_def Let_def findById_def split: option.split)

lemma spares_Complete: "spares i a (CompletePasswordChangeUseCase env d token password)"
proof (rule sparesI)
  fix s
  show "link_stays i a s (snd (CompletePasswordChangeUseCase env d token password s))"
  proof (cases "open_change_challenge env token (cd_now d) s")
    case (Some c)
    have "spares i a (bind_op (findById (pc_companyId c) (pc_userId c) (cd_readAt d)) (\<lambda>found. case found of
           None \<Rightarrow> return_op (Inl e)
         | Some r \<Rightarrow> if \<not> may_complete c r then return_op (Inl e)
             else bind_op (\<lambda>t. (Inr (g t), t)) (\<lambda>hashes. if b hashes then return_op (Inl e')
               else bind_op (complete_challenge x at) (\<lambda>completed. if \<not> completed then return_op (Inl e)
                 else bind_op (create_audit_log l) (\<lambda>_. return_op (Inr True))))))" for e e' g b x at l
      by (intro spares_intros)
    then show ?thesis unfolding CompletePasswordChangeUseCase_def Some option.case by (rule sparesD)
  qed (simp add: CompletePasswordChangeUseCase_def links.reflR)
qed

lemma spares_Change_own: "spares i a (ChangeOwnPasswordUseCase env d input)"
  unfolding ChangeOwnPasswordUseCase_def by (intro spares_intros)

lemma spares_both_users:
  assumes "\<And>r t. spares i a (f r t)"
  shows "spares i a (both_users q at f)"
  unfolding both_users_def
  by (intro spares_intros) (auto intro: assms spares_accounts split: sum.split)

lemma spares_Reset_by_administrator:
  assumes "cd_delivery d = None \<or> cd_now d \<noteq> a"
  shows "spares i a (RequestAdminPasswordResetUseCase env d q)"
  unfolding RequestAdminPasswordResetUseCase_def Let_def
proof (intro spares_both_users links.effect_if spares_accounts spares_replace)
  fix r t
  assume n: "\<not> same_uuid (pc_id (challenge_row (issue_opaque env d) (aq_companyId q) (aq_userId q) Admin_reset
      (cd_now d + PASSWORD_RESET_TTL_MINUTES * 60000) (cd_now d))) i"
  show "spares i a (bind_op
      (catch_op (send_reset_mail d (reset_mail_for env (uc_user t) (issue_opaque env d) (cd_now d + PASSWORD_RESET_TTL_MINUTES * 60000)))
        (\<lambda>e. bind_op (cancelReplacement \<lparr>cx_challengeId = io_id (issue_opaque env d), cx_companyId = aq_companyId q,
              cx_userId = aq_userId q, cx_replacedAt = cd_now d\<rparr> (cd_writeAt d))
          (\<lambda>_. bind_op (create_audit_log (reset_audit (aq_companyId q) (Some (aq_actorUserId q)) ''PASSWORD_RESET_DELIVERY_FAILED''
              (aq_userId q) (Delivery_failure (failure_code e) (io_id (issue_opaque env d)))))
            (\<lambda>_. return_op (Inl e)))))
      (\<lambda>_. bind_op (create_audit_log (reset_audit (aq_companyId q) (Some (aq_actorUserId q)) ''PASSWORD_RESET_REQUESTED''
          (aq_userId q) Delivery_ok))
        (\<lambda>_. return_op (Inr (us_email (uc_user t), cd_now d + PASSWORD_RESET_TTL_MINUTES * 60000)))))"
  proof (cases "cd_delivery d")
    case None
    have c: "catch_op (send_reset_mail d m) h = send_reset_mail d m" for m h
      using None by (auto simp: catch_op_def send_reset_mail_def)
    show ?thesis unfolding c by (intro spares_intros)
  next
    case (Some e)
    then have "cd_now d \<noteq> a" using assms by simp
    then have "spares i a (cancelReplacement \<lparr>cx_challengeId = io_id (issue_opaque env d), cx_companyId = aq_companyId q,
        cx_userId = aq_userId q, cx_replacedAt = cd_now d\<rparr> (cd_writeAt d))"
      using n by (intro sparesI links_cancel) (simp_all add: challenge_row_def)
    then show ?thesis by (intro spares_intros)
  qed
qed

lemma spares_delete: "\<not> same_uuid j i \<Longrightarrow> spares i a (delete_challenge j)"
  by (rule sparesI) (auto simp: delete_challenge_def same_uuid_def intro!: links_filter)

lemma spares_Forgot: "spares i a (RequestPasswordResetUseCase env d identifier)"
proof -
  have "spares i a (case found of None \<Rightarrow> return_op (Inr ()) | Some r \<Rightarrow>
      if b r then return_op (Inr ())
      else catch_op
        (bind_op (create_challenge (challenge_row (issue_opaque env d) (c r) (u r) Admin_reset x (cd_now d))) (\<lambda>_. catch_op
           (bind_op (send_reset_mail d (m r)) (\<lambda>_. create_audit_log (l r)))
           (\<lambda>e. bind_op (delete_challenge (io_id (issue_opaque env d))) (\<lambda>_. create_audit_log (y r e)))))
        (\<lambda>_. return_op (Inr ())))" for found b c u x m l y
    by (intro spares_case links.effect_if spares_catch spares_insert spares_bind spares_accounts spares_delete)
      (simp_all add: challenge_row_def)
  then show ?thesis
    unfolding RequestPasswordResetUseCase_def Let_def by (intro links.effect_if spares_bind spares_accounts)
qed

lemma spares_Set_status: "spares i a (UpdateUserStatusUseCase d q)"
  unfolding UpdateUserStatusUseCase_def Let_def by (intro spares_both_users spares_intros)

lemma spares_Delete_user: "spares i a (DeleteUserUseCase env d q password)"
  unfolding DeleteUserUseCase_def by (intro spares_intros)

text \<open>The one call that can open a used link again: the mail of an administrator's reset fails, and the reset
  was requested in the millisecond in which the link was used.\<close>

fun fails_at :: "int \<Rightarrow> account_call \<Rightarrow> bool" where
  "fails_at a (Reset_by_administrator d q) = (cd_delivery d \<noteq> None \<and> cd_now d = a)"
| "fails_at a _ = False"

lemma links_after_call: "\<not> fails_at a c \<Longrightarrow> link_stays i a s (after_call env c s)"
  using spares_Authenticate [of i a env] spares_Refresh [of i a env] spares_Logout [of i a env] spares_guard [of i a s env]
    spares_Complete [of i a env] spares_Change_own [of i a env] spares_Reset_by_administrator [of _ a i env]
    spares_Forgot [of i a env] spares_Set_status [of i a] spares_Delete_user [of i a env]
  by (cases c) (auto simp: effect_def)

lemma links_after_calls: "list_all (\<lambda>c. \<not> fails_at a c) cs \<Longrightarrow> link_stays i a s (after_account_calls env cs s)"
proof (induction cs arbitrary: s)
  case Nil
  then show ?case by (simp add: after_account_calls_def links.reflR)
next
  case (Cons c cs)
  have "link_stays i a s (after_call env c s)" using Cons.prems by (intro links_after_call) simp
  moreover have "link_stays i a (after_call env c s) (after_account_calls env cs (after_call env c s))"
    using Cons by simp
  ultimately show ?case using links.transR [of i a s "after_call env c s"] by (simp add: after_account_calls_def)
qed

lemma used_link_refused:
  assumes "link_used i a s" and "parse_opaque env token = Some (i, h)"
  shows "CompletePasswordChangeUseCase env d token password s = (Inl (Refused invalidChangeToken), s)"
proof -
  have "pc_consumedAt c \<noteq> None" if "find_challenge i s = Some c" for c
    using that assms(1) by (auto simp: find_challenge_def find_Some_iff link_used_def list_all_length)
  then have "open_change_challenge env token (cd_now d) s = None"
    using assms(2) by (auto simp: open_change_challenge_def split: option.split)
  then show ?thesis by (simp add: CompletePasswordChangeUseCase_def)
qed

lemma ok_unique_challenge:
  "accounts_ok s \<Longrightarrow> c \<in> set (as_challenges s) \<Longrightarrow> e \<in> set (as_challenges s) \<Longrightarrow> same_uuid (pc_id c) (pc_id e) \<Longrightarrow> c = e"
  by (auto simp: accounts_ok_def distinct_map same_uuid_def dest: inj_onD)

lemma completed_rows:
  assumes "complete_challenge x at s = (Inr True, t)"
  shows "\<exists>Q. as_challenges t = update_where Q (consume (co_changedAt x))
      (update_where (is_completed_by x) (consume (co_changedAt x)) (as_challenges s)) \<and>
    (\<forall>d. Q d \<longrightarrow> \<not> same_uuid (pc_id d) (co_challengeId x)) \<and> list_ex (is_completed_by x) (as_challenges s)"
proof -
  obtain c u where c: "find (is_completed_by x) (as_challenges s) = Some c" and "user_row_of (co_companyId x) (co_userId x) s = Some u"
    using assms by (auto simp: complete_challenge_def Let_def split: option.splits)
  then have "as_challenges t = update_where (\<lambda>d. is_open_challenge_of (co_companyId x) (co_userId x) d \<and>
      \<not> same_uuid (pc_id d) (co_challengeId x)) (consume (co_changedAt x))
      (update_where (is_completed_by x) (consume (co_changedAt x)) (as_challenges s))"
    using assms by (auto simp: complete_challenge_def Let_def split: if_splits)
  moreover have "list_ex (is_completed_by x) (as_challenges s)"
    using c by (auto simp: find_Some_iff list_ex_length)
  ultimately show ?thesis by blast
qed

lemma Complete_uses_link:
  assumes ok: "accounts_ok s" and c: "CompletePasswordChangeUseCase env d token password s = (Inr x, t)"
  obtains i h where "parse_opaque env token = Some (i, h)" and "link_used i (cd_now d) t"
proof -
  obtain e where e: "open_change_challenge env token (cd_now d) s = Some e" using Complete_open [OF c] by blast
  then obtain i h where ih: "parse_opaque env token = Some (i, h)" "find_challenge i s = Some e"
    by (auto simp: open_change_challenge_def split: option.splits if_splits)
  let ?s = "snd (findById (pc_companyId e) (pc_userId e) (cd_readAt d) s)"
  obtain p t' l where t': "complete_challenge \<lparr>co_companyId = pc_companyId e, co_userId = pc_userId e,
      co_challengeId = pc_id e, co_passwordHash = p, co_changedAt = cd_now d\<rparr> (cd_writeAt d) ?s = (Inr True, t')"
    and t: "t = t'\<lparr>as_audit := l\<rparr>"
    using c e by (auto simp: CompletePasswordChangeUseCase_def bind_op_done findById_def return_op_def create_audit_log_def Let_def
        split: option.splits if_splits)
  let ?x = "\<lparr>co_companyId = pc_companyId e, co_userId = pc_userId e,
      co_challengeId = pc_id e, co_passwordHash = p, co_changedAt = cd_now d\<rparr>"
  have cs: "as_challenges ?s = as_challenges s" by (simp add: findById_def Let_def)
  have mem: "e \<in> set (as_challenges s)" "same_uuid (pc_id e) i"
    using ih(2) by (auto simp: find_challenge_def find_Some_iff in_set_conv_nth)
  obtain Q where ct: "as_challenges t' = update_where Q (consume (cd_now d))
      (update_where (is_completed_by ?x) (consume (cd_now d)) (as_challenges s))"
    and Q: "\<And>d. Q d \<Longrightarrow> \<not> same_uuid (pc_id d) (pc_id e)" and some: "list_ex (is_completed_by ?x) (as_challenges s)"
    using completed_rows [OF t'] by (auto simp: cs)
  have e': "is_completed_by ?x e"
  proof -
    obtain y where "y \<in> set (as_challenges s)" "is_completed_by ?x y" using some by (auto simp: list_ex_iff)
    moreover from this have "y = e" using ok_unique_challenge [OF ok _ mem(1)] by (simp add: is_completed_by_def)
    ultimately show ?thesis by simp
  qed
  let ?e = "consume (cd_now d) e"
  have "?e \<in> set (as_challenges t')"
  proof -
    have "?e \<in> set (update_where (is_completed_by ?x) (consume (cd_now d)) (as_challenges s))"
      using in_update_where [OF mem(1), of "is_completed_by ?x"] e' by simp
    moreover have "\<not> Q ?e" using Q [of ?e] by (auto simp: consume_def same_uuid_def)
    ultimately show ?thesis using in_update_where [of ?e _ Q "consume (cd_now d)"] by (simp add: ct)
  qed
  moreover have "pc_consumedAt y = Some (cd_now d)" if y: "y \<in> set (as_challenges t')" "same_uuid (pc_id y) i" for y
  proof -
    from y(1) obtain z where z: "z \<in> set (as_challenges s)" "pc_id y = pc_id z"
      "y = z \<or> y = consume (cd_now d) z" "is_completed_by ?x z \<longrightarrow> pc_consumedAt y = Some (cd_now d)"
      by (auto simp: ct set_update_where consume_def)
    have "z = e" using ok_unique_challenge [OF ok z(1) mem(1)] z(2) y(2) mem(2) by (simp add: same_uuid_def)
    with z(4) e' show ?thesis by simp
  qed
  ultimately have "link_used i (cd_now d) t"
    using mem(2) by (auto simp: link_used_def list_ex_iff list_all_iff t consume_def intro!: bexI [of _ ?e])
  with ih(1) show thesis by (rule that)
qed

section \<open>From the first access to a session\<close>

lemma update_where_none: "(\<And>x. x \<in> set rows \<Longrightarrow> \<not> P x) \<Longrightarrow> update_where P f rows = rows"
  by (simp add: update_where_def map_idI)

lemma find_the_only:
  assumes "x \<in> set xs" and "P x" and u: "\<And>y. y \<in> set xs \<Longrightarrow> P y \<Longrightarrow> y = x"
  shows "find P xs = Some x"
proof (cases "find P xs")
  case None
  with assms(1,2) show ?thesis by (auto simp: find_None_iff)
next
  case (Some y)
  then have "y \<in> set xs" "P y" by (auto simp: find_Some_iff in_set_conv_nth)
  from u [OF this] Some show ?thesis by simp
qed

lemma count_unique:
  assumes "distinct (map g xs)" and "x \<in> set xs" and "P x" and u: "\<And>y. y \<in> set xs \<Longrightarrow> P y \<Longrightarrow> y = x"
  shows "count_where P xs = 1"
proof -
  have "set (filter P xs) = {x}"
  proof
    show "set (filter P xs) \<subseteq> {x}" using u by (simp add: subset_iff)
  qed (use assms(2,3) in simp)
  moreover have "distinct (filter P xs)" using assms(1) by (simp add: distinct_map)
  ultimately show ?thesis unfolding count_where_def by (metis card.empty card.insert distinct_card empty_iff finite.emptyI One_nat_def)
qed

lemma find_update_where: "(\<And>u. P (f u) = P u) \<Longrightarrow> find P (update_where Q f xs) = map_option (\<lambda>u. if Q u then f u else u) (find P xs)"
  by (induction xs) (auto simp: update_where_def)

lemma ok_find_user:
  assumes "accounts_ok s" and "u \<in> set (as_users s)" and "P u" and "\<And>v. P v \<Longrightarrow> us_id v = us_id u"
  shows "find P (as_users s) = Some u"
proof (rule find_the_only [where P = P, OF assms(2,3)])
  fix v assume v: "v \<in> set (as_users s)" "P v"
  show "v = u" using assms(4) [OF v(2)] by (rule ok_unique [OF assms(1) v(1) assms(2)])
qed

lemma findById_active:
  assumes ok: "accounts_ok s" and u: "u \<in> set (as_users s)" "us_deletedAt u = None" "us_status u = US_active"
  shows "findById (us_companyId u) (us_id u) at s = (Inr (Some (mapUserRecord s u)), s)"
proof -
  have n: "\<not> (is_user (us_companyId u) (us_id u) v \<and> expired_suspension at v)" if v: "v \<in> set (as_users s)" for v
  proof
    assume a: "is_user (us_companyId u) (us_id u) v \<and> expired_suspension at v"
    then have "v = u" by (intro ok_unique [OF ok v u(1)]) (simp add: is_user_def)
    with a u(3) show False by (simp add: expired_suspension_def)
  qed
  have "reactivateExpiredSuspensions (us_companyId u) (us_id u) at s = s"
    by (simp add: reactivateExpiredSuspensions_def set_users_def update_where_none [OF n])
  moreover have "find (is_present (us_companyId u) (us_id u)) (as_users s) = Some u"
    by (rule ok_find_user [OF ok u(1)]) (use u in \<open>auto simp: is_present_def is_user_def\<close>)
  ultimately show ?thesis by (simp add: findById_def present_user_def)
qed

lemma login_active:
  "find (has_login n) (as_users s) = Some u \<Longrightarrow> us_status u = US_active \<Longrightarrow>
     findByLoginIdentifier n at s = (Inr (Some (mapUserRecord s u)), s)"
  by (simp add: findByLoginIdentifier_def)

lemma no_dot_in_uuid: "uuid_v4 i \<Longrightarrow> CHR ''.'' \<notin> set i"
proof
  assume u: "uuid_v4 i" and "CHR ''.'' \<in> set i"
  then obtain k where k: "k < length i" "i ! k = CHR ''.''" by (meson in_set_conv_nth)
  have "\<not> is_hex CHR ''.''" by code_simp
  have p: "length i = 36" "list_all (\<lambda>j. if j \<in> set [8, 13, 18, 23] then i ! j = CHR ''-'' else is_hex (i ! j)) [0..<36]"
    using u by (simp_all add: uuid_v4_def uuid_pattern_def)
  from p(2) have "\<forall>j\<in>{0..<36}. if j \<in> set [8, 13, 18, 23] then i ! j = CHR ''-'' else is_hex (i ! j)"
    by (simp only: list_all_iff set_upt)
  then have "if k \<in> set [8, 13, 18, 23] then i ! k = CHR ''-'' else is_hex (i ! k)" using k(1) p(1) by simp
  then show False using k(2) \<open>\<not> is_hex CHR ''.''\<close> by (simp split: if_splits)
qed

lemma parse_issued_challenge:
  assumes "uuid_v4 (cd_id d)"
  shows "parse_opaque env (io_plainText (issue_opaque env d)) = Some (cd_id d, io_hash (issue_opaque env d))"
proof -
  have "takeWhile (\<lambda>c. c \<noteq> CHR ''.'') (cd_id d @ ''.'' @ cd_secret d) = cd_id d"
    using no_dot_in_uuid [OF assms] by (subst takeWhile_append2) (simp_all, metis)
  moreover have "length (cd_id d) = 36" using assms by (simp add: uuid_v4_def uuid_pattern_def)
  ultimately show ?thesis using assms by (auto simp: parse_opaque_def issue_opaque_def Let_def)
qed

text \<open>The draw of a call is fresh: no row has its id or the digest of its token.\<close>

definition fresh_challenge :: "auth_env \<Rightarrow> call_draw \<Rightarrow> account_store \<Rightarrow> bool" where
  "fresh_challenge env d s \<longleftrightarrow> \<not> list_ex (\<lambda>c. same_uuid (pc_id c) (cd_id d) \<or>
     pc_tokenHash c = io_hash (issue_opaque env d)) (as_challenges s)"

definition fresh_token :: "auth_env \<Rightarrow> call_draw \<Rightarrow> account_store \<Rightarrow> bool" where
  "fresh_token env d s \<longleftrightarrow> \<not> list_ex (\<lambda>t. same_uuid (rt_id t) (cd_id d) \<or>
     rt_tokenHash t = io_hash (issue_opaque env d)) (as_refreshTokens s)"

definition invited :: "account_store \<Rightarrow> string \<Rightarrow> account \<Rightarrow> bool" where
  "invited s n u \<longleftrightarrow> find (has_login n) (as_users s) = Some u \<and> us_status u = US_active \<and> us_isActive u \<and>
     us_mustChangePassword u \<and> us_companyId u \<in> set (as_activeCompanies s)"

definition first_challenge :: "auth_env \<Rightarrow> call_draw \<Rightarrow> account \<Rightarrow> challenge" where
  "first_challenge env d u = challenge_row (issue_opaque env d) (us_companyId u) (us_id u) First_access
     (cd_now d + ae_passwordChangeTtlMinutes env * 60000) (cd_now d)"

definition challenged :: "auth_env \<Rightarrow> call_draw \<Rightarrow> account \<Rightarrow> account_store \<Rightarrow> account_store" where
  "challenged env d u s = s\<lparr>as_challenges := update_where (is_open_challenge_of (us_companyId u) (us_id u)) (consume (cd_now d))
     (as_challenges s) @ [first_challenge env d u]\<rparr>"

lemma first_login:
  assumes "invited s (normalizeLoginIdentifier (li_identifier input)) u"
    and "ae_compare env (li_password input) (us_passwordHash u)" and "fresh_challenge env d s"
    and "u \<in> set (as_users s)"
  shows "AuthenticateUseCase env d input s = (Inl (Refused (setup_required
      \<lparr>px_challengeToken = io_plainText (issue_opaque env d), px_reason = First_access,
       px_expiresAt = cd_now d + ae_passwordChangeTtlMinutes env * 60000\<rparr>)), challenged env d u s)"
proof -
  let ?c = "first_challenge env d u"
  let ?s = "set_challenges (is_open_challenge_of (us_companyId u) (us_id u)) (consume (cd_now d)) s"
  have "\<not> list_ex (\<lambda>r. same_uuid (pc_id r) (pc_id ?c) \<or> pc_tokenHash r = pc_tokenHash ?c) (as_challenges ?s)"
    using assms(3) by (auto simp: fresh_challenge_def list_ex_iff set_update_where first_challenge_def challenge_row_def
        consume_def issue_opaque_def Let_def)
  moreover have "user_row_of (pc_companyId ?c) (pc_userId ?c) ?s \<noteq> None"
    using assms(4) by (intro user_row_of_not_None) (simp_all add: first_challenge_def challenge_row_def is_user_def)
  ultimately have r: "replaceForUser ?c s = (Inr (), challenged env d u s)"
    by (simp add: replaceForUser_def transaction_op_def insert_challenge_def challenged_def first_challenge_def challenge_row_def
        set_challenges_def)
  then show ?thesis
    using assms(1,2)
    by (simp add: AuthenticateUseCase_def bind_op_def login_active invited_def mapUserRecord_def Let_def return_op_def
        issuePasswordChangeChallenge_def first_challenge_def)
qed

lemma user_row_of_unique:
  "accounts_ok s \<Longrightarrow> u \<in> set (as_users s) \<Longrightarrow> user_row_of (us_companyId u) (us_id u) s = Some u"
  unfolding user_row_of_def by (rule ok_find_user [where u = u]) (simp_all add: is_user_def)

lemma complete_first:
  fixes env d d' u s p
  defines "c \<equiv> first_challenge env d u" and "x \<equiv> \<lparr>co_companyId = us_companyId u, co_userId = us_id u,
     co_challengeId = cd_id d, co_passwordHash = p, co_changedAt = cd_now d'\<rparr>"
  assumes ok: "accounts_ok s" and u: "u \<in> set (as_users s)" "us_mustChangePassword u"
    and c: "c \<in> set (as_challenges s)" "cd_now d' < pc_expiresAt c"
  shows "fst (complete_challenge x at s) = Inr True"
    and "as_users (snd (complete_challenge x at s)) = update_where
      (\<lambda>v. is_user (us_companyId u) (us_id u) v \<and> us_mustChangePassword v) (with_new_password p at) (as_users s)"
    and "as_activeCompanies (snd (complete_challenge x at s)) = as_activeCompanies s"
    and "map (\<lambda>t. (rt_id t, rt_tokenHash t)) (as_refreshTokens (snd (complete_challenge x at s))) =
      map (\<lambda>t. (rt_id t, rt_tokenHash t)) (as_refreshTokens s)"
proof -
  have cx: "is_completed_by x c"
    using c(2) by (simp add: is_completed_by_def x_def c_def first_challenge_def challenge_row_def issue_opaque_def Let_def same_uuid_def)
  have only: "y = c" if "y \<in> set (as_challenges s)" "is_completed_by x y" for y
    using ok_unique_challenge [OF ok that(1) c(1)] that(2) cx by (simp add: is_completed_by_def same_uuid_def)
  have f: "find (is_completed_by x) (as_challenges s) = Some c" using c(1) cx only by (rule find_the_only)
  have n: "count_where (is_completed_by x) (as_challenges s) = 1"
  proof (rule count_unique [of "\<lambda>c. to_lower (pc_id c)" _ c])
    show "distinct (map (\<lambda>c. to_lower (pc_id c)) (as_challenges s))" using ok by (simp add: accounts_ok_def)
  qed (rule c(1), rule cx, rule only)
  have r: "user_row_of (us_companyId u) (us_id u) s = Some u" using ok u(1) by (rule user_row_of_unique)
  have m: "count_where (\<lambda>v. is_user (us_companyId u) (us_id u) v \<and> us_mustChangePassword v) (as_users s) = 1"
  proof (rule count_unique [of us_id])
    fix v assume v: "v \<in> set (as_users s)" "is_user (us_companyId u) (us_id u) v \<and> us_mustChangePassword v"
    show "v = u" by (rule ok_unique [OF ok v(1) u(1)]) (use v(2) in \<open>simp add: is_user_def\<close>)
  qed (use ok u in \<open>simp_all add: accounts_ok_def is_user_def\<close>)
  have first: "pc_reason c = First_access" by (simp add: c_def first_challenge_def challenge_row_def)
  have x: "co_companyId x = us_companyId u" "co_userId x = us_id u" "co_passwordHash x = p" by (simp_all add: x_def)
  note defs = complete_challenge_def Let_def x f r first u(2) n m
  show "fst (complete_challenge x at s) = Inr True" by (simp add: defs)
  show "as_users (snd (complete_challenge x at s)) = update_where
      (\<lambda>v. is_user (us_companyId u) (us_id u) v \<and> us_mustChangePassword v) (with_new_password p at) (as_users s)"
    by (simp add: defs revoke_tokens_of_def)
  show "as_activeCompanies (snd (complete_challenge x at s)) = as_activeCompanies s"
    by (simp add: defs revoke_tokens_of_def)
  show "map (\<lambda>t. (rt_id t, rt_tokenHash t)) (as_refreshTokens (snd (complete_challenge x at s))) =
      map (\<lambda>t. (rt_id t, rt_tokenHash t)) (as_refreshTokens s)"
    by (simp add: defs revoke_tokens_of_def map_update_where)
qed

lemma link_completes:
  assumes ok: "accounts_ok s" and inv: "invited s n u" and u: "u \<in> set (as_users s)"
    and c: "find_challenge (cd_id d) s = Some (first_challenge env d u)"
    and uuid: "uuid_v4 (cd_id d)" and now: "cd_now d' < cd_now d + ae_passwordChangeTtlMinutes env * 60000"
    and reuse: "\<not> rejectsPasswordReuse env p (listPasswordHashes (us_companyId u) (us_id u) (ae_historyLimit env) s)"
  shows "\<exists>t. CompletePasswordChangeUseCase env d' (io_plainText (issue_opaque env d)) p s = (Inr True, t) \<and>
    as_users t = update_where (\<lambda>v. is_user (us_companyId u) (us_id u) v \<and> us_mustChangePassword v)
      (with_new_password (ae_hash env (cd_salt d') p) (cd_writeAt d')) (as_users s) \<and>
    as_activeCompanies t = as_activeCompanies s \<and>
    map (\<lambda>t. (rt_id t, rt_tokenHash t)) (as_refreshTokens t) = map (\<lambda>t. (rt_id t, rt_tokenHash t)) (as_refreshTokens s)"
proof -
  let ?c = "first_challenge env d u"
  have row: "pc_id ?c = cd_id d" "pc_companyId ?c = us_companyId u" "pc_userId ?c = us_id u" "pc_consumedAt ?c = None"
    "pc_expiresAt ?c = cd_now d + ae_passwordChangeTtlMinutes env * 60000" "pc_tokenHash ?c = io_hash (issue_opaque env d)"
    "pc_reason ?c = First_access"
    by (simp_all add: first_challenge_def challenge_row_def issue_opaque_def Let_def)
  have o: "open_change_challenge env (io_plainText (issue_opaque env d)) (cd_now d') s = Some ?c"
    using parse_issued_challenge [OF uuid] c now by (simp add: open_change_challenge_def row matches_hash_def)
  have mem: "?c \<in> set (as_challenges s)" using c by (auto simp: find_challenge_def find_Some_iff in_set_conv_nth)
  have i: "us_status u = US_active" "us_isActive u" "us_mustChangePassword u" "us_companyId u \<in> set (as_activeCompanies s)"
    "us_deletedAt u = None"
    using inv by (auto simp: invited_def find_Some_iff has_login_def)
  have f: "findById (us_companyId u) (us_id u) (cd_readAt d') s = (Inr (Some (mapUserRecord s u)), s)"
    using ok u i(5) i(1) by (rule findById_active)
  have may: "may_complete ?c (mapUserRecord s u)" using i by (simp add: may_complete_def mapUserRecord_def)
  note cf = complete_first [OF ok u i(3) mem, of d' "ae_hash env (cd_salt d') p" "cd_writeAt d'"]
  let ?x = "\<lparr>co_companyId = us_companyId u, co_userId = us_id u, co_challengeId = cd_id d,
      co_passwordHash = ae_hash env (cd_salt d') p, co_changedAt = cd_now d'\<rparr>"
  obtain t where t: "complete_challenge ?x (cd_writeAt d') s = (Inr True, t)"
    using cf(1) now by (cases "complete_challenge ?x (cd_writeAt d') s") (simp add: row)
  show ?thesis
    using cf(2-4) now
    by (simp add: CompletePasswordChangeUseCase_def o bind_op_def row f may reuse t return_op_def create_audit_log_def)
qed

lemma login_opens_session:
  assumes f: "find (has_login (normalizeLoginIdentifier (li_identifier input))) (as_users s) = Some u"
    and u: "us_status u = US_active" "us_isActive u" "\<not> us_mustChangePassword u" "us_companyId u \<in> set (as_activeCompanies s)"
    and p: "ae_compare env (li_password input) (us_passwordHash u)" and fresh: "fresh_token env d s"
  shows "\<exists>out. fst (AuthenticateUseCase env d input s) = Inr out \<and> us_id (uc_user (so_user out)) = us_id u"
proof -
  have mem: "u \<in> set (as_users s)" using f by (auto simp: find_Some_iff in_set_conv_nth)
  have r: "user_row_of (us_companyId u) (us_id u) s \<noteq> None" using mem by (rule user_row_of_not_None) (simp add: is_user_def)
  have "insert_token (token_row (issue_opaque env d) (us_companyId u) (us_id u) b e n) s =
      Inr (s\<lparr>as_refreshTokens := as_refreshTokens s @ [token_row (issue_opaque env d) (us_companyId u) (us_id u) b e n]\<rparr>)" for b e n
    using fresh r by (auto simp: insert_token_def token_row_def fresh_token_def issue_opaque_def Let_def list_ex_iff)
  moreover have "user_row_of (us_companyId u) (us_id u) (s\<lparr>as_refreshTokens := l\<rparr>) \<noteq> None" for l
    using r by (simp add: user_row_of_def)
  ultimately show ?thesis
    using u p
    by (simp add: AuthenticateUseCase_def bind_op_def login_active [OF f] mapUserRecord_def Let_def return_op_def both_op_def
        create_token_def transaction_op_def markLastLogin_def update_user_def session_of_def)
qed

lemma find_challenge_snoc:
  "\<not> list_ex (\<lambda>c. same_uuid (pc_id c) i) cs \<Longrightarrow> same_uuid (pc_id c) i \<Longrightarrow> find (\<lambda>c. same_uuid (pc_id c) i) (cs @ [c]) = Some c"
  by (induction cs) auto

lemma challenged_facts:
  fixes input :: login_input
  assumes "accounts_ok s" and "invited s (normalizeLoginIdentifier (li_identifier input)) u"
    and "ae_compare env (li_password input) (us_passwordHash u)" and "fresh_challenge env d s"
    and u: "u \<in> set (as_users s)"
  shows "accounts_ok (challenged env d u s)"
    and "find_challenge (cd_id d) (challenged env d u s) = Some (first_challenge env d u)"
proof -
  have "accounts_step s (challenged env d u s)"
    using step_after_call [OF assms(1), of env "Log_in d input"] first_login [OF assms(2-5)] by simp
  then show "accounts_ok (challenged env d u s)" using assms(1) by (simp add: accounts_step_def)
  show "find_challenge (cd_id d) (challenged env d u s) = Some (first_challenge env d u)"
    using assms(4) unfolding find_challenge_def challenged_def
    by (simp, intro find_challenge_snoc)
      (auto simp: fresh_challenge_def list_ex_iff set_update_where consume_def first_challenge_def challenge_row_def
        issue_opaque_def Let_def same_uuid_def)
qed

lemma has_login_new_password: "has_login n (with_new_password p at u) = has_login n u"
  by (simp add: has_login_def with_new_password_def)

lemma list_ex_fresh:
  assumes "map (\<lambda>t. (rt_id t, rt_tokenHash t)) ts = map (\<lambda>t. (rt_id t, rt_tokenHash t)) rs"
  shows "list_ex (\<lambda>t. same_uuid (rt_id t) i \<or> rt_tokenHash t = h) ts = list_ex (\<lambda>t. same_uuid (rt_id t) i \<or> rt_tokenHash t = h) rs"
proof -
  have l: "list_ex (\<lambda>t. same_uuid (rt_id t) i \<or> rt_tokenHash t = h) l =
      list_ex (\<lambda>p. same_uuid (fst p) i \<or> snd p = h) (map (\<lambda>t. (rt_id t, rt_tokenHash t)) l)" for l
    by (induction l) simp_all
  show ?thesis unfolding l [of ts] l [of rs] assms by (rule refl)
qed

section \<open>A sample tenant\<close>

definition sample_hex :: "string \<Rightarrow> string" where
  "sample_hex t = concat (map (\<lambda>c. [''0123456789abcdef'' ! (code c div 16), ''0123456789abcdef'' ! (code c mod 16)]) t)"

definition auth_sample_env :: auth_env where
  "auth_sample_env = \<lparr>ae_compare = (\<lambda>p h. h = ''h'' @ p), ae_hash = (\<lambda>salt p. ''h'' @ p), ae_sha256 = sample_hex,
     ae_sign = (\<lambda>at c. ''v'' @ nat_text (nat (the (tc_tokenVersion c)))),
     ae_verify = (\<lambda>at t. if take 1 t = ''v'' then Some \<lparr>tc_type = Some ''access'', tc_sub = Some ''u1'',
       tc_companyId = Some ''c1'', tc_tokenVersion = Some (digit_val (t ! 1))\<rparr> else None),
     ae_resetUrl = (\<lambda>t. ''https://lume/?token='' @ t), ae_license = Some ''c1'', ae_expiresInSeconds = 900,
     ae_refreshTtlDays = 7, ae_rememberRefreshTtlDays = 30, ae_passwordChangeTtlMinutes = 15, ae_historyLimit = 3,
     ae_notifierConfigured = True\<rparr>"

definition sample_account :: "string \<Rightarrow> bool \<Rightarrow> bool \<Rightarrow> account" where
  "sample_account i adm must = \<lparr>us_id = i, us_companyId = ''c1'', us_routingCompanyId = None, us_name = i, us_username = i,
     us_usernameNormalized = i, us_email = i @ ''@x'', us_emailNormalized = i @ ''@x'', us_cpfNormalized = None,
     us_passwordHash = ''hold'', us_mustChangePassword = must, us_profilePictureMime = None, us_isAdministrator = adm,
     us_documentAccessMode = DA_standard, us_clientCategory = None, us_jobTitle = None, us_maritalStatus = None,
     us_militaryDocumentStatus = MS_pending_confirmation, us_dependents = [], us_departments = [], us_permissionCodes = [],
     us_status = US_active, us_suspendedUntil = None, us_suspensionReason = None, us_isActive = True, us_version = 1,
     us_tokenVersion = 1, us_lastLoginAt = None, us_createdAt = 0, us_updatedAt = 0, us_deletedAt = None\<rparr>"

definition sample_accounts :: account_store where
  "sample_accounts = \<lparr>as_users = [sample_account ''u1'' True False, sample_account ''u2'' True True], as_refreshTokens = [],
     as_challenges = [], as_passwordHistory = [], as_audit = [], as_outbox = [], as_activeCompanies = [''c1'']\<rparr>"

definition sample_uuid_text :: "char \<Rightarrow> string" where
  "sample_uuid_text c = ''00000000-0000-4000-8000-00000000000'' @ [c]"

definition sample_draw :: "char \<Rightarrow> int \<Rightarrow> call_draw" where
  "sample_draw c at = \<lparr>cd_id = sample_uuid_text c, cd_secret = ''s'', cd_salt = [], cd_readAt = at, cd_now = at,
     cd_writeAt = at, cd_delivery = None\<rparr>"

definition sample_raw :: "char \<Rightarrow> string" where
  "sample_raw c = sample_uuid_text c @ ''.s''"

definition sample_login :: "string \<Rightarrow> string \<Rightarrow> login_input" where
  "sample_login i p = \<lparr>li_identifier = i, li_password = p, li_remember = False\<rparr>"

lemma sample_accounts_ok: "accounts_ok sample_accounts"
  by code_simp

definition sample_login_store :: account_store where
  "sample_login_store = after_call auth_sample_env (Log_in (sample_draw CHR ''1'' 1000) (sample_login ''u1'' ''old'')) sample_accounts"

lemma sample_logged_in: "as_refreshTokens sample_login_store = [\<lparr>rt_id = sample_uuid_text CHR ''1'', rt_companyId = ''c1'',
    rt_userId = ''u1'', rt_tokenHash = sample_hex (sample_raw CHR ''1''), rt_rememberDevice = False,
    rt_expiresAt = 604801000, rt_revokedAt = None, rt_createdAt = 1000\<rparr>]"
  by code_simp

definition auth_sample_run :: "account_call list" where
  "auth_sample_run = [Log_in (sample_draw CHR ''1'' 1000) (sample_login ''u1'' ''old'')]"

definition sample_session :: refresh_token where
  "sample_session = \<lparr>rt_id = sample_uuid_text CHR ''1'', rt_companyId = ''c1'',
    rt_userId = ''u1'', rt_tokenHash = sample_hex (sample_raw CHR ''1''), rt_rememberDevice = False,
    rt_expiresAt = 604801000, rt_revokedAt = None, rt_createdAt = 1000\<rparr>"

lemma sample_session_row:
  "sample_session \<in> set (as_refreshTokens (after_account_calls auth_sample_env auth_sample_run sample_accounts))"
  "rt_revokedAt sample_session = None" "rt_companyId sample_session = ''c1''" "rt_userId sample_session = ''u1''"
  using sample_logged_in
  by (simp_all add: sample_session_def auth_sample_run_def after_account_calls_def sample_login_store_def)

lemma sample_login_ok: "accounts_ok sample_login_store"
  using accounts_ok_later [OF sample_accounts_ok, of auth_sample_env auth_sample_run]
  by (simp add: auth_sample_run_def after_account_calls_def sample_login_store_def)

definition sample_change :: own_change where
  "sample_change = \<lparr>oc_companyId = ''c1'', oc_userId = ''u1'', oc_currentPassword = ''old'', oc_newPassword = ''new''\<rparr>"

definition sample_deletion :: actor_request where
  "sample_deletion = \<lparr>aq_companyId = ''c1'', aq_actorUserId = ''u1'', aq_userId = ''u2''\<rparr>"

lemma sample_refreshed:
  "\<exists>out. fst (RefreshSessionUseCase auth_sample_env (sample_draw CHR ''2'' 2000) (sample_raw CHR ''1'') sample_login_store) = Inr out"
proof -
  have "\<not> isl (fst (RefreshSessionUseCase auth_sample_env (sample_draw CHR ''2'' 2000) (sample_raw CHR ''1'') sample_login_store))"
    by code_simp
  then show ?thesis by (metis isl_def sum.exhaust)
qed

definition sample_link_store :: account_store where
  "sample_link_store = after_call auth_sample_env (Forgot (sample_draw CHR ''1'' 1000) ''u1'') sample_accounts"

lemma sample_link_ok: "accounts_ok sample_link_store"
  using step_after_call [OF sample_accounts_ok, of auth_sample_env "Forgot (sample_draw CHR ''1'' 1000) ''u1''"] sample_accounts_ok
  by (simp add: accounts_step_def sample_link_store_def)

text \<open>
  A change of one's own password leaves the links of the user open: a link requested before it still
  sets another password after it. The use of a link and a deletion close every other link.
\<close>

theorem own_change_leaves_links_open:
  "map fst [ChangeOwnPasswordUseCase auth_sample_env (sample_draw CHR ''2'' 2000) sample_change sample_link_store,
     CompletePasswordChangeUseCase auth_sample_env (sample_draw CHR ''3'' 3000) (sample_raw CHR ''1'') ''newer''
       (after_call auth_sample_env (Change_own (sample_draw CHR ''2'' 2000) sample_change) sample_link_store)] = [Inr True, Inr True]"
  by code_simp

text \<open>
  The links an administrator's request replaced are found again by the instant of the request: a link
  used in that millisecond is opened again when the mail fails.
\<close>

theorem failed_mail_reopens_used_link:
  "map fst [CompletePasswordChangeUseCase auth_sample_env (sample_draw CHR ''2'' 2000) (sample_raw CHR ''1'') ''new'' sample_link_store,
     CompletePasswordChangeUseCase auth_sample_env (sample_draw CHR ''4'' 4000) (sample_raw CHR ''1'') ''newer''
       (after_account_calls auth_sample_env [Use_link (sample_draw CHR ''2'' 2000) (sample_raw CHR ''1'') ''new'',
         Reset_by_administrator ((sample_draw CHR ''3'' 2000)\<lparr>cd_delivery := Some Not_an_error\<rparr>)
           \<lparr>aq_companyId = ''c1'', aq_actorUserId = ''u2'', aq_userId = ''u1''\<rparr>] sample_link_store)] = [Inr True, Inr True]"
  by code_simp

section \<open>Properties\<close>

text \<open>C0. Sessions belong to usable accounts: along any run of logins, refreshes, password changes, status
  changes and deletions, a refresh token that is not revoked belongs to an account that is not
  deleted, is active and need not change its password.\<close>

theorem sessions_belong_to_usable_accounts:
  assumes "accounts_ok s" and "t \<in> set (as_refreshTokens (after_account_calls env cs s))" and "rt_revokedAt t = None"
  shows "\<exists>u\<in>set (as_users (after_account_calls env cs s)). us_companyId u = rt_companyId t \<and> us_id u = rt_userId t \<and>
    us_deletedAt u = None \<and> us_isActive u \<and> us_status u = US_active \<and> \<not> us_mustChangePassword u"
  using accounts_ok_later [OF assms(1), of env cs] assms(2,3)
  by (fastforce simp: accounts_ok_def list_all_iff token_session_ok_def list_ex_iff is_user_def usable_def)

lemma sessions_belong_to_usable_accounts_witness:
  "\<exists>u\<in>set (as_users (after_account_calls auth_sample_env auth_sample_run sample_accounts)). us_companyId u = ''c1'' \<and> us_id u = ''u1'' \<and>
    us_deletedAt u = None \<and> us_isActive u \<and> us_status u = US_active \<and> \<not> us_mustChangePassword u"
  using sessions_belong_to_usable_accounts [OF sample_accounts_ok sample_session_row(1)] sample_session_row by simp



text \<open>C0. A refresh token opens one session: once it was exchanged, or its session was closed by a logout,
  it is refused by every later call, whatever runs in between.\<close>

theorem refresh_token_used_once:
  assumes "accounts_ok s" and "accepted_token env raw (cd_now d) s \<noteq> None"
    and "call = Log_out d raw \<or> call = Refresh d raw \<and> fst (RefreshSessionUseCase env d raw s) = Inr out"
  shows "fst (RefreshSessionUseCase env d' raw (after_account_calls env (call # cs) s)) = Inl (Refused invalidRefreshToken)"
proof -
  have "\<exists>i h. parse_opaque env raw = Some (i, h) \<and> dead_token i (after_call env call s)"
    using assms(3)
  proof
    assume "call = Log_out d raw"
    then show ?thesis using assms(2) logout_kills by (metis after_call.simps(3) option.exhaust)
  next
    assume "call = Refresh d raw \<and> fst (RefreshSessionUseCase env d raw s) = Inr out"
    then show ?thesis using refresh_kills by (metis after_call.simps(2) prod.collapse)
  qed
  then obtain i h where i: "parse_opaque env raw = Some (i, h)" "dead_token i (after_call env call s)" by blast
  have ok: "accounts_ok (after_call env call s)" using step_after_call [OF assms(1)] assms(1) by (simp add: accounts_step_def)
  have "dead_token i (after_account_calls env (call # cs) s)"
    using dead_token_later [OF step_after_account_calls [OF ok] i(2)] by (simp add: after_account_calls_def)
  with dead_token_refused [OF accounts_ok_later [OF assms(1)]] i(1) show ?thesis by simp
qed

lemma refresh_token_used_once_witness:
  "fst (RefreshSessionUseCase auth_sample_env (sample_draw CHR ''3'' 3000) (sample_raw CHR ''1'')
     (after_account_calls auth_sample_env (Refresh (sample_draw CHR ''2'' 2000) (sample_raw CHR ''1'') # []) sample_login_store)) =
   Inl (Refused invalidRefreshToken)"
proof -
  have "accepted_token auth_sample_env (sample_raw CHR ''1'') (cd_now (sample_draw CHR ''2'' 2000)) sample_login_store \<noteq> None"
    by code_simp
  moreover obtain out where "fst (RefreshSessionUseCase auth_sample_env (sample_draw CHR ''2'' 2000) (sample_raw CHR ''1'') sample_login_store) = Inr out"
    using sample_refreshed by blast
  ultimately show ?thesis by (intro refresh_token_used_once [OF sample_login_ok]) auto
qed

text \<open>C0. A change of password ends every session of the user: after it, in every later store, the refresh
  tokens the user had are refused and the guard refuses the access tokens signed before.\<close>

theorem password_change_ends_sessions:
  assumes "accounts_ok s" and "password_changed_for env call s = Some (c, i)"
    and "u \<in> set (as_users s)" and "us_companyId u = c" and "us_id u = i"
    and "parse_opaque env raw = Some (j, h)" and "find_token j s = Some r" and "rt_companyId r = c" and "rt_userId r = i"
    and "verify_access env at token = Some p" and "ap_companyId p = c" and "ap_sub p = i"
    and "ap_tokenVersion p \<le> us_tokenVersion u"
  shows "fst (RefreshSessionUseCase env d raw (after_account_calls env (call # cs) s)) = Inl (Refused invalidRefreshToken) \<and>
    fst (jwtAuthGuard env at False (Some (''Bearer '' @ token)) (after_account_calls env (call # cs) s)) =
      Inl ''invalid-access-token''"
proof -
  have ok: "accounts_ok (after_call env call s)" using step_after_call [OF assms(1)] assms(1) by (simp add: accounts_step_def)
  have e: "ends_sessions c i s (after_account_calls env (call # cs) s)"
    using ends_sessions_later [OF password_changed_ends [OF assms(1,2)] step_after_account_calls [OF ok]]
    by (simp add: after_account_calls_def)
  have l: "accounts_ok (after_account_calls env (call # cs) s)" using assms(1) by (rule accounts_ok_later)
  have "is_user c i u" using assms(4,5) by (simp add: is_user_def)
  then show ?thesis
    using ended_refresh_refused [OF e l assms(6-9)] ended_access_refused [OF e l assms(3) _ assms(10-13)] by simp
qed

lemma password_change_ends_sessions_witness:
  "fst (RefreshSessionUseCase auth_sample_env (sample_draw CHR ''3'' 3000) (sample_raw CHR ''1'')
     (after_account_calls auth_sample_env (Change_own (sample_draw CHR ''2'' 2000) sample_change # []) sample_login_store)) =
     Inl (Refused invalidRefreshToken) \<and>
   fst (jwtAuthGuard auth_sample_env 3000 False (Some (''Bearer '' @ ''v1''))
     (after_account_calls auth_sample_env (Change_own (sample_draw CHR ''2'' 2000) sample_change # []) sample_login_store)) =
     Inl ''invalid-access-token''"
proof (rule password_change_ends_sessions [OF sample_login_ok])
  show "password_changed_for auth_sample_env (Change_own (sample_draw CHR ''2'' 2000) sample_change) sample_login_store = Some (''c1'', ''u1'')"
    by code_simp
  show "hd (as_users sample_login_store) \<in> set (as_users sample_login_store)" by code_simp
  show "us_companyId (hd (as_users sample_login_store)) = ''c1''" by code_simp
  show "us_id (hd (as_users sample_login_store)) = ''u1''" by code_simp
  show "parse_opaque auth_sample_env (sample_raw CHR ''1'') = Some (sample_uuid_text CHR ''1'', sample_hex (sample_raw CHR ''1''))"
    by code_simp
  show "find_token (sample_uuid_text CHR ''1'') sample_login_store = Some (hd (as_refreshTokens sample_login_store))" by code_simp
  show "rt_companyId (hd (as_refreshTokens sample_login_store)) = ''c1''" by code_simp
  show "rt_userId (hd (as_refreshTokens sample_login_store)) = ''u1''" by code_simp
  show "verify_access auth_sample_env 3000 ''v1'' = Some \<lparr>ap_sub = ''u1'', ap_companyId = ''c1'', ap_tokenVersion = 1\<rparr>" by code_simp
  show "ap_tokenVersion \<lparr>ap_sub = ''u1'', ap_companyId = ''c1'', ap_tokenVersion = 1\<rparr> \<le> us_tokenVersion (hd (as_users sample_login_store))"
    by code_simp
qed simp_all


text \<open>C0. A link changes one password: once it was used it is refused by every later call, except after the
  failed mail of an administrator's reset requested in the very millisecond of its use.\<close>

theorem password_link_used_once:
  assumes "accounts_ok s" and "fst (CompletePasswordChangeUseCase env d token password s) = Inr x"
    and "\<not> list_ex (fails_at (cd_now d)) cs"
  shows "fst (CompletePasswordChangeUseCase env d' token password'
    (after_account_calls env (Use_link d token password # cs) s)) = Inl (Refused invalidChangeToken)"
proof -
  let ?t = "snd (CompletePasswordChangeUseCase env d token password s)"
  have "CompletePasswordChangeUseCase env d token password s = (Inr x, ?t)" using assms(2) by (simp add: prod_eq_iff)
  then obtain i h where i: "parse_opaque env token = Some (i, h)" "link_used i (cd_now d) ?t"
    using Complete_uses_link [OF assms(1)] by blast
  have "list_all (\<lambda>c. \<not> fails_at (cd_now d) c) cs" using assms(3) by (auto simp: list_all_iff list_ex_iff)
  with i(2) have "link_used i (cd_now d) (after_account_calls env cs ?t)"
    using links_after_calls [of "cd_now d" cs i ?t env] by (simp add: link_stays_def)
  with used_link_refused i(1) show ?thesis by (simp add: after_account_calls_def)
qed

lemma password_link_used_once_witness:
  "fst (CompletePasswordChangeUseCase auth_sample_env (sample_draw CHR ''3'' 3000) (sample_raw CHR ''1'') ''newer''
     (after_account_calls auth_sample_env (Use_link (sample_draw CHR ''2'' 2000) (sample_raw CHR ''1'') ''new'' # []) sample_link_store)) =
   Inl (Refused invalidChangeToken)"
proof (rule password_link_used_once [OF sample_link_ok])
  show "fst (CompletePasswordChangeUseCase auth_sample_env (sample_draw CHR ''2'' 2000) (sample_raw CHR ''1'') ''new'' sample_link_store) = Inr True"
    by code_simp
  show "\<not> list_ex (fails_at (cd_now (sample_draw CHR ''2'' 2000))) []" by simp
qed

text \<open>C0. The first access leads to a session: a user with a temporary password is refused a session and gets
  a link; within its time the link accepts any password that is not one of the last ones, and with
  that password the user logs in.\<close>

theorem first_access_leads_to_session:
  assumes "accounts_ok s" and "u \<in> set (as_users s)" and "invited s (normalizeLoginIdentifier n) u"
    and "ae_compare env temporary (us_passwordHash u)"
    and "uuid_v4 (cd_id d)" and "fresh_challenge env d s" and "fresh_token env d'' s"
    and "cd_now d' < cd_now d + ae_passwordChangeTtlMinutes env * 60000"
    and "\<not> rejectsPasswordReuse env p (listPasswordHashes (us_companyId u) (us_id u) (ae_historyLimit env) s)"
    and "ae_compare env p (ae_hash env (cd_salt d') p)"
  shows "\<exists>link s1 s2 out.
    AuthenticateUseCase env d \<lparr>li_identifier = n, li_password = temporary, li_remember = b\<rparr> s =
      (Inl (Refused (setup_required link)), s1) \<and>
    CompletePasswordChangeUseCase env d' (px_challengeToken link) p s1 = (Inr True, s2) \<and>
    fst (AuthenticateUseCase env d'' \<lparr>li_identifier = n, li_password = p, li_remember = b\<rparr> s2) = Inr out \<and>
    us_id (uc_user (so_user out)) = us_id u"
proof -
  let ?in = "\<lparr>li_identifier = n, li_password = temporary, li_remember = b\<rparr>"
  let ?link = "\<lparr>px_challengeToken = io_plainText (issue_opaque env d), px_reason = First_access,
       px_expiresAt = cd_now d + ae_passwordChangeTtlMinutes env * 60000\<rparr>"
  let ?s1 = "challenged env d u s"
  have a: "AuthenticateUseCase env d ?in s = (Inl (Refused (setup_required ?link)), ?s1)"
    by (rule first_login) (use assms in simp_all)
  have s1: "accounts_ok ?s1" "find_challenge (cd_id d) ?s1 = Some (first_challenge env d u)"
    using challenged_facts [of s ?in u env d] assms by simp_all
  have us: "as_users ?s1 = as_users s" "as_refreshTokens ?s1 = as_refreshTokens s" "as_activeCompanies ?s1 = as_activeCompanies s"
    "as_passwordHistory ?s1 = as_passwordHistory s" by (simp_all add: challenged_def)
  have inv: "invited ?s1 (normalizeLoginIdentifier n) u" and "u \<in> set (as_users ?s1)"
    using assms(2,3) by (simp_all add: invited_def us)
  moreover have "\<not> rejectsPasswordReuse env p (listPasswordHashes (us_companyId u) (us_id u) (ae_historyLimit env) ?s1)"
    using assms(9) by (simp add: listPasswordHashes_def user_row_of_def history_of_def us cong: option.case_cong)
  ultimately obtain s2 where s2: "CompletePasswordChangeUseCase env d' (io_plainText (issue_opaque env d)) p ?s1 = (Inr True, s2)"
    "as_users s2 = update_where (\<lambda>v. is_user (us_companyId u) (us_id u) v \<and> us_mustChangePassword v)
      (with_new_password (ae_hash env (cd_salt d') p) (cd_writeAt d')) (as_users s)"
    "as_activeCompanies s2 = as_activeCompanies s"
    "map (\<lambda>t. (rt_id t, rt_tokenHash t)) (as_refreshTokens s2) = map (\<lambda>t. (rt_id t, rt_tokenHash t)) (as_refreshTokens s)"
    using link_completes [OF s1(1) _ _ s1(2) assms(5,8)] by (auto simp: us)
  let ?v = "with_new_password (ae_hash env (cd_salt d') p) (cd_writeAt d') u"
  have f: "find (has_login (normalizeLoginIdentifier n)) (as_users s2) = Some ?v"
    using assms(3) by (simp add: s2(2) find_update_where has_login_new_password invited_def is_user_def)
  have "fresh_token env d'' s2"
    using assms(7) unfolding fresh_token_def list_ex_fresh [OF s2(4)] .
  then have "\<exists>out. fst (AuthenticateUseCase env d'' \<lparr>li_identifier = n, li_password = p, li_remember = b\<rparr> s2) = Inr out \<and>
      us_id (uc_user (so_user out)) = us_id ?v"
    by (intro login_opens_session) (use f assms(3,10) s2(3) in \<open>simp_all add: invited_def with_new_password_def\<close>)
  then show ?thesis using a s2(1) by (auto simp: with_new_password_def)
qed

lemma first_access_leads_to_session_witness:
  "\<exists>link s1 s2 out.
    AuthenticateUseCase auth_sample_env (sample_draw CHR ''1'' 1000) \<lparr>li_identifier = ''u2'', li_password = ''old'', li_remember = True\<rparr>
      sample_accounts = (Inl (Refused (setup_required link)), s1) \<and>
    CompletePasswordChangeUseCase auth_sample_env (sample_draw CHR ''2'' 2000) (px_challengeToken link) ''new'' s1 = (Inr True, s2) \<and>
    fst (AuthenticateUseCase auth_sample_env (sample_draw CHR ''3'' 3000)
      \<lparr>li_identifier = ''u2'', li_password = ''new'', li_remember = True\<rparr> s2) = Inr out \<and>
    us_id (uc_user (so_user out)) = us_id (sample_account ''u2'' True True)"
proof (rule first_access_leads_to_session [OF sample_accounts_ok])
  show "sample_account ''u2'' True True \<in> set (as_users sample_accounts)" by (simp add: sample_accounts_def)
  show "invited sample_accounts (normalizeLoginIdentifier ''u2'') (sample_account ''u2'' True True)"
    unfolding invited_def by (intro conjI; code_simp)
  show "ae_compare auth_sample_env ''old'' (us_passwordHash (sample_account ''u2'' True True))" by code_simp
  show "uuid_v4 (cd_id (sample_draw CHR ''1'' 1000))" by code_simp
  show "fresh_challenge auth_sample_env (sample_draw CHR ''1'' 1000) sample_accounts" by code_simp
  show "fresh_token auth_sample_env (sample_draw CHR ''3'' 3000) sample_accounts" by code_simp
  show "cd_now (sample_draw CHR ''2'' 2000) < cd_now (sample_draw CHR ''1'' 1000) + ae_passwordChangeTtlMinutes auth_sample_env * 60000"
    by code_simp
  show "\<not> rejectsPasswordReuse auth_sample_env ''new'' (listPasswordHashes (us_companyId (sample_account ''u2'' True True))
      (us_id (sample_account ''u2'' True True)) (ae_historyLimit auth_sample_env) sample_accounts)" by code_simp
  show "ae_compare auth_sample_env ''new'' (ae_hash auth_sample_env (cd_salt (sample_draw CHR ''2'' 2000)) ''new'')" by code_simp
qed

end
