(* ===== verification/Odometer.thy ===== *)
theory Odometer
  imports Exact_Decimal JSON_Text "HOL-Library.AList"
begin

text \<open>
  The analysis of driver-reported odometer readings (\<open>domain/transport/odometer.ts\<close>): the checks
  of each record, the order of the records of a vehicle, the continuity between neighbours, and
  what the absence of an issue certifies.
  \<open>Date.parse\<close>, \<open>Number(text)\<close> and \<open>localeCompare\<close> are the parameters \<open>parse\<close>, \<open>nearest\<close> and \<open>locale\<close>.
\<close>

section \<open>Records and issues\<close>

record odometer_record =
  or_id :: string
  or_vehicleId :: string
  or_startedAt :: "string option"
  or_endedAt :: "string option"
  or_startKm :: "js_float option"
  or_endKm :: "js_float option"

datatype issue_code =
    NEGATIVE_DISTANCE | SUSPICIOUS_DISTANCE | ODOMETER_GAP | SUSPICIOUS_GAP | INCOMPLETE_READING
  | AMBIGUOUS_SEQUENCE | INCOMPLETE_SEQUENCE

primrec issue_code_str :: "issue_code \<Rightarrow> string" where
  "issue_code_str NEGATIVE_DISTANCE = ''NEGATIVE_DISTANCE''"
| "issue_code_str SUSPICIOUS_DISTANCE = ''SUSPICIOUS_DISTANCE''"
| "issue_code_str ODOMETER_GAP = ''ODOMETER_GAP''"
| "issue_code_str SUSPICIOUS_GAP = ''SUSPICIOUS_GAP''"
| "issue_code_str INCOMPLETE_READING = ''INCOMPLETE_READING''"
| "issue_code_str AMBIGUOUS_SEQUENCE = ''AMBIGUOUS_SEQUENCE''"
| "issue_code_str INCOMPLETE_SEQUENCE = ''INCOMPLETE_SEQUENCE''"

datatype verification_state = VS_verified | VS_pending

datatype context_value = CV_value decimal_value | CV_text string | CV_bool bool | CV_null

definition km_context :: "js_float option \<Rightarrow> context_value" where
  "km_context v = (case v of None \<Rightarrow> CV_null | Some x \<Rightarrow> CV_value (Value_number x))"

record odometer_issue =
  oi_stableKey :: string
  oi_code :: issue_code
  oi_recordId :: string
  oi_previousRecordId :: "string option"
  oi_verificationState :: verification_state
  oi_context :: "(string \<times> context_value) list"

text \<open>\<open>sequenceComplete\<close> is read as a truth value: a missing one is false.\<close>

record odometer_options =
  oo_maxTripKm :: "js_float option"
  oo_maxGapKm :: "js_float option"
  oo_sequenceComplete :: bool

record odometer_analysis =
  oa_issues :: "odometer_issue list"
  oa_evaluatedRecordIds :: "string list"
  oa_evaluatedChecks :: "(string \<times> issue_code list) list"

definition intrinsicCodes :: "issue_code list" where
  "intrinsicCodes = [NEGATIVE_DISTANCE, SUSPICIOUS_DISTANCE, INCOMPLETE_READING]"

definition sequenceCodes :: "issue_code list" where
  "sequenceCodes = [ODOMETER_GAP, SUSPICIOUS_GAP, AMBIGUOUS_SEQUENCE, INCOMPLETE_SEQUENCE]"

text \<open>The test \<open>/(?:Z|[+-]\d{2}:\d{2})$/i\<close>.\<close>

fun ends_in_zone :: "string \<Rightarrow> bool" where
  "ends_in_zone [] = False"
| "ends_in_zone [c] = (c = CHR ''Z'' \<or> c = CHR ''z'')"
| "ends_in_zone [s, a, b, t, c, d] =
     ((s = CHR ''+'' \<or> s = CHR ''-'') \<and> is_digit a \<and> is_digit b \<and> t = CHR '':'' \<and>
      is_digit c \<and> is_digit d \<or> ends_in_zone [a, b, t, c, d])"
| "ends_in_zone (_ # cs) = ends_in_zone cs"

definition instant :: "(string \<Rightarrow> int option) \<Rightarrow> string option \<Rightarrow> int option" where
  "instant parse value = (if falsy value \<or> \<not> ends_in_zone (the value) then None else parse (the value))"

definition reading :: "js_float option \<Rightarrow> bool" where
  "reading v = (case v of Some (Finite neg ds n) \<Rightarrow> \<not> neg | _ \<Rightarrow> False)"

section \<open>The state of the analysis\<close>

record analysis_state =
  as_issues :: "odometer_issue list"
  as_checks :: "(string \<times> issue_code list) list"
  as_groups :: "(string \<times> odometer_record list) list"

definition add_code :: "issue_code \<Rightarrow> issue_code list \<Rightarrow> issue_code list" where
  "add_code c cs = (if c \<in> set cs then cs else cs @ [c])"

definition mark :: "odometer_record \<Rightarrow> issue_code list \<Rightarrow> analysis_state \<Rightarrow> analysis_state" where
  "mark r codes s = s\<lparr>as_checks := AList.update (or_id r)
     (fold add_code codes (case map_of (as_checks s) (or_id r) of None \<Rightarrow> [] | Some cs \<Rightarrow> cs))
     (as_checks s)\<rparr>"

definition issue :: "odometer_record \<Rightarrow> issue_code \<Rightarrow> (string \<times> context_value) list \<Rightarrow> string option \<Rightarrow>
  verification_state \<Rightarrow> analysis_state \<Rightarrow> analysis_state" where
  "issue r c context previousRecordId state s = s\<lparr>as_issues := as_issues s @
     [\<lparr>oi_stableKey = CHR 0x5B # join_comma (map quote_json [or_vehicleId r, or_id r, issue_code_str c]) @ [CHR 0x5D],
       oi_code = c, oi_recordId = or_id r, oi_previousRecordId = previousRecordId,
       oi_verificationState = state, oi_context = context\<rparr>]\<rparr>"

section \<open>The checks of one record\<close>

definition do_if :: "bool \<Rightarrow> ('s \<Rightarrow> 's) \<Rightarrow> 's \<Rightarrow> 's" where
  "do_if c f s = (if c then f s else s)"

text \<open>The record enters the checks and the group of its vehicle, or is a duplicate.\<close>

definition register_record :: "odometer_record \<Rightarrow> analysis_state \<Rightarrow> string + analysis_state" where
  "register_record r s =
     (if map_of (as_checks s) (or_id r) \<noteq> None then Inl ''Duplicate odometer record ID''
      else
        (let rows = (case map_of (as_groups s) (or_vehicleId r) of None \<Rightarrow> [] | Some g \<Rightarrow> g) @ [r]
         in Inr (s\<lparr>as_checks := AList.update (or_id r) [] (as_checks s),
              as_groups := AList.update (or_vehicleId r) rows (as_groups s)\<rparr>)))"

definition distance_checks ::
  "(string \<Rightarrow> js_float) \<Rightarrow> odometer_options \<Rightarrow> odometer_record \<Rightarrow> analysis_state \<Rightarrow> analysis_state" where
  "distance_checks nearest options r s =
     (let s1 = mark r (filter (\<lambda>c. c \<noteq> SUSPICIOUS_DISTANCE \<or> oo_maxTripKm options \<noteq> None) intrinsicCodes) s;
          exactDistance = subtract (decimal (the (or_endKm r))) (decimal (the (or_startKm r)));
          distance = CV_value (decimalValue nearest exactDistance);
          s2 = do_if (ed_units exactDistance < 0) (issue r NEGATIVE_DISTANCE
            [(''startKm'', km_context (or_startKm r)), (''endKm'', km_context (or_endKm r)),
             (''distance'', distance)] None VS_verified) s1
      in case oo_maxTripKm options of None \<Rightarrow> s2
         | Some limit \<Rightarrow> do_if (exceeds exactDistance limit) (issue r SUSPICIOUS_DISTANCE
             [(''distance'', distance), (''thresholdKm'', km_context (Some limit))] None VS_verified) s2)"

definition record_step ::
  "(string \<Rightarrow> js_float) \<Rightarrow> odometer_options \<Rightarrow> odometer_record \<Rightarrow> analysis_state \<Rightarrow> string + analysis_state" where
  "record_step nearest options r s =
     rbind (register_record r s) (\<lambda>s0.
     let s1 = mark r [INCOMPLETE_READING] s0 in
     if \<not> reading (or_startKm r) \<or> \<not> reading (or_endKm r)
     then Inr (issue r INCOMPLETE_READING
       [(''startKm'', km_context (or_startKm r)), (''endKm'', km_context (or_endKm r))] None VS_pending s1)
     else Inr (distance_checks nearest options r s1))"

fun record_loop ::
  "(string \<Rightarrow> js_float) \<Rightarrow> odometer_options \<Rightarrow> odometer_record list \<Rightarrow> analysis_state \<Rightarrow> string + analysis_state" where
  "record_loop nearest options [] s = Inr s"
| "record_loop nearest options (r # rs) s =
     rbind (record_step nearest options r s) (record_loop nearest options rs)"

section \<open>The records of one vehicle\<close>

text \<open>\<open>(instant(a.startedAt) ?? Infinity) - (instant(b.startedAt) ?? Infinity) || a.id.localeCompare(b.id)\<close>:
  the difference of two infinities is \<open>NaN\<close>, which is falsy as zero is.\<close>

definition by_start ::
  "(string \<Rightarrow> int option) \<Rightarrow> (string \<Rightarrow> string \<Rightarrow> int) \<Rightarrow> odometer_record \<Rightarrow> odometer_record \<Rightarrow> int" where
  "by_start parse locale a b =
     (let d = (case (instant parse (or_startedAt a), instant parse (or_startedAt b)) of
          (Some s, Some t) \<Rightarrow> s - t | (Some _, None) \<Rightarrow> -1 | (None, Some _) \<Rightarrow> 1 | (None, None) \<Rightarrow> 0)
      in if d \<noteq> 0 then d else locale (or_id a) (or_id b))"

definition invalid_range :: "int option \<Rightarrow> int option \<Rightarrow> bool" where
  "invalid_range start end = (case (start, end) of (Some s, Some e) \<Rightarrow> e < s | _ \<Rightarrow> False)"

text \<open>\<open>latest\<close> is \<open>None\<close> while it is \<open>-Infinity\<close>.\<close>

definition ends_after :: "int option \<Rightarrow> int option \<Rightarrow> bool" where
  "ends_after latest start = (case (latest, start) of (Some l, Some s) \<Rightarrow> l > s | _ \<Rightarrow> False)"

text \<open>The first pass over a group: the records in doubt because their intervals meet.\<close>

definition ambiguity_step ::
  "(string \<Rightarrow> int option) \<Rightarrow> odometer_record \<Rightarrow>
   string list \<times> int option \<times> odometer_record option \<Rightarrow> string list \<times> int option \<times> odometer_record option" where
  "ambiguity_step parse candidate st =
     (case st of (amb, intervalEnd, intervalRecord) \<Rightarrow>
       let start = instant parse (or_startedAt candidate); end = instant parse (or_endedAt candidate);
           amb1 = (if invalid_range start end then or_id candidate # amb else amb);
           amb2 = (case intervalRecord of None \<Rightarrow> amb1 | Some ir \<Rightarrow>
             if start \<noteq> None \<and> (ends_after intervalEnd start \<or> instant parse (or_startedAt ir) = start)
             then or_id ir # or_id candidate # amb1 else amb1)
       in if end \<noteq> None \<and> (case intervalEnd of None \<Rightarrow> True | Some e \<Rightarrow> the end \<ge> e)
          then (amb2, end, Some candidate) else (amb2, intervalEnd, intervalRecord))"

definition ambiguousRecords :: "(string \<Rightarrow> int option) \<Rightarrow> odometer_record list \<Rightarrow> string list" where
  "ambiguousRecords parse rows = fst (fold (ambiguity_step parse) rows ([], None, None))"

definition id_of :: "odometer_record option \<Rightarrow> string option" where
  "id_of r = map_option or_id r"

text \<open>The continuity of a record with its predecessor, once both have unambiguous places.\<close>

definition continuity_checks ::
  "(string \<Rightarrow> js_float) \<Rightarrow> odometer_options \<Rightarrow> odometer_record \<Rightarrow> odometer_record \<Rightarrow> analysis_state \<Rightarrow> analysis_state" where
  "continuity_checks nearest options previous r s =
     (let s1 = mark r (filter (\<lambda>c. c \<noteq> SUSPICIOUS_GAP \<or> oo_maxGapKm options \<noteq> None) sequenceCodes) s;
          exactGap = subtract (decimal (the (or_startKm r))) (decimal (the (or_endKm previous)));
          context = [(''previousEndKm'', km_context (or_endKm previous)), (''startKm'', km_context (or_startKm r)),
            (''gapKm'', CV_value (decimalValue nearest exactGap))];
          s2 = do_if (ed_units exactGap \<noteq> 0) (issue r ODOMETER_GAP context (Some (or_id previous)) VS_verified) s1
      in case oo_maxGapKm options of None \<Rightarrow> s2
         | Some limit \<Rightarrow> do_if (exceeds (exactGap\<lparr>ed_units := \<bar>ed_units exactGap\<bar>\<rparr>) limit)
             (issue r SUSPICIOUS_GAP (context @ [(''thresholdKm'', km_context (Some limit))])
               (Some (or_id previous)) VS_verified) s2)"

definition sequence_reason :: "bool \<Rightarrow> bool \<Rightarrow> bool \<Rightarrow> string" where
  "sequence_reason invalidRange tied overlapping =
     (if invalidRange then ''END_BEFORE_START'' else if tied then ''TIED_START''
      else if overlapping then ''OVERLAP'' else ''AMBIGUOUS_NEIGHBOR'')"

text \<open>The two conditions of a step: the place of the record in time is known, and it is in doubt.\<close>

definition sequence_known ::
  "(string \<Rightarrow> int option) \<Rightarrow> odometer_options \<Rightarrow> bool \<Rightarrow> odometer_record \<Rightarrow> bool" where
  "sequence_known parse options hasUnknownTime r \<longleftrightarrow>
     instant parse (or_startedAt r) \<noteq> None \<and> instant parse (or_endedAt r) \<noteq> None \<and>
     \<not> hasUnknownTime \<and> oo_sequenceComplete options"

definition tied_with ::
  "(string \<Rightarrow> int option) \<Rightarrow> odometer_record option \<Rightarrow> odometer_record \<Rightarrow> bool" where
  "tied_with parse previous r = (case previous of None \<Rightarrow> False
     | Some p \<Rightarrow> instant parse (or_startedAt r) \<noteq> None \<and>
         instant parse (or_startedAt p) = instant parse (or_startedAt r))"

definition sequence_doubtful ::
  "(string \<Rightarrow> int option) \<Rightarrow> string list \<Rightarrow> odometer_record option \<Rightarrow> int option \<Rightarrow> odometer_record \<Rightarrow> bool" where
  "sequence_doubtful parse amb previous latestEnd r \<longleftrightarrow>
     invalid_range (instant parse (or_startedAt r)) (instant parse (or_endedAt r)) \<or>
     ends_after latestEnd (instant parse (or_startedAt r)) \<or> tied_with parse previous r \<or>
     or_id r \<in> set amb \<or> (case previous of None \<Rightarrow> False | Some p \<Rightarrow> or_id p \<in> set amb)"

definition continuity_known ::
  "(string \<Rightarrow> int option) \<Rightarrow> odometer_record \<Rightarrow> odometer_record \<Rightarrow> bool" where
  "continuity_known parse p r \<longleftrightarrow> reading (or_endKm p) \<and> reading (or_startKm r) \<and>
     instant parse (or_startedAt p) \<noteq> None \<and> instant parse (or_endedAt p) \<noteq> None \<and>
     \<not> invalid_range (instant parse (or_startedAt p)) (instant parse (or_endedAt p))"

definition sequence_step ::
  "(string \<Rightarrow> int option) \<Rightarrow> (string \<Rightarrow> js_float) \<Rightarrow> odometer_options \<Rightarrow> bool \<Rightarrow> string list \<Rightarrow>
   odometer_record option \<Rightarrow> int option \<times> odometer_record option \<Rightarrow> odometer_record \<Rightarrow> analysis_state \<Rightarrow> analysis_state" where
  "sequence_step parse nearest options hasUnknownTime amb previous latest r s =
     (let s1 = do_if (\<not> sequence_known parse options hasUnknownTime r) (issue r INCOMPLETE_SEQUENCE
            [(''reason'', CV_text (if hasUnknownTime then ''UNKNOWN_TIMESTAMPS'' else ''COVERAGE_NOT_CONFIRMED'')),
             (''sequenceComplete'', CV_bool (oo_sequenceComplete options))] (id_of previous) VS_pending) s
      in if sequence_doubtful parse amb previous (fst latest) r
         then issue r AMBIGUOUS_SEQUENCE
           [(''reason'', CV_text (sequence_reason
              (invalid_range (instant parse (or_startedAt r)) (instant parse (or_endedAt r)))
              (tied_with parse previous r) (ends_after (fst latest) (instant parse (or_startedAt r)))))]
           (case snd latest of Some l \<Rightarrow> Some (or_id l) | None \<Rightarrow> id_of previous) VS_pending s1
         else if sequence_known parse options hasUnknownTime r
         then (let s2 = mark r [AMBIGUOUS_SEQUENCE, INCOMPLETE_SEQUENCE] s1 in
           case previous of None \<Rightarrow> s2
           | Some p \<Rightarrow> if continuity_known parse p r then continuity_checks nearest options p r s2 else s2)
         else s1)"

fun sequence_loop ::
  "(string \<Rightarrow> int option) \<Rightarrow> (string \<Rightarrow> js_float) \<Rightarrow> odometer_options \<Rightarrow> bool \<Rightarrow> string list \<Rightarrow>
   odometer_record option \<Rightarrow> int option \<times> odometer_record option \<Rightarrow> odometer_record list \<Rightarrow> analysis_state \<Rightarrow> analysis_state" where
  "sequence_loop parse nearest options unknown amb previous latest [] s = s"
| "sequence_loop parse nearest options unknown amb previous latest (r # rs) s =
     (let end = instant parse (or_endedAt r);
          latest' = (if end \<noteq> None \<and> (case fst latest of None \<Rightarrow> True | Some l \<Rightarrow> the end > l)
            then (end, Some r) else latest)
      in sequence_loop parse nearest options unknown amb (Some r) latest' rs
        (sequence_step parse nearest options unknown amb previous latest r s))"

definition group_analysis ::
  "(string \<Rightarrow> int option) \<Rightarrow> (string \<Rightarrow> js_float) \<Rightarrow> (string \<Rightarrow> string \<Rightarrow> int) \<Rightarrow> odometer_options \<Rightarrow>
   odometer_record list \<Rightarrow> analysis_state \<Rightarrow> analysis_state" where
  "group_analysis parse nearest locale options rows s =
     (let hasUnknownTime = list_ex (\<lambda>r. instant parse (or_startedAt r) = None \<or>
            instant parse (or_endedAt r) = None) rows;
          sorted_group = js_sort (by_start parse locale) rows
      in sequence_loop parse nearest options hasUnknownTime (ambiguousRecords parse sorted_group)
        None (None, None) sorted_group s)"

definition invalid_limit :: "js_float option \<Rightarrow> bool" where
  "invalid_limit limit = (case limit of None \<Rightarrow> False | Some l \<Rightarrow> \<not> reading (Some l))"

definition initial_analysis :: analysis_state where
  "initial_analysis = \<lparr>as_issues = [], as_checks = [], as_groups = []\<rparr>"

definition analyzeOdometer ::
  "(string \<Rightarrow> int option) \<Rightarrow> (string \<Rightarrow> js_float) \<Rightarrow> (string \<Rightarrow> string \<Rightarrow> int) \<Rightarrow>
   odometer_record list \<Rightarrow> odometer_options \<Rightarrow> string + odometer_analysis" where
  "analyzeOdometer parse nearest locale records options =
     (if invalid_limit (oo_maxTripKm options) \<or> invalid_limit (oo_maxGapKm options)
      then Inl ''Odometer thresholds must be finite and nonnegative''
      else rbind (record_loop nearest options records initial_analysis) (\<lambda>s.
        let final = fold (group_analysis parse nearest locale options) (map snd (as_groups s)) s in
        Inr \<lparr>oa_issues = as_issues final,
          oa_evaluatedRecordIds = map fst (filter (\<lambda>(_, codes). ODOMETER_GAP \<in> set codes) (as_checks final)),
          oa_evaluatedChecks = as_checks final\<rparr>))"

section \<open>What a clean analysis shows\<close>

lemma mark_simps [simp]:
  "as_issues (mark r cs s) = as_issues s" "as_groups (mark r cs s) = as_groups s"
  by (simp_all add: mark_def)

lemma issue_simps [simp]:
  "as_issues (issue r c x p v s) \<noteq> []" "as_groups (issue r c x p v s) = as_groups s"
  "as_checks (issue r c x p v s) = as_checks s"
  by (simp_all add: issue_def)

lemma do_if_clean [simp]: "as_issues (do_if c (issue r k x p v) s) = [] \<longleftrightarrow> \<not> c \<and> as_issues s = []"
  by (simp add: do_if_def)

lemma do_if_groups [simp]: "as_groups (do_if c (issue r k x p v) s) = as_groups s"
  by (simp add: do_if_def)

lemma distance_checks_groups [simp]: "as_groups (distance_checks nearest options r s) = as_groups s"
  by (simp add: distance_checks_def Let_def split: option.split)

lemma distance_checks_clean:
  "as_issues (distance_checks nearest options r s) = [] \<Longrightarrow>
     as_issues s = [] \<and>
     0 \<le> ed_units (subtract (decimal (the (or_endKm r))) (decimal (the (or_startKm r))))"
  by (auto simp: distance_checks_def Let_def split: option.splits)

lemma record_step_clean:
  assumes "record_step nearest options r s = Inr s'" and "as_issues s' = []"
  shows "as_issues s = [] \<and> reading (or_startKm r) \<and> reading (or_endKm r) \<and>
    0 \<le> ed_units (subtract (decimal (the (or_endKm r))) (decimal (the (or_startKm r))))"
  using assms distance_checks_clean [of nearest options r]
  by (fastforce simp: record_step_def rbind_Inr_iff Let_def register_record_def split: if_splits)

lemma record_loop_clean:
  "record_loop nearest options rs s = Inr s' \<Longrightarrow> as_issues s' = [] \<Longrightarrow>
     as_issues s = [] \<and> (\<forall>r\<in>set rs. reading (or_startKm r) \<and> reading (or_endKm r) \<and>
       0 \<le> ed_units (subtract (decimal (the (or_endKm r))) (decimal (the (or_startKm r)))))"
proof (induction rs arbitrary: s)
  case (Cons r rs)
  then obtain t where t: "record_step nearest options r s = Inr t" "record_loop nearest options rs t = Inr s'"
    by (auto simp: rbind_Inr_iff)
  from Cons.IH [OF t(2) Cons.prems(2)] record_step_clean [OF t(1)] show ?case by simp
qed simp

definition of_vehicle :: "string \<Rightarrow> odometer_record list \<Rightarrow> odometer_record list" where
  "of_vehicle v rs = filter (\<lambda>r. or_vehicleId r = v) rs"

lemma record_step_groups:
  assumes "record_step nearest options r s = Inr s'"
  shows "map_of (as_groups s') v =
    (if or_vehicleId r = v then Some ((case map_of (as_groups s) v of None \<Rightarrow> [] | Some g \<Rightarrow> g) @ [r])
     else map_of (as_groups s) v)"
proof -
  from assms obtain s0 where "register_record r s = Inr s0" and g: "as_groups s' = as_groups s0"
    by (auto simp: record_step_def rbind_Inr_iff Let_def split: if_splits)
  then have "as_groups s0 = AList.update (or_vehicleId r)
      ((case map_of (as_groups s) (or_vehicleId r) of None \<Rightarrow> [] | Some g \<Rightarrow> g) @ [r]) (as_groups s)"
    by (auto simp: register_record_def Let_def split: if_splits)
  with g show ?thesis by (simp add: update_conv')
qed

lemma record_loop_groups:
  "record_loop nearest options rs s = Inr s' \<Longrightarrow>
     map_of (as_groups s') v = (if of_vehicle v rs = [] then map_of (as_groups s) v
       else Some ((case map_of (as_groups s) v of None \<Rightarrow> [] | Some g \<Rightarrow> g) @ of_vehicle v rs))"
proof (induction rs arbitrary: s)
  case Nil
  then show ?case by (simp add: of_vehicle_def)
next
  case (Cons r rs)
  then obtain t where t: "record_step nearest options r s = Inr t" "record_loop nearest options rs t = Inr s'"
    by (auto simp: rbind_Inr_iff)
  from Cons.IH [OF t(2)] record_step_groups [OF t(1), of v] show ?case
    by (auto simp: of_vehicle_def)
qed

text \<open>Duplicated ids do not pass.\<close>

lemma mark_dom: "set (map fst (as_checks (mark r cs s))) = insert (or_id r) (set (map fst (as_checks s)))"
  by (simp add: mark_def dom_update)

lemma distance_checks_dom:
  "fst ` set (as_checks (distance_checks nearest options r s)) = insert (or_id r) (fst ` set (as_checks s))"
  using mark_dom by (simp add: distance_checks_def do_if_def Let_def split: option.split)

lemma record_step_dom:
  assumes "record_step nearest options r s = Inr s'"
  shows "or_id r \<notin> fst ` set (as_checks s)"
    and "fst ` set (as_checks s') = insert (or_id r) (fst ` set (as_checks s))"
proof -
  from assms obtain s0 where s0: "register_record r s = Inr s0"
    and s': "fst ` set (as_checks s') = insert (or_id r) (fst ` set (as_checks s0))"
    using mark_dom distance_checks_dom
    by (auto simp: record_step_def rbind_Inr_iff Let_def split: if_splits)
  from s0 show "or_id r \<notin> fst ` set (as_checks s)"
    by (auto simp: register_record_def map_of_eq_None_iff Let_def split: if_splits)
  from s0 have "as_checks s0 = AList.update (or_id r) [] (as_checks s)"
    by (auto simp: register_record_def Let_def split: if_splits)
  with s' show "fst ` set (as_checks s') = insert (or_id r) (fst ` set (as_checks s))"
    by (simp add: dom_update)
qed

lemma record_loop_distinct:
  "record_loop nearest options rs s = Inr s' \<Longrightarrow>
     distinct (map or_id rs) \<and> or_id ` set rs \<inter> fst ` set (as_checks s) = {}"
proof (induction rs arbitrary: s)
  case (Cons r rs)
  then obtain t where t: "record_step nearest options r s = Inr t" "record_loop nearest options rs t = Inr s'"
    by (auto simp: rbind_Inr_iff)
  from Cons.IH [OF t(2)] have "distinct (map or_id rs)"
    "or_id ` set rs \<inter> insert (or_id r) (fst ` set (as_checks s)) = {}"
    unfolding record_step_dom(2) [OF t(1)] by simp_all
  with record_step_dom(1) [OF t(1)] show ?case by auto
qed simp

text \<open>What an issue-free step over the sequence established.\<close>

definition timed :: "(string \<Rightarrow> int option) \<Rightarrow> odometer_record \<Rightarrow> bool" where
  "timed parse r \<longleftrightarrow> (case (instant parse (or_startedAt r), instant parse (or_endedAt r)) of
     (Some s, Some e) \<Rightarrow> s \<le> e | _ \<Rightarrow> False)"

definition follows :: "(string \<Rightarrow> int option) \<Rightarrow> odometer_record \<Rightarrow> odometer_record \<Rightarrow> bool" where
  "follows parse p r \<longleftrightarrow> (case (instant parse (or_endedAt p), instant parse (or_startedAt r)) of
       (Some e, Some s) \<Rightarrow> e \<le> s | _ \<Rightarrow> False) \<and>
     ed_units (subtract (decimal (the (or_startKm r))) (decimal (the (or_endKm p)))) = 0"

lemma continuity_checks_clean:
  "as_issues (continuity_checks nearest options p r s) = [] \<Longrightarrow>
     as_issues s = [] \<and> ed_units (subtract (decimal (the (or_startKm r))) (decimal (the (or_endKm p)))) = 0"
  by (auto simp: continuity_checks_def Let_def split: option.splits)

lemma timed_iff:
  "timed parse r \<longleftrightarrow> instant parse (or_startedAt r) \<noteq> None \<and> instant parse (or_endedAt r) \<noteq> None \<and>
     \<not> invalid_range (instant parse (or_startedAt r)) (instant parse (or_endedAt r))"
  by (auto simp: timed_def invalid_range_def split: option.splits)

lemma sequence_step_clean:
  assumes "as_issues (sequence_step parse nearest options unknown amb previous latest r s) = []"
  shows "as_issues s = [] \<and> timed parse r \<and> \<not> ends_after (fst latest) (instant parse (or_startedAt r)) \<and>
    (\<forall>p. previous = Some p \<longrightarrow> timed parse p \<longrightarrow> reading (or_endKm p) \<longrightarrow> reading (or_startKm r) \<longrightarrow>
      ed_units (subtract (decimal (the (or_startKm r))) (decimal (the (or_endKm p)))) = 0)"
proof -
  have d: "\<not> sequence_doubtful parse amb previous (fst latest) r"
    using assms by (auto simp: sequence_step_def Let_def)
  have k: "sequence_known parse options unknown r"
    using assms d
    by (cases "sequence_known parse options unknown r") (simp_all add: sequence_step_def Let_def)
  have step: "as_issues (case previous of None \<Rightarrow> mark r [AMBIGUOUS_SEQUENCE, INCOMPLETE_SEQUENCE] s
      | Some p \<Rightarrow> if continuity_known parse p r
          then continuity_checks nearest options p r (mark r [AMBIGUOUS_SEQUENCE, INCOMPLETE_SEQUENCE] s)
          else mark r [AMBIGUOUS_SEQUENCE, INCOMPLETE_SEQUENCE] s) = []"
    using assms d k by (simp add: sequence_step_def Let_def do_if_def)
  then have "as_issues s = []"
  proof (cases previous)
    case (Some p)
    show ?thesis
    proof (cases "continuity_known parse p r")
      case True
      with step Some have "as_issues (continuity_checks nearest options p r
          (mark r [AMBIGUOUS_SEQUENCE, INCOMPLETE_SEQUENCE] s)) = []" by simp
      from continuity_checks_clean [OF this] show ?thesis by simp
    qed (use step Some in simp)
  qed simp
  moreover have "timed parse r" "\<not> ends_after (fst latest) (instant parse (or_startedAt r))"
    using d k by (auto simp: timed_iff sequence_doubtful_def sequence_known_def)
  moreover have "ed_units (subtract (decimal (the (or_startKm r))) (decimal (the (or_endKm p)))) = 0"
    if "previous = Some p" "timed parse p" "reading (or_endKm p)" "reading (or_startKm r)" for p
  proof -
    have "continuity_known parse p r" using that by (simp add: continuity_known_def timed_iff)
    with step that(1) have "as_issues (continuity_checks nearest options p r
        (mark r [AMBIGUOUS_SEQUENCE, INCOMPLETE_SEQUENCE] s)) = []" by simp
    from continuity_checks_clean [OF this] show ?thesis by simp
  qed
  ultimately show ?thesis by blast
qed

lemma sequence_loop_mono:
  "as_issues (sequence_loop parse nearest options unknown amb p l rs s) = [] \<Longrightarrow> as_issues s = []"
proof (induction rs arbitrary: p l s)
  case (Cons r rs)
  from Cons.prems have "as_issues (sequence_step parse nearest options unknown amb p l r s) = []"
    unfolding sequence_loop.simps Let_def by (rule Cons.IH)
  then show ?case by (rule sequence_step_clean [THEN conjunct1])
qed simp

lemma sequence_loop_clean:
  "as_issues (sequence_loop parse nearest options unknown amb previous latest rs s) = [] \<Longrightarrow>
   \<forall>r\<in>set rs. reading (or_startKm r) \<and> reading (or_endKm r) \<Longrightarrow>
   (\<And>p. previous = Some p \<Longrightarrow> timed parse p \<and> reading (or_endKm p) \<and>
      (\<exists>l. fst latest = Some l \<and> the (instant parse (or_endedAt p)) \<le> l)) \<Longrightarrow>
   as_issues s = [] \<and> (\<forall>r\<in>set rs. timed parse r) \<and>
   successively (follows parse) ((case previous of None \<Rightarrow> [] | Some p \<Rightarrow> [p]) @ rs)"
proof (induction rs arbitrary: previous latest s)
  case Nil
  then show ?case by (simp split: option.split)
next
  case (Cons r rs)
  let ?fin = "instant parse (or_endedAt r)"
  define latest' where "latest' = (if ?fin \<noteq> None \<and> (case fst latest of None \<Rightarrow> True | Some l \<Rightarrow> the ?fin > l)
    then (?fin, Some r) else latest)"
  define s' where "s' = sequence_step parse nearest options unknown amb previous latest r s"
  have c: "as_issues (sequence_loop parse nearest options unknown amb (Some r) latest' rs s') = []"
    using Cons.prems(1) by (simp add: Let_def latest'_def s'_def)
  from sequence_step_clean [OF sequence_loop_mono [OF c, unfolded s'_def]]
  have s: "as_issues s = []" "timed parse r" "\<not> ends_after (fst latest) (instant parse (or_startedAt r))"
    "\<And>p. previous = Some p \<Longrightarrow> timed parse p \<Longrightarrow> reading (or_endKm p) \<Longrightarrow> reading (or_startKm r) \<Longrightarrow>
      ed_units (subtract (decimal (the (or_startKm r))) (decimal (the (or_endKm p)))) = 0" by auto
  have IH: "(\<forall>r\<in>set rs. timed parse r) \<and> successively (follows parse) ([r] @ rs)"
  proof -
    have "\<exists>l. fst latest' = Some l \<and> the ?fin \<le> l"
      using s(2) by (cases "fst latest") (auto simp: latest'_def timed_iff)
    with Cons.IH [OF c] Cons.prems(2) s(2) show ?thesis by auto
  qed
  have "follows parse p r" if "previous = Some p" for p
  proof -
    from Cons.prems(3) [OF that] obtain l where p: "timed parse p" "reading (or_endKm p)"
      "fst latest = Some l" "the (instant parse (or_endedAt p)) \<le> l" by blast
    with s Cons.prems(2) that show ?thesis
      by (auto simp: follows_def timed_iff ends_after_def split: option.splits)
  qed
  with IH s show ?case by (auto split: option.split)
qed

lemma group_analysis_clean:
  assumes "as_issues (group_analysis parse nearest locale options g s) = []"
    and "\<forall>r\<in>set g. reading (or_startKm r) \<and> reading (or_endKm r)"
  shows "as_issues s = [] \<and> (\<forall>r\<in>set g. timed parse r) \<and>
    successively (follows parse) (js_sort (by_start parse locale) g)"
proof -
  have "\<forall>r\<in>set (js_sort (by_start parse locale) g). reading (or_startKm r) \<and> reading (or_endKm r)"
    using assms(2) by simp
  from sequence_loop_clean [OF assms(1) [unfolded group_analysis_def Let_def] this]
  show ?thesis by simp
qed

lemma group_fold_mono:
  "as_issues (fold (group_analysis parse nearest locale options) gs s) = [] \<Longrightarrow> as_issues s = []"
proof (induction gs arbitrary: s)
  case (Cons g gs)
  then have "as_issues (group_analysis parse nearest locale options g s) = []" by simp
  then show ?case unfolding group_analysis_def Let_def by (rule sequence_loop_mono)
qed simp

lemma group_fold_clean:
  "as_issues (fold (group_analysis parse nearest locale options) gs s) = [] \<Longrightarrow> g \<in> set gs \<Longrightarrow>
   \<forall>r\<in>set g. reading (or_startKm r) \<and> reading (or_endKm r) \<Longrightarrow>
   (\<forall>r\<in>set g. timed parse r) \<and> successively (follows parse) (js_sort (by_start parse locale) g)"
proof (induction gs arbitrary: s)
  case (Cons h gs)
  show ?case
  proof (cases "g = h")
    case True
    have "as_issues (group_analysis parse nearest locale options h s) = []"
      using Cons.prems(1) group_fold_mono by simp
    from group_analysis_clean [OF this] Cons.prems(3) show ?thesis by (simp add: True)
  next
    case False
    with Cons show ?thesis by simp
  qed
qed simp

text \<open>The kilometres of a record, for readings in normal form.\<close>

definition start_km :: "odometer_record \<Rightarrow> real" where
  "start_km r = float_value (the (or_startKm r))"

definition end_km :: "odometer_record \<Rightarrow> real" where
  "end_km r = float_value (the (or_endKm r))"

definition readings_ok :: "odometer_record \<Rightarrow> bool" where
  "readings_ok r \<longleftrightarrow> (\<forall>x. or_startKm r = Some x \<or> or_endKm r = Some x \<longrightarrow> float_ok x)"

lemma reading_value:
  "reading v \<Longrightarrow> (\<And>x. v = Some x \<Longrightarrow> float_ok x) \<Longrightarrow>
     exact_value (decimal (the v)) = float_value (the v)"
  by (cases v; cases "the v") (auto simp: reading_def exact_value_decimal simp del: float_value.simps float_ok.simps)

lemma driven_nonnegative:
  assumes "reading (or_startKm r)" "reading (or_endKm r)" "readings_ok r"
    and "0 \<le> ed_units (subtract (decimal (the (or_endKm r))) (decimal (the (or_startKm r))))"
  shows "start_km r \<le> end_km r"
  using exact_value_sign(1) [of "subtract (decimal (the (or_endKm r))) (decimal (the (or_startKm r)))"]
    assms reading_value [of "or_startKm r"] reading_value [of "or_endKm r"]
  by (simp add: exact_value_subtract start_km_def end_km_def readings_ok_def)

lemma gap_zero:
  assumes "reading (or_startKm r)" "reading (or_endKm p)" "readings_ok r" "readings_ok p"
    and "ed_units (subtract (decimal (the (or_startKm r))) (decimal (the (or_endKm p)))) = 0"
  shows "start_km r = end_km p"
  using exact_value_sign(3) [of "subtract (decimal (the (or_startKm r))) (decimal (the (or_endKm p)))"]
    assms reading_value [of "or_startKm r"] reading_value [of "or_endKm p"]
  by (simp add: exact_value_subtract start_km_def end_km_def readings_ok_def)

text \<open>The order of the records and their readings, in the units of the world.\<close>

definition continues :: "(string \<Rightarrow> int option) \<Rightarrow> odometer_record \<Rightarrow> odometer_record \<Rightarrow> bool" where
  "continues parse p r \<longleftrightarrow>
     the (instant parse (or_endedAt p)) \<le> the (instant parse (or_startedAt r)) \<and> start_km r = end_km p"

definition drive_ok :: "(string \<Rightarrow> int option) \<Rightarrow> odometer_record \<Rightarrow> bool" where
  "drive_ok parse r \<longleftrightarrow> timed parse r \<and> start_km r \<le> end_km r"

lemma total_distance:
  "successively (continues parse) (r # rs) \<Longrightarrow>
     (\<Sum>x\<leftarrow>r # rs. end_km x - start_km x) = end_km (last (r # rs)) - start_km r"
proof (induction rs arbitrary: r)
  case (Cons q rs)
  then have "start_km q = end_km r" by (simp add: continues_def)
  with Cons.IH [of q] Cons.prems show ?case by simp
qed simp

lemma successively_weaken:
  "successively P xs \<Longrightarrow> (\<And>x y. x \<in> set xs \<Longrightarrow> y \<in> set xs \<Longrightarrow> P x y \<Longrightarrow> Q x y) \<Longrightarrow> successively Q xs"
  by (induction xs rule: induct_list012) auto

lemma clean_analysis:
  assumes "analyzeOdometer parse nearest locale records options = Inr a" and "oa_issues a = []"
    and ok: "\<forall>r\<in>set records. readings_ok r"
  shows "distinct (map or_id records) \<and> (\<forall>r\<in>set records. drive_ok parse r) \<and>
    (\<forall>v. successively (continues parse) (js_sort (by_start parse locale) (of_vehicle v records)))"
proof -
  let ?final = "\<lambda>s. fold (group_analysis parse nearest locale options) (map snd (as_groups s)) s"
  from assms(1,2) obtain s where s: "record_loop nearest options records initial_analysis = Inr s"
    "as_issues (?final s) = []"
    by (auto simp: analyzeOdometer_def rbind_Inr_iff Let_def split: if_splits)
  have c: "\<forall>r\<in>set records. reading (or_startKm r) \<and> reading (or_endKm r) \<and>
      0 \<le> ed_units (subtract (decimal (the (or_endKm r))) (decimal (the (or_startKm r))))"
    using record_loop_clean [OF s(1) group_fold_mono [OF s(2)]] by simp
  have g: "map_of (as_groups s) v = (if of_vehicle v records = [] then None else Some (of_vehicle v records))" for v
    using record_loop_groups [OF s(1), of v] by (simp add: initial_analysis_def)
  have part: "of_vehicle v records \<in> set (map snd (as_groups s))" if "of_vehicle v records \<noteq> []" for v
    using g [of v] that map_of_SomeD [of "as_groups s" v] by force
  have fold: "(\<forall>r\<in>set rows. timed parse r) \<and> successively (follows parse) (js_sort (by_start parse locale) rows)"
    if "rows = of_vehicle v records" "rows \<noteq> []" for rows v
    using group_fold_clean [OF s(2) part] that c by (fastforce simp: of_vehicle_def)
  have t: "timed parse r" if "r \<in> set records" for r
    using fold [OF refl, of "or_vehicleId r"] that by (auto simp: of_vehicle_def filter_empty_conv)
  have "successively (continues parse) (js_sort (by_start parse locale) (of_vehicle v records))" for v
  proof (cases "of_vehicle v records = []")
    case False
    show ?thesis
    proof (rule successively_weaken)
      show "successively (follows parse) (js_sort (by_start parse locale) (of_vehicle v records))"
        using fold [OF refl False] by simp
      show "continues parse p r" if "p \<in> set (js_sort (by_start parse locale) (of_vehicle v records))"
        "r \<in> set (js_sort (by_start parse locale) (of_vehicle v records))" "follows parse p r" for p r
      proof -
        from that have "p \<in> set records" "r \<in> set records" by (simp_all add: of_vehicle_def)
        with that(3) c ok show ?thesis
          by (auto simp: continues_def follows_def split: option.splits intro!: gap_zero)
      qed
    qed
  qed simp
  moreover have "drive_ok parse r" if "r \<in> set records" for r
    using t [OF that] c ok that by (auto simp: drive_ok_def intro!: driven_nonnegative)
  moreover have "distinct (map or_id records)" using record_loop_distinct [OF s(1)] by simp
  ultimately show ?thesis by blast
qed

section \<open>Acceptance and evaluated checks\<close>

lemma record_step_accepts:
  "(\<exists>s'. record_step nearest options r s = Inr s') \<longleftrightarrow> or_id r \<notin> fst ` set (as_checks s)"
  by (auto simp: record_step_def register_record_def rbind_Inr_iff Let_def map_of_eq_None_iff)

lemma record_loop_accepts:
  "(\<exists>s'. record_loop nearest options rs s = Inr s') \<longleftrightarrow>
     distinct (map or_id rs) \<and> or_id ` set rs \<inter> fst ` set (as_checks s) = {}"
proof (induction rs arbitrary: s)
  case (Cons r rs)
  show ?case
  proof (cases "or_id r \<in> fst ` set (as_checks s)")
    case True
    with record_step_accepts [of nearest options r s] show ?thesis
      by (auto simp: rbind_Inr_iff)
  next
    case False
    with record_step_accepts obtain t where t: "record_step nearest options r s = Inr t" by blast
    from Cons.IH [of t] show ?thesis
      unfolding record_step_dom(2) [OF t] using False by (auto simp: t)
  qed
qed simp

text \<open>The codes evaluated for a record, and what every verified issue satisfies.\<close>

definition codes_of :: "analysis_state \<Rightarrow> string \<Rightarrow> issue_code set" where
  "codes_of s i = (case map_of (as_checks s) i of None \<Rightarrow> {} | Some cs \<Rightarrow> set cs)"

definition evaluated_ok :: "analysis_state \<Rightarrow> bool" where
  "evaluated_ok s \<longleftrightarrow> (\<forall>i\<in>set (as_issues s). oi_verificationState i = VS_verified \<longrightarrow>
     oi_code i \<in> codes_of s (oi_recordId i))"

lemma set_fold_add_code: "set (fold add_code cs ds) = set cs \<union> set ds"
  by (induction cs arbitrary: ds) (auto simp: add_code_def)

lemma codes_of_mark:
  "codes_of (mark r cs s) i = (if i = or_id r then set cs \<union> codes_of s i else codes_of s i)"
  by (auto simp: codes_of_def mark_def update_conv' set_fold_add_code split: option.splits)

lemma codes_of_issue [simp]: "codes_of (issue r c x p v s) = codes_of s"
  by (simp add: codes_of_def fun_eq_iff)

lemma evaluated_ok_mark: "evaluated_ok s \<Longrightarrow> evaluated_ok (mark r cs s)"
  by (auto simp: evaluated_ok_def codes_of_mark)

lemma evaluated_ok_issue:
  "evaluated_ok s \<Longrightarrow> (v = VS_verified \<Longrightarrow> c \<in> codes_of s (or_id r)) \<Longrightarrow> evaluated_ok (issue r c x p v s)"
  unfolding evaluated_ok_def codes_of_issue by (auto simp: issue_def)

lemma codes_of_do_if [simp]: "codes_of (do_if b (issue r c x p v) s) = codes_of s"
  by (simp add: do_if_def)

lemma evaluated_ok_do_if:
  "evaluated_ok s \<Longrightarrow> (b \<Longrightarrow> v = VS_verified \<Longrightarrow> c \<in> codes_of s (or_id r)) \<Longrightarrow>
     evaluated_ok (do_if b (issue r c x p v) s)"
  by (simp add: do_if_def evaluated_ok_issue)

lemma evaluated_ok_register:
  assumes "register_record r s = Inr s'" and "evaluated_ok s"
  shows "evaluated_ok s'"
proof -
  from assms(1) have "as_issues s' = as_issues s" "codes_of s' i = codes_of s i" for i
    by (auto simp: register_record_def codes_of_def update_conv' Let_def split: if_splits)
  with assms(2) show ?thesis by (simp add: evaluated_ok_def)
qed

lemma evaluated_ok_distance: "evaluated_ok s \<Longrightarrow> evaluated_ok (distance_checks nearest options r s)"
  by (simp add: distance_checks_def Let_def split: option.split)
    (auto simp: intrinsicCodes_def codes_of_mark intro!: evaluated_ok_do_if evaluated_ok_mark)

lemma evaluated_ok_record_loop:
  "record_loop nearest options rs s = Inr s' \<Longrightarrow> evaluated_ok s \<Longrightarrow> evaluated_ok s'"
proof (induction rs arbitrary: s)
  case (Cons r rs)
  then obtain t s0 where t: "record_step nearest options r s = Inr t" "record_loop nearest options rs t = Inr s'"
    and s0: "register_record r s = Inr s0"
    by (auto simp: rbind_Inr_iff record_step_def)
  have "evaluated_ok s0" using evaluated_ok_register [OF s0 Cons.prems(2)] .
  then have "evaluated_ok t"
    using t(1) by (auto simp: record_step_def s0 Let_def split: if_splits
        intro!: evaluated_ok_distance evaluated_ok_mark evaluated_ok_issue)
  from Cons.IH [OF t(2) this] show ?case .
qed simp

lemma evaluated_ok_continuity:
  "evaluated_ok s \<Longrightarrow> evaluated_ok (continuity_checks nearest options p r s)"
  by (simp add: continuity_checks_def Let_def split: option.split)
    (auto simp: sequenceCodes_def codes_of_mark intro!: evaluated_ok_do_if evaluated_ok_mark)

lemma evaluated_ok_sequence_step:
  assumes "evaluated_ok s"
  shows "evaluated_ok (sequence_step parse nearest options unknown amb previous latest r s)"
  unfolding sequence_step_def Let_def using assms
  by (auto intro!: evaluated_ok_do_if evaluated_ok_mark evaluated_ok_continuity evaluated_ok_issue
      split: option.split)

lemma evaluated_ok_groups:
  "evaluated_ok s \<Longrightarrow> evaluated_ok (fold (group_analysis parse nearest locale options) gs s)"
proof (induction gs arbitrary: s)
  case (Cons g gs)
  have "evaluated_ok (sequence_loop parse nearest options unknown amb p l rs s)"
    if "evaluated_ok s" for unknown amb p l rs s
    using that by (induction rs arbitrary: p l s) (simp_all add: Let_def evaluated_ok_sequence_step)
  then have "evaluated_ok (group_analysis parse nearest locale options g s)"
    using Cons.prems by (simp add: group_analysis_def Let_def)
  with Cons.IH show ?case by simp
qed simp

section \<open>Properties\<close>

text \<open>
  C20. An analysis without issues certifies the readings: the records have distinct ids, every
  record ends after it starts and at a reading no lower; the records of a vehicle in the order of
  their start do not overlap, each starts at the very reading its predecessor ended with, and the
  kilometres driven add up to the difference of the last and the first reading. Nothing is
  assumed of the collation, and a clean analysis needs the coverage to be confirmed.
\<close>

theorem clean_analysis_certifies_readings:
  assumes "analyzeOdometer parse nearest locale records options = Inr a" and "oa_issues a = []"
    and "\<forall>r\<in>set records. readings_ok r"
  shows "distinct (map or_id records) \<and> (\<forall>r\<in>set records. drive_ok parse r) \<and>
    (\<forall>v. \<exists>rows. rows = js_sort (by_start parse locale) (of_vehicle v records) \<and>
      successively (continues parse) rows \<and>
      (rows = [] \<or> (\<Sum>r\<leftarrow>rows. end_km r - start_km r) = end_km (last rows) - start_km (hd rows)))"
proof -
  have "rows = [] \<or> (\<Sum>r\<leftarrow>rows. end_km r - start_km r) = end_km (last rows) - start_km (hd rows)"
    if "successively (continues parse) rows" for rows
    using total_distance [of parse] that by (cases rows) simp_all
  with clean_analysis [OF assms] show ?thesis by blast
qed

text \<open>Two trips of one vehicle; the clock of the samples reads the hour of the text.\<close>

definition sample_parse :: "string \<Rightarrow> int option" where
  "sample_parse s = Some (number_of_digits (take 2 (drop 11 s)))"

definition sample_record :: "string \<Rightarrow> string \<Rightarrow> string \<Rightarrow> string \<Rightarrow> string \<Rightarrow> odometer_record" where
  "sample_record i h1 h2 km1 km2 = \<lparr>or_id = i, or_vehicleId = ''v'',
     or_startedAt = Some (''2026-07-01T'' @ h1 @ '':00:00Z''), or_endedAt = Some (''2026-07-01T'' @ h2 @ '':00:00Z''),
     or_startKm = Some (Finite False km1 3), or_endKm = Some (Finite False km2 3)\<rparr>"

definition sample_records :: "odometer_record list" where
  "sample_records = [sample_record ''b'' ''15'' ''16'' ''1795'' ''252'', sample_record ''a'' ''06'' ''07'' ''101'' ''1795'']"

definition sample_options :: odometer_options where
  "sample_options = \<lparr>oo_maxTripKm = Some (Finite False ''1'' 3), oo_maxGapKm = None, oo_sequenceComplete = True\<rparr>"

lemma sample_clean:
  "map_sum id oa_issues (analyzeOdometer sample_parse (\<lambda>_. Not_finite) code_unit_compare sample_records sample_options) = Inr []"
  by code_simp

lemma sample_readings: "\<forall>r\<in>set sample_records. readings_ok r"
  by (auto simp: sample_records_def sample_record_def readings_ok_def is_digit_def)

lemma clean_analysis_certifies_readings_witness:
  "distinct (map or_id sample_records) \<and> list_all (drive_ok sample_parse) sample_records"
proof -
  obtain a where "analyzeOdometer sample_parse (\<lambda>_. Not_finite) code_unit_compare sample_records sample_options = Inr a"
    "oa_issues a = []"
    using sample_clean
    by (cases "analyzeOdometer sample_parse (\<lambda>_. Not_finite) code_unit_compare sample_records sample_options") auto
  from clean_analysis_certifies_readings [OF this sample_readings] show ?thesis by (simp add: list_all_iff)
qed

section \<open>Further facts\<close>

text \<open>
  The analysis fails exactly for a threshold that is not a nonnegative finite number and for
  two records with one id; every other list of records is analysed.
\<close>

theorem analysis_accepts_iff:
  "(\<exists>a. analyzeOdometer parse nearest locale records options = Inr a) \<longleftrightarrow>
     \<not> invalid_limit (oo_maxTripKm options) \<and> \<not> invalid_limit (oo_maxGapKm options) \<and>
     distinct (map or_id records)"
  using record_loop_accepts [of nearest options records initial_analysis]
  by (auto simp: analyzeOdometer_def rbind_Inr_iff Let_def initial_analysis_def)

text \<open>
  A verified issue always belongs to a check that was evaluated for its record: what the
  analysis reports as verified is never a check it also leaves open.
\<close>

theorem verified_issues_are_evaluated:
  assumes "analyzeOdometer parse nearest locale records options = Inr a"
    and "i \<in> set (oa_issues a)" and "oi_verificationState i = VS_verified"
  shows "\<exists>codes. map_of (oa_evaluatedChecks a) (oi_recordId i) = Some codes \<and> oi_code i \<in> set codes"
proof -
  from assms(1) obtain s where s: "record_loop nearest options records initial_analysis = Inr s"
    and a: "oa_issues a = as_issues (fold (group_analysis parse nearest locale options) (map snd (as_groups s)) s)"
      "oa_evaluatedChecks a = as_checks (fold (group_analysis parse nearest locale options) (map snd (as_groups s)) s)"
    by (auto simp: analyzeOdometer_def rbind_Inr_iff Let_def split: if_splits)
  have "evaluated_ok initial_analysis" by (simp add: evaluated_ok_def initial_analysis_def)
  from evaluated_ok_groups [OF evaluated_ok_record_loop [OF s this]]
  have "evaluated_ok (fold (group_analysis parse nearest locale options) (map snd (as_groups s)) s)" .
  then have "oi_code i \<in> codes_of (fold (group_analysis parse nearest locale options) (map snd (as_groups s)) s)
      (oi_recordId i)"
    using assms(2,3) unfolding evaluated_ok_def a by blast
  then show ?thesis unfolding codes_of_def a by (auto split: option.splits)
qed

definition sample_gap :: "odometer_record list" where
  "sample_gap = [sample_record ''b'' ''15'' ''16'' ''180'' ''252'', sample_record ''a'' ''06'' ''07'' ''101'' ''1795'']"

lemma sample_gap_issues:
  "map_sum id (\<lambda>a. map (\<lambda>i. (oi_code i, oi_recordId i, oi_verificationState i)) (oa_issues a))
     (analyzeOdometer sample_parse (\<lambda>_. Not_finite) code_unit_compare sample_gap sample_options) =
   Inr [(ODOMETER_GAP, ''b'', VS_verified)]"
  by code_simp

lemma verified_issues_are_evaluated_witness:
  "\<exists>a codes. analyzeOdometer sample_parse (\<lambda>_. Not_finite) code_unit_compare sample_gap sample_options = Inr a \<and>
     map_of (oa_evaluatedChecks a) ''b'' = Some codes \<and> ODOMETER_GAP \<in> set codes"
proof -
  obtain a where a: "analyzeOdometer sample_parse (\<lambda>_. Not_finite) code_unit_compare sample_gap sample_options = Inr a"
    "map (\<lambda>i. (oi_code i, oi_recordId i, oi_verificationState i)) (oa_issues a) = [(ODOMETER_GAP, ''b'', VS_verified)]"
    using sample_gap_issues
    by (cases "analyzeOdometer sample_parse (\<lambda>_. Not_finite) code_unit_compare sample_gap sample_options") auto
  from a(2) obtain i where "i \<in> set (oa_issues a)" "oi_code i = ODOMETER_GAP" "oi_recordId i = ''b''"
    "oi_verificationState i = VS_verified"
    by auto
  with verified_issues_are_evaluated [OF a(1), of i] a(1) show ?thesis by auto
qed

end
