(* ===== verification/Service_Session.thy ===== *)
theory Service_Session
  imports App_Error
begin

text \<open>
  Service sessions (\<open>domain/whatsapp/service-session.ts\<close>): the state machine of an attendance shared
  by the AI agent and the humans, the gate of the AI's answers, the continuity decision and the
  public continuation code. The priorities of concurrent sessions
  (\<open>service-priority-coordination.ts\<close>) and the choice of the assignee
  (\<open>assignment-strategy.ts\<close>) follow.

  The dates of snapshots and commands come from the clock of the server or from the database and
  are valid: integers of milliseconds. \<open>localeCompare\<close>, whose order depends on the platform's
  collation data, is a parameter of the functions that sort.
\<close>

section \<open>The state machine\<close>

datatype session_status =
    SS_open | SS_waiting_customer | SS_waiting_human | SS_paused_by_higher_priority | SS_closing
  | SS_closed

datatype control_mode = CM_ai | CM_human

datatype service_priority = SP_low | SP_normal | SP_high | SP_urgent

datatype priority_source = PS_ai_agent | PS_human_user | PS_system | PS_import

record service_session =
  ss_status :: session_status
  ss_controlMode :: control_mode
  ss_currentDepartmentId :: "string option"
  ss_responsibleUserId :: "string option"
  ss_queueId :: "string option"
  ss_priority :: service_priority
  ss_priorityReason :: "string option"
  ss_prioritySource :: priority_source
  ss_conversationResolved :: bool
  ss_pendingActions :: "string list"
  ss_resolutionConfirmedByCustomer :: bool
  ss_aiClosingStartedAt :: "int option"
  ss_closedAt :: "int option"
  ss_version :: int

datatype session_command =
    RequestHuman string
  | ExternalHumanMessage
  | Assume string
  | ReturnToQueue string
  | ReturnToAi
  | Transfer string "string option" "string option"
  | ChangePriority service_priority string priority_source
  | PauseForHigherPriority
  | ResumeAfterHigherPriority
  | BeginAiClosing int
  | CustomerRepliedDuringClosing
  | FinishAiClosing int
  | CloseHuman int

definition AI_CLOSING_WAIT_MS :: int where "AI_CLOSING_WAIT_MS = 30 * 60 * 1000"

definition requireNonEmpty :: "string \<Rightarrow> string \<Rightarrow> string result" where
  "requireNonEmpty v field =
     (if trim v = [] then Inl (validationError (field @ '' required'')) else Inr (trim v))"

definition assertMutable :: "service_session \<Rightarrow> unit result" where
  "assertMutable s = throw_if (ss_status s = SS_closed) (validationError ''session-closed'')"

text \<open>\<open>next(snapshot, patch)\<close>: the patch, and the version raised by one.\<close>

definition next_session :: "service_session \<Rightarrow> service_session" where
  "next_session s = s\<lparr>ss_version := ss_version s + 1\<rparr>"

text \<open>\<open>v ? requireNonEmpty(v, field) : null\<close>\<close>

definition optionalNonEmpty :: "string option \<Rightarrow> string \<Rightarrow> string option result" where
  "optionalNonEmpty v field =
     (if falsy v then Inr None else map_sum id Some (requireNonEmpty (the v) field))"

definition evolve_transfer ::
  "service_session \<Rightarrow> string \<Rightarrow> string option \<Rightarrow> string option \<Rightarrow> service_session result" where
  "evolve_transfer s departmentId queue user =
     rbind (optionalNonEmpty user ''assignee'') (\<lambda>userId.
     rbind (optionalNonEmpty queue ''queue'') (\<lambda>queueId.
     rbind (requireNonEmpty departmentId ''department'') (\<lambda>dep.
     Inr (next_session (s\<lparr>ss_currentDepartmentId := Some dep,
       ss_status := (if userId = None then SS_waiting_human else SS_open),
       ss_controlMode := CM_human, ss_responsibleUserId := userId, ss_queueId := queueId,
       ss_aiClosingStartedAt := None, ss_conversationResolved := False,
       ss_resolutionConfirmedByCustomer := False\<rparr>)))))"

definition evolve_begin_ai_closing :: "service_session \<Rightarrow> int \<Rightarrow> service_session result" where
  "evolve_begin_ai_closing s at =
     (if ss_controlMode s \<noteq> CM_ai then Inl (validationError ''only-ai-begins-closing'')
      else if \<not> ss_conversationResolved s \<or> length (ss_pendingActions s) > 0
      then Inl (validationError ''closing-with-pending-actions'')
      else Inr (next_session (s\<lparr>ss_status := SS_closing, ss_aiClosingStartedAt := Some at\<rparr>)))"

definition evolve_finish_ai_closing :: "service_session \<Rightarrow> int \<Rightarrow> service_session result" where
  "evolve_finish_ai_closing s at =
     (case ss_aiClosingStartedAt s of
        None \<Rightarrow> Inl (validationError ''ai-closing-not-started'')
      | Some started \<Rightarrow>
          if ss_status s \<noteq> SS_closing \<or> ss_controlMode s \<noteq> CM_ai
          then Inl (validationError ''ai-closing-not-started'')
          else if at - started < AI_CLOSING_WAIT_MS
          then Inl (validationError ''ai-closing-too-early'')
          else Inr (next_session (s\<lparr>ss_status := SS_closed, ss_closedAt := Some at,
            ss_aiClosingStartedAt := None\<rparr>)))"

definition evolve_close_human :: "service_session \<Rightarrow> int \<Rightarrow> service_session result" where
  "evolve_close_human s at =
     (if ss_controlMode s \<noteq> CM_human then Inl (validationError ''ai-closes-formally'')
      else Inr (next_session (s\<lparr>ss_status := SS_closed, ss_closedAt := Some at,
        ss_aiClosingStartedAt := None\<rparr>)))"

definition evolve_customer_reply :: "service_session \<Rightarrow> service_session result" where
  "evolve_customer_reply s =
     (if ss_status s \<noteq> SS_closing then Inr s
      else Inr (next_session (s\<lparr>ss_status := SS_open, ss_conversationResolved := False,
        ss_resolutionConfirmedByCustomer := False, ss_aiClosingStartedAt := None\<rparr>)))"

primrec evolve_command :: "service_session \<Rightarrow> session_command \<Rightarrow> service_session result" where
  "evolve_command s (RequestHuman queueId) =
     rbind (requireNonEmpty queueId ''queue'') (\<lambda>q.
     Inr (next_session (s\<lparr>ss_status := SS_waiting_human, ss_controlMode := CM_human,
       ss_responsibleUserId := None, ss_queueId := Some q, ss_aiClosingStartedAt := None\<rparr>)))"
| "evolve_command s ExternalHumanMessage =
     Inr (next_session (s\<lparr>ss_status := SS_open, ss_controlMode := CM_human,
       ss_responsibleUserId := None, ss_aiClosingStartedAt := None\<rparr>))"
| "evolve_command s (Assume userId) =
     rbind (requireNonEmpty userId ''assignee'') (\<lambda>u.
     Inr (next_session (s\<lparr>ss_status := SS_open, ss_controlMode := CM_human,
       ss_responsibleUserId := Some u, ss_aiClosingStartedAt := None\<rparr>)))"
| "evolve_command s (ReturnToQueue queueId) =
     (if ss_controlMode s \<noteq> CM_human then Inl (validationError ''only-human-returns-to-queue'')
      else rbind (requireNonEmpty queueId ''queue'') (\<lambda>q.
        Inr (next_session (s\<lparr>ss_status := SS_waiting_human, ss_responsibleUserId := None,
          ss_queueId := Some q\<rparr>))))"
| "evolve_command s ReturnToAi =
     (if ss_controlMode s \<noteq> CM_human then Inl (validationError ''ai-already-in-control'')
      else Inr (next_session (s\<lparr>ss_status := SS_open, ss_controlMode := CM_ai,
        ss_responsibleUserId := None, ss_queueId := None, ss_aiClosingStartedAt := None\<rparr>)))"
| "evolve_command s (Transfer departmentId queueId userId) = evolve_transfer s departmentId queueId userId"
| "evolve_command s (ChangePriority priority reason source) =
     rbind (requireNonEmpty reason ''priority-reason'') (\<lambda>r.
     Inr (next_session (s\<lparr>ss_priority := priority, ss_priorityReason := Some r,
       ss_prioritySource := source\<rparr>)))"
| "evolve_command s PauseForHigherPriority =
     (if ss_status s \<noteq> SS_open then Inl (validationError ''only-open-pauses'')
      else Inr (next_session (s\<lparr>ss_status := SS_paused_by_higher_priority\<rparr>)))"
| "evolve_command s ResumeAfterHigherPriority =
     (if ss_status s \<noteq> SS_paused_by_higher_priority then Inl (validationError ''not-paused'')
      else Inr (next_session (s\<lparr>ss_status := SS_open\<rparr>)))"
| "evolve_command s (BeginAiClosing at) = evolve_begin_ai_closing s at"
| "evolve_command s CustomerRepliedDuringClosing = evolve_customer_reply s"
| "evolve_command s (FinishAiClosing at) = evolve_finish_ai_closing s at"
| "evolve_command s (CloseHuman at) = evolve_close_human s at"

definition evolveServiceSession :: "service_session \<Rightarrow> session_command \<Rightarrow> service_session result" where
  "evolveServiceSession s c = rbind (assertMutable s) (\<lambda>_. evolve_command s c)"

definition assertAiCustomerFacingDispatchAllowed :: "service_session \<Rightarrow> unit result" where
  "assertAiCustomerFacingDispatchAllowed s =
     (if ss_controlMode s \<noteq> CM_ai then Inl (forbidden ''human-in-control'')
      else if ss_status s \<noteq> SS_open then Inl (forbidden ''session-not-open'')
      else Inr ())"

lemmas evolve_defs = evolveServiceSession_def assertMutable_def evolve_transfer_def
  evolve_begin_ai_closing_def evolve_finish_ai_closing_def evolve_close_human_def
  evolve_customer_reply_def next_session_def

lemma requireNonEmpty_Inr [result_simps]: "requireNonEmpty v f = Inr t \<longleftrightarrow> t = trim v \<and> trim v \<noteq> []"
  by (auto simp: requireNonEmpty_def)

lemma optionalNonEmpty_Inr [result_simps]:
  "optionalNonEmpty v f = Inr t \<longleftrightarrow>
     t = (if falsy v then None else Some (trim (the v))) \<and> (falsy v \<or> trim (the v) \<noteq> [])"
  by (auto simp: optionalNonEmpty_def requireNonEmpty_def)

section \<open>Invariants of a session\<close>

definition session_ok :: "service_session \<Rightarrow> bool" where
  "session_ok s \<longleftrightarrow>
     (ss_status s = SS_closed \<longleftrightarrow> ss_closedAt s \<noteq> None) \<and>
     (ss_status s = SS_closing \<longleftrightarrow> ss_aiClosingStartedAt s \<noteq> None) \<and>
     (ss_status s = SS_closing \<longrightarrow> ss_controlMode s = CM_ai \<and> ss_conversationResolved s \<and>
        ss_pendingActions s = []) \<and>
     (ss_responsibleUserId s \<noteq> None \<longrightarrow> ss_controlMode s = CM_human \<and>
        ss_status s \<in> {SS_open, SS_paused_by_higher_priority, SS_closed}) \<and>
     (ss_status s = SS_waiting_human \<longrightarrow> ss_controlMode s = CM_human \<and> ss_responsibleUserId s = None)"

lemma evolve_ok: "session_ok s \<Longrightarrow> evolveServiceSession s c = Inr t \<Longrightarrow> session_ok t"
  by (cases c; clarsimp simp: evolve_defs result_simps session_ok_def split: option.splits if_splits)

lemma evolve_version:
  "evolveServiceSession s c = Inr t \<Longrightarrow>
     ss_version t = ss_version s + 1 \<or> (c = CustomerRepliedDuringClosing \<and> t = s)"
  by (cases c; clarsimp simp: evolve_defs result_simps split: option.splits if_splits)

lemma evolve_closed_stuck: "ss_status s = SS_closed \<Longrightarrow> evolveServiceSession s c \<noteq> Inr t"
  by (simp add: evolve_defs result_simps)

interpretation session: guarded_machine evolveServiceSession session_ok
  by unfold_locales (rule evolve_ok)

interpretation session_final: terminal_machine evolveServiceSession "\<lambda>s. ss_status s = SS_closed"
  by unfold_locales (rule evolve_closed_stuck)

text \<open>Once a human is in control, only an explicit return hands the session to the AI.\<close>

lemma evolve_human_sticky:
  "ss_controlMode s = CM_human \<Longrightarrow> c \<noteq> ReturnToAi \<Longrightarrow> evolveServiceSession s c = Inr t \<Longrightarrow>
     ss_controlMode t = CM_human"
  by (cases c; clarsimp simp: evolve_defs result_simps split: option.splits if_splits)

lemma run_human_sticky:
  "run evolveServiceSession s cs = Inr t \<Longrightarrow> ss_controlMode s = CM_human \<Longrightarrow> ReturnToAi \<notin> set cs \<Longrightarrow>
     ss_controlMode t = CM_human"
  by (induction cs arbitrary: s) (auto simp: result_simps, metis evolve_human_sticky)

text \<open>The errors of the machine are validation errors.\<close>

lemma evolve_error: "evolveServiceSession s c = Inl e \<Longrightarrow> error_code e = VALIDATION_ERROR"
  by (cases c) (auto simp: evolve_defs result_simps requireNonEmpty_def optionalNonEmpty_def
      split: option.splits if_splits)

section \<open>The closing window\<close>

text \<open>
  While a session is closing, the commands that keep it so are a change of priority, a repeated
  begin, and nothing else: \<open>closing_since a s\<close> says that the window in force was opened at \<open>a\<close>.
\<close>

definition closing_since :: "int \<Rightarrow> service_session \<Rightarrow> bool" where
  "closing_since a s \<longleftrightarrow> ss_status s = SS_closing \<and> ss_aiClosingStartedAt s = Some a"

lemma closing_since_step:
  assumes "session_ok s" and "evolveServiceSession s c = Inr t" and "closing_since a t"
  shows "c = BeginAiClosing a \<or> (closing_since a s \<and> (\<exists>p r src. c = ChangePriority p r src))"
  using assms
  by (cases c; clarsimp simp: evolve_defs result_simps closing_since_def session_ok_def
      split: option.splits if_splits)

lemma closing_since_trace:
  assumes "run evolveServiceSession s cs = Inr t" and "session_ok s" and "closing_since a t"
    and "ss_status s \<noteq> SS_closing"
  shows "\<exists>us vs. cs = us @ BeginAiClosing a # vs \<and> (\<forall>v\<in>set vs. \<exists>p r src. v = ChangePriority p r src)"
  using assms
proof (induction cs arbitrary: t rule: rev_induct)
  case Nil
  then show ?case by (simp add: closing_since_def)
next
  case (snoc c cs)
  then obtain m where m: "run evolveServiceSession s cs = Inr m" "evolveServiceSession m c = Inr t"
    by (auto simp: run_append result_simps)
  have "session_ok m" using session.run_inv snoc.prems(2) m(1) by blast
  from closing_since_step [OF this m(2) snoc.prems(3)] show ?case
  proof
    assume "c = BeginAiClosing a"
    then show ?thesis by (intro exI [of _ cs] exI [of _ "[]"]) simp
  next
    assume c: "closing_since a m \<and> (\<exists>p r src. c = ChangePriority p r src)"
    with snoc.IH [OF m(1)] snoc.prems obtain us vs where
      "cs = us @ BeginAiClosing a # vs" "\<forall>v\<in>set vs. \<exists>p r src. v = ChangePriority p r src"
      by blast
    with c show ?thesis by (intro exI [of _ us] exI [of _ "vs @ [c]"]) auto
  qed
qed

text \<open>
  A session the AI closed had its closing window opened at least thirty minutes before, and no
  reply of the customer and no human action fell into the window.
\<close>

lemma ai_close_trace:
  assumes "run evolveServiceSession s (cs @ [FinishAiClosing b]) = Inr t" and "session_ok s"
    and "ss_status s \<noteq> SS_closing"
  shows "\<exists>us a vs. cs = us @ BeginAiClosing a # vs \<and> AI_CLOSING_WAIT_MS \<le> b - a \<and>
    (\<forall>v\<in>set vs. \<exists>p r src. v = ChangePriority p r src)"
proof -
  from assms(1) obtain m where m: "run evolveServiceSession s cs = Inr m"
      "evolveServiceSession m (FinishAiClosing b) = Inr t"
    by (auto simp: run_append result_simps)
  then obtain a where a: "closing_since a m" "AI_CLOSING_WAIT_MS \<le> b - a"
    by (auto simp: evolve_defs result_simps closing_since_def split: option.splits if_splits)
  with closing_since_trace [OF m(1) assms(2) a(1) assms(3)] show ?thesis by blast
qed

section \<open>Continuity\<close>

definition CONTINUITY_WINDOW_MS :: int where "CONTINUITY_WINDOW_MS = 2 * 60 * 60 * 1000"

definition PUBLIC_CONTINUATION_CODE_TTL_MS :: int where
  "PUBLIC_CONTINUATION_CODE_TTL_MS = 7 * 24 * 60 * 60 * 1000"

datatype continuity_classification = CL_continuation | CL_new_subject | CL_uncertain | CL_public_code

datatype continuity_action = Reopen_previous | Create_new

datatype continuity_fallback = FB_none | FB_reopen_on_uncertain

record continuity_input =
  ci_now :: int
  ci_previousClosedAt :: int
  ci_classification :: "continuity_classification option"
  ci_confidence :: "js_number option"
  ci_reason :: "string option"
  ci_validPublicContinuationCode :: bool

record continuity_decision =
  cd_action :: continuity_action
  cd_classification :: continuity_classification
  cd_fallbackAction :: continuity_fallback
  cd_confidence :: "js_number option"
  cd_reason :: string

text \<open>\<open>input.reason?.trim() || text\<close>; the default texts are keys.\<close>

definition reasonOr :: "string option \<Rightarrow> string \<Rightarrow> string" where
  "reasonOr r text = (case trim_or_null r of None \<Rightarrow> text | Some t \<Rightarrow> t)"

definition decideServiceContinuity :: "continuity_input \<Rightarrow> continuity_decision result" where
  "decideServiceContinuity i =
     (if ci_validPublicContinuationCode i
      then Inr \<lparr>cd_action = Reopen_previous, cd_classification = CL_public_code,
        cd_fallbackAction = FB_none, cd_confidence = None, cd_reason = ''valid-public-code''\<rparr>
      else
        (let rawElapsed = ci_now i - ci_previousClosedAt i in
         if rawElapsed \<le> -1000 then Inl (validationError ''closing-date-in-the-future'')
         else
           (let elapsed = max 0 rawElapsed in
            if elapsed > CONTINUITY_WINDOW_MS
            then Inr \<lparr>cd_action = Create_new, cd_classification = CL_new_subject,
              cd_fallbackAction = FB_none, cd_confidence = ci_confidence i,
              cd_reason = reasonOr (ci_reason i) ''continuity-window-over''\<rparr>
            else
              (let classification = (case ci_classification i of None \<Rightarrow> CL_uncertain | Some c \<Rightarrow> c) in
               if classification = CL_new_subject
               then Inr \<lparr>cd_action = Create_new, cd_classification = classification,
                 cd_fallbackAction = FB_none, cd_confidence = ci_confidence i,
                 cd_reason = reasonOr (ci_reason i) ''new-subject''\<rparr>
               else Inr \<lparr>cd_action = Reopen_previous, cd_classification = classification,
                 cd_fallbackAction = (if classification = CL_uncertain then FB_reopen_on_uncertain
                   else FB_none),
                 cd_confidence = ci_confidence i,
                 cd_reason = reasonOr (ci_reason i) (if classification = CL_uncertain
                   then ''uncertain-fallback'' else ''continuation'')\<rparr>))))"

lemma decideServiceContinuity_action:
  "decideServiceContinuity i = Inr d \<Longrightarrow>
     cd_action d = Reopen_previous \<longleftrightarrow>
       ci_validPublicContinuationCode i \<or>
       (ci_now i - ci_previousClosedAt i \<le> CONTINUITY_WINDOW_MS \<and>
        ci_classification i \<noteq> Some CL_new_subject)"
  by (auto simp: decideServiceContinuity_def Let_def CONTINUITY_WINDOW_MS_def
      split: if_splits option.splits)

lemma decideServiceContinuity_total:
  "(\<exists>d. decideServiceContinuity i = Inr d) \<longleftrightarrow>
     ci_validPublicContinuationCode i \<or> -1000 < ci_now i - ci_previousClosedAt i"
  by (auto simp: decideServiceContinuity_def Let_def)

section \<open>The public continuation code\<close>

text \<open>\<open>randomInt(100, 1_000)\<close> draws \<open>n\<close> with \<open>100 \<le> n < 1000\<close>: the draw is the argument.\<close>

definition createPublicContinuationCode :: "nat \<Rightarrow> string" where
  "createPublicContinuationCode n = nat_text n"

definition publicContinuationCodeExpiresAt :: "int \<Rightarrow> int" where
  "publicContinuationCodeExpiresAt closedAt = closedAt + PUBLIC_CONTINUATION_CODE_TTL_MS"

definition three_digits :: "string \<Rightarrow> bool" where
  "three_digits s \<longleftrightarrow> length s = 3 \<and> list_all is_digit s"

text \<open>\<open>LUME_AI_CLOSURE_MESSAGE\<close> before and after its placeholder \<open>{code}\<close>.\<close>

definition closure_message_prefix :: string where
  "closure_message_prefix =
     ''Este atendimento foi encerrado. Se precisar retomar este assunto nos pr'' @ [CHR 0xF3] @
     ''ximos 7 dias, envie CONTINUAR ''"

definition formatAiClosureMessage :: "string \<Rightarrow> string result" where
  "formatAiClosureMessage c =
     (let normalized = trim c in
      if \<not> three_digits normalized then Inl (validationError ''public-code'')
      else Inr (closure_message_prefix @ normalized @ ''.''))"

text \<open>\<open>/^CONTINUAR\s+([0-9]{3})$/iu.exec(text.trim())?.[1] ?? null\<close>\<close>

definition parsePublicContinuationCommand :: "string \<Rightarrow> string option" where
  "parsePublicContinuationCommand text =
     (let t = trim text; rest = drop 9 t; digits = dropWhile is_ws rest in
      if to_lower (take 9 t) = ''continuar'' \<and> length digits < length rest \<and> three_digits digits
      then Some digits else None)"

lemma three_digits_iff: "three_digits s \<longleftrightarrow> (\<exists>a b c. s = [a, b, c] \<and> is_digit a \<and> is_digit b \<and> is_digit c)"
  by (auto simp: three_digits_def numeral_3_eq_3 length_Suc_conv)

lemma createPublicContinuationCode_digits:
  assumes "100 \<le> n" and "n < 1000"
  shows "three_digits (createPublicContinuationCode n)"
proof -
  have "\<not> n < 10" "\<not> n div 10 < 10" "n div 10 div 10 < 10" using assms by linarith+
  then have "nat_text n = [char_of (48 + n div 10 div 10), char_of (48 + n div 10 mod 10),
      char_of (48 + n mod 10)]"
    by (simp add: nat_text.simps [of n] nat_text.simps [of "n div 10"]
        nat_text.simps [of "n div 10 div 10"])
  with \<open>n div 10 div 10 < 10\<close> show ?thesis
    by (simp add: createPublicContinuationCode_def three_digits_def char_of_digit)
qed

lemma three_digits_trim: "three_digits s \<Longrightarrow> trim s = s"
  by (auto simp: three_digits_iff trim_id_iff is_digit_not_ws)

lemma parse_command:
  assumes "three_digits s"
  shows "parsePublicContinuationCommand (''CONTINUAR '' @ s) = Some s"
proof -
  from assms obtain a b c where s: "s = [a, b, c]" and d: "is_digit a" "is_digit b" "is_digit c"
    by (auto simp: three_digits_iff)
  have t: "trim (''CONTINUAR '' @ s) = ''CONTINUAR '' @ s"
    using is_digit_not_ws [OF d(3)] by (simp add: trim_id_iff s) (simp add: is_ws_def)
  have l: "to_lower ''CONTINUAR'' = ''continuar''" by code_simp
  show ?thesis
    using assms d is_digit_not_ws l t
    by (simp add: parsePublicContinuationCommand_def s)
qed

text \<open>The command of the closing message, as a customer sends it back, is understood.\<close>

lemma public_code_roundtrip:
  assumes "100 \<le> n" and "n < 1000"
  shows "formatAiClosureMessage (createPublicContinuationCode n) =
      Inr (closure_message_prefix @ createPublicContinuationCode n @ ''.'')"
    and "parsePublicContinuationCommand (''CONTINUAR '' @ createPublicContinuationCode n) =
      Some (createPublicContinuationCode n)"
  using createPublicContinuationCode_digits [OF assms]
  by (simp_all only: formatAiClosureMessage_def three_digits_trim parse_command Let_def if_False
      not_True_eq_False)

section \<open>The priority of concurrent sessions\<close>

text \<open>Organizational weights are configured integers.\<close>

primrec urgencyRank :: "service_priority \<Rightarrow> int" where
  "urgencyRank SP_low = 0"
| "urgencyRank SP_normal = 1"
| "urgencyRank SP_high = 2"
| "urgencyRank SP_urgent = 3"

record priority_candidate =
  pc_priority :: service_priority
  pc_organizationalWeight :: int
  pc_sessionId :: string

record paused_candidate = priority_candidate +
  pc_previousStatus :: session_status
  pc_pausedAt :: int

definition compareEffectiveServicePriority ::
  "'a priority_candidate_scheme \<Rightarrow> 'b priority_candidate_scheme \<Rightarrow> int" where
  "compareEffectiveServicePriority a b =
     (let urgencyDifference = urgencyRank (pc_priority a) - urgencyRank (pc_priority b) in
      if urgencyDifference \<noteq> 0 then urgencyDifference
      else pc_organizationalWeight a - pc_organizationalWeight b)"

datatype interruption_decision =
    Interrupt | Keep_same_session | Keep_lower_priority | Keep_tie

definition decidePriorityInterruption ::
  "'a priority_candidate_scheme \<Rightarrow> 'b priority_candidate_scheme \<Rightarrow> interruption_decision" where
  "decidePriorityInterruption foreground challenger =
     (if pc_sessionId foreground = pc_sessionId challenger then Keep_same_session
      else
        (let comparison = compareEffectiveServicePriority challenger foreground in
         if comparison > 0 then Interrupt
         else if comparison = 0 then Keep_tie else Keep_lower_priority))"

definition resume_compare ::
  "(string \<Rightarrow> string \<Rightarrow> int) \<Rightarrow> paused_candidate \<Rightarrow> paused_candidate \<Rightarrow> int" where
  "resume_compare localeCompare a b =
     (let effective = compareEffectiveServicePriority b a in
      if effective \<noteq> 0 then effective
      else (let recency = pc_pausedAt b - pc_pausedAt a in
        if recency \<noteq> 0 then recency else localeCompare (pc_sessionId a) (pc_sessionId b)))"

definition selectPriorityResumeCandidate ::
  "(string \<Rightarrow> string \<Rightarrow> int) \<Rightarrow> paused_candidate list \<Rightarrow> paused_candidate option" where
  "selectPriorityResumeCandidate localeCompare candidates =
     js_first (js_sort (resume_compare localeCompare) candidates)"

lemma compareEffective_antisym:
  "compareEffectiveServicePriority a b = - compareEffectiveServicePriority b a"
  by (simp add: compareEffectiveServicePriority_def Let_def)

text \<open>No pair of sessions interrupts each other: the coordination cannot oscillate.\<close>

lemma no_mutual_interruption:
  "decidePriorityInterruption a b = Interrupt \<Longrightarrow> decidePriorityInterruption b a \<noteq> Interrupt"
  using compareEffective_antisym [of a b]
  by (auto simp: decidePriorityInterruption_def Let_def split: if_splits)

lemma compareEffective_pos:
  "0 < compareEffectiveServicePriority a b \<longleftrightarrow>
     urgencyRank (pc_priority b) < urgencyRank (pc_priority a) \<or>
     (urgencyRank (pc_priority b) = urgencyRank (pc_priority a) \<and>
      pc_organizationalWeight b < pc_organizationalWeight a)"
  by (auto simp: compareEffectiveServicePriority_def Let_def)

lemma compareEffective_zero:
  "compareEffectiveServicePriority a b = 0 \<longleftrightarrow>
     urgencyRank (pc_priority b) = urgencyRank (pc_priority a) \<and>
     pc_organizationalWeight b = pc_organizationalWeight a"
  by (auto simp: compareEffectiveServicePriority_def Let_def)

text \<open>An interrupting chain is strictly increasing in the effective rank, hence acyclic.\<close>

lemma interruption_chain:
  assumes "\<forall>i. Suc i < length cs \<longrightarrow> decidePriorityInterruption (cs ! i) (cs ! Suc i) = Interrupt"
    and "i < j" and "j < length cs"
  shows "0 < compareEffectiveServicePriority (cs ! j) (cs ! i)"
  using assms(2, 3)
proof (induction j)
  case 0
  then show ?case by simp
next
  case (Suc j)
  have s: "0 < compareEffectiveServicePriority (cs ! Suc j) (cs ! j)"
    using assms(1) Suc.prems(2)
    by (auto simp: decidePriorityInterruption_def Let_def split: if_splits)
  show ?case
  proof (cases "i = j")
    case True
    with s show ?thesis by simp
  next
    case False
    with Suc have "0 < compareEffectiveServicePriority (cs ! j) (cs ! i)" by simp
    with s show ?thesis by (auto simp: compareEffective_pos)
  qed
qed

text \<open>
  The collation of the platform is a consistent comparator (ECMA-402 requires it); so is the
  comparison of the resume candidates, and the choice is the best of them.
\<close>

lemma resume_compare_iff:
  "resume_compare lc c d \<le> 0 \<longleftrightarrow>
     urgencyRank (pc_priority d) < urgencyRank (pc_priority c) \<or>
     urgencyRank (pc_priority d) = urgencyRank (pc_priority c) \<and>
       (pc_organizationalWeight d < pc_organizationalWeight c \<or>
        pc_organizationalWeight d = pc_organizationalWeight c \<and>
          (pc_pausedAt d < pc_pausedAt c \<or>
           pc_pausedAt d = pc_pausedAt c \<and> lc (pc_sessionId c) (pc_sessionId d) \<le> 0))"
proof -
  define u v where "u = urgencyRank (pc_priority d)" and "v = urgencyRank (pc_priority c)"
  show ?thesis
    unfolding resume_compare_def compareEffectiveServicePriority_def Let_def
      u_def [symmetric] v_def [symmetric]
    by (cases "u = v"; cases "pc_organizationalWeight d = pc_organizationalWeight c";
        cases "pc_pausedAt d = pc_pausedAt c"; simp add: order_le_less)
qed

lemma resume_compare_comparator:
  assumes "comparator lc"
  shows "comparator (resume_compare lc)"
proof
  fix x y z
  show "resume_compare lc x y \<le> 0 \<or> resume_compare lc y x \<le> 0"
    using comparator.cmp_total [OF assms, of "pc_sessionId x" "pc_sessionId y"]
    unfolding resume_compare_iff by linarith
  show "resume_compare lc x y \<le> 0 \<Longrightarrow> resume_compare lc y z \<le> 0 \<Longrightarrow> resume_compare lc x z \<le> 0"
    using comparator.cmp_trans [OF assms, of "pc_sessionId x" "pc_sessionId y" "pc_sessionId z"]
    unfolding resume_compare_iff by linarith
qed

lemma resume_candidate_best:
  assumes "comparator lc" and "selectPriorityResumeCandidate lc cs = Some c"
  shows "c \<in> set cs" and "\<forall>d\<in>set cs. resume_compare lc c d \<le> 0"
proof -
  from assms(2) have c: "c = hd (js_sort (resume_compare lc) cs)" and "cs \<noteq> []"
    by (auto simp: selectPriorityResumeCandidate_def dest: js_first_Some_hd)
  then show "c \<in> set cs" and "\<forall>d\<in>set cs. resume_compare lc c d \<le> 0"
    using comparator.js_sort_first [OF resume_compare_comparator [OF assms(1)]] by auto
qed

lemma resume_compare_nonpos:
  "resume_compare lc c d \<le> 0 \<Longrightarrow>
     compareEffectiveServicePriority d c \<le> 0 \<and>
     (compareEffectiveServicePriority d c = 0 \<longrightarrow> pc_pausedAt d \<le> pc_pausedAt c)"
  by (auto simp: resume_compare_def Let_def split: if_splits)

section \<open>The choice of the assignee\<close>

datatype assignment_strategy = AS_manual | AS_round_robin | AS_least_load

record assignment_candidate =
  ac_userId :: string
  ac_activeAttendances :: int
  ac_maxConcurrentAttendances :: "int option"
  ac_availableForAssignment :: bool
  ac_lastAssignedAt :: "int option"

definition isEligible :: "assignment_candidate \<Rightarrow> bool" where
  "isEligible c \<longleftrightarrow> ac_availableForAssignment c \<and> 0 \<le> ac_activeAttendances c \<and>
     (case ac_maxConcurrentAttendances c of None \<Rightarrow> True | Some m \<Rightarrow> ac_activeAttendances c < m)"

text \<open>
  A candidate never assigned has the date minus infinity: the difference to a date is infinite,
  of two such candidates not a number, which is falsy.
\<close>

definition byOldestAssignment ::
  "(string \<Rightarrow> string \<Rightarrow> int) \<Rightarrow> assignment_candidate \<Rightarrow> assignment_candidate \<Rightarrow> int" where
  "byOldestAssignment localeCompare a b =
     (let fallback = localeCompare (ac_userId a) (ac_userId b) in
      case (ac_lastAssignedAt a, ac_lastAssignedAt b) of
        (None, None) \<Rightarrow> fallback
      | (None, Some _) \<Rightarrow> -1
      | (Some _, None) \<Rightarrow> 1
      | (Some x, Some y) \<Rightarrow> if x - y \<noteq> 0 then x - y else fallback)"

definition byLeastLoad ::
  "(string \<Rightarrow> string \<Rightarrow> int) \<Rightarrow> assignment_candidate \<Rightarrow> assignment_candidate \<Rightarrow> int" where
  "byLeastLoad localeCompare a b =
     (if ac_activeAttendances a - ac_activeAttendances b \<noteq> 0
      then ac_activeAttendances a - ac_activeAttendances b else byOldestAssignment localeCompare a b)"

definition selectAssignmentCandidate ::
  "(string \<Rightarrow> string \<Rightarrow> int) \<Rightarrow> assignment_strategy \<Rightarrow> assignment_candidate list \<Rightarrow>
     assignment_candidate option" where
  "selectAssignmentCandidate localeCompare strategy candidates =
     (if strategy = AS_manual then None
      else
        (let eligible = filter isEligible candidates in
         if eligible = [] then None
         else if strategy = AS_round_robin
         then js_first (js_sort (byOldestAssignment localeCompare) eligible)
         else js_first (js_sort (byLeastLoad localeCompare) eligible)))"

definition assertSingleActiveAssignment :: "string list \<Rightarrow> unit result" where
  "assertSingleActiveAssignment ids =
     throw_if (length (filter (\<lambda>v. trim v \<noteq> []) ids) > 1) (validationError ''single-assignment'')"

lemma byOldestAssignment_comparator:
  assumes "comparator lc"
  shows "comparator (byOldestAssignment lc)"
proof
  fix x y z
  show "byOldestAssignment lc x y \<le> 0 \<or> byOldestAssignment lc y x \<le> 0"
    using comparator.cmp_total [OF assms, of "ac_userId x" "ac_userId y"]
    by (auto simp: byOldestAssignment_def Let_def split: option.splits)
  show "byOldestAssignment lc x y \<le> 0 \<Longrightarrow> byOldestAssignment lc y z \<le> 0 \<Longrightarrow>
      byOldestAssignment lc x z \<le> 0"
    using comparator.cmp_trans [OF assms, of "ac_userId x" "ac_userId y" "ac_userId z"]
    by (auto simp: byOldestAssignment_def Let_def split: option.splits if_splits)
qed

lemma byLeastLoad_comparator: "comparator lc \<Longrightarrow> comparator (byLeastLoad lc)"
  using comparator_by_key [OF byOldestAssignment_comparator, of lc ac_activeAttendances]
  by (simp add: byLeastLoad_def [abs_def])

lemma selectAssignmentCandidate_eligible:
  "selectAssignmentCandidate lc st cs = Some c \<Longrightarrow> c \<in> set cs \<and> isEligible c \<and> st \<noteq> AS_manual"
proof (cases st)
  case AS_round_robin
  assume "selectAssignmentCandidate lc st cs = Some c"
  with AS_round_robin have "filter isEligible cs \<noteq> []"
    "c = hd (js_sort (byOldestAssignment lc) (filter isEligible cs))"
    by (auto simp: selectAssignmentCandidate_def Let_def split: if_splits dest: js_first_Some_hd)
  then have "c \<in> set (filter isEligible cs)" by (metis hd_in_set js_sort_Nil_iff set_js_sort)
  with AS_round_robin show ?thesis by auto
next
  case AS_least_load
  assume "selectAssignmentCandidate lc st cs = Some c"
  with AS_least_load have "filter isEligible cs \<noteq> []"
    "c = hd (js_sort (byLeastLoad lc) (filter isEligible cs))"
    by (auto simp: selectAssignmentCandidate_def Let_def split: if_splits dest: js_first_Some_hd)
  then have "c \<in> set (filter isEligible cs)" by (metis hd_in_set js_sort_Nil_iff set_js_sort)
  with AS_least_load show ?thesis by auto
qed (simp add: selectAssignmentCandidate_def)

lemma selectAssignmentCandidate_None_iff:
  "selectAssignmentCandidate lc st cs = None \<longleftrightarrow> st = AS_manual \<or> (\<forall>c\<in>set cs. \<not> isEligible c)"
  by (auto simp: selectAssignmentCandidate_def Let_def filter_empty_conv)

lemma least_load_minimal:
  assumes "comparator lc" and "selectAssignmentCandidate lc AS_least_load cs = Some c"
    and "d \<in> set cs" and "isEligible d"
  shows "byLeastLoad lc c d \<le> 0"
proof -
  from assms(2) have "filter isEligible cs \<noteq> []"
    "c = hd (js_sort (byLeastLoad lc) (filter isEligible cs))"
    by (auto simp: selectAssignmentCandidate_def Let_def split: if_splits dest: js_first_Some_hd)
  with comparator.js_sort_first [OF byLeastLoad_comparator [OF assms(1)]] assms(3, 4) show ?thesis by auto
qed

lemma round_robin_minimal:
  assumes "comparator lc" and "selectAssignmentCandidate lc AS_round_robin cs = Some c"
    and "d \<in> set cs" and "isEligible d"
  shows "byOldestAssignment lc c d \<le> 0"
proof -
  from assms(2) have "filter isEligible cs \<noteq> []"
    "c = hd (js_sort (byOldestAssignment lc) (filter isEligible cs))"
    by (auto simp: selectAssignmentCandidate_def Let_def split: if_splits dest: js_first_Some_hd)
  with comparator.js_sort_first [OF byOldestAssignment_comparator [OF assms(1)]] assms(3, 4)
  show ?thesis by auto
qed

section \<open>Properties\<close>

text \<open>
  C14. The invariant of a service session survives every run of commands: a session is closed
  exactly when it has a closing date, a closing window is open exactly in the closing status
  (under AI control, resolved and without pending actions), and a responsible user implies human
  control.
\<close>

theorem session_run_ok:
  assumes "session_ok s" and "run evolveServiceSession s cs = Inr t"
  shows "session_ok t \<and> (ss_status s = SS_closed \<longrightarrow> cs = [])"
  using session.run_inv [OF assms] session_final.run_final [of s cs t] assms(2) by blast

definition new_session :: service_session where
  "new_session = \<lparr>ss_status = SS_open, ss_controlMode = CM_ai, ss_currentDepartmentId = None,
     ss_responsibleUserId = None, ss_queueId = None, ss_priority = SP_normal,
     ss_priorityReason = None, ss_prioritySource = PS_system, ss_conversationResolved = True,
     ss_pendingActions = [], ss_resolutionConfirmedByCustomer = False, ss_aiClosingStartedAt = None,
     ss_closedAt = None, ss_version = 1\<rparr>"

lemma new_session_ok: "session_ok new_session"
  by (simp add: session_ok_def new_session_def)

lemma ai_closing_run:
  "run evolveServiceSession new_session ([BeginAiClosing 0] @ [FinishAiClosing 1800000]) =
     Inr (new_session\<lparr>ss_status := SS_closed, ss_closedAt := Some 1800000, ss_version := 3\<rparr>)"
  by (simp add: evolve_defs new_session_def AI_CLOSING_WAIT_MS_def)

lemma session_run_ok_witness:
  "session_ok (new_session\<lparr>ss_status := SS_closed, ss_closedAt := Some 1800000, ss_version := 3\<rparr>)"
  using session_run_ok [OF new_session_ok ai_closing_run] by simp



text \<open>
  C11. Once a human is in control, the AI's answers to the customer stay blocked through every
  run of commands without an explicit return to the AI.
\<close>

theorem human_control_blocks_ai:
  assumes "run evolveServiceSession s cs = Inr t" and "ss_controlMode s = CM_human"
    and "ReturnToAi \<notin> set cs"
  shows "assertAiCustomerFacingDispatchAllowed t = Inl (forbidden ''human-in-control'')"
  using run_human_sticky [OF assms] by (simp add: assertAiCustomerFacingDispatchAllowed_def)

lemma human_control_blocks_ai_witness:
  "assertAiCustomerFacingDispatchAllowed
     (new_session\<lparr>ss_controlMode := CM_human, ss_status := SS_paused_by_higher_priority, ss_version := 2\<rparr>) =
   Inl (forbidden ''human-in-control'')"
proof (rule human_control_blocks_ai)
  show "run evolveServiceSession (new_session\<lparr>ss_controlMode := CM_human\<rparr>) [PauseForHigherPriority] =
      Inr (new_session\<lparr>ss_controlMode := CM_human, ss_status := SS_paused_by_higher_priority, ss_version := 2\<rparr>)"
    by (simp add: evolve_defs new_session_def)
qed simp_all

text \<open>
  C17. Interruptions by priority never oscillate: along a chain of sessions in which each
  interrupts the one before it, no later session can be interrupted by an earlier one.
\<close>

theorem interruptions_do_not_oscillate:
  assumes "\<forall>i. Suc i < length cs \<longrightarrow> decidePriorityInterruption (cs ! i) (cs ! Suc i) = Interrupt"
    and "i < j" and "j < length cs"
  shows "decidePriorityInterruption (cs ! j) (cs ! i) \<noteq> Interrupt"
  using interruption_chain [OF assms] compareEffective_antisym [of "cs ! j" "cs ! i"]
  by (auto simp: decidePriorityInterruption_def Let_def split: if_splits)

lemma interruptions_do_not_oscillate_witness:
  "decidePriorityInterruption
     \<lparr>pc_priority = SP_urgent, pc_organizationalWeight = 0, pc_sessionId = ''b''\<rparr>
     \<lparr>pc_priority = SP_low, pc_organizationalWeight = 9, pc_sessionId = ''a''\<rparr> \<noteq> Interrupt"
proof -
  let ?cs = "[\<lparr>pc_priority = SP_low, pc_organizationalWeight = 9, pc_sessionId = ''a''\<rparr>,
    \<lparr>pc_priority = SP_urgent, pc_organizationalWeight = 0, pc_sessionId = ''b''\<rparr>]"
  have "\<forall>i. Suc i < length ?cs \<longrightarrow> decidePriorityInterruption (?cs ! i) (?cs ! Suc i) = Interrupt"
    by (auto simp: decidePriorityInterruption_def compareEffectiveServicePriority_def)
  from interruptions_do_not_oscillate [OF this, of 0 1] show ?thesis by simp
qed

section \<open>Further facts\<close>

text \<open>
  The continuity decision: a message reopens the previous session exactly when it carries a
  valid public code, or comes within two hours of the closing and is not classified as a new
  subject.
\<close>

theorem continuity_reopens_iff:
  assumes "decideServiceContinuity i = Inr d"
  shows "cd_action d = Reopen_previous \<longleftrightarrow>
    ci_validPublicContinuationCode i \<or>
    (ci_now i - ci_previousClosedAt i \<le> 2 * 60 * 60 * 1000 \<and> ci_classification i \<noteq> Some CL_new_subject)"
  using decideServiceContinuity_action [OF assms] by (simp add: CONTINUITY_WINDOW_MS_def)

lemma continuity_reopens_iff_witness:
  "\<exists>d. decideServiceContinuity \<lparr>ci_now = 7200001, ci_previousClosedAt = 0, ci_classification = None,
     ci_confidence = None, ci_reason = None, ci_validPublicContinuationCode = False\<rparr> = Inr d \<and>
     cd_action d \<noteq> Reopen_previous"
proof -
  let ?i = "\<lparr>ci_now = 7200001, ci_previousClosedAt = 0, ci_classification = None, ci_confidence = None,
    ci_reason = None, ci_validPublicContinuationCode = False\<rparr>"
  obtain d where d: "decideServiceContinuity ?i = Inr d"
    using decideServiceContinuity_total [of ?i] by auto
  with continuity_reopens_iff [OF d] show ?thesis by (intro exI [of _ d]) simp
qed

text \<open>
  The public continuation code: every code the service can draw is accepted by the closing
  message, and the command that message tells the customer to send is read back as this code.
\<close>

theorem continuation_code_roundtrip:
  assumes "100 \<le> n" and "n < 1000"
  shows "formatAiClosureMessage (createPublicContinuationCode n) =
      Inr (closure_message_prefix @ createPublicContinuationCode n @ ''.'') \<and>
    parsePublicContinuationCommand (''CONTINUAR '' @ createPublicContinuationCode n) =
      Some (createPublicContinuationCode n)"
  using public_code_roundtrip [OF assms] by blast

lemma continuation_code_roundtrip_witness:
  "parsePublicContinuationCommand (''CONTINUAR '' @ createPublicContinuationCode 407) =
     Some (createPublicContinuationCode 407)"
  using continuation_code_roundtrip [of 407] by simp

text \<open>
  The session resumed after an interruption is one of the paused ones, none of which has a
  higher effective priority, and among those of equal priority none was paused later.
\<close>

theorem resumed_session_is_best:
  assumes "comparator localeCompare"
    and "selectPriorityResumeCandidate localeCompare cs = Some c" and "d \<in> set cs"
  shows "c \<in> set cs \<and> compareEffectiveServicePriority d c \<le> 0 \<and>
    (compareEffectiveServicePriority d c = 0 \<longrightarrow> pc_pausedAt d \<le> pc_pausedAt c)"
  using resume_candidate_best [OF assms(1, 2)] assms(3) resume_compare_nonpos by blast

lemma resumed_session_is_best_witness:
  "\<exists>c. selectPriorityResumeCandidate code_unit_compare
     [\<lparr>pc_priority = SP_low, pc_organizationalWeight = 0, pc_sessionId = ''a'',
       pc_previousStatus = SS_open, pc_pausedAt = 5\<rparr>,
      \<lparr>pc_priority = SP_high, pc_organizationalWeight = 0, pc_sessionId = ''b'',
       pc_previousStatus = SS_open, pc_pausedAt = 1\<rparr>] = Some c \<and> pc_sessionId c \<noteq> ''a''"
proof -
  let ?a = "\<lparr>pc_priority = SP_low, pc_organizationalWeight = 0, pc_sessionId = ''a'',
    pc_previousStatus = SS_open, pc_pausedAt = 5\<rparr>"
  let ?b = "\<lparr>pc_priority = SP_high, pc_organizationalWeight = 0, pc_sessionId = ''b'',
    pc_previousStatus = SS_open, pc_pausedAt = 1\<rparr>"
  have s: "selectPriorityResumeCandidate code_unit_compare [?a, ?b] = Some ?b"
    by (simp add: selectPriorityResumeCandidate_def resume_compare_def
        compareEffectiveServicePriority_def)
  have "?b \<in> set [?a, ?b]"
    using resumed_session_is_best [OF by_code_unit.comparator_axioms s, of ?a] by simp
  with s show ?thesis by (intro exI [of _ ?b]) simp
qed

text \<open>
  Automatic assignment finds an assignee exactly when some candidate is eligible and the
  strategy is automatic; by least load, the assignee is eligible and no eligible candidate has
  fewer active attendances.
\<close>

theorem least_load_assignment:
  assumes "comparator localeCompare"
  shows "(case selectAssignmentCandidate localeCompare AS_least_load cs of
      None \<Rightarrow> \<forall>c\<in>set cs. \<not> isEligible c
    | Some c \<Rightarrow> c \<in> set cs \<and> isEligible c \<and>
        (\<forall>d\<in>set cs. isEligible d \<longrightarrow> ac_activeAttendances c \<le> ac_activeAttendances d))"
proof (cases "selectAssignmentCandidate localeCompare AS_least_load cs")
  case None
  with selectAssignmentCandidate_None_iff [of localeCompare AS_least_load cs] show ?thesis by simp
next
  case (Some c)
  have "ac_activeAttendances c \<le> ac_activeAttendances d" if "d \<in> set cs" "isEligible d" for d
    using least_load_minimal [OF assms Some that] by (auto simp: byLeastLoad_def split: if_splits)
  with selectAssignmentCandidate_eligible [OF Some] Some show ?thesis by simp
qed

lemma least_load_assignment_witness:
  "\<exists>c. selectAssignmentCandidate code_unit_compare AS_least_load
     [\<lparr>ac_userId = ''a'', ac_activeAttendances = 3, ac_maxConcurrentAttendances = None,
       ac_availableForAssignment = True, ac_lastAssignedAt = None\<rparr>] = Some c \<and> isEligible c"
proof -
  let ?a = "\<lparr>ac_userId = ''a'', ac_activeAttendances = 3, ac_maxConcurrentAttendances = None,
    ac_availableForAssignment = True, ac_lastAssignedAt = None\<rparr>"
  have "selectAssignmentCandidate code_unit_compare AS_least_load [?a] = Some ?a"
    by (simp add: selectAssignmentCandidate_def isEligible_def)
  with least_load_assignment [OF by_code_unit.comparator_axioms, of "[?a]"] show ?thesis by simp
qed

end
