(* ===== verification/Trips.thy ===== *)
theory Trips
  imports App_Error JS_Date
begin

text \<open>
  Operational trips (\<open>domain/trips/trip.ts\<close>): the aggregate, its commands under optimistic
  concurrency, the history and the operational records each command writes; and the route plan
  a trip selects (\<open>domain/trips/trip-route-plan.ts\<close>).
\<close>

section \<open>The aggregate\<close>

datatype trip_status =
    TS_draft | TS_scheduled | TS_in_execution | TS_suspended | TS_interrupted
  | TS_early_terminated | TS_completed | TS_cancelled

primrec TRIP_TRANSITION_MATRIX :: "trip_status \<Rightarrow> trip_status list" where
  "TRIP_TRANSITION_MATRIX TS_draft = [TS_scheduled]"
| "TRIP_TRANSITION_MATRIX TS_scheduled = [TS_in_execution, TS_cancelled]"
| "TRIP_TRANSITION_MATRIX TS_in_execution = [TS_suspended, TS_interrupted, TS_completed]"
| "TRIP_TRANSITION_MATRIX TS_suspended = [TS_in_execution]"
| "TRIP_TRANSITION_MATRIX TS_interrupted = [TS_early_terminated]"
| "TRIP_TRANSITION_MATRIX TS_early_terminated = []"
| "TRIP_TRANSITION_MATRIX TS_completed = []"
| "TRIP_TRANSITION_MATRIX TS_cancelled = []"

text \<open>Versions and sequences that arrive from outside are numbers, stored ones are integers.\<close>

datatype 'n trip_source =
    ConfirmedService (source_id: string) (source_version: 'n)
  | ContinuousContract (source_id: string) (source_version: 'n)

record 'n trip_leg =
  lg_id :: string
  lg_sequence :: 'n
  lg_label :: string

record 'n trip_plan =
  pl_serviceDate :: "string option"
  pl_legs :: "'n trip_leg list"

record trip =
  tr_id :: string
  tr_companyId :: string
  tr_code :: string
  tr_source :: "int trip_source"
  tr_status :: trip_status
  tr_plan :: "int trip_plan"
  tr_version :: int
  tr_planVersion :: int
  tr_scheduledAt :: "int option"
  tr_startedAt :: "int option"
  tr_endedAt :: "int option"
  tr_createdByUserId :: string
  tr_createdAt :: int
  tr_updatedAt :: int

datatype evidence_kind = EK_manual_note | EK_document_reference | EK_external_reference

record trip_evidence =
  ev_kind :: evidence_kind
  ev_description :: string
  ev_referenceId :: "string option"

datatype record_kind = OR_operational | OR_suspension | OR_resumption | OR_interruption | OR_deviation

record operational_record =
  or_kind :: record_kind
  or_tripId :: string
  or_companyId :: string
  or_commandId :: string
  or_actorUserId :: string
  or_reason :: string
  or_evidence :: "trip_evidence list"
  or_occurredAt :: int
  or_resultingVersion :: int

datatype trip_action =
    TC_edit_draft "js_number trip_plan"
  | TC_schedule
  | TC_revise_schedule "js_number trip_plan" string
  | TC_start
  | TC_suspend string "trip_evidence list option"
  | TC_resume string "trip_evidence list option"
  | TC_interrupt string "trip_evidence list"
  | TC_close_early string
  | TC_complete
  | TC_cancel string
  | TC_record_occurrence string "trip_evidence list"
  | TC_record_deviation string "trip_evidence list"

record trip_command =
  tc_commandId :: string
  tc_actorUserId :: string
  tc_expectedVersion :: js_number
  tc_occurredAt :: js_date
  tc_action :: trip_action

record history_entry =
  he_tripId :: string
  he_companyId :: string
  he_commandId :: string
  he_actorUserId :: string
  he_action :: "trip_action option"
  he_fromStatus :: "trip_status option"
  he_toStatus :: trip_status
  he_reason :: "string option"
  he_expectedVersion :: "js_number option"
  he_resultingVersion :: int
  he_occurredAt :: int

record plan_version =
  pv_tripId :: string
  pv_companyId :: string
  pv_commandId :: string
  pv_createdByUserId :: string
  pv_version :: int
  pv_aggregateVersion :: int
  pv_plan :: "int trip_plan"
  pv_reason :: "string option"
  pv_createdAt :: int

record command_result =
  cr_trip :: trip
  cr_history :: history_entry
  cr_planVersion :: "plan_version option"
  cr_operationalRecord :: "operational_record option"

section \<open>Normal forms\<close>

definition normalizeDateOnly :: "string option \<Rightarrow> string option result" where
  "normalizeDateOnly v =
     (case v of None \<Rightarrow> Inr None
      | Some s \<Rightarrow>
          if match_date_only s = None then Inl (validationError ''service-date-format'')
          else if \<not> civil_date_text s then Inl (validationError ''service-date'')
          else Inr (Some s))"

definition normalizeSource :: "js_number trip_source \<Rightarrow> int trip_source result" where
  "normalizeSource src =
     (case positive_integer (source_version src) of
        None \<Rightarrow> Inl (validationError ''source-version'')
      | Some v \<Rightarrow>
          (case src of
             ConfirmedService i _ \<Rightarrow>
               rbind (requiredText i ''confirmed-service'' 100) (\<lambda>t. Inr (ConfirmedService t v))
           | ContinuousContract i _ \<Rightarrow>
               rbind (requiredText i ''continuous-contract'' 100) (\<lambda>t. Inr (ContinuousContract t v))))"

text \<open>The loop over the legs, with the sets of the identifiers and of the sequences seen.\<close>

fun normalize_legs ::
  "string set \<Rightarrow> int set \<Rightarrow> js_number trip_leg list \<Rightarrow> int trip_leg list result" where
  "normalize_legs ids sequences [] = Inr []"
| "normalize_legs ids sequences (leg # legs) =
     rbind (requiredText (lg_id leg) ''leg-id'' 100) (\<lambda>i.
     if i \<in> ids then Inl (validationError ''duplicate-leg'')
     else case positive_integer (lg_sequence leg) of
       None \<Rightarrow> Inl (validationError ''leg-sequence'')
     | Some n \<Rightarrow>
         if n \<in> sequences then Inl (validationError ''duplicate-sequence'')
         else rbind (requiredText (lg_label leg) ''leg-label'' 160) (\<lambda>t.
           rbind (normalize_legs (insert i ids) (insert n sequences) legs) (\<lambda>rest.
           Inr (\<lparr>lg_id = i, lg_sequence = n, lg_label = t\<rparr> # rest))))"

definition by_sequence :: "int trip_leg \<Rightarrow> int trip_leg \<Rightarrow> int" where
  "by_sequence l r = lg_sequence l - lg_sequence r"

definition normalizePlan :: "js_number trip_plan \<Rightarrow> int trip_plan result" where
  "normalizePlan p =
     rbind (normalize_legs {} {} (pl_legs p)) (\<lambda>legs.
     rbind (normalizeDateOnly (pl_serviceDate p)) (\<lambda>date.
     Inr \<lparr>pl_serviceDate = date, pl_legs = js_sort by_sequence legs\<rparr>))"

definition assertSchedulable :: "int trip_plan \<Rightarrow> unit result" where
  "assertSchedulable p =
     (if pl_serviceDate p = None then Inl (validationError ''schedule-needs-date'')
      else if length (pl_legs p) = 0 then Inl (validationError ''schedule-needs-leg'')
      else Inr ())"

definition normalizeReason :: "string \<Rightarrow> string result" where
  "normalizeReason r = requiredText r ''reason'' 1000"

definition normalize_evidence_item :: "trip_evidence \<Rightarrow> trip_evidence result" where
  "normalize_evidence_item item =
     (let referenceId = trim_or_null (ev_referenceId item) in
      if ev_kind item \<noteq> EK_manual_note \<and> referenceId = None
      then Inl (validationError ''evidence-reference'')
      else rbind (requiredText (ev_description item) ''evidence-description'' 1000) (\<lambda>t.
        Inr \<lparr>ev_kind = ev_kind item, ev_description = t, ev_referenceId = referenceId\<rparr>))"

definition normalizeEvidence ::
  "trip_evidence list option \<Rightarrow> bool \<Rightarrow> trip_evidence list result" where
  "normalizeEvidence evidence required =
     rbind (map_result normalize_evidence_item (case evidence of None \<Rightarrow> [] | Some es \<Rightarrow> es))
       (\<lambda>normalized.
         if required \<and> length normalized = 0 then Inl (validationError ''evidence-required'')
         else Inr normalized)"

section \<open>The creation of a draft\<close>

record draft_input =
  di_id :: string
  di_companyId :: string
  di_code :: string
  di_source :: "js_number trip_source"
  di_plan :: "js_number trip_plan"
  di_actorUserId :: string
  di_commandId :: string
  di_createdAt :: js_date

definition createTripDraft :: "draft_input \<Rightarrow> command_result result" where
  "createTripDraft input =
     rbind (validDate (di_createdAt input) ''creation-date'') (\<lambda>createdAt.
     rbind (requiredText (di_id input) ''trip-id'' 100) (\<lambda>i.
     rbind (requiredText (di_companyId input) ''trip-company'' 100) (\<lambda>company.
     rbind (requiredText (di_code input) ''trip-code'' 80) (\<lambda>c.
     rbind (normalizeSource (di_source input)) (\<lambda>src.
     rbind (normalizePlan (di_plan input)) (\<lambda>plan.
     rbind (requiredText (di_actorUserId input) ''creator'' 100) (\<lambda>actor.
     rbind (requiredText (di_commandId input) ''creation-command'' 100) (\<lambda>command.
     Inr \<lparr>cr_trip = \<lparr>tr_id = i, tr_companyId = company, tr_code = to_upper c, tr_source = src,
            tr_status = TS_draft, tr_plan = plan, tr_version = 1, tr_planVersion = 0,
            tr_scheduledAt = None, tr_startedAt = None, tr_endedAt = None,
            tr_createdByUserId = actor, tr_createdAt = createdAt, tr_updatedAt = createdAt\<rparr>,
          cr_history = \<lparr>he_tripId = i, he_companyId = company, he_commandId = command,
            he_actorUserId = actor, he_action = None, he_fromStatus = None, he_toStatus = TS_draft,
            he_reason = None, he_expectedVersion = None, he_resultingVersion = 1,
            he_occurredAt = createdAt\<rparr>,
          cr_planVersion = None, cr_operationalRecord = None\<rparr>))))))))"

section \<open>Commands\<close>

definition assertCommandContext :: "trip \<Rightarrow> trip_command \<Rightarrow> int result" where
  "assertCommandContext t c =
     rbind (requiredText (tc_commandId c) ''command-id'' 100) (\<lambda>_.
     rbind (requiredText (tc_actorUserId c) ''actor'' 100) (\<lambda>_.
     case positive_integer (tc_expectedVersion c) of
       None \<Rightarrow> Inl (validationError ''expected-version'')
     | Some v \<Rightarrow>
         if v \<noteq> tr_version t then Inl (conflict ''trip-changed-meanwhile'' None)
         else rbind (validDate (tc_occurredAt c) ''action-date'') (\<lambda>occurredAt.
           if occurredAt < tr_updatedAt t then Inl (validationError ''action-before-last-change'')
           else Inr occurredAt)))"

definition assertTransition :: "trip_status \<Rightarrow> trip_status \<Rightarrow> unit result" where
  "assertTransition from to =
     throw_if (to \<notin> set (TRIP_TRANSITION_MATRIX from)) (validationError ''trip-transition'')"

definition assertDraftEditAllowed :: "trip \<Rightarrow> unit result" where
  "assertDraftEditAllowed t =
     (if tr_startedAt t \<noteq> None then Inl (validationError ''edit-after-start'')
      else if tr_status t \<noteq> TS_draft then Inl (validationError ''edit-needs-revision'')
      else Inr ())"

definition assertOperationalRecordingAllowed :: "trip \<Rightarrow> unit result" where
  "assertOperationalRecordingAllowed t =
     throw_if (tr_status t \<notin> set [TS_in_execution, TS_suspended, TS_interrupted])
       (validationError ''recording-not-allowed'')"

definition mk_record ::
  "trip \<Rightarrow> trip_command \<Rightarrow> record_kind \<Rightarrow> string \<Rightarrow> trip_evidence list \<Rightarrow> int \<Rightarrow> int \<Rightarrow>
     operational_record" where
  "mk_record t c kind reason evidence occurredAt resultingVersion =
     \<lparr>or_kind = kind, or_tripId = tr_id t, or_companyId = tr_companyId t,
      or_commandId = tc_commandId c, or_actorUserId = tc_actorUserId c, or_reason = reason,
      or_evidence = evidence, or_occurredAt = occurredAt, or_resultingVersion = resultingVersion\<rparr>"

text \<open>The local variables of \<open>applyTripCommand\<close>.\<close>

record trip_locals =
  lo_status :: trip_status
  lo_plan :: "int trip_plan"
  lo_planVersion :: int
  lo_scheduledAt :: "int option"
  lo_startedAt :: "int option"
  lo_endedAt :: "int option"
  lo_reason :: "string option"
  lo_operationalRecord :: "operational_record option"

definition initial_locals :: "trip \<Rightarrow> trip_locals" where
  "initial_locals t = \<lparr>lo_status = tr_status t, lo_plan = tr_plan t, lo_planVersion = tr_planVersion t,
     lo_scheduledAt = tr_scheduledAt t, lo_startedAt = tr_startedAt t, lo_endedAt = tr_endedAt t,
     lo_reason = None, lo_operationalRecord = None\<rparr>"

text \<open>The cases that change the status and write an occurrence.\<close>

definition recorded_transition ::
  "trip \<Rightarrow> trip_command \<Rightarrow> int \<Rightarrow> trip_status \<Rightarrow> record_kind \<Rightarrow> string \<Rightarrow> trip_evidence list option \<Rightarrow>
     bool \<Rightarrow> trip_locals result" where
  "recorded_transition t c occurredAt to kind reason evidence required =
     rbind (assertTransition (tr_status t) to) (\<lambda>_.
     rbind (normalizeReason reason) (\<lambda>r.
     rbind (normalizeEvidence evidence required) (\<lambda>es.
     Inr ((initial_locals t)\<lparr>lo_reason := Some r, lo_status := to,
       lo_operationalRecord := Some (mk_record t c kind r es occurredAt (tr_version t + 1))\<rparr>))))"

text \<open>The cases that end the trip with a reason.\<close>

definition ending_transition ::
  "trip \<Rightarrow> int \<Rightarrow> trip_status \<Rightarrow> string \<Rightarrow> trip_locals result" where
  "ending_transition t occurredAt to reason =
     rbind (assertTransition (tr_status t) to) (\<lambda>_.
     rbind (normalizeReason reason) (\<lambda>r.
     Inr ((initial_locals t)\<lparr>lo_reason := Some r, lo_status := to, lo_endedAt := Some occurredAt\<rparr>)))"

text \<open>The cases that record what happened without a change of status.\<close>

definition recording ::
  "trip \<Rightarrow> trip_command \<Rightarrow> int \<Rightarrow> record_kind \<Rightarrow> string \<Rightarrow> trip_evidence list \<Rightarrow> trip_locals result" where
  "recording t c occurredAt kind reason evidence =
     rbind (assertOperationalRecordingAllowed t) (\<lambda>_.
     rbind (normalizeReason reason) (\<lambda>r.
     rbind (normalizeEvidence (Some evidence) True) (\<lambda>es.
     Inr ((initial_locals t)\<lparr>lo_reason := Some r,
       lo_operationalRecord := Some (mk_record t c kind r es occurredAt (tr_version t + 1))\<rparr>))))"

definition tripCommandCase :: "trip \<Rightarrow> trip_command \<Rightarrow> int \<Rightarrow> trip_locals result" where
  "tripCommandCase t c occurredAt =
     (case tc_action c of
        TC_edit_draft plan \<Rightarrow>
          rbind (assertDraftEditAllowed t) (\<lambda>_.
          rbind (normalizePlan plan) (\<lambda>p. Inr ((initial_locals t)\<lparr>lo_plan := p\<rparr>)))
      | TC_schedule \<Rightarrow>
          rbind (assertTransition (tr_status t) TS_scheduled) (\<lambda>_.
          rbind (assertSchedulable (tr_plan t)) (\<lambda>_.
          Inr ((initial_locals t)\<lparr>lo_status := TS_scheduled, lo_scheduledAt := Some occurredAt,
            lo_planVersion := tr_planVersion t + 1\<rparr>)))
      | TC_revise_schedule plan reason \<Rightarrow>
          (if tr_status t \<noteq> TS_scheduled
           then (if tr_startedAt t \<noteq> None then Inl (validationError ''revise-after-start'')
                 else Inl (validationError ''revise-needs-scheduled''))
           else rbind (normalizeReason reason) (\<lambda>r.
             rbind (normalizePlan plan) (\<lambda>p.
             rbind (assertSchedulable p) (\<lambda>_.
             Inr ((initial_locals t)\<lparr>lo_reason := Some r, lo_plan := p,
               lo_planVersion := tr_planVersion t + 1\<rparr>)))))
      | TC_start \<Rightarrow>
          rbind (assertTransition (tr_status t) TS_in_execution) (\<lambda>_.
          Inr ((initial_locals t)\<lparr>lo_status := TS_in_execution, lo_startedAt := Some occurredAt\<rparr>))
      | TC_suspend reason evidence \<Rightarrow>
          recorded_transition t c occurredAt TS_suspended OR_suspension reason evidence False
      | TC_resume reason evidence \<Rightarrow>
          recorded_transition t c occurredAt TS_in_execution OR_resumption reason evidence False
      | TC_interrupt reason evidence \<Rightarrow>
          recorded_transition t c occurredAt TS_interrupted OR_interruption reason (Some evidence) True
      | TC_close_early reason \<Rightarrow> ending_transition t occurredAt TS_early_terminated reason
      | TC_complete \<Rightarrow>
          rbind (assertTransition (tr_status t) TS_completed) (\<lambda>_.
          Inr ((initial_locals t)\<lparr>lo_status := TS_completed, lo_endedAt := Some occurredAt\<rparr>))
      | TC_cancel reason \<Rightarrow> ending_transition t occurredAt TS_cancelled reason
      | TC_record_occurrence reason evidence \<Rightarrow> recording t c occurredAt OR_operational reason evidence
      | TC_record_deviation reason evidence \<Rightarrow> recording t c occurredAt OR_deviation reason evidence)"

fun writes_plan_version :: "trip_action \<Rightarrow> bool" where
  "writes_plan_version TC_schedule = True"
| "writes_plan_version (TC_revise_schedule _ _) = True"
| "writes_plan_version _ = False"

definition trip_of_locals :: "trip \<Rightarrow> int \<Rightarrow> trip_locals \<Rightarrow> trip" where
  "trip_of_locals t occurredAt l = t\<lparr>tr_status := lo_status l, tr_plan := lo_plan l,
     tr_version := tr_version t + 1, tr_planVersion := lo_planVersion l,
     tr_scheduledAt := lo_scheduledAt l, tr_startedAt := lo_startedAt l, tr_endedAt := lo_endedAt l,
     tr_updatedAt := occurredAt\<rparr>"

definition commandResult :: "trip \<Rightarrow> trip_command \<Rightarrow> int \<Rightarrow> trip_locals \<Rightarrow> command_result" where
  "commandResult current c occurredAt l =
     (let t = trip_of_locals current occurredAt l in
      \<lparr>cr_trip = t,
       cr_history = \<lparr>he_tripId = tr_id t, he_companyId = tr_companyId t,
         he_commandId = tc_commandId c, he_actorUserId = tc_actorUserId c,
         he_action = Some (tc_action c), he_fromStatus = Some (tr_status current),
         he_toStatus = tr_status t, he_reason = lo_reason l,
         he_expectedVersion = Some (tc_expectedVersion c),
         he_resultingVersion = tr_version current + 1, he_occurredAt = occurredAt\<rparr>,
       cr_planVersion = (if writes_plan_version (tc_action c)
         then Some \<lparr>pv_tripId = tr_id t, pv_companyId = tr_companyId t,
           pv_commandId = tc_commandId c, pv_createdByUserId = tc_actorUserId c,
           pv_version = tr_planVersion t, pv_aggregateVersion = tr_version t, pv_plan = tr_plan t,
           pv_reason = lo_reason l, pv_createdAt = occurredAt\<rparr>
         else None),
       cr_operationalRecord = lo_operationalRecord l\<rparr>)"

definition applyTripCommand :: "trip \<Rightarrow> trip_command \<Rightarrow> command_result result" where
  "applyTripCommand current c =
     rbind (assertCommandContext current c) (\<lambda>occurredAt.
     rbind (tripCommandCase current c occurredAt) (\<lambda>l.
     Inr (commandResult current c occurredAt l)))"

text \<open>The aggregate after a command: what the next command is applied to.\<close>

definition trip_step :: "trip \<Rightarrow> trip_command \<Rightarrow> trip result" where
  "trip_step t c = rbind (applyTripCommand t c) (\<lambda>r. Inr (cr_trip r))"

section \<open>Plans in normal form\<close>

definition leg_ok :: "int trip_leg \<Rightarrow> bool" where
  "leg_ok l \<longleftrightarrow> compact (lg_id l) = lg_id l \<and> lg_id l \<noteq> [] \<and> length (lg_id l) \<le> 100 \<and>
     1 \<le> lg_sequence l \<and> compact (lg_label l) = lg_label l \<and> lg_label l \<noteq> [] \<and>
     length (lg_label l) \<le> 160"

definition plan_ok :: "int trip_plan \<Rightarrow> bool" where
  "plan_ok p \<longleftrightarrow> list_all leg_ok (pl_legs p) \<and> distinct (map lg_id (pl_legs p)) \<and>
     sorted_wrt (<) (map lg_sequence (pl_legs p)) \<and>
     (\<forall>d. pl_serviceDate p = Some d \<longrightarrow> civil_date_text d)"

interpretation by_sequence: comparator by_sequence
  by unfold_locales (auto simp: by_sequence_def)

lemma normalizeDateOnly_Inr [result_simps]:
  "normalizeDateOnly v = Inr w \<longleftrightarrow> w = v \<and> (\<forall>d. v = Some d \<longrightarrow> civil_date_text d)"
  by (auto simp: normalizeDateOnly_def civil_date_text_def split: option.splits)

lemma normalize_legs_Inr:
  assumes "normalize_legs ids seqs legs = Inr out"
  shows "list_all leg_ok out \<and> distinct (map lg_id out) \<and> distinct (map lg_sequence out) \<and>
    set (map lg_id out) \<inter> ids = {} \<and> set (map lg_sequence out) \<inter> seqs = {}"
  using assms
proof (induction ids seqs legs arbitrary: out rule: normalize_legs.induct)
  case (1 ids seqs)
  then show ?case by simp
next
  case (2 ids seqs leg legs)
  from "2.prems" obtain n rest where
    n: "positive_integer (lg_sequence leg) = Some n" and i: "compact (lg_id leg) \<notin> ids"
    and s: "n \<notin> seqs" and rest: "normalize_legs (insert (compact (lg_id leg)) ids) (insert n seqs) legs = Inr rest"
    and out: "out = \<lparr>lg_id = compact (lg_id leg), lg_sequence = n, lg_label = compact (lg_label leg)\<rparr> # rest"
    and b: "compact (lg_id leg) \<noteq> []" "length (compact (lg_id leg)) \<le> 100"
      "compact (lg_label leg) \<noteq> []" "length (compact (lg_label leg)) \<le> 160"
    by (auto simp: result_simps split: option.splits if_splits)
  from "2.IH" [OF i n s rest] have IH: "list_all leg_ok rest" "distinct (map lg_id rest)"
    "distinct (map lg_sequence rest)" "set (map lg_id rest) \<inter> insert (compact (lg_id leg)) ids = {}"
    "set (map lg_sequence rest) \<inter> insert n seqs = {}"
    by simp_all
  moreover have "leg_ok \<lparr>lg_id = compact (lg_id leg), lg_sequence = n, lg_label = compact (lg_label leg)\<rparr>"
    using b n by (simp add: leg_ok_def positive_integer_Some)
  ultimately show ?case using i s by (auto simp: out)
qed

lemma sorted_strict_of_distinct:
  "sorted_wrt (\<lambda>x y. by_sequence x y \<le> 0) ls \<Longrightarrow> distinct (map lg_sequence ls) \<Longrightarrow>
     sorted_wrt (<) (map lg_sequence ls)"
  by (induction ls) (fastforce simp: by_sequence_def)+

lemma distinct_map_js_sort: "distinct (map f (js_sort cmp xs)) \<longleftrightarrow> distinct (map f xs)"
  by (metis mset_eq_imp_distinct_iff mset_js_sort mset_map)

lemma normalizePlan_ok: "normalizePlan p = Inr q \<Longrightarrow> plan_ok q"
  by (auto simp: normalizePlan_def result_simps plan_ok_def list_all_iff distinct_map_js_sort
      dest!: normalize_legs_Inr intro!: sorted_strict_of_distinct by_sequence.sorted_js_sort)

text \<open>A plan in normal form, given back, is accepted as it is.\<close>

definition plan_input :: "int trip_plan \<Rightarrow> js_number trip_plan" where
  "plan_input p = \<lparr>pl_serviceDate = pl_serviceDate p,
     pl_legs = map (\<lambda>l. \<lparr>lg_id = lg_id l, lg_sequence = JInt (lg_sequence l), lg_label = lg_label l\<rparr>)
       (pl_legs p)\<rparr>"

lemma normalize_legs_ok_id:
  "list_all leg_ok ls \<Longrightarrow> distinct (map lg_id ls) \<Longrightarrow> distinct (map lg_sequence ls) \<Longrightarrow>
     set (map lg_id ls) \<inter> ids = {} \<Longrightarrow> set (map lg_sequence ls) \<inter> seqs = {} \<Longrightarrow>
     normalize_legs ids seqs (pl_legs (plan_input \<lparr>pl_serviceDate = d, pl_legs = ls\<rparr>)) = Inr ls"
proof (induction ls arbitrary: ids seqs)
  case Nil
  then show ?case by (simp add: plan_input_def)
next
  case (Cons l ls)
  have "requiredText (lg_id l) ''leg-id'' 100 = Inr (lg_id l)"
    "requiredText (lg_label l) ''leg-label'' 160 = Inr (lg_label l)"
    using Cons.prems(1) by (auto simp: requiredText_Inr leg_ok_def)
  moreover have "normalize_legs (insert (lg_id l) ids) (insert (lg_sequence l) seqs)
      (pl_legs (plan_input \<lparr>pl_serviceDate = d, pl_legs = ls\<rparr>)) = Inr ls"
    using Cons.prems by (intro Cons.IH) auto
  ultimately show ?case
    using Cons.prems by (auto simp: plan_input_def leg_ok_def)
qed

lemma js_sort_sorted_id:
  "sorted_wrt (<) (map lg_sequence ls) \<Longrightarrow> js_sort by_sequence ls = ls"
  by (intro js_sort_id) (auto simp: sorted_wrt_map by_sequence_def elim!: sorted_wrt_mono_rel [rotated])

lemma normalizePlan_idem:
  assumes "plan_ok p"
  shows "normalizePlan (plan_input p) = Inr p"
proof -
  have s: "sorted_wrt (<) (map lg_sequence (pl_legs p))" using assms by (simp add: plan_ok_def)
  then have "distinct (map lg_sequence (pl_legs p))"
    using strict_sorted_iff by blast
  with assms have "normalize_legs {} {} (pl_legs (plan_input \<lparr>pl_serviceDate = pl_serviceDate p,
      pl_legs = pl_legs p\<rparr>)) = Inr (pl_legs p)"
    by (intro normalize_legs_ok_id) (auto simp: plan_ok_def)
  then have "normalize_legs {} {} (pl_legs (plan_input p)) = Inr (pl_legs p)"
    by (simp add: plan_input_def)
  moreover have "normalizeDateOnly (pl_serviceDate (plan_input p)) = Inr (pl_serviceDate p)"
    using assms by (simp add: normalizeDateOnly_Inr plan_ok_def plan_input_def)
  ultimately show ?thesis
    by (simp add: normalizePlan_def js_sort_sorted_id [OF s])
qed

section \<open>What a command does to the aggregate\<close>

lemma assertTransition_Inr [result_simps]:
  "assertTransition a b = Inr u \<longleftrightarrow> b \<in> set (TRIP_TRANSITION_MATRIX a)"
  by (simp add: assertTransition_def result_simps)

lemma assertSchedulable_Inr [result_simps]:
  "assertSchedulable p = Inr u \<longleftrightarrow> pl_serviceDate p \<noteq> None \<and> pl_legs p \<noteq> []"
  by (auto simp: assertSchedulable_def)

lemma assertDraftEditAllowed_Inr [result_simps]:
  "assertDraftEditAllowed t = Inr u \<longleftrightarrow> tr_startedAt t = None \<and> tr_status t = TS_draft"
  by (auto simp: assertDraftEditAllowed_def)

lemma assertOperationalRecordingAllowed_Inr [result_simps]:
  "assertOperationalRecordingAllowed t = Inr u \<longleftrightarrow>
     tr_status t \<in> {TS_in_execution, TS_suspended, TS_interrupted}"
  by (simp add: assertOperationalRecordingAllowed_def result_simps)

lemma normalizeReason_Inr [result_simps]:
  "normalizeReason r = Inr t \<longleftrightarrow> t = compact r \<and> compact r \<noteq> [] \<and> length (compact r) \<le> 1000"
  by (simp add: normalizeReason_def requiredText_Inr)

lemma assertCommandContext_Inr [result_simps]:
  "assertCommandContext t c = Inr at \<longleftrightarrow>
     compact (tc_commandId c) \<noteq> [] \<and> length (compact (tc_commandId c)) \<le> 100 \<and>
     compact (tc_actorUserId c) \<noteq> [] \<and> length (compact (tc_actorUserId c)) \<le> 100 \<and>
     tc_expectedVersion c = JInt (tr_version t) \<and> 1 \<le> tr_version t \<and>
     tc_occurredAt c = Some at \<and> tr_updatedAt t \<le> at"
  by (auto simp: assertCommandContext_def result_simps positive_integer_Some split: option.splits if_splits)

lemmas command_case_defs = tripCommandCase_def recorded_transition_def ending_transition_def
  recording_def initial_locals_def

text \<open>One lemma per aspect of the locals a case computes.\<close>

lemma case_status:
  "tripCommandCase t c at = Inr l \<Longrightarrow>
     lo_status l = tr_status t \<or> lo_status l \<in> set (TRIP_TRANSITION_MATRIX (tr_status t))"
  by (cases "tc_action c"; clarsimp simp: command_case_defs result_simps split: if_splits)

lemma case_plan:
  "tripCommandCase t c at = Inr l \<Longrightarrow> lo_plan l = tr_plan t \<or>
     (plan_ok (lo_plan l) \<and> tr_status t \<in> {TS_draft, TS_scheduled} \<and> lo_status l = tr_status t \<and>
      (tr_status t = TS_scheduled \<longrightarrow> pl_serviceDate (lo_plan l) \<noteq> None \<and> pl_legs (lo_plan l) \<noteq> []))"
  by (cases "tc_action c"; clarsimp simp: command_case_defs result_simps split: if_splits
      dest!: normalizePlan_ok)

text \<open>Three parts of the invariant, each kept by every case.\<close>

lemma case_schedulable:
  "tripCommandCase t c at = Inr l \<Longrightarrow>
     (tr_status t \<noteq> TS_draft \<longrightarrow> pl_serviceDate (tr_plan t) \<noteq> None \<and> pl_legs (tr_plan t) \<noteq> []) \<Longrightarrow>
     lo_status l \<noteq> TS_draft \<Longrightarrow> pl_serviceDate (lo_plan l) \<noteq> None \<and> pl_legs (lo_plan l) \<noteq> []"
  by (cases "tc_action c"; cases "tr_status t";
      clarsimp simp: command_case_defs result_simps split: if_splits)

lemma case_scheduledAt:
  "tripCommandCase t c at = Inr l \<Longrightarrow> (tr_scheduledAt t = None \<longleftrightarrow> tr_status t = TS_draft) \<Longrightarrow>
     lo_scheduledAt l = None \<longleftrightarrow> lo_status l = TS_draft"
  by (cases "tc_action c"; cases "tr_status t";
      clarsimp simp: command_case_defs result_simps split: if_splits)

lemma case_not_started:
  "tripCommandCase t c at = Inr l \<Longrightarrow>
     (tr_status t \<in> {TS_draft, TS_scheduled, TS_cancelled} \<longrightarrow> tr_startedAt t = None) \<Longrightarrow>
     lo_status l \<in> {TS_draft, TS_scheduled, TS_cancelled} \<Longrightarrow> lo_startedAt l = None"
  by (cases "tc_action c"; cases "tr_status t";
      clarsimp simp: command_case_defs result_simps split: if_splits)

definition trip_final :: "trip_status \<Rightarrow> bool" where
  "trip_final s \<longleftrightarrow> s \<in> {TS_early_terminated, TS_completed, TS_cancelled}"

lemma case_not_final: "tripCommandCase t c at = Inr l \<Longrightarrow> \<not> trip_final (tr_status t)"
  by (cases "tr_status t"; cases "tc_action c"; clarsimp simp: command_case_defs result_simps
      trip_final_def split: if_splits)

lemma case_endedAt:
  "tripCommandCase t c at = Inr l \<Longrightarrow>
     lo_endedAt l = (if trip_final (lo_status l) then Some at else tr_endedAt t)"
  using case_not_final [of t c at l]
  by (cases "tc_action c"; clarsimp simp: command_case_defs result_simps trip_final_def
      split: if_splits)

lemma case_startedAt:
  "tripCommandCase t c at = Inr l \<Longrightarrow>
     lo_startedAt l = (if tc_action c = TC_start then Some at else tr_startedAt t)"
  by (cases "tc_action c"; clarsimp simp: command_case_defs result_simps split: if_splits)

lemma case_planVersion:
  "tripCommandCase t c at = Inr l \<Longrightarrow>
     lo_planVersion l = tr_planVersion t + (if writes_plan_version (tc_action c) then 1 else 0)"
  by (cases "tc_action c"; clarsimp simp: command_case_defs result_simps split: if_splits)

lemma case_plan_version_status:
  "tripCommandCase t c at = Inr l \<Longrightarrow> writes_plan_version (tc_action c) \<Longrightarrow> lo_status l = TS_scheduled"
  by (cases "tc_action c"; clarsimp simp: command_case_defs result_simps split: if_splits)

lemma cr_trip_commandResult [simp]: "cr_trip (commandResult t c at l) = trip_of_locals t at l"
  by (simp add: commandResult_def Let_def)

lemma case_draft:
  "tripCommandCase t c at = Inr l \<Longrightarrow>
     lo_status l = TS_draft \<longleftrightarrow> tr_status t = TS_draft \<and> \<not> writes_plan_version (tc_action c)"
  by (cases "tc_action c"; cases "tr_status t";
      clarsimp simp: command_case_defs result_simps split: if_splits)

lemma trip_step_Inr:
  "trip_step t c = Inr t' \<longleftrightarrow>
     (\<exists>at l. assertCommandContext t c = Inr at \<and> tripCommandCase t c at = Inr l \<and>
        t' = trip_of_locals t at l)"
  by (auto simp: trip_step_def applyTripCommand_def rbind_Inr_iff)

section \<open>The invariant of a trip\<close>

definition trip_ok :: "trip \<Rightarrow> bool" where
  "trip_ok t \<longleftrightarrow> plan_ok (tr_plan t) \<and> 1 \<le> tr_version t \<and> 0 \<le> tr_planVersion t \<and>
     (tr_planVersion t = 0 \<longleftrightarrow> tr_status t = TS_draft) \<and>
     (tr_scheduledAt t = None \<longleftrightarrow> tr_status t = TS_draft) \<and>
     (tr_endedAt t \<noteq> None \<longleftrightarrow> trip_final (tr_status t)) \<and>
     (tr_status t \<noteq> TS_draft \<longrightarrow> pl_serviceDate (tr_plan t) \<noteq> None \<and> pl_legs (tr_plan t) \<noteq> []) \<and>
     (tr_status t \<in> {TS_draft, TS_scheduled, TS_cancelled} \<longrightarrow> tr_startedAt t = None) \<and>
     (\<forall>s. tr_startedAt t = Some s \<longrightarrow> s \<le> tr_updatedAt t) \<and>
     (\<forall>e. tr_endedAt t = Some e \<longrightarrow> e = tr_updatedAt t)"

lemma createTripDraft_ok:
  assumes "createTripDraft input = Inr r"
  shows "trip_ok (cr_trip r)"
  using assms
  by (auto simp: createTripDraft_def result_simps trip_ok_def trip_final_def dest: normalizePlan_ok)

lemma trip_step_ok:
  assumes ok: "trip_ok t" and step: "trip_step t c = Inr t'"
  shows "trip_ok t'"
proof -
  from step obtain at l where ctx: "assertCommandContext t c = Inr at"
    and l: "tripCommandCase t c at = Inr l" and t': "t' = trip_of_locals t at l"
    by (auto simp: trip_step_Inr)
  have at: "tr_updatedAt t \<le> at" using ctx by (simp add: assertCommandContext_Inr)
  have p: "plan_ok (lo_plan l)" using case_plan [OF l] ok by (auto simp: trip_ok_def)
  have s: "lo_status l \<noteq> TS_draft \<Longrightarrow> pl_serviceDate (lo_plan l) \<noteq> None \<and> pl_legs (lo_plan l) \<noteq> []"
    using ok by (intro case_schedulable [OF l]) (simp_all add: trip_ok_def)
  have v: "0 \<le> lo_planVersion l" "lo_planVersion l = 0 \<longleftrightarrow> lo_status l = TS_draft"
    using case_planVersion [OF l] case_draft [OF l] ok by (auto simp: trip_ok_def)
  have sc: "lo_scheduledAt l = None \<longleftrightarrow> lo_status l = TS_draft"
    using ok by (intro case_scheduledAt [OF l]) (simp add: trip_ok_def)
  have st: "lo_status l \<in> {TS_draft, TS_scheduled, TS_cancelled} \<Longrightarrow> lo_startedAt l = None"
    using ok by (intro case_not_started [OF l]) (simp_all add: trip_ok_def)
  have sl: "\<forall>x. lo_startedAt l = Some x \<longrightarrow> x \<le> at"
    using case_startedAt [OF l] ok at by (auto simp: trip_ok_def split: if_splits)
  have en: "lo_endedAt l \<noteq> None \<longleftrightarrow> trip_final (lo_status l)" "\<forall>e. lo_endedAt l = Some e \<longrightarrow> e = at"
    using case_endedAt [OF l] case_not_final [OF l] ok by (auto simp: trip_ok_def split: if_splits)
  show ?thesis
    using p s v sc st sl en ok by (simp add: t' trip_of_locals_def trip_ok_def)
qed

interpretation trip: guarded_machine trip_step trip_ok
  by unfold_locales (rule trip_step_ok)

lemma trip_step_version: "trip_step t c = Inr t' \<Longrightarrow> tr_version t' = tr_version t + 1"
  by (auto simp: trip_step_Inr trip_of_locals_def)

interpretation trip_versions: versioned_machine trip_step tr_version
  by unfold_locales (rule trip_step_version)

interpretation trip_final: terminal_machine trip_step "\<lambda>t. trip_final (tr_status t)"
  by unfold_locales (auto simp: trip_step_Inr dest: case_not_final)

section \<open>Concurrency, frozen plans and snapshots\<close>

lemma trip_step_identity:
  "trip_step t c = Inr t' \<Longrightarrow>
     tr_id t' = tr_id t \<and> tr_companyId t' = tr_companyId t \<and> tr_code t' = tr_code t \<and>
     tr_source t' = tr_source t \<and> tr_createdByUserId t' = tr_createdByUserId t \<and>
     tr_createdAt t' = tr_createdAt t"
  by (auto simp: trip_step_Inr trip_of_locals_def)

lemma trip_step_status:
  "trip_step t c = Inr t' \<Longrightarrow>
     tr_status t' = tr_status t \<or> tr_status t' \<in> set (TRIP_TRANSITION_MATRIX (tr_status t))"
  by (auto simp: trip_step_Inr trip_of_locals_def dest: case_status)

lemma trip_step_time: "trip_step t c = Inr t' \<Longrightarrow> tr_updatedAt t \<le> tr_updatedAt t'"
  by (auto simp: trip_step_Inr trip_of_locals_def assertCommandContext_Inr)

text \<open>A command that was prepared on an older version is a conflict, never a lost update.\<close>

lemma stale_command_conflict:
  assumes "tc_expectedVersion c = JInt v" and "1 \<le> v" and "v \<noteq> tr_version t"
    and "compact (tc_commandId c) \<noteq> []" "length (compact (tc_commandId c)) \<le> 100"
    and "compact (tc_actorUserId c) \<noteq> []" "length (compact (tc_actorUserId c)) \<le> 100"
  shows "applyTripCommand t c = Inl (conflict ''trip-changed-meanwhile'' None)"
proof -
  have "requiredText (tc_commandId c) ''command-id'' 100 = Inr (compact (tc_commandId c))"
    and "requiredText (tc_actorUserId c) ''actor'' 100 = Inr (compact (tc_actorUserId c))"
    using assms(4-7) by (simp_all add: requiredText_Inr)
  with assms(1-3) show ?thesis
    by (simp add: applyTripCommand_def assertCommandContext_def)
qed

lemma concurrent_command_conflict:
  assumes "trip_step t c = Inr t'" and "tc_expectedVersion d = tc_expectedVersion c"
    and "tc_commandId d = tc_commandId c" and "tc_actorUserId d = tc_actorUserId c"
  shows "applyTripCommand t' d = Inl (conflict ''trip-changed-meanwhile'' None)"
proof -
  from assms(1) have c: "tc_expectedVersion c = JInt (tr_version t)" "1 \<le> tr_version t"
    "compact (tc_commandId c) \<noteq> []" "length (compact (tc_commandId c)) \<le> 100"
    "compact (tc_actorUserId c) \<noteq> []" "length (compact (tc_actorUserId c)) \<le> 100"
    by (auto simp: trip_step_Inr assertCommandContext_Inr)
  show ?thesis
    using assms(2-4) c trip_step_version [OF assms(1)]
    by (intro stale_command_conflict [of d "tr_version t"]) simp_all
qed

text \<open>After the start neither the plan nor its version changes, in whatever run follows.\<close>

definition trip_underway :: "trip \<Rightarrow> bool" where
  "trip_underway t \<longleftrightarrow> tr_status t \<notin> {TS_draft, TS_scheduled}"

lemma underway_step:
  assumes "trip_underway t" and "trip_step t c = Inr t'"
  shows "trip_underway t' \<and> tr_plan t' = tr_plan t \<and> tr_planVersion t' = tr_planVersion t"
proof -
  from assms(2) obtain at l where l: "tripCommandCase t c at = Inr l" and t': "t' = trip_of_locals t at l"
    by (auto simp: trip_step_Inr)
  have "lo_status l \<notin> {TS_draft, TS_scheduled}"
    using case_status [OF l] assms(1) by (cases "tr_status t") (auto simp: trip_underway_def)
  moreover from this have "\<not> writes_plan_version (tc_action c)"
    using case_plan_version_status [OF l] by auto
  ultimately show ?thesis
    using case_plan [OF l] case_planVersion [OF l] assms(1)
    by (auto simp: t' trip_of_locals_def trip_underway_def)
qed

lemma underway_run:
  "run trip_step t cs = Inr t' \<Longrightarrow> trip_underway t \<Longrightarrow>
     trip_underway t' \<and> tr_plan t' = tr_plan t \<and> tr_planVersion t' = tr_planVersion t"
proof (induction cs arbitrary: t)
  case (Cons c cs)
  then obtain m where m: "trip_step t c = Inr m" "run trip_step m cs = Inr t'"
    by (auto simp: result_simps)
  with underway_step [OF Cons.prems(2) m(1)] Cons.IH [OF m(2)] show ?case by simp
qed simp

text \<open>The plan versions a run writes, in their order.\<close>

fun trip_log :: "trip \<Rightarrow> trip_command list \<Rightarrow> (trip \<times> plan_version list) result" where
  "trip_log t [] = Inr (t, [])"
| "trip_log t (c # cs) =
     rbind (applyTripCommand t c) (\<lambda>r.
     rbind (trip_log (cr_trip r) cs) (\<lambda>(t', vs).
     Inr (t', (case cr_planVersion r of None \<Rightarrow> vs | Some v \<Rightarrow> v # vs))))"

lemma applyTripCommand_Inr:
  "applyTripCommand t c = Inr r \<longleftrightarrow>
     (\<exists>at l. assertCommandContext t c = Inr at \<and> tripCommandCase t c at = Inr l \<and>
        r = commandResult t c at l)"
  by (auto simp: applyTripCommand_def rbind_Inr_iff)

lemma applyTripCommand_planVersion:
  assumes "applyTripCommand t c = Inr r"
  shows "case cr_planVersion r of
      None \<Rightarrow> tr_planVersion (cr_trip r) = tr_planVersion t \<and> \<not> writes_plan_version (tc_action c)
    | Some v \<Rightarrow> tr_planVersion (cr_trip r) = tr_planVersion t + 1 \<and>
        pv_version v = tr_planVersion (cr_trip r) \<and> pv_plan v = tr_plan (cr_trip r) \<and>
        pv_aggregateVersion v = tr_version (cr_trip r) \<and> tr_status (cr_trip r) = TS_scheduled"
proof -
  from assms obtain at l where l: "tripCommandCase t c at = Inr l" and r: "r = commandResult t c at l"
    by (auto simp: applyTripCommand_Inr)
  show ?thesis
    using case_planVersion [OF l] case_plan_version_status [OF l]
    by (simp add: r commandResult_def Let_def trip_of_locals_def)
qed

lemma trip_log_run: "trip_log t cs = Inr (t', vs) \<Longrightarrow> run trip_step t cs = Inr t'"
  by (induction cs arbitrary: t t' vs) (auto simp: result_simps trip_step_def split: prod.splits)

lemma trip_log_versions:
  "trip_log t cs = Inr (t', vs) \<Longrightarrow>
     map pv_version vs = [tr_planVersion t + 1 .. tr_planVersion t'] \<and> tr_planVersion t \<le> tr_planVersion t'"
proof (induction cs arbitrary: t vs)
  case Nil
  then show ?case by simp
next
  case (Cons c cs)
  then obtain r ws where r: "applyTripCommand t c = Inr r" and ws: "trip_log (cr_trip r) cs = Inr (t', ws)"
    and vs: "vs = (case cr_planVersion r of None \<Rightarrow> ws | Some v \<Rightarrow> v # ws)"
    by (auto simp: result_simps split: prod.splits)
  show ?case
    using applyTripCommand_planVersion [OF r] Cons.IH [OF ws]
    by (cases "cr_planVersion r") (auto simp: vs upto_rec1 [of "tr_planVersion t + 1"])
qed

text \<open>Where the plan of a scheduled trip changes, the change is snapshotted.\<close>

lemma applyTripCommand_plan_changed:
  assumes "applyTripCommand t c = Inr r" and "tr_status t \<noteq> TS_draft" and "cr_planVersion r = None"
  shows "tr_plan (cr_trip r) = tr_plan t"
proof -
  from assms(1) obtain at l where l: "tripCommandCase t c at = Inr l" and r: "r = commandResult t c at l"
    by (auto simp: applyTripCommand_Inr)
  have nw: "\<not> writes_plan_version (tc_action c)"
    using assms(3) by (simp add: r commandResult_def Let_def split: if_splits)
  have "lo_plan l = tr_plan t"
    using l nw assms(2)
    by (cases "tc_action c"; clarsimp simp: command_case_defs result_simps split: if_splits)
  then show ?thesis by (simp add: r trip_of_locals_def)
qed

lemma applyTripCommand_leaves_draft:
  assumes "applyTripCommand t c = Inr r" and "tr_status t = TS_draft" and "cr_planVersion r = None"
  shows "tr_status (cr_trip r) = TS_draft"
proof -
  from assms(1) obtain at l where l: "tripCommandCase t c at = Inr l" and r: "r = commandResult t c at l"
    by (auto simp: applyTripCommand_Inr)
  have "\<not> writes_plan_version (tc_action c)"
    using assms(3) by (simp add: r commandResult_def Let_def split: if_splits)
  then show ?thesis using case_draft [OF l] assms(2) by (simp add: r trip_of_locals_def)
qed

lemma trip_log_last:
  "trip_log t cs = Inr (t', vs) \<Longrightarrow> tr_status t' \<noteq> TS_draft \<Longrightarrow>
     (if vs = [] then tr_plan t' = tr_plan t \<and> tr_status t \<noteq> TS_draft else pv_plan (last vs) = tr_plan t')"
proof (induction cs arbitrary: t vs)
  case Nil
  then show ?case by simp
next
  case (Cons c cs)
  then obtain r ws where r: "applyTripCommand t c = Inr r" and ws: "trip_log (cr_trip r) cs = Inr (t', ws)"
    and vs: "vs = (case cr_planVersion r of None \<Rightarrow> ws | Some v \<Rightarrow> v # ws)"
    by (auto simp: result_simps split: prod.splits)
  note IH = Cons.IH [OF ws Cons.prems(2)]
  show ?case
  proof (cases "cr_planVersion r")
    case None
    with IH applyTripCommand_plan_changed [OF r] applyTripCommand_leaves_draft [OF r] show ?thesis
      by (auto simp: vs split: if_splits)
  next
    case (Some v)
    with IH applyTripCommand_planVersion [OF r] show ?thesis by (auto simp: vs split: if_splits)
  qed
qed

section \<open>The records of a command\<close>

text \<open>The history entry of a command tells what happened to the aggregate.\<close>

lemma commandResult_history:
  assumes "applyTripCommand t c = Inr r"
  shows "he_fromStatus (cr_history r) = Some (tr_status t) \<and>
    he_toStatus (cr_history r) = tr_status (cr_trip r) \<and>
    he_resultingVersion (cr_history r) = tr_version (cr_trip r) \<and>
    he_occurredAt (cr_history r) = tr_updatedAt (cr_trip r) \<and>
    he_tripId (cr_history r) = tr_id t"
  using assms
  by (auto simp: applyTripCommand_Inr commandResult_def Let_def trip_of_locals_def)

lemma normalizeEvidence_required:
  "normalizeEvidence es True = Inr out \<Longrightarrow> out \<noteq> []"
  by (auto simp: normalizeEvidence_def result_simps)

lemma normalize_evidence_item_ok:
  "normalize_evidence_item e = Inr e' \<Longrightarrow>
     ev_description e' \<noteq> [] \<and> length (ev_description e') \<le> 1000 \<and>
     (ev_kind e' \<noteq> EK_manual_note \<longrightarrow> (\<exists>r. ev_referenceId e' = Some r \<and> r \<noteq> []))"
  by (auto simp: normalize_evidence_item_def Let_def result_simps dest: trim_or_null_Some split: if_splits)

lemma normalizeEvidence_items:
  "normalizeEvidence es req = Inr out \<Longrightarrow> e \<in> set out \<Longrightarrow>
     ev_description e \<noteq> [] \<and> length (ev_description e) \<le> 1000 \<and>
     (ev_kind e \<noteq> EK_manual_note \<longrightarrow> (\<exists>r. ev_referenceId e = Some r \<and> r \<noteq> []))"
  by (auto simp: normalizeEvidence_def result_simps split: if_splits
      dest!: map_result_in normalize_evidence_item_ok)

text \<open>Interruptions, occurrences and deviations carry evidence; each stored item is complete.\<close>

lemma operational_record_evidence:
  assumes "applyTripCommand t c = Inr r" and "cr_operationalRecord r = Some rec"
  shows "(or_kind rec \<in> {OR_interruption, OR_operational, OR_deviation} \<longrightarrow> or_evidence rec \<noteq> []) \<and>
    or_reason rec \<noteq> [] \<and> length (or_reason rec) \<le> 1000 \<and>
    (\<forall>e\<in>set (or_evidence rec). ev_description e \<noteq> [] \<and> length (ev_description e) \<le> 1000 \<and>
      (ev_kind e \<noteq> EK_manual_note \<longrightarrow> (\<exists>i. ev_referenceId e = Some i \<and> i \<noteq> [])))"
proof -
  from assms obtain at l where l: "tripCommandCase t c at = Inr l"
    and rec: "lo_operationalRecord l = Some rec"
    by (auto simp: applyTripCommand_Inr commandResult_def Let_def)
  show ?thesis
    using l rec
    by (cases "tc_action c"; clarsimp simp: command_case_defs result_simps mk_record_def split: if_splits;
        fastforce dest: normalizeEvidence_items normalizeEvidence_required)
qed

section \<open>The route plan of a trip\<close>

text \<open>
  Snapshots are JSON objects read from the database: finite maps from keys to values of any
  type \<open>'j\<close>. \<open>cloneSnapshot\<close> writes and parses the JSON text, the identity on such values.
\<close>

record 'j route_selection =
  rs_id :: string
  rs_companyId :: string
  rs_tripId :: string
  rs_sourceRouteId :: string
  rs_sourceRouteVersion :: int
  rs_sourcePlanVersion :: int
  rs_routeAggregateVersionAtSelection :: int
  rs_sourceSnapshot :: "string \<rightharpoonup> 'j"
  rs_commandId :: string
  rs_selectedByUserId :: string
  rs_reason :: "string option"
  rs_selectedAt :: int
  rs_supersededAt :: "int option"
  rs_usedForExecutionAt :: "int option"

record 'j selection_input =
  si_id :: string
  si_companyId :: string
  si_tripId :: string
  si_tripStatus :: trip_status
  si_tripContractId :: string
  si_tripStartedAt :: "int option"
  si_routeId :: string
  si_routeContractId :: string
  si_routeAggregateVersion :: int
  si_routeApprovedVersion :: "int option"
  si_approvedVersion :: int
  si_approvedPlanVersion :: int
  si_approvedSnapshot :: "string \<rightharpoonup> 'j"
  si_expectedRouteVersion :: js_number
  si_currentSelection :: "'j route_selection option"
  si_actorUserId :: string
  si_commandId :: string
  si_reason :: "string option"
  si_selectedAt :: js_date

definition positiveVersion :: "js_number \<Rightarrow> string \<Rightarrow> int result" where
  "positiveVersion v label =
     (case positive_integer v of None \<Rightarrow> Inl (validationError label) | Some n \<Rightarrow> Inr n)"

definition operationalSnapshot :: "(string \<rightharpoonup> 'j) \<Rightarrow> (string \<rightharpoonup> 'j)" where
  "operationalSnapshot s = s |` {''route'', ''points'', ''navigationLinks''}"

text \<open>The guards before the selection is built; the result is the normalized reason.\<close>

definition selectionGuards :: "'j selection_input \<Rightarrow> string option result" where
  "selectionGuards i =
     (if si_tripStartedAt i \<noteq> None \<or> si_tripStatus i \<notin> set [TS_draft, TS_scheduled]
      then Inl (validationError ''route-plan-after-start'')
      else if si_routeContractId i \<noteq> si_tripContractId i
      then Inl (validationError ''route-of-other-contract'')
      else rbind (positiveVersion (si_expectedRouteVersion i) ''expected-route-version'') (\<lambda>expected.
        if si_routeAggregateVersion i \<noteq> expected then Inl (conflict ''route-changed'' None)
        else case si_routeApprovedVersion i of
          None \<Rightarrow> Inl (validationError ''route-not-approved'')
        | Some approved \<Rightarrow>
            if si_approvedVersion i \<noteq> approved then Inl (validationError ''snapshot-not-approved'')
            else
              (let reason = (case si_reason i of None \<Rightarrow> None
                 | Some r \<Rightarrow> if compact r = [] then None else Some (compact r)) in
               if si_currentSelection i \<noteq> None \<and> reason = None
               then Inl (validationError ''replacement-reason'')
               else if (case reason of None \<Rightarrow> False | Some r \<Rightarrow> length r > 1000)
               then Inl (validationError ''reason-too-long'')
               else Inr reason)))"

definition prepareTripRoutePlanSelection :: "'j selection_input \<Rightarrow> 'j route_selection result" where
  "prepareTripRoutePlanSelection i =
     rbind (selectionGuards i) (\<lambda>reason.
     rbind (requiredText (si_id i) ''selection-id'' 100) (\<lambda>ident.
     rbind (requiredText (si_companyId i) ''selection-company'' 100) (\<lambda>company.
     rbind (requiredText (si_tripId i) ''selection-trip'' 100) (\<lambda>tripId.
     rbind (requiredText (si_routeId i) ''selection-route'' 100) (\<lambda>routeId.
     rbind (positiveVersion (JInt (si_approvedVersion i)) ''approved-version'') (\<lambda>routeVersion.
     rbind (positiveVersion (JInt (si_approvedPlanVersion i)) ''plan-version'') (\<lambda>planVersion.
     rbind (positiveVersion (JInt (si_routeAggregateVersion i)) ''aggregate-version'') (\<lambda>aggregate.
     rbind (requiredText (si_commandId i) ''command-id'' 100) (\<lambda>command.
     rbind (requiredText (si_actorUserId i) ''selection-actor'' 100) (\<lambda>actor.
     rbind (validDate (si_selectedAt i) ''selection-date'') (\<lambda>selectedAt.
     Inr \<lparr>rs_id = ident, rs_companyId = company, rs_tripId = tripId, rs_sourceRouteId = routeId,
       rs_sourceRouteVersion = routeVersion, rs_sourcePlanVersion = planVersion,
       rs_routeAggregateVersionAtSelection = aggregate,
       rs_sourceSnapshot = operationalSnapshot (si_approvedSnapshot i), rs_commandId = command,
       rs_selectedByUserId = actor, rs_reason = reason, rs_selectedAt = selectedAt,
       rs_supersededAt = None, rs_usedForExecutionAt = None\<rparr>)))))))))))"

definition freezeTripRoutePlanSelection ::
  "'j route_selection \<Rightarrow> js_date \<Rightarrow> 'j route_selection result" where
  "freezeTripRoutePlanSelection sel startedAt =
     (if rs_supersededAt sel \<noteq> None then Inl (validationError ''superseded-selection'')
      else rbind (validDate startedAt ''start-date'') (\<lambda>usedForExecutionAt.
        if usedForExecutionAt < rs_selectedAt sel
        then Inl (validationError ''start-before-selection'')
        else Inr (sel\<lparr>rs_usedForExecutionAt := Some usedForExecutionAt\<rparr>)))"

lemma operationalSnapshot_part:
  "dom (operationalSnapshot m) \<subseteq> {''route'', ''points'', ''navigationLinks''} \<and> operationalSnapshot m \<subseteq>\<^sub>m m"
  by (auto simp: operationalSnapshot_def map_le_def)

lemma positiveVersion_Inr [result_simps]: "positiveVersion v l = Inr n \<longleftrightarrow> v = JInt n \<and> 1 \<le> n"
  by (auto simp: positiveVersion_def positive_integer_Some split: option.splits)

lemma selectionGuards_Inr:
  "selectionGuards i = Inr reason \<Longrightarrow>
     si_tripStartedAt i = None \<and> si_tripStatus i \<in> {TS_draft, TS_scheduled} \<and>
     si_routeContractId i = si_tripContractId i \<and>
     si_expectedRouteVersion i = JInt (si_routeAggregateVersion i) \<and>
     si_routeApprovedVersion i = Some (si_approvedVersion i) \<and>
     (si_currentSelection i \<noteq> None \<longrightarrow> reason \<noteq> None) \<and>
     (\<forall>r. reason = Some r \<longrightarrow> r \<noteq> [] \<and> length r \<le> 1000)"
  by (auto simp: selectionGuards_def Let_def result_simps split: if_splits option.splits)

lemma selection_of_guards:
  assumes "prepareTripRoutePlanSelection i = Inr s"
  shows "selectionGuards i = Inr (rs_reason s)" "rs_sourceSnapshot s = operationalSnapshot (si_approvedSnapshot i)"
    "rs_sourceRouteVersion s = si_approvedVersion i" "rs_selectedAt s = the (si_selectedAt i)"
    "rs_usedForExecutionAt s = None \<and> rs_supersededAt s = None"
  using assms by (auto simp: prepareTripRoutePlanSelection_def result_simps)

lemma freeze_Inr:
  "freezeTripRoutePlanSelection s at = Inr f \<longleftrightarrow>
     (\<exists>t. at = Some t \<and> rs_supersededAt s = None \<and> rs_selectedAt s \<le> t \<and>
        f = s\<lparr>rs_usedForExecutionAt := Some t\<rparr>)"
  by (auto simp: freezeTripRoutePlanSelection_def result_simps)

section \<open>Properties\<close>

text \<open>
  C4. The life of a trip: from its draft on, every run of accepted commands keeps the invariant
  of the aggregate (plan in normal form, version and plan version, which dates are set in which
  status), raises the version by one per command, and ends in a final status at most once.
\<close>

theorem trip_life:
  assumes "createTripDraft input = Inr r" and "run trip_step (cr_trip r) cs = Inr t"
  shows "trip_ok t \<and> tr_version t = 1 + int (length cs) \<and>
    (trip_final (tr_status t) \<longrightarrow> (\<forall>c. \<exists>e. trip_step t c = Inl e))"
proof -
  have "tr_version (cr_trip r) = 1" using assms(1) by (auto simp: createTripDraft_def result_simps)
  moreover have "\<exists>e. trip_step t c = Inl e" if "trip_final (tr_status t)" for c
    using trip_final.final_stuck [of t c] that by (cases "trip_step t c") auto
  ultimately show ?thesis
    using trip.run_inv [OF createTripDraft_ok [OF assms(1)] assms(2)]
      trip_versions.run_version [OF assms(2)] by simp
qed

definition sample_draft :: draft_input where
  "sample_draft = \<lparr>di_id = ''t1'', di_companyId = ''c1'', di_code = '' vg  7'',
     di_source = ContinuousContract ''k1'' (JInt 2),
     di_plan = \<lparr>pl_serviceDate = Some ''2026-02-28'', pl_legs =
       [\<lparr>lg_id = ''b'', lg_sequence = JInt 2, lg_label = ''Volta''\<rparr>,
        \<lparr>lg_id = ''a'', lg_sequence = JInt 1, lg_label = '' Ida  ao centro''\<rparr>]\<rparr>,
     di_actorUserId = ''u1'', di_commandId = ''k0'', di_createdAt = Some 10\<rparr>"

definition sample_trip :: "trip_status \<Rightarrow> int \<Rightarrow> int \<Rightarrow> int option \<Rightarrow> int option \<Rightarrow> int \<Rightarrow> trip" where
  "sample_trip status version planVersion scheduled started updated =
     \<lparr>tr_id = ''t1'', tr_companyId = ''c1'', tr_code = ''VG 7'',
      tr_source = ContinuousContract ''k1'' 2, tr_status = status,
      tr_plan = \<lparr>pl_serviceDate = Some ''2026-02-28'', pl_legs =
        [\<lparr>lg_id = ''a'', lg_sequence = 1, lg_label = ''Ida ao centro''\<rparr>,
         \<lparr>lg_id = ''b'', lg_sequence = 2, lg_label = ''Volta''\<rparr>]\<rparr>,
      tr_version = version, tr_planVersion = planVersion, tr_scheduledAt = scheduled,
      tr_startedAt = started, tr_endedAt = None, tr_createdByUserId = ''u1'', tr_createdAt = 10,
      tr_updatedAt = updated\<rparr>"

definition sample_command :: "trip_action \<Rightarrow> int \<Rightarrow> int \<Rightarrow> trip_command" where
  "sample_command action version at = \<lparr>tc_commandId = ''k1'', tc_actorUserId = ''u1'',
     tc_expectedVersion = JInt version, tc_occurredAt = Some at, tc_action = action\<rparr>"

lemma sample_draft_created:
  "map_sum id cr_trip (createTripDraft sample_draft) = Inr (sample_trip TS_draft 1 0 None None 10)"
  by code_simp

lemma sample_schedule:
  "trip_step (sample_trip TS_draft 1 0 None None 10) (sample_command TC_schedule 1 20) =
     Inr (sample_trip TS_scheduled 2 1 (Some 20) None 20)"
  by code_simp

lemma sample_start:
  "trip_step (sample_trip TS_scheduled 2 1 (Some 20) None 20) (sample_command TC_start 2 30) =
     Inr (sample_trip TS_in_execution 3 1 (Some 20) (Some 30) 30)"
  by code_simp

lemma trip_life_witness:
  "trip_ok (sample_trip TS_in_execution 3 1 (Some 20) (Some 30) 30)"
proof -
  obtain r where r: "createTripDraft sample_draft = Inr r" "cr_trip r = sample_trip TS_draft 1 0 None None 10"
    using sample_draft_created by (cases "createTripDraft sample_draft") auto
  have "run trip_step (cr_trip r) [sample_command TC_schedule 1 20, sample_command TC_start 2 30] =
      Inr (sample_trip TS_in_execution 3 1 (Some 20) (Some 30) 30)"
    by (simp add: r(2) sample_schedule sample_start)
  with trip_life [OF r(1)] show ?thesis by blast
qed



text \<open>
  C13. From the start of a trip on, neither its plan nor its plan version changes, whatever run of
  commands follows; what happens is recorded as occurrences and deviations instead.
\<close>

theorem plan_frozen_after_start:
  assumes "run trip_step t cs = Inr t'" and "tr_status t \<notin> {TS_draft, TS_scheduled}"
  shows "tr_plan t' = tr_plan t \<and> tr_planVersion t' = tr_planVersion t \<and>
    tr_status t' \<notin> {TS_draft, TS_scheduled}"
  using underway_run [OF assms(1)] assms(2) by (simp add: trip_underway_def)

lemma sample_complete:
  "run trip_step (sample_trip TS_in_execution 3 1 (Some 20) (Some 30) 30) [sample_command TC_complete 3 40] =
     Inr ((sample_trip TS_completed 4 1 (Some 20) (Some 30) 40)\<lparr>tr_endedAt := Some 40\<rparr>)"
  by code_simp

lemma plan_frozen_after_start_witness:
  "tr_plan (sample_trip TS_completed 4 1 (Some 20) (Some 30) 40) =
     tr_plan (sample_trip TS_in_execution 3 1 (Some 20) (Some 30) 30)"
  using plan_frozen_after_start [OF sample_complete] by (simp add: sample_trip_def)

section \<open>Further facts\<close>

text \<open>
  The plan versions a run writes are numbered consecutively after the trip's plan version,
  without gap or repetition, and the last one written is the plan in force once the trip has
  left the draft.
\<close>

theorem plan_versions_complete:
  assumes "trip_log t cs = Inr (t', vs)"
  shows "run trip_step t cs = Inr t' \<and> map pv_version vs = [tr_planVersion t + 1 .. tr_planVersion t'] \<and>
    (tr_status t' = TS_draft \<or> (if vs = [] then tr_plan t' = tr_plan t else pv_plan (last vs) = tr_plan t'))"
proof (cases "tr_status t' = TS_draft")
  case True
  with trip_log_run [OF assms] trip_log_versions [OF assms] show ?thesis by simp
next
  case False
  with trip_log_run [OF assms] trip_log_versions [OF assms] trip_log_last [OF assms] show ?thesis
    by (simp split: if_splits)
qed

lemma sample_log:
  "trip_log (sample_trip TS_draft 1 0 None None 10)
     [sample_command TC_schedule 1 20, sample_command TC_start 2 30] =
   Inr (sample_trip TS_in_execution 3 1 (Some 20) (Some 30) 30,
     [\<lparr>pv_tripId = ''t1'', pv_companyId = ''c1'', pv_commandId = ''k1'', pv_createdByUserId = ''u1'',
       pv_version = 1, pv_aggregateVersion = 2, pv_plan = tr_plan (sample_trip TS_draft 1 0 None None 10),
       pv_reason = None, pv_createdAt = 20\<rparr>])"
  by code_simp

lemma plan_versions_complete_witness:
  "run trip_step (sample_trip TS_draft 1 0 None None 10)
     [sample_command TC_schedule 1 20, sample_command TC_start 2 30] =
   Inr (sample_trip TS_in_execution 3 1 (Some 20) (Some 30) 30)"
  using plan_versions_complete [OF sample_log] by blast

text \<open>
  A normalized plan has distinct legs in strictly increasing sequence and a real civil date,
  and is a normal form: submitted again it is accepted unchanged.
\<close>

theorem normalized_plan_is_normal_form:
  assumes "normalizePlan p = Inr q"
  shows "plan_ok q \<and> normalizePlan (plan_input q) = Inr q"
  using normalizePlan_ok [OF assms] normalizePlan_idem by blast

lemma normalized_plan_is_normal_form_witness:
  "normalizePlan (plan_input (tr_plan (sample_trip TS_draft 1 0 None None 10))) =
     Inr (tr_plan (sample_trip TS_draft 1 0 None None 10))"
proof -
  have "normalizePlan (di_plan sample_draft) = Inr (tr_plan (sample_trip TS_draft 1 0 None None 10))"
    by code_simp
  from normalized_plan_is_normal_form [OF this] show ?thesis by blast
qed

text \<open>
  What a command records: the history entry names the statuses before and after and the
  resulting version; interruptions, occurrences and deviations carry at least one piece of
  evidence, each stored item described and, unless it is a manual note, with its reference.
\<close>

theorem command_records_are_complete:
  assumes "applyTripCommand t c = Inr r"
  shows "he_fromStatus (cr_history r) = Some (tr_status t) \<and>
    he_toStatus (cr_history r) = tr_status (cr_trip r) \<and>
    he_resultingVersion (cr_history r) = tr_version (cr_trip r) \<and>
    (\<forall>rec. cr_operationalRecord r = Some rec \<longrightarrow>
      (or_kind rec \<in> {OR_interruption, OR_operational, OR_deviation} \<longrightarrow> or_evidence rec \<noteq> []) \<and>
      (\<forall>e\<in>set (or_evidence rec). ev_description e \<noteq> [] \<and>
        (ev_kind e \<noteq> EK_manual_note \<longrightarrow> (\<exists>i. ev_referenceId e = Some i \<and> i \<noteq> []))))"
  using commandResult_history [OF assms] operational_record_evidence [OF assms] by blast

lemma sample_deviation:
  "map_sum id (\<lambda>r. (he_toStatus (cr_history r), map_option or_evidence (cr_operationalRecord r)))
     (applyTripCommand (sample_trip TS_in_execution 3 1 (Some 20) (Some 30) 30)
       (sample_command (TC_record_deviation ''desvio''
         [\<lparr>ev_kind = EK_document_reference, ev_description = ''foto'', ev_referenceId = Some ''d9''\<rparr>]) 3 40)) =
   Inr (TS_in_execution,
     Some [\<lparr>ev_kind = EK_document_reference, ev_description = ''foto'', ev_referenceId = Some ''d9''\<rparr>])"
  by code_simp

lemma command_records_are_complete_witness:
  "\<exists>r rec. applyTripCommand (sample_trip TS_in_execution 3 1 (Some 20) (Some 30) 30)
       (sample_command (TC_record_deviation ''desvio''
         [\<lparr>ev_kind = EK_document_reference, ev_description = ''foto'', ev_referenceId = Some ''d9''\<rparr>]) 3 40) = Inr r \<and>
     cr_operationalRecord r = Some rec \<and> he_resultingVersion (cr_history r) = tr_version (cr_trip r)"
proof -
  obtain r where r: "applyTripCommand (sample_trip TS_in_execution 3 1 (Some 20) (Some 30) 30)
      (sample_command (TC_record_deviation ''desvio''
        [\<lparr>ev_kind = EK_document_reference, ev_description = ''foto'', ev_referenceId = Some ''d9''\<rparr>]) 3 40) = Inr r"
    and o: "map_option or_evidence (cr_operationalRecord r) \<noteq> None"
    using sample_deviation by (cases "applyTripCommand (sample_trip TS_in_execution 3 1 (Some 20) (Some 30) 30)
      (sample_command (TC_record_deviation ''desvio''
        [\<lparr>ev_kind = EK_document_reference, ev_description = ''foto'', ev_referenceId = Some ''d9''\<rparr>]) 3 40)") auto
  then show ?thesis using command_records_are_complete [OF r] by auto
qed

text \<open>
  A trip can be put into execution by the command that resumes a suspended one: applied to a
  scheduled trip, resume is accepted and leaves the trip in execution without a start date. (The
  transition matrix names the target status only, so start and resume accept the same sources.)
\<close>

theorem resume_starts_without_start_date:
  assumes "trip_ok t" and "tr_status t = TS_scheduled" and "tc_action c = TC_resume reason evidence"
    and "trip_step t c = Inr t'"
  shows "tr_status t' = TS_in_execution \<and> tr_startedAt t' = None"
proof -
  from assms(4) obtain at l where l: "tripCommandCase t c at = Inr l" and t': "t' = trip_of_locals t at l"
    by (auto simp: trip_step_Inr)
  have "lo_status l = TS_in_execution"
    using l assms(3) by (clarsimp simp: command_case_defs result_simps)
  moreover have "lo_startedAt l = None"
    using case_startedAt [OF l] assms(1-3) by (simp add: trip_ok_def)
  ultimately show ?thesis by (simp add: t' trip_of_locals_def)
qed

lemma sample_resume:
  "trip_step (sample_trip TS_scheduled 2 1 (Some 20) None 20) (sample_command (TC_resume ''retomada'' None) 2 30) =
     Inr (sample_trip TS_in_execution 3 1 (Some 20) None 30)"
  by code_simp

lemma sample_scheduled_ok: "trip_ok (sample_trip TS_scheduled 2 1 (Some 20) None 20)"
proof -
  have "civil_date_text ''2026-02-28''" by code_simp
  moreover have "compact ''a'' = ''a''" "compact ''b'' = ''b''" "compact ''Volta'' = ''Volta''"
    "compact ''Ida ao centro'' = ''Ida ao centro''" by code_simp+
  ultimately show ?thesis
    by (simp add: trip_ok_def sample_trip_def plan_ok_def leg_ok_def trip_final_def)
qed

lemma resume_starts_without_start_date_witness:
  "tr_startedAt (sample_trip TS_in_execution 3 1 (Some 20) None 30) = None"
  using resume_starts_without_start_date [OF sample_scheduled_ok _ _ sample_resume]
  by (simp add: sample_trip_def sample_command_def)

text \<open>
  A start command is accepted on a suspended trip too, needs no reason, writes no record and
  replaces the date the trip had started at.
\<close>

theorem start_overwrites_start_date:
  assumes "tr_status t = TS_suspended" and "tc_action c = TC_start"
    and "assertCommandContext t c = Inr at"
  shows "\<exists>r. applyTripCommand t c = Inr r \<and> tr_startedAt (cr_trip r) = Some at \<and>
    cr_operationalRecord r = None \<and> he_reason (cr_history r) = None"
  using assms
  by (simp add: applyTripCommand_def tripCommandCase_def assertTransition_def initial_locals_def
      commandResult_def trip_of_locals_def)

lemma start_overwrites_start_date_witness:
  "\<exists>r. applyTripCommand (sample_trip TS_suspended 4 1 (Some 20) (Some 30) 40) (sample_command TC_start 4 50) =
     Inr r \<and> tr_startedAt (cr_trip r) = Some 50"
proof -
  have "assertCommandContext (sample_trip TS_suspended 4 1 (Some 20) (Some 30) 40)
      (sample_command TC_start 4 50) = Inr 50" by code_simp
  from start_overwrites_start_date [OF _ _ this] show ?thesis
    by (auto simp: sample_trip_def sample_command_def)
qed

text \<open>
  A route plan is selected for a trip only before its start, from the approved version of a
  route of the trip's own contract that has not changed since it was read, with a reason where
  it replaces another selection; and what the trip keeps of the route is its operational part.
\<close>

theorem route_selection_guarded:
  assumes "prepareTripRoutePlanSelection i = Inr s"
  shows "si_tripStartedAt i = None \<and> si_tripStatus i \<in> {TS_draft, TS_scheduled} \<and>
    si_routeContractId i = si_tripContractId i \<and>
    si_expectedRouteVersion i = JInt (si_routeAggregateVersion i) \<and>
    si_routeApprovedVersion i = Some (rs_sourceRouteVersion s) \<and>
    (si_currentSelection i \<noteq> None \<longrightarrow> rs_reason s \<noteq> None) \<and>
    dom (rs_sourceSnapshot s) \<subseteq> {''route'', ''points'', ''navigationLinks''} \<and>
    rs_sourceSnapshot s \<subseteq>\<^sub>m si_approvedSnapshot i"
  using selectionGuards_Inr [OF selection_of_guards(1) [OF assms]] selection_of_guards(2, 3) [OF assms]
    operationalSnapshot_part [of "si_approvedSnapshot i"]
  by auto

definition sample_selection :: "nat selection_input" where
  "sample_selection = \<lparr>si_id = ''s1'', si_companyId = ''c1'', si_tripId = ''t1'', si_tripStatus = TS_scheduled,
     si_tripContractId = ''k1'', si_tripStartedAt = None, si_routeId = ''r1'',
     si_routeContractId = ''k1'', si_routeAggregateVersion = 5, si_routeApprovedVersion = Some 3,
     si_approvedVersion = 3, si_approvedPlanVersion = 2,
     si_approvedSnapshot = [''route'' \<mapsto> 7, ''costs'' \<mapsto> 8], si_expectedRouteVersion = JInt 5,
     si_currentSelection = None, si_actorUserId = ''u1'', si_commandId = ''k1'', si_reason = None,
     si_selectedAt = Some 9\<rparr>"

lemma route_selection_guarded_witness:
  "\<exists>s. prepareTripRoutePlanSelection sample_selection = Inr s \<and>
     dom (rs_sourceSnapshot s) \<subseteq> {''route'', ''points'', ''navigationLinks''}"
proof -
  have "compact ''s1'' = ''s1''" "compact ''c1'' = ''c1''" "compact ''t1'' = ''t1''"
    "compact ''r1'' = ''r1''" "compact ''k1'' = ''k1''" "compact ''u1'' = ''u1''" by code_simp+
  then have "\<exists>s. prepareTripRoutePlanSelection sample_selection = Inr s"
    by (simp add: prepareTripRoutePlanSelection_def selectionGuards_def sample_selection_def
        positiveVersion_def requiredText_def validDate_def)
  then obtain s where s: "prepareTripRoutePlanSelection sample_selection = Inr s" by blast
  with route_selection_guarded [OF s] show ?thesis by (intro exI [of _ s]) simp
qed

end
