(* ===== verification/Documents.thy ===== *)
theory Documents
  imports Complex_Main Brazilian_Documents Commercial JS_Date
begin

text \<open>
  The documents context: the state machine of a document item, the status of a request derived
  from its items, the checks of an upload (\<open>domain/documents/document-workflow.ts\<close>), the rules
  that select documents from the profile of an employee (\<open>employee-document-rules.ts\<close>), and the
  classification of the owner of legacy documents (\<open>legacy-subject-classification.ts\<close>).
\<close>

section \<open>Items and requests\<close>

datatype document_request_context =
    DC_admission | DC_document_update | DC_document_renewal | DC_regularization | DC_offboarding
  | DC_other

datatype document_request_status =
    DR_draft | DR_pending_upload | DR_partially_submitted | DR_submitted | DR_automatic_validation
  | DR_pending_human_review | DR_resubmission_required | DR_approved | DR_rejected | DR_expired
  | DR_cancelled

datatype document_item_status =
    DI_pending_upload | DI_submitted | DI_automatic_validation | DI_pending_human_review
  | DI_resubmission_required | DI_approved | DI_rejected | DI_expired | DI_waived | DI_cancelled

datatype document_requirement = DQ_required | DQ_optional | DQ_conditional

datatype file_side = SD_single | SD_front | SD_back | SD_page

primrec itemTransitions :: "document_item_status \<Rightarrow> document_item_status list" where
  "itemTransitions DI_pending_upload = [DI_submitted, DI_waived, DI_cancelled]"
| "itemTransitions DI_submitted = [DI_automatic_validation, DI_pending_human_review, DI_cancelled]"
| "itemTransitions DI_automatic_validation = [DI_pending_human_review, DI_resubmission_required]"
| "itemTransitions DI_pending_human_review =
     [DI_submitted, DI_approved, DI_rejected, DI_resubmission_required]"
| "itemTransitions DI_resubmission_required = [DI_submitted, DI_waived, DI_cancelled]"
| "itemTransitions DI_approved = [DI_expired, DI_waived]"
| "itemTransitions DI_rejected = [DI_submitted, DI_waived, DI_cancelled]"
| "itemTransitions DI_expired = [DI_submitted, DI_waived, DI_cancelled]"
| "itemTransitions DI_waived = [DI_pending_upload]"
| "itemTransitions DI_cancelled = []"

definition assertDocumentItemTransition ::
  "document_item_status \<Rightarrow> document_item_status \<Rightarrow> unit result" where
  "assertDocumentItemTransition from to =
     throw_if (to \<notin> set (itemTransitions from)) (validationError ''item-transition'')"

record request_item =
  it_status :: document_item_status
  it_requirement :: document_requirement

definition deriveDocumentRequestStatus :: "request_item list \<Rightarrow> document_request_status" where
  "deriveDocumentRequestStatus items =
     (let relevant = filter (\<lambda>i. it_requirement i \<noteq> DQ_optional) items;
          source = (if length relevant > 0 then relevant else items)
      in if length source = 0 then DR_draft
         else if list_all (\<lambda>i. it_status i \<in> {DI_cancelled, DI_waived}) source
         then (if list_all (\<lambda>i. it_status i = DI_cancelled) source then DR_cancelled else DR_approved)
         else if list_ex (\<lambda>i. it_status i = DI_resubmission_required) source
         then DR_resubmission_required
         else if list_ex (\<lambda>i. it_status i = DI_rejected) source then DR_rejected
         else if list_ex (\<lambda>i. it_status i = DI_expired) source then DR_expired
         else if list_all (\<lambda>i. it_status i \<in> {DI_approved, DI_waived}) source then DR_approved
         else if list_ex (\<lambda>i. it_status i = DI_pending_human_review) source
         then DR_pending_human_review
         else if list_ex (\<lambda>i. it_status i = DI_automatic_validation) source
         then DR_automatic_validation
         else if list_all (\<lambda>i. it_status i = DI_submitted) source then DR_submitted
         else if list_ex (\<lambda>i. it_status i \<noteq> DI_pending_upload) source then DR_partially_submitted
         else DR_pending_upload)"

text \<open>The item as a machine: a step is an accepted change of status.\<close>

inductive item_step :: "document_item_status \<Rightarrow> document_item_status \<Rightarrow> bool" where
  item_step: "assertDocumentItemTransition from to = Inr () \<Longrightarrow> item_step from to"

code_pred item_step .

inductive item_path :: "document_item_status list \<Rightarrow> bool" where
  path_single: "item_path [s]"
| path_step: "item_path (ss @ [s]) \<Longrightarrow> item_step s t \<Longrightarrow> item_path (ss @ [s, t])"

inductive_cases item_stepE: "item_step a b"

lemma item_step_iff: "item_step a b \<longleftrightarrow> b \<in> set (itemTransitions a)"
  by (auto simp: assertDocumentItemTransition_def result_simps elim!: item_stepE intro!: item_step)

lemma approved_only_from_review: "item_step a DI_approved \<longleftrightarrow> a = DI_pending_human_review"
  by (cases a) (simp_all add: item_step_iff)

lemma cancelled_final: "\<not> item_step DI_cancelled b"
  by (simp add: item_step_iff)

text \<open>An item is approved only right after a human review, on every path.\<close>

lemma path_approved_reviewed:
  assumes "item_path p" and "p = us @ [a, DI_approved] @ vs"
  shows "a = DI_pending_human_review"
  using assms
proof (induction p arbitrary: vs rule: item_path.induct)
  case (path_single s)
  then show ?case by auto
next
  case (path_step ss s t)
  show ?case
  proof (cases vs rule: rev_cases)
    case Nil
    with path_step.prems have "s = a" "t = DI_approved" by auto
    with path_step.hyps show ?thesis by (simp add: approved_only_from_review)
  next
    case (snoc ws w)
    with path_step.prems have "ss @ [s] = us @ [a, DI_approved] @ ws"
      by (metis append_assoc append_butlast_last_id append_Cons append_Nil butlast_snoc)
    with path_step.IH show ?thesis by blast
  qed
qed

section \<open>The derived status\<close>

text \<open>The items that count: those not optional, or all of them where every item is optional.\<close>

definition relevant_statuses :: "request_item list \<Rightarrow> document_item_status set" where
  "relevant_statuses items =
     it_status ` (if \<exists>i\<in>set items. it_requirement i \<noteq> DQ_optional
       then {i \<in> set items. it_requirement i \<noteq> DQ_optional} else set items)"

text \<open>The specification: a function of the set of relevant statuses alone.\<close>

definition request_status_spec :: "document_item_status set \<Rightarrow> document_request_status" where
  "request_status_spec S =
     (if S = {} then DR_draft
      else if S = {DI_cancelled} then DR_cancelled
      else if S \<subseteq> {DI_cancelled, DI_waived} then DR_approved
      else if DI_resubmission_required \<in> S then DR_resubmission_required
      else if DI_rejected \<in> S then DR_rejected
      else if DI_expired \<in> S then DR_expired
      else if S \<subseteq> {DI_approved, DI_waived} then DR_approved
      else if DI_pending_human_review \<in> S then DR_pending_human_review
      else if DI_automatic_validation \<in> S then DR_automatic_validation
      else if S = {DI_submitted} then DR_submitted
      else if S = {DI_pending_upload} then DR_pending_upload
      else DR_partially_submitted)"

lemma derive_refines_spec:
  "deriveDocumentRequestStatus items = request_status_spec (relevant_statuses items)"
proof -
  define source where "source = (if length (filter (\<lambda>i. it_requirement i \<noteq> DQ_optional) items) > 0
    then filter (\<lambda>i. it_requirement i \<noteq> DQ_optional) items else items)"
  have S: "relevant_statuses items = it_status ` set source"
    by (auto simp: relevant_statuses_def source_def filter_empty_conv)
  have single: "it_status ` set source = {x} \<longleftrightarrow> source \<noteq> [] \<and> list_all (\<lambda>i. it_status i = x) source" for x
    by (cases source) (auto simp: list_all_iff)
  have sub: "it_status ` set source \<subseteq> A \<longleftrightarrow> list_all (\<lambda>i. it_status i \<in> A) source" for A
    by (auto simp: list_all_iff)
  have mem: "x \<in> it_status ` set source \<longleftrightarrow> list_ex (\<lambda>i. it_status i = x) source" for x
    by (auto simp: list_ex_iff)
  have em: "it_status ` set source = {} \<longleftrightarrow> length source = 0" by simp
  have ne: "list_ex (\<lambda>i. it_status i \<noteq> DI_pending_upload) source \<longleftrightarrow>
      \<not> list_all (\<lambda>i. it_status i = DI_pending_upload) source"
    by (auto simp: list_all_iff list_ex_iff)
  have canc: "list_all (\<lambda>i. it_status i = DI_cancelled) source \<Longrightarrow>
      list_all (\<lambda>i. it_status i \<in> {DI_cancelled, DI_waived}) source"
    by (auto simp: list_all_iff)
  show ?thesis
    unfolding deriveDocumentRequestStatus_def Let_def source_def [symmetric] S request_status_spec_def
      single sub mem em ne
    using canc by (simp split: if_split)
qed

lemma derive_approved_iff:
  "deriveDocumentRequestStatus items = DR_approved \<longleftrightarrow>
     relevant_statuses items \<subseteq> {DI_approved, DI_waived} \<and> relevant_statuses items \<noteq> {} \<or>
     relevant_statuses items \<subseteq> {DI_cancelled, DI_waived} \<and> DI_waived \<in> relevant_statuses items"
  unfolding derive_refines_spec request_status_spec_def
  by (simp split: if_split) blast

section \<open>Uploads\<close>

text \<open>Page numbers are finite numbers, as rationals; sizes are integers.\<close>

record upload_policy =
  up_acceptedMimeTypes :: "string list"
  up_maxFileSizeBytes :: int
  up_minFiles :: nat
  up_maxFiles :: nat
  up_allowsMultiplePages :: bool
  up_requiresFrontBack :: bool

record upload_file =
  uf_originalName :: string
  uf_mimeType :: string
  uf_sizeBytes :: int
  uf_content :: "8 word list"
  uf_side :: file_side
  uf_pageNumber :: rat

record validated_file = upload_file +
  vf_sha256 :: string

definition is_integral :: "rat \<Rightarrow> bool" where
  "is_integral r \<longleftrightarrow> snd (quotient_of r) = 1"

definition signature_of :: "string \<Rightarrow> (8 word list \<Rightarrow> bool) option" where
  "signature_of mime =
     (if mime = ''application/pdf'' then Some (\<lambda>c. ascii_decode (take 5 c) = ''%PDF-'')
      else if mime = ''image/jpeg'' then Some (\<lambda>c. 3 \<le> length c \<and> take 3 c = [0xFF, 0xD8, 0xFF])
      else if mime = ''image/png''
      then Some (\<lambda>c. 8 \<le> length c \<and> take 8 c = [0x89, 0x50, 0x4E, 0x47, 0x0D, 0x0A, 0x1A, 0x0A])
      else None)"

text \<open>\<open>normalize('NFKC')\<close> uses the Unicode tables of the platform: a parameter.\<close>

definition sanitizeDocumentFileName :: "(string \<Rightarrow> string) \<Rightarrow> string \<Rightarrow> string" where
  "sanitizeDocumentFileName nfkc v =
     (let printable = filter is_printable (nfkc v);
          replaced = map (\<lambda>c. if c \<in> {CHR 0x5C, CHR ''/'', CHR '':'', CHR ''*'', CHR ''?'', CHR 0x22,
            CHR ''<'', CHR ''>'', CHR ''|''} then CHR ''_'' else c) printable;
          name = take 255 (trim (collapse_ws replaced))
      in if name = [] then ''documento'' else name)"

definition sides_of_page :: "upload_file list \<Rightarrow> rat \<Rightarrow> file_side list" where
  "sides_of_page files page = js_uniq (map uf_side (filter (\<lambda>f. uf_pageNumber f = page) files))"

definition complete_pair :: "file_side list \<Rightarrow> bool" where
  "complete_pair pageSides \<longleftrightarrow> length pageSides = 2 \<and> SD_front \<in> set pageSides \<and> SD_back \<in> set pageSides"

definition uploadBatchGuard :: "upload_file list \<Rightarrow> upload_policy \<Rightarrow> unit result" where
  "uploadBatchGuard files policy =
     (let sides = map uf_side files in
      if length files < up_minFiles policy \<or> length files > up_maxFiles policy
      then Inl (validationError ''file-count'')
      else if up_requiresFrontBack policy \<and> (SD_front \<notin> set sides \<or> SD_back \<notin> set sides)
      then Inl (validationError ''front-and-back'')
      else if up_requiresFrontBack policy \<and>
        list_ex (\<lambda>page. \<not> complete_pair (sides_of_page files page)) (map uf_pageNumber files)
      then Inl (validationError ''complete-pair'')
      else if \<not> up_allowsMultiplePages policy \<and> list_ex (\<lambda>f. uf_pageNumber f > 1) files
      then Inl (validationError ''multiple-pages'')
      else Inr ())"

definition validateUploadFile ::
  "(string \<Rightarrow> string) \<Rightarrow> (8 word list \<Rightarrow> string) \<Rightarrow> upload_policy \<Rightarrow> upload_file \<Rightarrow> validated_file result" where
  "validateUploadFile nfkc sha256 policy file =
     (if uf_mimeType file \<notin> set (up_acceptedMimeTypes policy)
      then Inl (validationError ''mime-type'')
      else if uf_sizeBytes file \<le> 0 then Inl (validationError ''empty-file'')
      else if (case signature_of (uf_mimeType file) of None \<Rightarrow> True | Some sig \<Rightarrow> \<not> sig (uf_content file))
      then Inl (validationError ''signature'')
      else if \<not> is_integral (uf_pageNumber file) \<or> uf_pageNumber file < 1
      then Inl (validationError ''page-number'')
      else Inr \<lparr>uf_originalName = sanitizeDocumentFileName nfkc (uf_originalName file),
        uf_mimeType = uf_mimeType file, uf_sizeBytes = uf_sizeBytes file,
        uf_content = uf_content file, uf_side = uf_side file, uf_pageNumber = uf_pageNumber file,
        vf_sha256 = sha256 (uf_content file)\<rparr>)"

definition validateDocumentUpload ::
  "(string \<Rightarrow> string) \<Rightarrow> (8 word list \<Rightarrow> string) \<Rightarrow> upload_file list \<Rightarrow> upload_policy \<Rightarrow>
     validated_file list result" where
  "validateDocumentUpload nfkc sha256 files policy =
     rbind (uploadBatchGuard files policy) (\<lambda>_. map_result (validateUploadFile nfkc sha256 policy) files)"

record structural_validation =
  sv_suggestedDocumentTypeCode :: string
  sv_overallConfidence :: "js_number option"
  sv_alerts :: "string list"
  sv_manualReviewRequired :: bool

definition localStructuralValidation ::
  "upload_file list \<Rightarrow> upload_policy \<Rightarrow> string \<Rightarrow> structural_validation" where
  "localStructuralValidation files policy documentTypeCode =
     (let sides = map uf_side files in
      \<lparr>sv_suggestedDocumentTypeCode = documentTypeCode, sv_overallConfidence = None,
       sv_alerts =
         (if up_requiresFrontBack policy \<and> SD_front \<notin> set sides then [''front-missing''] else []) @
         (if up_requiresFrontBack policy \<and> SD_back \<notin> set sides then [''back-missing''] else []) @
         (if length files < up_minFiles policy then [''minimum-count''] else []) @
         [''no-ocr-configured''],
       sv_manualReviewRequired = True\<rparr>)"

lemma sanitized_name:
  "sanitizeDocumentFileName nfkc v \<noteq> [] \<and> length (sanitizeDocumentFileName nfkc v) \<le> 255"
  by (simp add: sanitizeDocumentFileName_def Let_def)

lemma set_collapse_from: "set (collapse_from b s) \<subseteq> set s \<union> {CHR '' ''}"
  by (induction s arbitrary: b) (auto split: if_splits)

lemma set_if: "c \<in> set (if P then a else b) \<Longrightarrow> c \<in> set a \<or> c \<in> set b"
  by (simp split: if_splits)

lemma sanitized_no_separator:
  assumes "c \<in> set (sanitizeDocumentFileName nfkc v)"
  shows "c \<noteq> CHR ''/'' \<and> c \<noteq> CHR 0x5C"
proof -
  define r where "r = map (\<lambda>c. if c \<in> {CHR 0x5C, CHR ''/'', CHR '':'', CHR ''*'', CHR ''?'', CHR 0x22,
      CHR ''<'', CHR ''>'', CHR ''|''} then CHR ''_'' else c) (filter is_printable (nfkc v))"
  have r: "\<forall>c\<in>set r. c \<noteq> CHR ''/'' \<and> c \<noteq> CHR 0x5C" by (auto simp: r_def)
  have "set (take 255 (trim (collapse_ws r))) \<subseteq> set r \<union> {CHR '' ''}"
    using set_collapse_from [of False r] set_trim_subset [of "collapse_ws r"]
      set_take_subset [of 255 "trim (collapse_ws r)"]
    by (simp add: collapse_ws_def)
  moreover have "c \<in> set (if take 255 (trim (collapse_ws r)) = [] then ''documento''
      else take 255 (trim (collapse_ws r)))"
    using assms unfolding sanitizeDocumentFileName_def Let_def r_def [symmetric] .
  then have "c \<in> set ''documento'' \<or> c \<in> set (take 255 (trim (collapse_ws r)))"
    by (rule set_if)
  moreover have "\<forall>c\<in>set ''documento''. c \<noteq> CHR ''/'' \<and> c \<noteq> CHR 0x5C" by simp
  moreover have "CHR '' '' \<noteq> CHR ''/'' \<and> CHR '' '' \<noteq> CHR 0x5C" by simp
  ultimately show ?thesis using r by blast
qed

lemma complete_pair_iff:
  "complete_pair (js_uniq sides) \<longleftrightarrow> set sides = {SD_front, SD_back}"
proof -
  have "length (js_uniq sides) = card (set sides)"
    by (metis distinct_card distinct_js_uniq set_js_uniq)
  moreover have "card (set sides) = 2 \<and> SD_front \<in> set sides \<and> SD_back \<in> set sides \<longleftrightarrow>
      set sides = {SD_front, SD_back}"
  proof
    assume a: "card (set sides) = 2 \<and> SD_front \<in> set sides \<and> SD_back \<in> set sides"
    then have "{SD_front, SD_back} \<subseteq> set sides" "card {SD_front, SD_back} = card (set sides)" by simp_all
    then show "set sides = {SD_front, SD_back}"
      using card_subset_eq [of "set sides" "{SD_front, SD_back}"] by simp
  qed simp
  ultimately show ?thesis by (simp add: complete_pair_def)
qed

lemma uploadBatchGuard_Inr [result_simps]:
  "uploadBatchGuard files p = Inr u \<longleftrightarrow>
     up_minFiles p \<le> length files \<and> length files \<le> up_maxFiles p \<and>
     (up_requiresFrontBack p \<longrightarrow> SD_front \<in> uf_side ` set files \<and> SD_back \<in> uf_side ` set files \<and>
        (\<forall>f\<in>set files. {uf_side g |g. g \<in> set files \<and> uf_pageNumber g = uf_pageNumber f} =
           {SD_front, SD_back})) \<and>
     (\<not> up_allowsMultiplePages p \<longrightarrow> (\<forall>f\<in>set files. uf_pageNumber f \<le> 1))"
proof -
  have page: "complete_pair (sides_of_page files n) \<longleftrightarrow>
      {uf_side g |g. g \<in> set files \<and> uf_pageNumber g = n} = {SD_front, SD_back}" for n
  proof -
    have "set (map uf_side (filter (\<lambda>f. uf_pageNumber f = n) files)) =
        {uf_side g |g. g \<in> set files \<and> uf_pageNumber g = n}" by auto
    then show ?thesis by (simp add: sides_of_page_def complete_pair_iff)
  qed
  show ?thesis
    unfolding uploadBatchGuard_def Let_def list_ex_iff page
    by (auto simp: not_less not_le)
qed

lemma validateUploadFile_Inr:
  "validateUploadFile nfkc sha p f = Inr v \<Longrightarrow>
     uf_mimeType f \<in> set (up_acceptedMimeTypes p) \<and> 0 < uf_sizeBytes f \<and>
     (\<exists>sig. signature_of (uf_mimeType f) = Some sig \<and> sig (uf_content f)) \<and>
     is_integral (uf_pageNumber f) \<and> 1 \<le> uf_pageNumber f \<and>
     uf_originalName v = sanitizeDocumentFileName nfkc (uf_originalName f) \<and>
     uf_content v = uf_content f \<and> uf_mimeType v = uf_mimeType f \<and> uf_side v = uf_side f \<and>
     uf_pageNumber v = uf_pageNumber f \<and> vf_sha256 v = sha (uf_content f)"
  by (auto simp: validateUploadFile_def split: if_splits option.splits)

lemma validateDocumentUpload_Inr:
  "validateDocumentUpload nfkc sha fs p = Inr vs \<longleftrightarrow>
     uploadBatchGuard fs p = Inr () \<and> list_all2 (\<lambda>f v. validateUploadFile nfkc sha p f = Inr v) fs vs"
  by (simp add: validateDocumentUpload_def rbind_Inr_iff map_result_Inr_iff)

text \<open>No check reads the size limit of the policy.\<close>

lemma upload_ignores_size_limit:
  "validateDocumentUpload nfkc sha fs (p\<lparr>up_maxFileSizeBytes := n\<rparr>) = validateDocumentUpload nfkc sha fs p"
proof -
  have "uploadBatchGuard fs (p\<lparr>up_maxFileSizeBytes := n\<rparr>) = uploadBatchGuard fs p"
    by (cases p) (simp only: uploadBatchGuard_def upload_policy.select_convs upload_policy.update_convs)
  moreover have "validateUploadFile nfkc sha (p\<lparr>up_maxFileSizeBytes := n\<rparr>) = validateUploadFile nfkc sha p"
    by (rule ext) (simp add: validateUploadFile_def)
  ultimately show ?thesis by (simp add: validateDocumentUpload_def)
qed

section \<open>Documents of an employee's family\<close>

text \<open>
  Birth dates are texts of a date column (\<open>AAAA-MM-DD\<close>); the parser of the platform takes a day up
  to 31 in every month and carries it into the next one. The reference date is given by its UTC
  year, month and day.
\<close>

record dependent =
  dp_name :: string
  dp_birthDate :: string

definition parse_day :: "string \<Rightarrow> (int \<times> int \<times> int) option" where
  "parse_day s =
     (case match_date_only s of
        None \<Rightarrow> None
      | Some (y, m, d) \<Rightarrow>
          if m < 1 \<or> m > 12 \<or> d < 1 \<or> d > 31 then None
          else if d > days_in_month y m then Some (y, m + 1, d - days_in_month y m)
          else Some (y, m, d))"

definition ageAt :: "int \<times> int \<times> int \<Rightarrow> int \<times> int \<times> int \<Rightarrow> int" where
  "ageAt date reference =
     (let (y, m, d) = date; (ry, rm, rd) = reference;
          beforeBirthday = (rm < m \<or> (rm = m \<and> rd < d))
      in if beforeBirthday then ry - y - 1 else ry - y)"

definition dependentAge :: "dependent \<Rightarrow> int \<times> int \<times> int \<Rightarrow> int option" where
  "dependentAge dep reference = map_option (\<lambda>date. ageAt date reference) (parse_day (dp_birthDate dep))"

definition under_7 :: "int \<Rightarrow> bool" where "under_7 age \<longleftrightarrow> 0 \<le> age \<and> age < 7"

definition school_age :: "int \<Rightarrow> bool" where "school_age age \<longleftrightarrow> 7 < age \<and> age \<le> 16"

definition has_age :: "(int \<Rightarrow> bool) \<Rightarrow> int \<times> int \<times> int \<Rightarrow> dependent \<Rightarrow> bool" where
  "has_age P reference dep = (case dependentAge dep reference of None \<Rightarrow> False | Some a \<Rightarrow> P a)"

definition eligibleDependentsForDocument ::
  "string \<Rightarrow> dependent list \<Rightarrow> int \<times> int \<times> int \<Rightarrow> dependent list" where
  "eligibleDependentsForDocument documentTypeCode dependents reference =
     (if documentTypeCode = ''child-vaccination-card'' then filter (has_age under_7 reference) dependents
      else if documentTypeCode = ''child-school-statement''
      then filter (has_age school_age reference) dependents
      else if take 6 documentTypeCode = ''child-'' then dependents else [])"

datatype marital_status =
    MS_single | MS_married | MS_stable_union | MS_divorced | MS_widowed | MS_not_informed

datatype military_status = MD_applicable | MD_not_applicable | MD_pending_confirmation

record employee_profile =
  ep_jobTitle :: "string option"
  ep_maritalStatus :: "marital_status option"
  ep_militaryDocumentStatus :: military_status
  ep_dependents :: "dependent list"

record rule_context =
  rc_hasSpouse :: bool
  rc_dependentCount :: nat
  rc_hasDependentUnder7 :: bool
  rc_hasDependentSchoolAge :: bool
  rc_militaryDocumentStatus :: military_status
  rc_isDriver :: bool

text \<open>Removing accents (\<open>normalize('NFD')\<close> and a character class) is a parameter as well.\<close>

definition employeeDocumentRuleContext ::
  "(string \<Rightarrow> string) \<Rightarrow> employee_profile \<Rightarrow> int \<times> int \<times> int \<Rightarrow> rule_context" where
  "employeeDocumentRuleContext unaccent profile reference =
     (let ages = List.map_filter (\<lambda>d. dependentAge d reference) (ep_dependents profile) in
      \<lparr>rc_hasSpouse = (ep_maritalStatus profile \<in> {Some MS_married, Some MS_stable_union}),
       rc_dependentCount = length (ep_dependents profile),
       rc_hasDependentUnder7 = list_ex under_7 ages,
       rc_hasDependentSchoolAge = list_ex school_age ages,
       rc_militaryDocumentStatus = ep_militaryDocumentStatus profile,
       rc_isDriver = (case ep_jobTitle profile of None \<Rightarrow> False
         | Some t \<Rightarrow> includes_list (to_lower (unaccent t)) ''motorista'')\<rparr>)"

lemma list_ex_map_filter: "list_ex P (List.map_filter f xs) \<longleftrightarrow>
    (\<exists>x\<in>set xs. case f x of None \<Rightarrow> False | Some a \<Rightarrow> P a)"
  by (induction xs) (auto simp: map_filter_simps split: option.splits)

text \<open>A document of the children is required exactly when some child is eligible for it.\<close>

lemma rule_context_eligibility:
  "rc_hasDependentUnder7 (employeeDocumentRuleContext u p ref) \<longleftrightarrow>
     eligibleDependentsForDocument ''child-vaccination-card'' (ep_dependents p) ref \<noteq> []"
  "rc_hasDependentSchoolAge (employeeDocumentRuleContext u p ref) \<longleftrightarrow>
     eligibleDependentsForDocument ''child-school-statement'' (ep_dependents p) ref \<noteq> []"
  by (auto simp: employeeDocumentRuleContext_def eligibleDependentsForDocument_def Let_def
      list_ex_map_filter filter_empty_conv has_age_def)

text \<open>No child is asked for both documents.\<close>

lemma child_documents_disjoint:
  "d \<in> set (eligibleDependentsForDocument ''child-vaccination-card'' ds ref) \<Longrightarrow>
     d \<notin> set (eligibleDependentsForDocument ''child-school-statement'' ds ref)"
  by (auto simp: eligibleDependentsForDocument_def has_age_def under_7_def school_age_def
      split: option.splits)

section \<open>The owner of a legacy document\<close>

definition PERSON_DOCUMENT_CONTEXTS :: "document_request_context list" where
  "PERSON_DOCUMENT_CONTEXTS = [DC_admission, DC_document_update, DC_document_renewal,
     DC_regularization, DC_offboarding]"

definition LEGACY_PERSON_SUBJECT_WHITELIST :: "(string \<times> document_request_context list) list" where
  "LEGACY_PERSON_SUBJECT_WHITELIST = [(''cpf'', PERSON_DOCUMENT_CONTEXTS),
     (''rg'', PERSON_DOCUMENT_CONTEXTS), (''cnh'', PERSON_DOCUMENT_CONTEXTS),
     (''ctps'', PERSON_DOCUMENT_CONTEXTS), (''pis-card'', PERSON_DOCUMENT_CONTEXTS),
     (''voter-registration'', PERSON_DOCUMENT_CONTEXTS)]"

datatype association_status = AS_confirmed | AS_provisional | AS_missing | AS_conflict

text \<open>\<open>boolean | 'unknown'\<close>\<close>

datatype tristate = Yes | No | Unknown

record legacy_input =
  li_documentTypeCode :: string
  li_requestContext :: "document_request_context option"
  li_status :: association_status
  li_personRegistrationId :: "string option"
  li_personCpf :: "string option"
  li_documentCpf :: "string option"
  li_repeatableByDependent :: tristate
  li_hasMultiplePotentialSubjects :: tristate

datatype unclassified_reason =
    Not_whitelisted | Ambiguity_not_evaluated | Repeatable_by_dependent | Multiple_potential_subjects
  | Association_not_confirmed | Association_conflict | Missing_registration_id
  | Missing_cpf_evidence | Invalid_cpf_evidence | Cpf_evidence_mismatch

datatype legacy_classification = Person string | Legacy_unclassified unclassified_reason

definition isWhitelisted :: "string \<Rightarrow> document_request_context \<Rightarrow> bool" where
  "isWhitelisted documentTypeCode context \<longleftrightarrow>
     list_ex (\<lambda>(code, contexts). code = documentTypeCode \<and> list_ex (\<lambda>c. c = context) contexts)
       LEGACY_PERSON_SUBJECT_WHITELIST"

text \<open>The request context is \<open>None\<close> where the text is none of the union.\<close>

definition personEvidence :: "legacy_input \<Rightarrow> legacy_classification" where
  "personEvidence i =
     (let ident = (case li_personRegistrationId i of None \<Rightarrow> [] | Some t \<Rightarrow> trim t);
          personCpf = normalizeCpf (li_personCpf i);
          documentCpf = normalizeCpf (li_documentCpf i)
      in if ident = [] then Legacy_unclassified Missing_registration_id
         else if falsy personCpf then Legacy_unclassified Missing_cpf_evidence
         else if \<not> isValidCpf (the personCpf) \<or> (\<not> falsy documentCpf \<and> \<not> isValidCpf (the documentCpf))
         then Legacy_unclassified Invalid_cpf_evidence
         else if \<not> falsy documentCpf \<and> documentCpf \<noteq> personCpf
         then Legacy_unclassified Cpf_evidence_mismatch
         else Person ident)"

definition classifyLegacyDocumentSubject :: "legacy_input \<Rightarrow> legacy_classification result" where
  "classifyLegacyDocumentSubject i =
     (case li_requestContext i of
        None \<Rightarrow> Inl (validationError ''document-context'')
      | Some context \<Rightarrow>
          Inr (if \<not> isWhitelisted (trim (li_documentTypeCode i)) context
            then Legacy_unclassified Not_whitelisted
            else if li_repeatableByDependent i = Unknown \<or> li_hasMultiplePotentialSubjects i = Unknown
            then Legacy_unclassified Ambiguity_not_evaluated
            else if li_repeatableByDependent i = Yes then Legacy_unclassified Repeatable_by_dependent
            else if li_hasMultiplePotentialSubjects i = Yes
            then Legacy_unclassified Multiple_potential_subjects
            else if li_status i = AS_conflict then Legacy_unclassified Association_conflict
            else if li_status i \<noteq> AS_confirmed then Legacy_unclassified Association_not_confirmed
            else personEvidence i))"

lemma valid_cpf_not_empty: "isValidCpf c \<Longrightarrow> onlyDigits c \<noteq> []"
  using isValidCpf_normalized [of c] by auto

lemma personEvidence_iff:
  "personEvidence i = Person ident \<longleftrightarrow>
     (\<exists>t. li_personRegistrationId i = Some t \<and> ident = trim t) \<and> ident \<noteq> [] \<and>
     (\<exists>c. normalizeCpf (li_personCpf i) = Some c \<and> isValidCpf c \<and>
        (\<forall>d. normalizeCpf (li_documentCpf i) = Some d \<longrightarrow> d = [] \<or> d = c))"
proof -
  have "isValidCpf c \<Longrightarrow> c \<noteq> []" for c
    using valid_cpf_not_empty [of c] by (auto simp: onlyDigits_def)
  then show ?thesis
    by (cases "li_personRegistrationId i"; cases "normalizeCpf (li_personCpf i)";
        cases "normalizeCpf (li_documentCpf i)")
      (auto simp: personEvidence_def falsy_def Let_def)
qed

lemma classify_person_iff:
  "classifyLegacyDocumentSubject i = Inr (Person ident) \<longleftrightarrow>
     (\<exists>context. li_requestContext i = Some context \<and>
        isWhitelisted (trim (li_documentTypeCode i)) context) \<and>
     li_repeatableByDependent i = No \<and> li_hasMultiplePotentialSubjects i = No \<and>
     li_status i = AS_confirmed \<and> personEvidence i = Person ident"
  by (cases "li_requestContext i"; cases "li_repeatableByDependent i";
      cases "li_hasMultiplePotentialSubjects i"; cases "li_status i")
    (simp_all add: classifyLegacyDocumentSubject_def)

section \<open>Properties\<close>


section \<open>Further facts\<close>

text \<open>
  On every path of accepted item transitions an approval comes directly from the human
  review; no automatic validation, submission or waiver leads to it.
\<close>

theorem item_approval_needs_review:
  assumes "item_path p" and "p = us @ [a, DI_approved] @ vs"
  shows "a = DI_pending_human_review"
  using assms by (rule path_approved_reviewed)

lemma item_path_steps:
  "item_path [DI_pending_upload, DI_submitted, DI_pending_human_review, DI_approved]"
proof -
  have "item_path ([] @ [DI_pending_upload, DI_submitted])"
    by (rule path_step) (simp_all add: path_single item_step_iff)
  then have "item_path ([DI_pending_upload] @ [DI_submitted, DI_pending_human_review])"
    by (intro path_step) (simp_all add: item_step_iff)
  then have "item_path ([DI_pending_upload, DI_submitted] @ [DI_pending_human_review, DI_approved])"
    by (intro path_step) (simp_all add: item_step_iff)
  then show ?thesis by simp
qed

lemma item_approval_needs_review_witness:
  "\<exists>us a vs. [DI_pending_upload, DI_submitted, DI_pending_human_review, DI_approved] =
     us @ [a, DI_approved] @ vs \<and> a = DI_pending_human_review"
  using item_approval_needs_review [OF item_path_steps,
      of "[DI_pending_upload, DI_submitted]" DI_pending_human_review "[]"]
  by (intro exI [of _ "[DI_pending_upload, DI_submitted]"] exI [of _ DI_pending_human_review]
      exI [of _ "[]"]) simp

text \<open>
  A request counts as approved exactly when the items that count are all approved or waived,
  or all cancelled or waived with one waived among them.
\<close>

theorem request_approved_iff:
  "deriveDocumentRequestStatus items = DR_approved \<longleftrightarrow>
     relevant_statuses items \<subseteq> {DI_approved, DI_waived} \<and> relevant_statuses items \<noteq> {} \<or>
     relevant_statuses items \<subseteq> {DI_cancelled, DI_waived} \<and> DI_waived \<in> relevant_statuses items"
  by (rule derive_approved_iff)

text \<open>
  An accepted upload respects its policy: the number of files, front and back of every page
  where both are required, one page where no more are allowed; each file is of an accepted type,
  not empty, bears the signature of its type and a positive whole page number, and is stored
  under a name without path separators.
\<close>

theorem accepted_upload_respects_policy:
  assumes "validateDocumentUpload nfkc sha fs p = Inr vs"
  shows "length vs = length fs \<and> up_minFiles p \<le> length fs \<and> length fs \<le> up_maxFiles p \<and>
    (up_requiresFrontBack p \<longrightarrow> (\<forall>f\<in>set fs.
       {uf_side g |g. g \<in> set fs \<and> uf_pageNumber g = uf_pageNumber f} = {SD_front, SD_back})) \<and>
    (\<not> up_allowsMultiplePages p \<longrightarrow> (\<forall>f\<in>set fs. uf_pageNumber f = 1)) \<and>
    (\<forall>v\<in>set vs. uf_mimeType v \<in> set (up_acceptedMimeTypes p) \<and>
       (\<exists>sig. signature_of (uf_mimeType v) = Some sig \<and> sig (uf_content v)) \<and>
       1 \<le> uf_pageNumber v \<and> is_integral (uf_pageNumber v) \<and>
       CHR ''/'' \<notin> set (uf_originalName v) \<and> CHR 0x5C \<notin> set (uf_originalName v) \<and>
       uf_originalName v \<noteq> [] \<and> vf_sha256 v = sha (uf_content v))"
proof -
  from assms have g: "uploadBatchGuard fs p = Inr ()"
    and all: "list_all2 (\<lambda>f v. validateUploadFile nfkc sha p f = Inr v) fs vs"
    by (simp_all add: validateDocumentUpload_Inr)
  have len: "length vs = length fs" using all by (simp add: list_all2_lengthD)
  have each: "\<exists>f\<in>set fs. validateUploadFile nfkc sha p f = Inr v" if "v \<in> set vs" for v
    using all that by (induction rule: list_all2_induct) auto
  have one: "1 \<le> uf_pageNumber f" if "f \<in> set fs" for f
    using all that by (induction rule: list_all2_induct) (auto dest: validateUploadFile_Inr)
  have v: "uf_mimeType v \<in> set (up_acceptedMimeTypes p) \<and>
      (\<exists>sig. signature_of (uf_mimeType v) = Some sig \<and> sig (uf_content v)) \<and>
      1 \<le> uf_pageNumber v \<and> is_integral (uf_pageNumber v) \<and>
      CHR ''/'' \<notin> set (uf_originalName v) \<and> CHR 0x5C \<notin> set (uf_originalName v) \<and>
      uf_originalName v \<noteq> [] \<and> vf_sha256 v = sha (uf_content v)" if "v \<in> set vs" for v
  proof -
    from each [OF that] obtain f where f: "validateUploadFile nfkc sha p f = Inr v" by blast
    note fv = validateUploadFile_Inr [OF f]
    have "CHR ''/'' \<notin> set (uf_originalName v) \<and> CHR 0x5C \<notin> set (uf_originalName v)"
      using fv sanitized_no_separator [of _ nfkc "uf_originalName f"] by metis
    with fv sanitized_name [of nfkc "uf_originalName f"] show ?thesis by metis
  qed
  show ?thesis
    using g len one v unfolding uploadBatchGuard_Inr by (auto intro: order.antisym)
qed

definition sample_policy :: upload_policy where
  "sample_policy = \<lparr>up_acceptedMimeTypes = [''image/jpeg''], up_maxFileSizeBytes = 1, up_minFiles = 2,
     up_maxFiles = 2, up_allowsMultiplePages = False, up_requiresFrontBack = True\<rparr>"

definition sample_file :: "file_side \<Rightarrow> upload_file" where
  "sample_file side = \<lparr>uf_originalName = ''a/b.jpg'', uf_mimeType = ''image/jpeg'', uf_sizeBytes = 3,
     uf_content = [0xFF, 0xD8, 0xFF], uf_side = side, uf_pageNumber = 1\<rparr>"

lemma sample_upload:
  "map_sum id length (validateDocumentUpload (\<lambda>s. s) (\<lambda>_. ''h'')
     [sample_file SD_front, sample_file SD_back] sample_policy) = Inr 2"
  by code_simp

lemma accepted_upload_respects_policy_witness:
  "\<exists>vs. validateDocumentUpload (\<lambda>s. s) (\<lambda>_. ''h'') [sample_file SD_front, sample_file SD_back]
     sample_policy = Inr vs \<and> length vs = 2 \<and> (\<forall>v\<in>set vs. uf_originalName v \<noteq> [])"
proof -
  obtain vs where vs: "validateDocumentUpload (\<lambda>s. s) (\<lambda>_. ''h'')
      [sample_file SD_front, sample_file SD_back] sample_policy = Inr vs"
    using sample_upload by (cases "validateDocumentUpload (\<lambda>s. s) (\<lambda>_. ''h'')
      [sample_file SD_front, sample_file SD_back] sample_policy") auto
  with accepted_upload_respects_policy [OF vs] show ?thesis by auto
qed

text \<open>
  The size limit of a document type has no effect on the upload: whatever limit the policy
  states, the same files are accepted, with the same result.
\<close>

theorem upload_size_limit_not_enforced:
  "validateDocumentUpload nfkc sha fs (p\<lparr>up_maxFileSizeBytes := n\<rparr>) = validateDocumentUpload nfkc sha fs p"
  by (rule upload_ignores_size_limit)

text \<open>
  A legacy document is attributed to a person exactly when its type and context are on the
  white list, no ambiguity was found or left open, the association is confirmed with a
  registration, and the person's CPF is valid and does not contradict the document's.
\<close>

theorem legacy_attribution_is_unequivocal:
  "classifyLegacyDocumentSubject i = Inr (Person ident) \<longleftrightarrow>
     (\<exists>context. li_requestContext i = Some context \<and>
        isWhitelisted (trim (li_documentTypeCode i)) context) \<and>
     li_repeatableByDependent i = No \<and> li_hasMultiplePotentialSubjects i = No \<and>
     li_status i = AS_confirmed \<and>
     (\<exists>t. li_personRegistrationId i = Some t \<and> ident = trim t) \<and> ident \<noteq> [] \<and>
     (\<exists>c. normalizeCpf (li_personCpf i) = Some c \<and> isValidCpf c \<and>
        (\<forall>d. normalizeCpf (li_documentCpf i) = Some d \<longrightarrow> d = [] \<or> d = c))"
  unfolding classify_person_iff personEvidence_iff by blast

lemma legacy_attribution_is_unequivocal_witness:
  "classifyLegacyDocumentSubject \<lparr>li_documentTypeCode = '' cnh'', li_requestContext = Some DC_admission,
     li_status = AS_confirmed, li_personRegistrationId = Some ''r1'',
     li_personCpf = Some ''529.982.247-25'', li_documentCpf = Some ''52998224725'',
     li_repeatableByDependent = No, li_hasMultiplePotentialSubjects = No\<rparr> = Inr (Person ''r1'')"
proof -
  have "trim '' cnh'' = ''cnh''" "trim ''r1'' = ''r1''" by code_simp+
  moreover have "isWhitelisted ''cnh'' DC_admission" by code_simp
  moreover have "normalizeCpf (Some ''529.982.247-25'') = Some ''52998224725''"
    "normalizeCpf (Some ''52998224725'') = Some ''52998224725''" "isValidCpf ''52998224725''"
    by code_simp+
  ultimately show ?thesis unfolding legacy_attribution_is_unequivocal by simp
qed

text \<open>
  Documents of the children: the profile of an employee asks for one exactly when some child
  is eligible for it, and no child is eligible for both.
\<close>

theorem child_documents_consistent:
  "(rc_hasDependentUnder7 (employeeDocumentRuleContext u p ref) \<longleftrightarrow>
      eligibleDependentsForDocument ''child-vaccination-card'' (ep_dependents p) ref \<noteq> []) \<and>
   (rc_hasDependentSchoolAge (employeeDocumentRuleContext u p ref) \<longleftrightarrow>
      eligibleDependentsForDocument ''child-school-statement'' (ep_dependents p) ref \<noteq> []) \<and>
   set (eligibleDependentsForDocument ''child-vaccination-card'' (ep_dependents p) ref) \<inter>
     set (eligibleDependentsForDocument ''child-school-statement'' (ep_dependents p) ref) = {}"
  using rule_context_eligibility child_documents_disjoint by blast

end
