(* ===== verification/Spec2Isabelle.thy ===== *)
theory Spec2Isabelle
  imports Access_Policy Agent_Tools Automation Channel_Management Service_Hours Registrations Profile_Image Pre_Admission Authentication Commercial Conversation Odometer
    Service_Session Trips Documents
begin

text \<open>
  A verification library of the domain rules of the Lume tenant API, a NestJS backend of a transport
  company. The paths below are relative to \<open>src/\<close> of the repository.

  \<^bold>\<open>The program.\<close> The API serves one tenant. Its rules live in \<open>domain\<close>, pure TypeScript
  functions over immutable values that either return a value or throw an \<open>AppError\<close>. The use cases
  (\<open>application/use-cases\<close>) load snapshots through repositories, call a domain function and write its
  result inside a transaction; the controllers (\<open>modules\<close>) and the guards (\<open>shared/http\<close>)
  authenticate the caller and check a permission before. The contexts meet in a few places: every
  context asks the access context what an authority may exercise; a conversation carries the status
  of its commercial quote; a trip starts from a confirmed commercial service and selects a route
  plan; every command of an aggregate that concurrent users share names the version it expects.

  \<^bold>\<open>The theories.\<close>

  \<^item> \<open>JS_Prelude\<close>: the fragment of the JavaScript library the sources use (\<open>trim\<close>, \<open>split\<close>,
    \<open>includes\<close>, sorts by code units or by a comparator, sets built from lists, \<open>Number\<close>, \<open>Date\<close>), the
    sequencing of throwing computations (\<open>'e + 'a\<close>), and the interfaces: \<open>guarded_machine\<close> (a
    partial step that keeps an invariant, lifted to runs), \<open>versioned_machine\<close> (every accepted
    command raises the version by one), \<open>terminal_machine\<close> (a final state refuses every command),
    \<open>comparator\<close> (a total preorder to sort by). Each is interpreted on the model of the code, in the
    theory of the component that provides it.
  \<^item> \<open>JS_Date\<close>: civil dates as texts and the Gregorian calendar behind them.
  \<^item> \<open>App_Error\<close> (\<open>core/errors/app-error.ts\<close>): the error codes and constructors.
  \<^item> \<open>Access_Catalog\<close> (\<open>domain/access/access.constants.ts\<close>): departments, resources, actions, the
    permission tables and the ceiling of a list of departments, \<open>allowedPermissionsForDepartments\<close>.
  \<^item> \<open>Access_Policy\<close> (\<open>resolve-permissions.ts\<close>, \<open>tenant-authority.ts\<close>,
    \<open>user-management-policy.ts\<close>, \<open>legacy-access-snapshot.ts\<close>, \<open>permissions.guard.ts\<close>): the effective
    permissions of a user as an exact set and their bounds; the agreement of the HTTP guard with the
    resolver through the presented principal; who may administer whom.
  \<^item> \<open>Commercial\<close> (\<open>domain/commercial\<close>): quote statuses and manual closure, the gates of confirmed
    services over the access context, schedule consistency, the checks of a proposal file.
  \<^item> \<open>Conversation\<close> (\<open>conversation-transition.matrix.ts\<close>): one definition per case of the matrix,
    \<open>resolveConversationTransition\<close> as the dispatcher, the table of actors, the invariant
    \<open>conversation_ok\<close> and its preservation along runs.
  \<^item> \<open>Service_Session\<close> (\<open>service-session.ts\<close>, \<open>service-priority-coordination.ts\<close>,
    \<open>assignment-strategy.ts\<close>): the attendance shared by the AI agent and the humans, the silent window
    before the AI closes, continuity, the public continuation code and its round trip, interruptions
    by priority, the choice of an assignee.
  \<^item> \<open>Trips\<close> (\<open>trip.ts\<close>, \<open>trip-route-plan.ts\<close>): the aggregate as a record, \<open>applyTripCommand\<close> with one
    branch of \<open>tripCommandCase\<close> per action, the result it writes (history, plan version, operational
    record), the invariant \<open>trip_ok\<close>, optimistic concurrency, and the selection of a route plan.
  \<^item> \<open>Brazilian_Documents\<close> (\<open>shared/utils/normalization.ts\<close>, \<open>brazilian-documents.ts\<close>): normal forms
    of CPF, CNPJ, logins and WhatsApp numbers, and the check digits.
  \<^item> \<open>Documents\<close> (\<open>document-workflow.ts\<close>, \<open>employee-document-rules.ts\<close>,
    \<open>legacy-subject-classification.ts\<close>): the machine of a document item as an inductive step
    relation, the derived status of a request against an abstract specification, the checks of an
    upload, the dependants a rule selects, the attribution of legacy documents.
  \<^item> \<open>JSON_Text\<close>, \<open>Exact_Decimal\<close>, \<open>JS_Regex\<close>, \<open>JS_Time\<close>, \<open>Effects\<close>: fragments of the runtime used by
    several components: canonical JSON, decimal numbers as texts, the regular expressions of the
    automation, instants, and a state monad of calls that may throw.
  \<^item> \<open>Agent_Tools\<close> (\<open>domain/agents\<close>): the authorization of a tool invocation and the
    fingerprint of its arguments, the runtime configuration, the audit of attempts.
  \<^item> \<open>Odometer\<close> (\<open>domain/transport/odometer.ts\<close>): readings as exact decimals, the order and the
    ambiguity of the records of a vehicle, continuity.
  \<^item> \<open>Automation\<close> (\<open>whatsapp-automation-flow.ts\<close> and the guards of its executor): what the
    automation answers to a buffered message and the mode it leaves the conversation in.
  \<^item> \<open>Channels\<close>, \<open>Channel_Management\<close> (\<open>whatsapp-channel.ts\<close>, the channel use cases, the repository
    and the gateway contract): life cycle of a channel, replays of a command, its event log.
  \<^item> \<open>Service_Hours\<close> (\<open>human-service-hours.ts\<close>): the weekly calendar and the hand-over to a human.
  \<^item> \<open>Registrations\<close>, \<open>Consolidation\<close> (\<open>domain/registrations\<close>): normal form of a registration, temporary
    registrations and the graph of promotions, the consolidation of two registrations and its reversal.
  \<^item> \<open>Profile_Image\<close> (\<open>profile-image.ts\<close>, \<open>profile.use-cases.ts\<close>): the inspection of PNG, JPEG and WebP
    files byte by byte, and the two use cases of a user's own picture.
  \<^item> \<open>Pre_Admission\<close> (\<open>pre-admission-access.ts\<close>, its service, token service and repository): creation,
    renewal, revocation and use of the link a candidate gets, with the history of the link.
  \<^item> \<open>Accounts\<close> (the Prisma repositories of users, sessions and password challenges):
    the tables and the queries and transactions the authentication uses, the invariant
    \<open>accounts_ok\<close> of the tables, and that each transaction keeps it.
  \<^item> \<open>Authentication\<close> (\<open>application/use-cases/auth\<close>, the use cases of a user's status and
    deletion, the token services and the JWT guard): login, refresh, logout, first access and
    reset of a password, change of an own password, activation and deletion of accounts.

  \<^bold>\<open>Correspondence.\<close> Definitions keep the names of the sources; a name that is not in the
  sources names a callback, a loop body, one case of a switch or a group of guards of the function
  it is used by. A TypeScript union of literals is a datatype (with a function back to the text where
  the code compares or prints it), an interface is a record, an optional or nullable member an
  option. A thrown error is \<open>Inl\<close>; guards are checked in the order of the source, so the error that
  is reported first is part of the model. The Portuguese message of an error is a short key, one per
  throwing statement.

  \<^bold>\<open>Parameters.\<close> What the code gets from the runtime or from another service is an argument of the
  definitions that use it: the digests and keyed digests of \<open>node:crypto\<close>, the password hash, the
  signed tokens and the mail provider, random draws, generated ids,
  the clock, the collation order of \<open>localeCompare\<close>, \<open>Date.parse\<close> and \<open>Number\<close> of a free text, the zones
  of \<open>Intl\<close>, the protocol of a URL, the answers of the channel provider, the patch of a quote, and the
  tables of the database a repository only reads. A statement names what it needs of them (that
  \<open>localeCompare\<close> is a total order on ids, that a digest does not collide on the inputs at hand).
  The use cases over a repository run one after the other; a transaction that is aborted leaves no row.

  \<^bold>\<open>Bounds.\<close> All recursions are structural or bounded by the length of a list: no definition uses
  fuel. Numbers that arrive from outside are \<open>js_number\<close>s (an integer, a fraction, or not a
  number); versions kept by the program are integers. Strings are lists of code units below 256.
  Bytes of a file are words of 8 bits.

  \<^bold>\<open>What the properties show.\<close> For access: exactly which permissions are effective, that they never
  exceed the departments' ceiling, and that the guard admits what the resolver grants. For the
  state machines: invariants of every run, commands that a state refuses, one winner among
  concurrent commands, complete histories, replays that are answered without a second effect, and
  the two transitions of a trip that do not keep the start date as the matrix suggests. For the
  documents: approval only after human review, the derived status against its specification, what an
  accepted upload guarantees. For identifiers and encodings: normal forms, round trips, and where they
  are not stable. For what leaves or enters the system: an agent's tool runs only under its grant, a
  link opens only for its latest token and can always be brought back, an inspection of a picture never
  reads outside the file. For accounts: sessions belong to usable accounts, an administrator remains,
  a refresh token and a password link work once, a changed password ends the sessions, and a
  requested link leads to a session. The properties of a component stand at the end of its theory, in the section
  Properties; those that span contexts stand here.

  \<^bold>\<open>Not modelled.\<close> The route planner (floating point costs of external services), the imports of
  histories, the creation, update and listing of users, the repositories and use cases not named above, gateways, controllers, prompts of
  the agents and scripts: they are input and output around the rules, or SQL of a database the
  program only calls.
\<close>

end
